(* ===== verification/Prelude.thy ===== *)
theory Prelude
  imports Main "HOL-Library.Word"
begin

section \<open>Shared vocabulary of the development\<close>

text \<open>
  What the component theories share: machine integers at their width, the result type
  of fallible operations (C++ functions that return \<open>bool\<close> and write a diagnostic, or
  that throw), decimal printing as \<open>std::to_string\<close> and \<open>operator<<\<close> do it, and the
  generic facts about lists and words that the component proofs use.
\<close>

subsection \<open>Machine integers and results\<close>

type_synonym size_t = "64 word"
type_synonym u64 = "64 word"
type_synonym u32 = "32 word"
type_synonym u8 = "8 word"

text \<open>\<open>Inl\<close> carries the diagnostic text, \<open>Inr\<close> the value.\<close>

type_synonym 'a fallible = "string + 'a"

named_theorems result_simps \<open>facts that open a fallible computation\<close>

fun is_ok :: "'e + 'a \<Rightarrow> bool" where
  "is_ok (Inr _) = True"
| "is_ok (Inl _) = False"

lemma is_ok_iff: "is_ok r \<longleftrightarrow> (\<exists>v. r = Inr v)"
  by (cases r) auto

lemma not_is_ok_iff: "\<not> is_ok r \<longleftrightarrow> (\<exists>e. r = Inl e)"
  by (cases r) auto

text \<open>Sequencing: the first error ends the computation.\<close>

definition and_then :: "'a fallible \<Rightarrow> ('a \<Rightarrow> 'b fallible) \<Rightarrow> 'b fallible" where
  "and_then r f = (case r of Inl e \<Rightarrow> Inl e | Inr v \<Rightarrow> f v)"

lemma and_then_iff: "and_then r f = Inr v \<longleftrightarrow> (\<exists>u. r = Inr u \<and> f u = Inr v)"
  by (auto simp: and_then_def split: sum.splits)

lemma if_fail_iff: "(if b then Inl m else r) = Inr v \<longleftrightarrow> \<not> b \<and> r = Inr v"
  by simp

subsection \<open>Decimal printing\<close>

definition digit_char :: "nat \<Rightarrow> char" where
  "digit_char d = char_of (48 + d)"

fun show_nat :: "nat \<Rightarrow> string" where
  "show_nat n = (if n < 10 then [digit_char n] else show_nat (n div 10) @ [digit_char (n mod 10)])"

declare show_nat.simps [simp del]

definition show_int :: "int \<Rightarrow> string" where
  "show_int i = (if i < 0 then ''-'' @ show_nat (nat (- i)) else show_nat (nat i))"

subsection \<open>Words\<close>

lemma unat_max_size_t: "unat (- 1 :: size_t) = 2 ^ 64 - 1"
  by (simp add: unsigned_minus_1_eq_mask mask_eq_exp_minus_1)

lemma unat_size_t_less: "unat (n :: size_t) < 2 ^ 64"
  using unsigned_less [of n] by simp

lemma unat_inc_less:
  fixes n c :: size_t
  assumes "n < c"
  shows "unat (n + 1) = Suc (unat n)"
proof -
  have "unat n + 1 < 2 ^ 64" using assms unat_size_t_less [of c] by (simp add: word_less_nat_alt)
  then show ?thesis by (simp add: unat_word_ariths)
qed

lemma word_div_max_iff:
  fixes n m :: size_t
  assumes "m \<noteq> 0"
  shows "n > (- 1) div m \<longleftrightarrow> 2 ^ 64 \<le> unat n * unat m"
proof -
  have m: "0 < unat m" using assms by (simp add: unat_gt_0)
  have "n > (- 1) div m \<longleftrightarrow> (2 ^ 64 - 1) div unat m < unat n"
    by (simp only: word_less_nat_alt unat_div unat_max_size_t)
  also have "\<dots> \<longleftrightarrow> 2 ^ 64 - 1 < unat n * unat m"
    using m by (metis div_less_iff_less_mult)
  finally show ?thesis by auto
qed


subsection \<open>Runs of a machine that may refuse an operation\<close>

text \<open>
  A component object is called many times; an operation that fails reports its error and
  leaves the object as it was. \<open>run\<close> is the state after a list of such calls.
\<close>

fun settle :: "('s \<Rightarrow> 'o \<Rightarrow> 'e + 's) \<Rightarrow> 's \<Rightarrow> 'o \<Rightarrow> 's" where
  "settle step s x = (case step s x of Inl _ \<Rightarrow> s | Inr s' \<Rightarrow> s')"

fun run :: "('s \<Rightarrow> 'o \<Rightarrow> 'e + 's) \<Rightarrow> 's \<Rightarrow> 'o list \<Rightarrow> 's" where
  "run step s [] = s"
| "run step s (x # xs) = run step (settle step s x) xs"

fun arun :: "('a \<Rightarrow> 'o \<Rightarrow> 'a option) \<Rightarrow> 'a \<Rightarrow> 'o list \<Rightarrow> 'a" where
  "arun astep a [] = a"
| "arun astep a (x # xs) = arun astep (case astep a x of None \<Rightarrow> a | Some a' \<Rightarrow> a') xs"

lemma run_append: "run step s (xs @ ys) = run step (run step s xs) ys"
  by (induction xs arbitrary: s) simp_all

text \<open>
  The contract of an object with an invariant: it holds at the start and every successful
  operation keeps it. It then holds after every run.
\<close>

locale invariant_object =
  fixes step :: "'s \<Rightarrow> 'o \<Rightarrow> 'e + 's" and start :: 's and inv :: "'s \<Rightarrow> bool"
  assumes inv_start: "inv start"
    and inv_step: "inv s \<Longrightarrow> step s x = Inr s' \<Longrightarrow> inv s'"
begin

lemma inv_settle: "inv s \<Longrightarrow> inv (settle step s x)"
  by (auto split: sum.splits intro: inv_step)

lemma inv_run: "inv s \<Longrightarrow> inv (run step s xs)"
  by (induction xs arbitrary: s) (simp_all only: run.simps inv_settle)

lemma inv_reachable: "inv (run step start xs)"
  by (rule inv_run) (rule inv_start)

end

text \<open>
  The contract of an object that implements an abstract one: related states answer the
  same operation alike and stay related. \<open>rel\<close> may use the number of operations still
  allowed (a counter that must not wrap), so it is indexed by a budget.
\<close>

locale simulated_object =
  fixes step :: "'s \<Rightarrow> 'o \<Rightarrow> 'e + 's" and astep :: "'a \<Rightarrow> 'o \<Rightarrow> 'a option"
    and rel :: "nat \<Rightarrow> 's \<Rightarrow> 'a \<Rightarrow> bool"
  assumes sim_fail: "rel (Suc n) s a \<Longrightarrow> step s x = Inl e \<Longrightarrow> astep a x = None"
    and sim_ok: "rel (Suc n) s a \<Longrightarrow> step s x = Inr s' \<Longrightarrow> \<exists>a'. astep a x = Some a' \<and> rel n s' a'"
    and sim_idle: "rel (Suc n) s a \<Longrightarrow> rel n s a"
begin

lemma sim_run: "rel (length xs + n) s a \<Longrightarrow> rel n (run step s xs) (arun astep a xs)"
proof (induction xs arbitrary: s a)
  case (Cons x xs)
  then have r: "rel (Suc (length xs + n)) s a" by simp
  show ?case
  proof (cases "step s x")
    case (Inl e)
    then have "astep a x = None" using sim_fail r by blast
    with Inl show ?thesis using Cons.IH [OF sim_idle [OF r]] by simp
  next
    case (Inr s')
    then obtain a' where "astep a x = Some a'" "rel (length xs + n) s' a'"
      using sim_ok r by blast
    with Inr show ?thesis using Cons.IH by simp
  qed
qed simp

end

end
