(* ===== verification/Binary64.thy ===== *)
theory Binary64
  imports Complex_Main "HOL-Library.Log_Nat" Prelude
begin

section \<open>The C++ type double\<close>

text \<open>
  The \<open>double\<close> of the sources, as IEEE 754 binary64 with rounding to nearest, ties to even.
  A finite nonzero value is its exact rational; zeros and infinities carry their sign.
  Everything computes. The sign and payload of a NaN are not represented, since no source
  line reads them.
\<close>

datatype binary64 = B_NaN | B_Inf bool | B_Zero bool | B_Num rat

definition two_pow :: "int \<Rightarrow> rat" where
  "two_pow k = (if 0 \<le> k then 2 ^ nat k else 1 / 2 ^ nat (- k))"

text \<open>The exponent \<open>e\<close> with \<open>2 ^ e \<le> q < 2 ^ (e + 1)\<close>, for positive \<open>q\<close>.\<close>

definition exponent :: "rat \<Rightarrow> int" where
  "exponent q = (case quotient_of q of (n, d) \<Rightarrow>
     let k = int (floorlog 2 (nat n)) - int (floorlog 2 (nat d))
     in if two_pow k \<le> q then k else k - 1)"

definition round_half_even :: "rat \<Rightarrow> int" where
  "round_half_even x = (let f = \<lfloor>x\<rfloor>; d = x - of_int f in
     if d < 1 / 2 then f else if d > 1 / 2 then f + 1 else if even f then f else f + 1)"

definition round64 :: "rat \<Rightarrow> binary64" where
  "round64 q =
     (if q = 0 then B_Zero False
      else let
        u = max (exponent \<bar>q\<bar> - 52) (- 1074);
        r = of_int (round_half_even (\<bar>q\<bar> / two_pow u)) * two_pow u
      in if r = 0 then B_Zero (q < 0)
         else if r \<ge> two_pow 1024 then B_Inf (q < 0)
         else B_Num (if q < 0 then - r else r))"

fun b_sign :: "binary64 \<Rightarrow> bool" where
  "b_sign B_NaN = False"
| "b_sign (B_Inf s) = s"
| "b_sign (B_Zero s) = s"
| "b_sign (B_Num q) = (q < 0)"

fun b_val :: "binary64 \<Rightarrow> rat" where
  "b_val (B_Num q) = q"
| "b_val _ = 0"

fun b_finite :: "binary64 \<Rightarrow> bool" where
  "b_finite B_NaN = False"
| "b_finite (B_Inf _) = False"
| "b_finite _ = True"

fun b_neg :: "binary64 \<Rightarrow> binary64" where
  "b_neg B_NaN = B_NaN"
| "b_neg (B_Inf s) = B_Inf (\<not> s)"
| "b_neg (B_Zero s) = B_Zero (\<not> s)"
| "b_neg (B_Num q) = B_Num (- q)"

fun b_add :: "binary64 \<Rightarrow> binary64 \<Rightarrow> binary64" where
  "b_add B_NaN _ = B_NaN"
| "b_add _ B_NaN = B_NaN"
| "b_add (B_Inf s) (B_Inf t) = (if s = t then B_Inf s else B_NaN)"
| "b_add (B_Inf s) _ = B_Inf s"
| "b_add _ (B_Inf t) = B_Inf t"
| "b_add (B_Zero s) (B_Zero t) = B_Zero (s \<and> t)"
| "b_add (B_Zero _) (B_Num q) = B_Num q"
| "b_add (B_Num p) (B_Zero _) = B_Num p"
| "b_add (B_Num p) (B_Num q) = round64 (p + q)"

definition b_sub :: "binary64 \<Rightarrow> binary64 \<Rightarrow> binary64" where
  "b_sub x y = b_add x (b_neg y)"

definition b_mul :: "binary64 \<Rightarrow> binary64 \<Rightarrow> binary64" where
  "b_mul x y =
     (if x = B_NaN \<or> y = B_NaN then B_NaN
      else let s = (b_sign x \<noteq> b_sign y) in
        if \<not> b_finite x \<or> \<not> b_finite y then (if b_finite x \<and> b_val x = 0 \<or> b_finite y \<and> b_val y = 0
          then B_NaN else B_Inf s)
        else if b_val x = 0 \<or> b_val y = 0 then B_Zero s
        else round64 (b_val x * b_val y))"

definition b_div :: "binary64 \<Rightarrow> binary64 \<Rightarrow> binary64" where
  "b_div x y =
     (if x = B_NaN \<or> y = B_NaN then B_NaN
      else let s = (b_sign x \<noteq> b_sign y) in
        if \<not> b_finite x then (if b_finite y then B_Inf s else B_NaN)
        else if \<not> b_finite y then B_Zero s
        else if b_val y = 0 then (if b_val x = 0 then B_NaN else B_Inf s)
        else if b_val x = 0 then B_Zero s
        else round64 (b_val x / b_val y))"

fun b_le :: "binary64 \<Rightarrow> binary64 \<Rightarrow> bool" where
  "b_le B_NaN _ = False"
| "b_le _ B_NaN = False"
| "b_le (B_Inf True) _ = True"
| "b_le _ (B_Inf False) = True"
| "b_le (B_Inf False) _ = False"
| "b_le _ (B_Inf True) = False"
| "b_le x y = (b_val x \<le> b_val y)"

definition b_eq :: "binary64 \<Rightarrow> binary64 \<Rightarrow> bool" where
  "b_eq x y = (b_le x y \<and> b_le y x)"

definition b_lt :: "binary64 \<Rightarrow> binary64 \<Rightarrow> bool" where
  "b_lt x y = (b_le x y \<and> \<not> b_le y x)"

definition b_of_int :: "int \<Rightarrow> binary64" where
  "b_of_int n = round64 (of_int n)"

text \<open>\<open>static_cast<std::int32_t>\<close> of a finite double whose value fits: towards zero.\<close>

definition b_trunc :: "binary64 \<Rightarrow> int" where
  "b_trunc x = (if b_val x < 0 then - \<lfloor>- b_val x\<rfloor> else \<lfloor>b_val x\<rfloor>)"

subsection \<open>Representable values\<close>

definition representable :: "rat \<Rightarrow> bool" where
  "representable q \<longleftrightarrow> (\<exists>m u. \<bar>m\<bar> < 2 ^ 53 \<and> - 1074 \<le> u \<and> u \<le> 971 \<and> q = of_int m * two_pow u)"

fun b_wf :: "binary64 \<Rightarrow> bool" where
  "b_wf (B_Num q) = (q \<noteq> 0 \<and> representable q)"
| "b_wf _ = True"

lemma two_pow_pos [simp]: "0 < two_pow k"
  by (simp add: two_pow_def)

lemma two_pow_abs [simp]: "\<bar>two_pow k\<bar> = two_pow k"
  by (rule abs_of_pos) (rule two_pow_pos)

lemma two_pow_powi: "two_pow k = power_int 2 k"
  by (simp add: two_pow_def power_int_def field_simps)

lemma two_pow_add: "two_pow (j + k) = two_pow j * two_pow k"
  by (simp add: two_pow_powi power_int_add)

lemma two_pow_diff: "two_pow (j - k) = two_pow j / two_pow k"
  by (simp add: two_pow_powi power_int_diff)

lemma two_pow_mono: "j \<le> k \<Longrightarrow> two_pow j \<le> two_pow k"
  by (simp add: two_pow_powi power_int_increasing)

lemma two_pow_nat: "0 \<le> k \<Longrightarrow> two_pow k = 2 ^ nat k"
  by (simp add: two_pow_def)


lemma floorlog_range:
  assumes "0 < n"
  shows "two_pow (int (floorlog 2 (nat n)) - 1) \<le> of_int n" and "of_int n < two_pow (int (floorlog 2 (nat n)))"
proof -
  let ?a = "floorlog 2 (nat n)"
  have b: "2 ^ (?a - 1) \<le> nat n" "nat n < 2 ^ ?a" and pos: "0 < ?a"
    using floorlog_bounds [of "nat n" 2] assms by (simp_all add: floorlog_def)
  have "(of_nat (2 ^ (?a - 1)) :: rat) \<le> of_nat (nat n)" "(of_nat (nat n) :: rat) < of_nat (2 ^ ?a)"
    using b by (simp_all only: of_nat_le_iff of_nat_less_iff)
  then show "two_pow (int ?a - 1) \<le> of_int n" "of_int n < two_pow (int ?a)"
    using pos assms by (simp_all add: two_pow_nat nat_diff_distrib)
qed

lemma exponent_bounds:
  assumes "0 < q"
  shows "two_pow (exponent q) \<le> q" and "q < two_pow (exponent q + 1)"
proof -
  obtain n d where nd: "quotient_of q = (n, d)" by force
  have d: "0 < d" using quotient_of_denom_pos [OF nd] .
  have q: "q = of_int n / of_int d" using quotient_of_div [OF nd] .
  then have n: "0 < n" using assms d by (simp add: zero_less_divide_iff)
  define k where "k = int (floorlog 2 (nat n)) - int (floorlog 2 (nat d))"
  note N = floorlog_range [OF n] and D = floorlog_range [OF d]
  have "q < two_pow (int (floorlog 2 (nat n))) / two_pow (int (floorlog 2 (nat d)) - 1)"
    unfolding q using N D d n by (intro frac_less) simp_all
  also have "\<dots> = two_pow (k + 1)"
    unfolding two_pow_diff [symmetric] k_def by (simp add: algebra_simps)
  finally have up: "q < two_pow (k + 1)" .
  have "two_pow (int (floorlog 2 (nat n)) - 1) / two_pow (int (floorlog 2 (nat d))) \<le> q"
    unfolding q using N D d n by (intro frac_le) simp_all
  also have "two_pow (int (floorlog 2 (nat n)) - 1) / two_pow (int (floorlog 2 (nat d))) = two_pow (k - 1)"
    unfolding two_pow_diff [symmetric] k_def by (simp add: algebra_simps)
  finally have low: "two_pow (k - 1) \<le> q" .
  have "exponent q = (if two_pow k \<le> q then k else k - 1)" by (simp add: exponent_def nd k_def)
  then show "two_pow (exponent q) \<le> q" "q < two_pow (exponent q + 1)" using up low by (auto split: if_splits)
qed

lemma round_half_even_nearest: "\<bar>x - of_int (round_half_even x)\<bar> \<le> \<bar>x - of_int n\<bar>"
proof -
  let ?f = "\<lfloor>x\<rfloor>"
  have f: "of_int ?f \<le> x" "x < of_int ?f + 1" by linarith+
  show ?thesis
  proof (cases "n \<le> ?f")
    case True
    then have "(of_int n :: rat) \<le> of_int ?f" by (simp only: of_int_le_iff)
    with f show ?thesis by (auto simp: round_half_even_def Let_def)
  next
    case False
    then have "(of_int (?f + 1) :: rat) \<le> of_int n" by (simp only: of_int_le_iff)
    with f show ?thesis by (auto simp: round_half_even_def Let_def)
  qed
qed


text \<open>
  The result of a rounding: the multiple of the unit in the last place nearest to the exact
  value. It is the nearest of all representable numbers.
\<close>

definition ulp_exp :: "rat \<Rightarrow> int" where
  "ulp_exp q = max (exponent \<bar>q\<bar> - 52) (- 1074)"

definition rounded :: "rat \<Rightarrow> rat" where
  "rounded q = of_int (round_half_even (\<bar>q\<bar> / two_pow (ulp_exp q))) * two_pow (ulp_exp q)"

lemma round64_alt: "q \<noteq> 0 \<Longrightarrow> round64 q =
    (if rounded q = 0 then B_Zero (q < 0) else if rounded q \<ge> two_pow 1024 then B_Inf (q < 0)
     else B_Num (if q < 0 then - rounded q else rounded q))"
  by (simp add: round64_def rounded_def ulp_exp_def Let_def)

lemma rounded_multiple: "\<bar>\<bar>q\<bar> - rounded q\<bar> \<le> \<bar>\<bar>q\<bar> - of_int n * two_pow (ulp_exp q)\<bar>"
proof -
  let ?u = "two_pow (ulp_exp q)"
  have "\<bar>\<bar>q\<bar> - of_int k * ?u\<bar> = \<bar>\<bar>q\<bar> / ?u - of_int k\<bar> * ?u" for k
    by (simp add: abs_mult_pos [of ?u, symmetric] field_simps less_imp_neq [symmetric])
  then show ?thesis
    using round_half_even_nearest [of "\<bar>q\<bar> / ?u" n] by (simp add: rounded_def mult_right_mono)
qed

lemma rounded_nearest_pos:
  assumes "q \<noteq> 0" and "representable f"
  shows "\<bar>\<bar>q\<bar> - rounded q\<bar> \<le> \<bar>\<bar>q\<bar> - f\<bar>"
proof -
  obtain m g where f: "\<bar>m\<bar> < 2 ^ 53" "- 1074 \<le> g" "f = of_int m * two_pow g"
    using assms(2) by (auto simp: representable_def)
  let ?e = "exponent \<bar>q\<bar>" and ?u = "ulp_exp q"
  show ?thesis
  proof (cases "?u \<le> g")
    case True
    then have "f = of_int (m * 2 ^ nat (g - ?u)) * two_pow ?u"
      using two_pow_add [of "g - ?u" ?u] by (simp add: f(3) two_pow_nat)
    then show ?thesis using rounded_multiple by metis
  next
    case False
    then have u: "?u = ?e - 52" "g + 1 \<le> ?u" using f(2) by (auto simp: ulp_exp_def)
    have "(of_int m :: rat) \<le> of_int (2 ^ 53)" using f(1) by (intro of_int_le_iff [THEN iffD2]) simp
    then have "f \<le> of_int (2 ^ 53) * two_pow g"
      unfolding f(3) by (intro mult_right_mono) (simp_all add: less_imp_le)
    also have "\<dots> = two_pow (g + 53)" by (simp add: two_pow_add two_pow_nat)
    also have "\<dots> \<le> two_pow ?e" using u by (intro two_pow_mono) simp
    finally have "f \<le> two_pow ?e" .
    moreover have "two_pow ?e \<le> \<bar>q\<bar>" using exponent_bounds(1) assms(1) by simp
    moreover have "two_pow ?e = of_int (2 ^ 52) * two_pow ?u"
      using two_pow_add [of 52 ?u] u by (simp add: two_pow_nat)
    ultimately show ?thesis using rounded_multiple [of q "2 ^ 52"] by simp
  qed
qed


lemma round_half_even_ge: "of_int n \<le> x \<Longrightarrow> n \<le> round_half_even x"
  by (simp add: round_half_even_def Let_def le_floor_iff [symmetric])

lemma round_half_even_le: "x < of_int n \<Longrightarrow> round_half_even x \<le> n"
proof -
  assume "x < of_int n"
  then have "\<lfloor>x\<rfloor> < n" by (simp add: floor_less_iff)
  then show ?thesis by (auto simp: round_half_even_def Let_def)
qed

lemma rounded_nonneg: "0 \<le> rounded q"
  using round_half_even_ge [of 0 "\<bar>q\<bar> / two_pow (ulp_exp q)"]
  by (simp add: rounded_def less_imp_le)

lemma rounded_representable:
  assumes "q \<noteq> 0" and "rounded q < two_pow 1024"
  shows "representable (rounded q)"
proof -
  let ?e = "exponent \<bar>q\<bar>" and ?u = "ulp_exp q"
  define m where "m = round_half_even (\<bar>q\<bar> / two_pow ?u)"
  have r: "rounded q = of_int m * two_pow ?u" by (simp add: rounded_def m_def)
  have "\<bar>q\<bar> < two_pow (?e + 1)" using exponent_bounds(2) assms(1) by simp
  also have "\<dots> \<le> two_pow (53 + ?u)" by (intro two_pow_mono) (simp add: ulp_exp_def)
  also have "\<dots> = 2 ^ 53 * two_pow ?u" by (simp only: two_pow_add) (simp add: two_pow_nat)
  finally have "\<bar>q\<bar> / two_pow ?u < of_int (2 ^ 53)" by (simp add: pos_divide_less_eq)
  then have m: "0 \<le> m" "m \<le> 2 ^ 53"
    using round_half_even_ge [of 0 "\<bar>q\<bar> / two_pow ?u"] round_half_even_le
    by (auto simp: m_def less_imp_le)
  have u: "- 1074 \<le> ?u" by (simp add: ulp_exp_def)
  have small: "?u + 53 \<le> 1024" if "2 ^ 52 \<le> m"
  proof -
    have "two_pow (52 + ?u) = of_int (2 ^ 52) * two_pow ?u" by (simp only: two_pow_add) (simp add: two_pow_nat)
    also have "\<dots> \<le> of_int m * two_pow ?u" using that by (intro mult_right_mono) (simp_all add: less_imp_le flip: of_int_le_iff)
    also have "\<dots> < two_pow 1024" using assms(2) r by simp
    finally have "\<not> 1024 \<le> 52 + ?u" using two_pow_mono leD by blast
    then show ?thesis by simp
  qed
  show ?thesis
  proof (cases "m = 2 ^ 53")
    case True
    have "rounded q = of_int (2 ^ 52) * two_pow (?u + 1)"
      unfolding r True two_pow_add by (simp add: two_pow_nat)
    moreover have "?u + 53 \<noteq> 1024" using assms(2) two_pow_add [of ?u 53] r True by (auto simp: two_pow_nat)
    ultimately show ?thesis using u small True
      unfolding representable_def by (intro exI [of _ "2 ^ 52"] exI [of _ "?u + 1"]) auto
  next
    case False
    show ?thesis
    proof (cases "?u \<le> 971")
      case True
      then show ?thesis using m False r u
        unfolding representable_def by (intro exI [of _ m] exI [of _ ?u]) auto
    next
      case big: False
      then have "?u = ?e - 52" by (auto simp: ulp_exp_def)
      then have "of_int (2 ^ 52) * two_pow ?u \<le> \<bar>q\<bar>"
        using exponent_bounds(1) [of "\<bar>q\<bar>"] assms(1) two_pow_add [of 52 ?u] by (simp add: two_pow_nat)
      then have "2 ^ 52 \<le> m"
        unfolding m_def by (intro round_half_even_ge) (simp add: pos_le_divide_eq)
      then show ?thesis using small big by simp
    qed
  qed
qed

text \<open>A finite result of a rounding is a representable number, and none is nearer.\<close>

lemma representable_minus: "representable q \<Longrightarrow> representable (- q)"
  unfolding representable_def
  by (elim exE, rule_tac x = "- m" in exI, rule_tac x = u in exI) simp

lemma representable_zero: "representable 0"
  unfolding representable_def by (intro exI [of _ 0] exI [of _ 0]) simp

lemma round64_wf: "b_wf (round64 q)"
proof (cases "q = 0")
  case False
  then show ?thesis
    using rounded_representable [of q] representable_minus [of "rounded q"]
    by (simp add: round64_alt not_le)
qed (simp add: round64_def)

lemma round64_nearest:
  assumes "b_finite (round64 q)" and "representable f"
  shows "\<bar>q - b_val (round64 q)\<bar> \<le> \<bar>q - f\<bar>"
proof (cases "q = 0")
  case False
  have "\<bar>\<bar>q\<bar> - rounded q\<bar> \<le> \<bar>\<bar>q\<bar> - (if q < 0 then - f else f)\<bar>"
    using rounded_nearest_pos [OF False] assms(2) representable_minus by auto
  then show ?thesis using assms(1) False by (auto simp: round64_alt split: if_splits)
qed (simp add: round64_def)


lemma representable_abs_less: "representable q \<Longrightarrow> \<bar>q\<bar> < two_pow 1024"
proof -
  assume "representable q"
  then obtain m u where q: "\<bar>m\<bar> < 2 ^ 53" "u \<le> 971" "q = of_int m * two_pow u"
    by (auto simp: representable_def)
  have "(of_int \<bar>m\<bar> :: rat) < of_int (2 ^ 53)" using q(1) by (simp only: of_int_less_iff)
  then have "\<bar>q\<bar> < 2 ^ 53 * two_pow u" by (simp add: q(3) abs_mult)
  also have "\<dots> = two_pow (53 + u)" by (simp only: two_pow_add) (simp add: two_pow_nat)
  also have "\<dots> \<le> two_pow 1024" using q(2) by (intro two_pow_mono) simp
  finally show ?thesis .
qed

lemma round64_exact: "representable q \<Longrightarrow> q \<noteq> 0 \<Longrightarrow> round64 q = B_Num q"
proof -
  assume q: "representable q" "q \<noteq> 0"
  have "representable \<bar>q\<bar>" using q(1) representable_minus [of q] by (simp add: abs_if)
  then have "rounded q = \<bar>q\<bar>" using rounded_nearest_pos [OF q(2), of "\<bar>q\<bar>"] by simp
  then show ?thesis using q(2) representable_abs_less [OF q(1)] by (auto simp: round64_alt abs_if)
qed

lemma representable_of_int: "\<bar>n\<bar> < 2 ^ 53 \<Longrightarrow> representable (of_int n)"
  unfolding representable_def by (intro exI [of _ n] exI [of _ 0]) (simp add: two_pow_nat)

lemma b_of_int_exact: "\<bar>n\<bar> < 2 ^ 53 \<Longrightarrow> n \<noteq> 0 \<Longrightarrow> b_of_int n = B_Num (of_int n)"
  by (simp add: b_of_int_def round64_exact representable_of_int)

lemma b_neg_wf: "b_wf x \<Longrightarrow> b_wf (b_neg x)"
  by (cases x) (auto simp: representable_minus)

lemma b_add_wf: "b_wf x \<Longrightarrow> b_wf y \<Longrightarrow> b_wf (b_add x y)"
  by (cases x; cases y) (auto simp: round64_wf)

lemma b_sub_wf: "b_wf x \<Longrightarrow> b_wf y \<Longrightarrow> b_wf (b_sub x y)"
  by (simp add: b_sub_def b_add_wf b_neg_wf)

lemma b_mul_wf: "b_wf (b_mul x y)"
  by (simp add: b_mul_def Let_def round64_wf)

lemma b_div_wf: "b_wf (b_div x y)"
  by (simp add: b_div_def Let_def round64_wf)

lemma b_add_commute: "b_add x y = b_add y x"
  by (cases x; cases y) (auto simp: add.commute)

lemma b_mul_commute: "b_mul x y = b_mul y x"
  by (auto simp: b_mul_def Let_def mult.commute)

lemma b_le_finite: "b_finite x \<Longrightarrow> b_finite y \<Longrightarrow> b_le x y \<longleftrightarrow> b_val x \<le> b_val y"
  by (cases x; cases y) auto

lemma b_lt_finite: "b_finite x \<Longrightarrow> b_finite y \<Longrightarrow> b_lt x y \<longleftrightarrow> b_val x < b_val y"
  by (auto simp: b_lt_def b_le_finite)

lemma b_trunc_towards_zero:
  "\<bar>of_int (b_trunc x)\<bar> \<le> \<bar>b_val x\<bar>" "\<bar>b_val x\<bar> < \<bar>of_int (b_trunc x)\<bar> + 1"
  unfolding b_trunc_def by (cases "b_val x < 0"; simp; linarith)+

end
