(* ===== verification/TypeSystem.thy ===== *)
theory TypeSystem
  imports Prelude Binary64
begin

section \<open>Production type descriptors\<close>

text \<open>
  The descriptors of \<open>type_system/ProductionTypeSystem.h\<close> and the operations on them in
  \<open>ProductionTypeSystem.cpp\<close>: validation, storage layout, canonical names, assignability
  and the checked range helpers. A C++ function that returns \<open>bool\<close> and writes a
  diagnostic is a \<open>fallible\<close> value here. \<open>std::size_t\<close> is a 64-bit word and
  \<open>sizeof(void *)\<close> is 8, as on the qualified linux-x64 target.
\<close>

subsection \<open>Data\<close>

datatype TypeKind =
  K_Void | K_Bool | K_Int32 | K_Float64 | K_String | K_Array | K_Slice | K_Record
| K_Enum | K_Option | K_Result

record Field =
  fd_name :: string
  fd_kind :: TypeKind

record TypeDescriptor =
  td_kind :: TypeKind
  td_name :: string
  td_element :: TypeKind
  td_extent :: size_t
  td_fields :: "Field list"
  td_variants :: "string list"
  td_ok :: TypeKind
  td_error :: TypeKind

definition default_descriptor :: TypeDescriptor where
  "default_descriptor = \<lparr>td_kind = K_Void, td_name = [], td_element = K_Void, td_extent = 0,
     td_fields = [], td_variants = [], td_ok = K_Void, td_error = K_Void\<rparr>"

definition td_scalar :: "TypeKind \<Rightarrow> TypeDescriptor" where
  "td_scalar v = default_descriptor\<lparr>td_kind := v\<rparr>"

definition td_array :: "TypeKind \<Rightarrow> size_t \<Rightarrow> TypeDescriptor" where
  "td_array v n = default_descriptor\<lparr>td_kind := K_Array, td_element := v, td_extent := n\<rparr>"

definition td_slice :: "TypeKind \<Rightarrow> TypeDescriptor" where
  "td_slice v = default_descriptor\<lparr>td_kind := K_Slice, td_element := v\<rparr>"

definition td_record :: "string \<Rightarrow> Field list \<Rightarrow> TypeDescriptor" where
  "td_record n fs = default_descriptor\<lparr>td_kind := K_Record, td_name := n, td_fields := fs\<rparr>"

definition td_enumeration :: "string \<Rightarrow> string list \<Rightarrow> TypeDescriptor" where
  "td_enumeration n vs = default_descriptor\<lparr>td_kind := K_Enum, td_name := n, td_variants := vs\<rparr>"

definition td_option :: "TypeKind \<Rightarrow> TypeDescriptor" where
  "td_option v = default_descriptor\<lparr>td_kind := K_Option, td_element := v\<rparr>"

definition td_result :: "TypeKind \<Rightarrow> TypeKind \<Rightarrow> TypeDescriptor" where
  "td_result v e = default_descriptor\<lparr>td_kind := K_Result, td_ok := v, td_error := e\<rparr>"

lemmas descriptor_defs = default_descriptor_def td_scalar_def td_array_def td_slice_def
  td_record_def td_enumeration_def td_option_def td_result_def

subsection \<open>Kinds\<close>

definition validPayload :: "TypeKind \<Rightarrow> bool" where
  "validPayload k \<longleftrightarrow> k \<noteq> K_Void \<and> k \<noteq> K_Array \<and> k \<noteq> K_Slice \<and> k \<noteq> K_Record \<and>
     k \<noteq> K_Enum \<and> k \<noteq> K_Option \<and> k \<noteq> K_Result"

fun scalarBytes :: "TypeKind \<Rightarrow> size_t" where
  "scalarBytes K_Bool = 1"
| "scalarBytes K_Int32 = 4"
| "scalarBytes K_Float64 = 8"
| "scalarBytes K_String = 8"
| "scalarBytes _ = 0"

fun typeKindName :: "TypeKind \<Rightarrow> string" where
  "typeKindName K_Void = ''void''"
| "typeKindName K_Bool = ''bool''"
| "typeKindName K_Int32 = ''int32''"
| "typeKindName K_Float64 = ''float64''"
| "typeKindName K_String = ''string''"
| "typeKindName K_Array = ''array''"
| "typeKindName K_Slice = ''slice''"
| "typeKindName K_Record = ''record''"
| "typeKindName K_Enum = ''enum''"
| "typeKindName K_Option = ''option''"
| "typeKindName K_Result = ''result''"

definition isScalar :: "TypeKind \<Rightarrow> bool" where
  "isScalar k \<longleftrightarrow> k = K_Bool \<or> k = K_Int32 \<or> k = K_Float64 \<or> k = K_String"

definition isNumeric :: "TypeKind \<Rightarrow> bool" where
  "isNumeric k \<longleftrightarrow> k = K_Int32 \<or> k = K_Float64"

subsection \<open>Checked sizes\<close>

definition checkedArrayBytes :: "size_t \<Rightarrow> size_t \<Rightarrow> size_t fallible" where
  "checkedArrayBytes extent element_bytes =
     (if extent = 0 \<or> element_bytes = 0
      then Inl ''SHD3011 array storage requires non-zero extent and element size''
      else if extent > (- 1) div element_bytes
      then Inl ''SHD3011 array storage size overflows size_t''
      else Inr (extent * element_bytes))"

definition checkedFloatToInt :: "binary64 \<Rightarrow> int fallible" where
  "checkedFloatToInt v =
     (if \<not> b_finite v then Inl ''SHD3012 cannot convert NaN or infinity to int32''
      else if b_lt v (b_of_int (- (2 ^ 31))) \<or> b_lt (b_of_int (2 ^ 31 - 1)) v
      then Inl ''SHD3012 float64 value is outside int32 range''
      else Inr (b_trunc v))"

definition checkedSliceRange :: "size_t \<Rightarrow> size_t \<Rightarrow> size_t \<Rightarrow> unit fallible" where
  "checkedSliceRange owner_extent offset len =
     (if offset > owner_extent \<or> len > owner_extent - offset
      then Inl ''SHD7002 slice range is outside owner bounds'' else Inr ())"

subsection \<open>Validation\<close>

text \<open>The two loops of \<open>validate\<close> carry the \<open>std::set\<close> of names already seen.\<close>

fun checkFields :: "string set \<Rightarrow> Field list \<Rightarrow> unit fallible" where
  "checkFields names [] = Inr ()"
| "checkFields names (f # fs) =
     (if fd_name f = [] \<or> fd_name f \<in> names
      then Inl ''SHD3010 record field names must be non-empty and unique''
      else if \<not> validPayload (fd_kind f)
      then Inl ''SHD3010 record field must use a scalar value type''
      else checkFields (insert (fd_name f) names) fs)"

fun checkVariants :: "string set \<Rightarrow> string list \<Rightarrow> unit fallible" where
  "checkVariants names [] = Inr ()"
| "checkVariants names (v # vs) =
     (if v = [] \<or> v \<in> names
      then Inl ''SHD3010 enum variants must be non-empty and unique''
      else checkVariants (insert v names) vs)"

definition validate :: "TypeDescriptor \<Rightarrow> unit fallible" where
  "validate d =
     (if isScalar (td_kind d) \<or> td_kind d = K_Void then Inr ()
      else if td_kind d = K_Array then
        (if \<not> validPayload (td_element d)
         then Inl ''SHD3010 array element type is not a scalar value''
         else if td_extent d = 0
         then Inl ''SHD3010 array extent must be greater than zero''
         else (case checkedArrayBytes (td_extent d) (scalarBytes (td_element d)) of
                 Inl e \<Rightarrow> Inl e | Inr _ \<Rightarrow> Inr ()))
      else if td_kind d = K_Slice then
        (if \<not> validPayload (td_element d)
         then Inl ''SHD3010 slice element type is not a scalar value'' else Inr ())
      else if td_kind d = K_Record then
        (if td_name d = [] then Inl ''SHD3010 record requires a stable name''
         else if td_fields d = [] then Inl ''SHD3010 record requires at least one field''
         else checkFields {} (td_fields d))
      else if td_kind d = K_Enum then
        (if td_name d = [] then Inl ''SHD3010 enum requires a stable name''
         else if td_variants d = [] then Inl ''SHD3010 enum requires at least one variant''
         else checkVariants {} (td_variants d))
      else if td_kind d = K_Option then
        (if \<not> validPayload (td_element d)
         then Inl ''SHD3010 option payload must be a scalar value type'' else Inr ())
      else if td_kind d = K_Result then
        (if \<not> validPayload (td_ok d) \<or> \<not> validPayload (td_error d)
         then Inl ''SHD3010 result payloads must be scalar value types'' else Inr ())
      else Inl ''SHD3010 unknown production type descriptor'')"

subsection \<open>Storage layout, canonical names, assignability\<close>

fun recordBytes :: "size_t \<Rightarrow> Field list \<Rightarrow> size_t fallible" where
  "recordBytes bytes [] = Inr bytes"
| "recordBytes bytes (f # fs) =
     (if bytes > (- 1) - scalarBytes (fd_kind f)
      then Inl ''SHD3011 record storage size overflows size_t''
      else recordBytes (bytes + scalarBytes (fd_kind f)) fs)"

definition storageBytes :: "TypeDescriptor \<Rightarrow> size_t fallible" where
  "storageBytes d =
     (case validate d of Inl e \<Rightarrow> Inl e
      | Inr _ \<Rightarrow>
        if td_kind d = K_Void then Inr 0
        else if isScalar (td_kind d) then Inr (scalarBytes (td_kind d))
        else if td_kind d = K_Array
        then checkedArrayBytes (td_extent d) (scalarBytes (td_element d))
        else if td_kind d = K_Slice \<or> td_kind d = K_String then Inr (8 + 8)
        else if td_kind d = K_Enum then Inr 4
        else if td_kind d = K_Option then Inr (1 + scalarBytes (td_element d))
        else if td_kind d = K_Result
        then Inr (1 + (if scalarBytes (td_ok d) > scalarBytes (td_error d)
                       then scalarBytes (td_ok d) else scalarBytes (td_error d)))
        else if td_kind d = K_Record then recordBytes 0 (td_fields d)
        else Inl ''SHD3011 storage layout is unavailable'')"

definition canonicalName :: "TypeDescriptor \<Rightarrow> string" where
  "canonicalName d =
     (if isScalar (td_kind d) \<or> td_kind d = K_Void then typeKindName (td_kind d)
      else if td_kind d = K_Array
      then ''array<'' @ typeKindName (td_element d) @ '','' @ show_nat (unat (td_extent d)) @ ''>''
      else if td_kind d = K_Slice then ''slice<'' @ typeKindName (td_element d) @ ''>''
      else if td_kind d = K_Record \<or> td_kind d = K_Enum
      then typeKindName (td_kind d) @ ''<'' @ td_name d @ ''>''
      else if td_kind d = K_Option then ''option<'' @ typeKindName (td_element d) @ ''>''
      else if td_kind d = K_Result
      then ''result<'' @ typeKindName (td_ok d) @ '','' @ typeKindName (td_error d) @ ''>''
      else ''unknown'')"

fun sameFields :: "Field list \<Rightarrow> Field list \<Rightarrow> bool" where
  "sameFields (f # fs) (g # gs) =
     (if fd_name f \<noteq> fd_name g \<or> fd_kind f \<noteq> fd_kind g then False else sameFields fs gs)"
| "sameFields _ _ = True"

definition isAssignable :: "TypeDescriptor \<Rightarrow> TypeDescriptor \<Rightarrow> bool" where
  "isAssignable target source =
     (if \<not> is_ok (validate target) \<or> \<not> is_ok (validate source) then False
      else if td_kind target \<noteq> td_kind source then False
      else if isScalar (td_kind target) \<or> td_kind target = K_Void then True
      else if td_kind target = K_Array
      then td_element target = td_element source \<and> td_extent target = td_extent source
      else if td_kind target = K_Slice then td_element target = td_element source
      else if td_kind target = K_Record
      then (if td_name target = [] \<or> td_name target \<noteq> td_name source \<or>
               length (td_fields target) \<noteq> length (td_fields source) then False
            else sameFields (td_fields target) (td_fields source))
      else if td_kind target = K_Enum
      then td_name target \<noteq> [] \<and> td_name target = td_name source \<and>
           td_variants target = td_variants source
      else if td_kind target = K_Option then td_element target = td_element source
      else if td_kind target = K_Result
      then td_ok target = td_ok source \<and> td_error target = td_error source
      else False)"


subsection \<open>What the descriptors mean\<close>

text \<open>
  The abstract side: which descriptors are well formed, stated without loops or words,
  and how many bytes a layout takes as an unbounded number.
\<close>

fun payload_size :: "TypeKind \<Rightarrow> nat" where
  "payload_size K_Bool = 1"
| "payload_size K_Int32 = 4"
| "payload_size K_Float64 = 8"
| "payload_size K_String = 8"
| "payload_size _ = 0"

definition well_formed :: "TypeDescriptor \<Rightarrow> bool" where
  "well_formed d = (case td_kind d of
       K_Array \<Rightarrow> isScalar (td_element d) \<and> 0 < unat (td_extent d) \<and>
                  unat (td_extent d) * payload_size (td_element d) < 2 ^ 64
     | K_Slice \<Rightarrow> isScalar (td_element d)
     | K_Option \<Rightarrow> isScalar (td_element d)
     | K_Result \<Rightarrow> isScalar (td_ok d) \<and> isScalar (td_error d)
     | K_Record \<Rightarrow> td_name d \<noteq> [] \<and> td_fields d \<noteq> [] \<and> distinct (map fd_name (td_fields d)) \<and>
                   (\<forall>f \<in> set (td_fields d). fd_name f \<noteq> [] \<and> isScalar (fd_kind f))
     | K_Enum \<Rightarrow> td_name d \<noteq> [] \<and> td_variants d \<noteq> [] \<and> distinct (td_variants d) \<and>
                 [] \<notin> set (td_variants d)
     | _ \<Rightarrow> True)"

definition layout_size :: "TypeDescriptor \<Rightarrow> nat" where
  "layout_size d = (case td_kind d of
       K_Array \<Rightarrow> unat (td_extent d) * payload_size (td_element d)
     | K_Slice \<Rightarrow> 16
     | K_Enum \<Rightarrow> 4
     | K_Option \<Rightarrow> 1 + payload_size (td_element d)
     | K_Result \<Rightarrow> 1 + max (payload_size (td_ok d)) (payload_size (td_error d))
     | K_Record \<Rightarrow> (\<Sum>f \<leftarrow> td_fields d. payload_size (fd_kind f))
     | k \<Rightarrow> payload_size k)"

lemma isScalar_simps [simp]:
  "isScalar K_Bool" "isScalar K_Int32" "isScalar K_Float64" "isScalar K_String"
  "\<not> isScalar K_Void" "\<not> isScalar K_Array" "\<not> isScalar K_Slice" "\<not> isScalar K_Record"
  "\<not> isScalar K_Enum" "\<not> isScalar K_Option" "\<not> isScalar K_Result"
  by (simp_all add: isScalar_def)

lemma validPayload_isScalar [simp]: "validPayload k = isScalar k"
  by (cases k) (simp_all add: validPayload_def isScalar_def)

lemma unat_scalarBytes [simp]: "unat (scalarBytes k) = payload_size k"
  by (cases k) simp_all

lemma payload_size_le: "payload_size k \<le> 8"
  by (cases k) simp_all

lemma payload_size_pos [simp]: "0 < payload_size k \<longleftrightarrow> isScalar k"
  by (cases k) (simp_all add: isScalar_def)

lemma scalarBytes_zero_iff [simp]: "scalarBytes k = 0 \<longleftrightarrow> \<not> isScalar k"
  by (cases k) (simp_all add: isScalar_def)

lemma checkedArrayBytes_iff:
  "checkedArrayBytes n m = Inr b \<longleftrightarrow>
     n \<noteq> 0 \<and> m \<noteq> 0 \<and> unat n * unat m < 2 ^ 64 \<and> unat b = unat n * unat m"
proof (cases "n = 0 \<or> m = 0")
  case True
  then show ?thesis by (auto simp: checkedArrayBytes_def)
next
  case False
  then have m: "m \<noteq> 0" and n: "n \<noteq> 0" by auto
  show ?thesis
  proof (cases "unat n * unat m < 2 ^ 64")
    case True
    then have "\<not> n > (- 1) div m" by (simp only: word_div_max_iff [OF m] not_le)
    moreover have "unat (n * m) = unat n * unat m"
      using True by (simp add: unat_word_ariths)
    ultimately show ?thesis
      using True m n by (auto simp: checkedArrayBytes_def word_unat_eq_iff simp del: unat_gt_0)
  next
    case False
    then have "n > (- 1) div m" by (simp only: word_div_max_iff [OF m] not_less)
    then show ?thesis using False m n by (simp add: checkedArrayBytes_def)
  qed
qed

lemma checkedArrayBytes_ok:
  "is_ok (checkedArrayBytes n m) \<longleftrightarrow> n \<noteq> 0 \<and> m \<noteq> 0 \<and> unat n * unat m < 2 ^ 64"
proof
  assume "is_ok (checkedArrayBytes n m)"
  then show "n \<noteq> 0 \<and> m \<noteq> 0 \<and> unat n * unat m < 2 ^ 64"
    by (auto simp: is_ok_iff checkedArrayBytes_iff)
next
  assume a: "n \<noteq> 0 \<and> m \<noteq> 0 \<and> unat n * unat m < 2 ^ 64"
  then have "unat (n * m) = unat n * unat m" by (simp add: unat_word_ariths)
  with a have "checkedArrayBytes n m = Inr (n * m)" by (simp add: checkedArrayBytes_iff)
  then show "is_ok (checkedArrayBytes n m)" by simp
qed

lemma checkFields_ok:
  "is_ok (checkFields names fs) \<longleftrightarrow>
     distinct (map fd_name fs) \<and> fd_name ` set fs \<inter> names = {} \<and>
     (\<forall>f \<in> set fs. fd_name f \<noteq> [] \<and> isScalar (fd_kind f))"
  by (induction names fs rule: checkFields.induct) auto

lemma checkVariants_ok:
  "is_ok (checkVariants names vs) \<longleftrightarrow> distinct vs \<and> set vs \<inter> names = {} \<and> [] \<notin> set vs"
  by (induction names vs rule: checkVariants.induct) auto

lemma is_ok_discard [simp]: "is_ok (case r of Inl e \<Rightarrow> Inl e | Inr _ \<Rightarrow> Inr ()) = is_ok r"
  by (cases r) simp_all

lemma recordBytes_iff:
  "recordBytes a fs = Inr b \<longleftrightarrow>
     unat a + (\<Sum>f \<leftarrow> fs. payload_size (fd_kind f)) < 2 ^ 64 \<and>
     unat b = unat a + (\<Sum>f \<leftarrow> fs. payload_size (fd_kind f))"
proof (induction a fs rule: recordBytes.induct)
  case (1 a)
  then show ?case using unat_size_t_less [of a] by (auto simp: word_unat_eq_iff)
next
  case (2 a f fs)
  let ?n = "scalarBytes (fd_kind f)"
  have over: "a > (- 1) - ?n \<longleftrightarrow> 2 ^ 64 \<le> unat a + payload_size (fd_kind f)"
  proof -
    have le: "?n \<le> - 1" by simp
    have "unat ((- 1) - ?n) = 2 ^ 64 - 1 - payload_size (fd_kind f)"
      by (simp only: unat_sub [OF le] unat_max_size_t unat_scalarBytes)
    then show ?thesis
      using payload_size_le [of "fd_kind f"] by (auto simp: word_less_nat_alt)
  qed
  show ?case
  proof (cases "a > (- 1) - ?n")
    case True
    then show ?thesis using over by simp
  next
    case False
    then have "unat (a + ?n) = unat a + payload_size (fd_kind f)"
      using over by (simp add: unat_word_ariths)
    then show ?thesis using False 2 by (simp add: add.assoc)
  qed
qed

text \<open>
  Validation accepts exactly the well-formed descriptors: scalar payloads everywhere a
  payload is asked for, a positive array extent whose byte size fits \<open>size_t\<close>, non-empty
  unique record fields and enum variants under a non-empty name.
\<close>

lemma validate_ok: "is_ok (validate d) = well_formed d"
  by (cases "td_kind d")
    (auto simp: validate_def well_formed_def checkFields_ok checkVariants_ok checkedArrayBytes_ok
       unat_gt_0)

lemma storageBytes_small:
  assumes "td_kind d \<noteq> K_Array" "td_kind d \<noteq> K_Record" "validate d = Inr u" "well_formed d"
  shows "storageBytes d = Inr b \<longleftrightarrow> layout_size d < 2 ^ 64 \<and> unat b = layout_size d"
  using assms payload_size_le [of "td_element d"] payload_size_le [of "td_ok d"]
    payload_size_le [of "td_error d"]
  by (cases "td_kind d")
    (auto simp: storageBytes_def layout_size_def well_formed_def word_unat_eq_iff
      unat_word_ariths word_less_nat_alt max_def)

lemma storageBytes_iff:
  "storageBytes d = Inr b \<longleftrightarrow> well_formed d \<and> layout_size d < 2 ^ 64 \<and> unat b = layout_size d"
proof (cases "validate d")
  case (Inl e)
  then have "\<not> well_formed d" by (simp flip: validate_ok)
  with Inl show ?thesis by (simp add: storageBytes_def)
next
  case (Inr u)
  then have wf: "well_formed d" by (simp flip: validate_ok)
  show ?thesis
  proof (cases "td_kind d = K_Array \<or> td_kind d = K_Record")
    case True
    then show ?thesis
      using Inr wf by (auto simp: storageBytes_def layout_size_def checkedArrayBytes_iff
        recordBytes_iff well_formed_def unat_gt_0)
  next
    case False
    then show ?thesis using storageBytes_small [of d u b] Inr wf by simp
  qed
qed

lemma sameFields_eq: "length fs = length gs \<Longrightarrow> sameFields fs gs \<longleftrightarrow> fs = gs"
  by (induction fs gs rule: list_induct2) auto

text \<open>What of a descriptor assignability compares.\<close>

datatype shape =
  ShScalar TypeKind | ShArray TypeKind size_t | ShSlice TypeKind | ShRecord string "Field list"
| ShEnum string "string list" | ShOption TypeKind | ShResult TypeKind TypeKind

definition shape_of :: "TypeDescriptor \<Rightarrow> shape" where
  "shape_of d = (case td_kind d of
       K_Array \<Rightarrow> ShArray (td_element d) (td_extent d)
     | K_Slice \<Rightarrow> ShSlice (td_element d)
     | K_Record \<Rightarrow> ShRecord (td_name d) (td_fields d)
     | K_Enum \<Rightarrow> ShEnum (td_name d) (td_variants d)
     | K_Option \<Rightarrow> ShOption (td_element d)
     | K_Result \<Rightarrow> ShResult (td_ok d) (td_error d)
     | k \<Rightarrow> ShScalar k)"

lemma isAssignable_iff:
  "isAssignable a b \<longleftrightarrow> well_formed a \<and> well_formed b \<and> shape_of a = shape_of b"
  by (cases "td_kind a"; cases "td_kind b")
    (auto simp: isAssignable_def validate_ok shape_of_def well_formed_def sameFields_eq)

text \<open>
  An interface the rest of the compiler can rely on: assignability as a partial
  equivalence on descriptors whose classes share one observation (a layout, a name).
\<close>

locale assignability =
  fixes assignable :: "'d \<Rightarrow> 'd \<Rightarrow> bool" and valid :: "'d \<Rightarrow> bool" and observe :: "'d \<Rightarrow> 'o"
  assumes assignable_refl: "valid d \<Longrightarrow> assignable d d"
    and assignable_sym: "assignable a b \<Longrightarrow> assignable b a"
    and assignable_trans: "assignable a b \<Longrightarrow> assignable b c \<Longrightarrow> assignable a c"
    and assignable_valid: "assignable a b \<Longrightarrow> valid a"
    and assignable_observe: "assignable a b \<Longrightarrow> observe a = observe b"
begin

lemma assignable_chain:
  assumes "ds \<noteq> []" and "successively assignable ds" and "valid (hd ds)"
  shows "assignable (hd ds) (last ds) \<and> observe (hd ds) = observe (last ds)"
  using assms
proof (induction ds rule: induct_list012)
  case (2 d)
  then show ?case by (simp add: assignable_refl)
next
  case (3 a b ds)
  then have ab: "assignable a b" by simp
  then have "valid b" using assignable_sym assignable_valid by blast
  with 3 have "assignable b (last (b # ds))" by simp
  with ab have "assignable a (last (b # ds))" by (rule assignable_trans)
  then show ?case using assignable_observe by simp
qed simp

end

lemma validate_Inr: "well_formed d \<Longrightarrow> validate d = Inr ()"
  by (cases "validate d") (simp_all flip: validate_ok)

lemma shape_storage:
  assumes "well_formed a" "well_formed b" "shape_of a = shape_of b"
  shows "storageBytes a = storageBytes b"
  using assms validate_Inr [of a] validate_Inr [of b]
  by (cases "td_kind a"; cases "td_kind b") (simp_all add: shape_of_def storageBytes_def)

lemma shape_canonicalName: "shape_of a = shape_of b \<Longrightarrow> canonicalName a = canonicalName b"
  by (cases "td_kind a"; cases "td_kind b") (auto simp: shape_of_def canonicalName_def)

interpretation descriptors: assignability isAssignable well_formed
    "\<lambda>d. (storageBytes d, canonicalName d)"
  by unfold_locales (auto simp: isAssignable_iff dest: shape_storage shape_canonicalName)

subsection \<open>Properties\<close>

text \<open>C26: storageBytes returns a size exactly for the descriptors that validate accepts and
  whose layout fits 64 bits, and the word it returns is the exact, unwrapped number of
  bytes of the layout; in every other case it reports an error.\<close>

theorem storageBytes_exact:
  "(\<exists>b. storageBytes d = Inr b \<and> unat b = n) \<longleftrightarrow>
     is_ok (validate d) \<and> layout_size d < 2 ^ 64 \<and> n = layout_size d"
proof
  assume "\<exists>b. storageBytes d = Inr b \<and> unat b = n"
  then show "is_ok (validate d) \<and> layout_size d < 2 ^ 64 \<and> n = layout_size d"
    by (auto simp: storageBytes_iff validate_ok)
next
  assume a: "is_ok (validate d) \<and> layout_size d < 2 ^ 64 \<and> n = layout_size d"
  then have "unat (of_nat n :: size_t) = n" by (simp add: unat_of_nat take_bit_nat_eq_self)
  with a show "\<exists>b. storageBytes d = Inr b \<and> unat b = n"
    by (auto simp: storageBytes_iff validate_ok intro!: exI [of _ "of_nat n"])
qed

text \<open>along any chain of descriptors in which each is assignable to the next, the first
  is assignable to the last, and every assignment keeps the storage layout and the
  canonical name: values are never reinterpreted under another layout.\<close>

theorem assignable_chain_keeps_layout:
  assumes "ds \<noteq> []" and "successively isAssignable ds" and "is_ok (validate (hd ds))"
  shows "isAssignable (hd ds) (last ds) \<and> storageBytes (hd ds) = storageBytes (last ds) \<and>
         canonicalName (hd ds) = canonicalName (last ds)"
  using descriptors.assignable_chain [of ds] assms by (simp add: validate_ok)

theorem assignable_chain_keeps_layout_witness:
  "isAssignable (td_array K_Int32 4) (td_array K_Int32 4) \<and>
   storageBytes (td_array K_Int32 4) = Inr 16"
proof -
  let ?d = "td_array K_Int32 4"
  have a: "isAssignable ?d ?d" and v: "is_ok (validate ?d)"
    by (simp_all add: isAssignable_def validate_def checkedArrayBytes_def descriptor_defs)
  have "isAssignable (hd [?d, ?d]) (last [?d, ?d])"
    using assignable_chain_keeps_layout [of "[?d, ?d]"] a v by simp
  moreover have "storageBytes ?d = Inr 16"
    by (simp add: storageBytes_def validate_def checkedArrayBytes_def descriptor_defs)
  ultimately show ?thesis by simp
qed

text \<open>the slice guard accepts a range exactly when it lies inside its owner, computed
  without wrap-around: offset plus length, as unbounded numbers, is at most the extent.\<close>

theorem checkedSliceRange_exact:
  "is_ok (checkedSliceRange n off len) \<longleftrightarrow> unat off + unat len \<le> unat n"
proof (cases "off \<le> n")
  case True
  then have "unat (n - off) = unat n - unat off" by (simp add: unat_sub)
  with True show ?thesis
    by (auto simp: checkedSliceRange_def word_less_nat_alt word_le_nat_alt)
next
  case False
  then show ?thesis by (auto simp: checkedSliceRange_def word_less_nat_alt word_le_nat_alt)
qed


text \<open>the checked conversion accepts exactly the finite doubles whose exact value lies
  between the least and the greatest 32-bit integer, and then returns a 32-bit integer:
  the value rounded towards zero, with the sign of the value.\<close>

theorem checkedFloatToInt_exact:
  "case checkedFloatToInt v of
     Inl _ \<Rightarrow> \<not> (b_finite v \<and> - (2 ^ 31) \<le> b_val v \<and> b_val v \<le> 2 ^ 31 - 1)
   | Inr n \<Rightarrow> b_finite v \<and> - (2 ^ 31) \<le> b_val v \<and> b_val v \<le> 2 ^ 31 - 1 \<and>
       - (2 ^ 31) \<le> n \<and> n < 2 ^ 31 \<and>
       \<bar>of_int n\<bar> \<le> \<bar>b_val v\<bar> \<and> \<bar>b_val v\<bar> < \<bar>of_int n\<bar> + 1 \<and> 0 \<le> of_int n * b_val v"
proof -
  have lim: "b_of_int (- 2147483648) = B_Num (- 2147483648)" "b_of_int 2147483647 = B_Num 2147483647"
    using b_of_int_exact [of "- 2147483648"] b_of_int_exact [of 2147483647] by simp_all
  have t: "\<bar>of_int (b_trunc v)\<bar> \<le> \<bar>b_val v\<bar>" "\<bar>b_val v\<bar> < \<bar>of_int (b_trunc v)\<bar> + 1"
    by (rule b_trunc_towards_zero)+
  have sign: "0 \<le> of_int (b_trunc v) * b_val v"
    by (simp add: b_trunc_def zero_le_mult_iff)
  show ?thesis
  proof (cases "b_finite v \<and> - (2 ^ 31) \<le> b_val v \<and> b_val v \<le> 2 ^ 31 - 1")
    case True
    have "- (2 ^ 31) \<le> b_trunc v \<and> b_trunc v < 2 ^ 31"
      using True unfolding b_trunc_def by (cases "b_val v < 0"; simp; linarith)
    then show ?thesis using True t sign by (simp add: checkedFloatToInt_def lim b_lt_finite)
  next
    case False
    then show ?thesis by (auto simp: checkedFloatToInt_def lim b_lt_finite)
  qed
qed

end
