(* ===== verification/Ownership.thy ===== *)
theory Ownership
  imports TypeSystem
begin

section \<open>The ownership tracker\<close>

text \<open>
  \<open>OwnershipTracker\<close> of \<open>type_system/ProductionTypeSystem.cpp\<close>: the map \<open>values_\<close> from
  names to snapshots, and one definition per operation. A failing operation returns its
  diagnostic and leaves the map as it was, since every source method checks before it
  writes. \<open>shared_borrows\<close> is a \<open>std::size_t\<close> and wraps.
\<close>

subsection \<open>State and operations\<close>

datatype OwnershipState = Uninitialized | Owned | SharedBorrowed | MutablyBorrowed | Moved

record OwnershipSnapshot =
  os_state :: OwnershipState
  os_shared_borrows :: size_t

type_synonym tracker = "string \<rightharpoonup> OwnershipSnapshot"

fun ownershipStateName :: "OwnershipState \<Rightarrow> string" where
  "ownershipStateName Uninitialized = ''uninitialized''"
| "ownershipStateName Owned = ''owned''"
| "ownershipStateName SharedBorrowed = ''shared_borrowed''"
| "ownershipStateName MutablyBorrowed = ''mutably_borrowed''"
| "ownershipStateName Moved = ''moved''"

definition quoted :: "string \<Rightarrow> string" where
  "quoted n = ''`'' @ n @ ''`''"

definition findValue :: "tracker \<Rightarrow> string \<Rightarrow> OwnershipSnapshot fallible" where
  "findValue t n = (case t n of
       None \<Rightarrow> Inl (''SHD3016 ownership operation references undeclared value '' @ quoted n)
     | Some v \<Rightarrow> Inr v)"

definition declareValue :: "tracker \<Rightarrow> string \<Rightarrow> tracker fallible" where
  "declareValue t n =
     (if n = [] then Inl ''SHD3016 ownership value name must not be empty''
      else if t n \<noteq> None then Inl (''SHD3016 ownership value is already declared: '' @ quoted n)
      else Inr (t(n \<mapsto> \<lparr>os_state = Uninitialized, os_shared_borrows = 0\<rparr>)))"

definition initialize :: "tracker \<Rightarrow> string \<Rightarrow> tracker fallible" where
  "initialize t n = (case findValue t n of Inl e \<Rightarrow> Inl e | Inr v \<Rightarrow>
     if os_state v \<noteq> Uninitialized \<and> os_state v \<noteq> Moved
     then Inl ''SHD3016 initialize requires uninitialized or moved state''
     else Inr (t(n \<mapsto> \<lparr>os_state = Owned, os_shared_borrows = 0\<rparr>)))"

definition read_value :: "tracker \<Rightarrow> string \<Rightarrow> unit fallible" where
  "read_value t n = (case t n of
       None \<Rightarrow> Inl (''SHD3016 read references undeclared value '' @ quoted n)
     | Some v \<Rightarrow>
         if os_state v = Uninitialized
         then Inl (''SHD3016 read of uninitialized value '' @ quoted n)
         else if os_state v = Moved
         then Inl (''SHD3016 use after move of value '' @ quoted n)
         else if os_state v = MutablyBorrowed
         then Inl (''SHD3016 owner read is forbidden during a mutable borrow of '' @ quoted n)
         else Inr ())"

definition moveValue :: "tracker \<Rightarrow> string \<Rightarrow> tracker fallible" where
  "moveValue t n = (case findValue t n of Inl e \<Rightarrow> Inl e | Inr v \<Rightarrow>
     if os_state v \<noteq> Owned
     then Inl ''SHD3016 move requires an owned value with no active borrow''
     else Inr (t(n \<mapsto> v\<lparr>os_state := Moved\<rparr>)))"

definition assign :: "tracker \<Rightarrow> string \<Rightarrow> tracker fallible" where
  "assign t n = (case findValue t n of Inl e \<Rightarrow> Inl e | Inr v \<Rightarrow>
     if os_state v = SharedBorrowed \<or> os_state v = MutablyBorrowed
     then Inl ''SHD3016 assignment is forbidden while value is borrowed''
     else Inr (t(n \<mapsto> \<lparr>os_state = Owned, os_shared_borrows = 0\<rparr>)))"

definition borrowShared :: "tracker \<Rightarrow> string \<Rightarrow> tracker fallible" where
  "borrowShared t n = (case findValue t n of Inl e \<Rightarrow> Inl e | Inr v \<Rightarrow>
     if os_state v \<noteq> Owned \<and> os_state v \<noteq> SharedBorrowed
     then Inl ''SHD3016 shared borrow requires an initialized, non-moved owner''
     else Inr (t(n \<mapsto> \<lparr>os_state = SharedBorrowed, os_shared_borrows = os_shared_borrows v + 1\<rparr>)))"

definition releaseShared :: "tracker \<Rightarrow> string \<Rightarrow> tracker fallible" where
  "releaseShared t n = (case findValue t n of Inl e \<Rightarrow> Inl e | Inr v \<Rightarrow>
     if os_state v \<noteq> SharedBorrowed \<or> os_shared_borrows v = 0
     then Inl ''SHD3016 releaseShared requires an active shared borrow''
     else let left = os_shared_borrows v - 1 in
       Inr (t(n \<mapsto> \<lparr>os_state = (if left = 0 then Owned else os_state v), os_shared_borrows = left\<rparr>)))"

definition borrowMutable :: "tracker \<Rightarrow> string \<Rightarrow> tracker fallible" where
  "borrowMutable t n = (case findValue t n of Inl e \<Rightarrow> Inl e | Inr v \<Rightarrow>
     if os_state v \<noteq> Owned
     then Inl ''SHD3016 mutable borrow requires exclusive ownership''
     else Inr (t(n \<mapsto> v\<lparr>os_state := MutablyBorrowed\<rparr>)))"

definition releaseMutable :: "tracker \<Rightarrow> string \<Rightarrow> tracker fallible" where
  "releaseMutable t n = (case findValue t n of Inl e \<Rightarrow> Inl e | Inr v \<Rightarrow>
     if os_state v \<noteq> MutablyBorrowed
     then Inl ''SHD3016 releaseMutable requires an active mutable borrow''
     else Inr (t(n \<mapsto> v\<lparr>os_state := Owned\<rparr>)))"

definition snapshot :: "tracker \<Rightarrow> string \<Rightarrow> OwnershipSnapshot option" where
  "snapshot t n = t n"

lemmas tracker_defs [result_simps] = findValue_def declareValue_def initialize_def read_value_def
  moveValue_def assign_def borrowShared_def releaseShared_def borrowMutable_def releaseMutable_def

subsection \<open>The calls a client makes\<close>

datatype verb =
  Declare | Initialize | Read | Move | Assign | BorrowShared | ReleaseShared | BorrowMutable
| ReleaseMutable

fun own_step :: "tracker \<Rightarrow> verb \<times> string \<Rightarrow> tracker fallible" where
  "own_step t (Declare, n) = declareValue t n"
| "own_step t (Initialize, n) = initialize t n"
| "own_step t (Read, n) = (case read_value t n of Inl e \<Rightarrow> Inl e | Inr _ \<Rightarrow> Inr t)"
| "own_step t (Move, n) = moveValue t n"
| "own_step t (Assign, n) = assign t n"
| "own_step t (BorrowShared, n) = borrowShared t n"
| "own_step t (ReleaseShared, n) = releaseShared t n"
| "own_step t (BorrowMutable, n) = borrowMutable t n"
| "own_step t (ReleaseMutable, n) = releaseMutable t n"

subsection \<open>The discipline it implements\<close>

text \<open>
  The specification: one value is absent, unusable, or held with a number of readers, or
  lent out exclusively. No counters in words and no state tags that could disagree with
  the counter.
\<close>

datatype holding = Blank | Held nat | Lent | Gone

fun lend :: "verb \<Rightarrow> holding option \<Rightarrow> holding option" where
  "lend Declare None = Some Blank"
| "lend Initialize (Some Blank) = Some (Held 0)"
| "lend Initialize (Some Gone) = Some (Held 0)"
| "lend Read (Some (Held k)) = Some (Held k)"
| "lend Move (Some (Held 0)) = Some Gone"
| "lend Assign (Some (Held 0)) = Some (Held 0)"
| "lend Assign (Some Blank) = Some (Held 0)"
| "lend Assign (Some Gone) = Some (Held 0)"
| "lend BorrowShared (Some (Held k)) = Some (Held (Suc k))"
| "lend ReleaseShared (Some (Held (Suc k))) = Some (Held k)"
| "lend BorrowMutable (Some (Held 0)) = Some Lent"
| "lend ReleaseMutable (Some Lent) = Some (Held 0)"
| "lend _ _ = None"

definition own_spec :: "(string \<rightharpoonup> holding) \<Rightarrow> verb \<times> string \<Rightarrow> (string \<rightharpoonup> holding) option" where
  "own_spec m c = (case c of (v, n) \<Rightarrow>
     if v = Declare \<and> n = [] then None
     else (case lend v (m n) of None \<Rightarrow> None | Some h \<Rightarrow> Some (m(n \<mapsto> h))))"

fun holding_of :: "OwnershipSnapshot \<Rightarrow> holding" where
  "holding_of v = (case os_state v of
       Uninitialized \<Rightarrow> Blank
     | Owned \<Rightarrow> Held 0
     | SharedBorrowed \<Rightarrow> Held (unat (os_shared_borrows v))
     | MutablyBorrowed \<Rightarrow> Lent
     | Moved \<Rightarrow> Gone)"

definition snapshot_inv :: "OwnershipSnapshot \<Rightarrow> bool" where
  "snapshot_inv v \<longleftrightarrow> (os_state v = SharedBorrowed \<longleftrightarrow> os_shared_borrows v \<noteq> 0)"

text \<open>Room for \<open>k\<close> more shared borrows before the counter would wrap.\<close>

definition tracks :: "nat \<Rightarrow> tracker \<Rightarrow> (string \<rightharpoonup> holding) \<Rightarrow> bool" where
  "tracks k t m \<longleftrightarrow> m = map_option holding_of \<circ> t \<and>
     (\<forall>n v. t n = Some v \<longrightarrow> snapshot_inv v \<and> unat (os_shared_borrows v) + k < 2 ^ 64)"


subsection \<open>One call\<close>

text \<open>Every call touches only the value it names.\<close>

lemma own_step_other: "own_step t (v, n) = Inr t' \<Longrightarrow> m \<noteq> n \<Longrightarrow> t' m = t m"
  by (cases v) (auto simp: result_simps Let_def split: option.splits if_splits)


definition sound_slot :: "nat \<Rightarrow> OwnershipSnapshot \<Rightarrow> bool" where
  "sound_slot k v \<longleftrightarrow> snapshot_inv v \<and> unat (os_shared_borrows v) + k < 2 ^ 64"

lemma tracks_slot: "tracks k t m \<Longrightarrow> t n = Some v \<Longrightarrow> sound_slot k v"
  by (auto simp: tracks_def sound_slot_def)

lemma tracks_lookup: "tracks k t m \<Longrightarrow> m n = map_option holding_of (t n)"
  by (simp add: tracks_def)

lemma tracks_idle: "tracks (Suc k) t m \<Longrightarrow> tracks k t m"
  by (fastforce simp: tracks_def)

lemma tracks_upd: "tracks k t m \<Longrightarrow> sound_slot k w \<Longrightarrow> tracks k (t(n \<mapsto> w)) (m(n \<mapsto> holding_of w))"
  by (auto simp: tracks_def sound_slot_def fun_eq_iff)

lemma borrow_count_inc:
  "sound_slot (Suc k) w \<Longrightarrow> unat (os_shared_borrows w + 1) = Suc (unat (os_shared_borrows w))"
  by (simp add: sound_slot_def unat_word_ariths)

lemma borrow_count_inc_nonzero: "sound_slot (Suc k) w \<Longrightarrow> os_shared_borrows w + 1 \<noteq> 0"
  using borrow_count_inc [of k w] by (metis unat_0 nat.distinct(1))

lemma borrow_count_dec:
  fixes x :: size_t
  shows "x \<noteq> 0 \<Longrightarrow> unat (x - 1) = unat x - 1"
  by (subst unat_sub) (simp_all add: word_le_nat_alt unat_gt_0 Suc_leI)

lemma lend_release: "0 < j \<Longrightarrow> lend ReleaseShared (Some (Held j)) = Some (Held (j - 1))"
  by (cases j) simp_all

lemma lend_borrowed:
  "0 < j \<Longrightarrow> v \<in> {Move, Assign, BorrowMutable} \<Longrightarrow> lend v (Some (Held j)) = None"
  by (cases j) auto

lemma own_step_sound:
  assumes "own_step t (v, n) = Inr t'" and "\<And>w. t n = Some w \<Longrightarrow> sound_slot (Suc k) w" and "Suc k < 2 ^ 64"
  shows "t' = t(n \<mapsto> the (t' n)) \<and> sound_slot k (the (t' n)) \<and> (v = Declare \<longrightarrow> n \<noteq> []) \<and>
    lend v (map_option holding_of (t n)) = Some (holding_of (the (t' n)))"
proof (cases "t n")
  case None
  with assms show ?thesis
    by (cases v) (auto simp: result_simps sound_slot_def snapshot_inv_def split: if_splits)
next
  case (Some w)
  note w = assms(2) [OF this]
  from assms(1) Some w show ?thesis
    by (cases v; cases "os_state w")
      (auto simp: result_simps sound_slot_def snapshot_inv_def Let_def borrow_count_dec lend_release
        unat_gt_0 borrow_count_inc [OF w] borrow_count_inc_nonzero [OF w] map_upd_triv
        split: if_splits)
qed

lemma own_step_refused:
  assumes "own_step t (v, n) = Inl e" and "\<And>w. t n = Some w \<Longrightarrow> sound_slot (Suc k) w"
  shows "(v = Declare \<and> n = []) \<or> lend v (map_option holding_of (t n)) = None"
proof (cases "t n")
  case None
  with assms(1) show ?thesis by (cases v) (auto simp: result_simps split: if_splits)
next
  case (Some w)
  with assms show ?thesis
    by (cases v; cases "os_state w")
      (auto simp: result_simps sound_slot_def snapshot_inv_def Let_def lend_borrowed unat_gt_0
        split: if_splits)
qed

text \<open>
  The tracker implements the lending discipline: an interpretation of the generic
  simulation contract, with the number of calls still to come as the budget that keeps the
  borrow counter from wrapping.
\<close>

lemma own_spec_alt:
  assumes "tracks k t m"
  shows "own_spec m (v, n) = (if v = Declare \<and> n = [] then None
    else map_option (\<lambda>h. m(n \<mapsto> h)) (lend v (map_option holding_of (t n))))"
  by (simp add: own_spec_def tracks_lookup [OF assms] split: option.split)

lemma tracker_sim_fail:
  assumes "tracks (Suc k) t m" and "own_step t c = Inl e"
  shows "own_spec m c = None"
proof -
  obtain v n where c: "c = (v, n)" by (cases c)
  show ?thesis
    using own_step_refused [OF assms(2) [unfolded c] tracks_slot [OF assms(1), of n]]
    by (auto simp: c own_spec_alt [OF assms(1)])
qed

lemma tracker_sim_ok:
  assumes "Suc k < 2 ^ 64" and r: "tracks (Suc k) t m" and "own_step t c = Inr t'"
  shows "\<exists>m'. own_spec m c = Some m' \<and> tracks k t' m'"
proof -
  obtain v n where c: "c = (v, n)" by (cases c)
  let ?w = "the (t' n)"
  have w: "t' = t(n \<mapsto> ?w) \<and> sound_slot k ?w \<and> (v = Declare \<longrightarrow> n \<noteq> []) \<and>
      lend v (map_option holding_of (t n)) = Some (holding_of ?w)"
    by (rule own_step_sound [OF assms(3) [unfolded c] _ assms(1)]) (rule tracks_slot [OF r])
  have "own_spec m c = Some (m(n \<mapsto> holding_of ?w))"
    using w by (auto simp: c own_spec_alt [OF r])
  moreover have "tracks k (t(n \<mapsto> ?w)) (m(n \<mapsto> holding_of ?w))"
    using w by (intro tracks_upd tracks_idle [OF r]) simp
  ultimately show ?thesis using w by auto
qed

interpretation lending: simulated_object own_step own_spec "\<lambda>k t m. k < 2 ^ 64 \<and> tracks k t m"
proof (unfold_locales, goal_cases)
  case (1 k t m c e)
  then show ?case by (blast intro: tracker_sim_fail)
next
  case (2 k t m c t')
  then have "\<exists>m'. own_spec m c = Some m' \<and> tracks k t' m'" by (blast intro: tracker_sim_ok)
  with 2 show ?case by (meson Suc_lessD)
next
  case (3 k t m)
  then show ?case by (meson Suc_lessD tracks_idle)
qed

lemma tracks_empty: "k < 2 ^ 64 \<Longrightarrow> tracks k Map.empty Map.empty"
  by (simp add: tracks_def fun_eq_iff)

lemma run_tracks:
  "length cs < 2 ^ 64 \<Longrightarrow> tracks 0 (run own_step Map.empty cs) (arun own_spec Map.empty cs)"
  using lending.sim_run [of cs 0 Map.empty Map.empty] tracks_empty by simp


subsection \<open>Values do not interfere\<close>

lemma settle_other: "snd c \<noteq> n \<Longrightarrow> settle own_step t c n = t n"
  using own_step_other [of t "fst c" "snd c"] by (auto split: sum.splits)

lemma settle_local: "t n = t' n \<Longrightarrow> settle own_step t (v, n) n = settle own_step t' (v, n) n"
  by (cases v) (auto simp: result_simps Let_def split: option.splits)

lemma run_local: "t n = t' n \<Longrightarrow> run own_step t cs n = run own_step t' [c \<leftarrow> cs. snd c = n] n"
proof (induction cs arbitrary: t t')
  case (Cons c cs)
  show ?case
  proof (cases "snd c = n")
    case True
    then obtain v where "c = (v, n)" by (cases c) auto
    with Cons.IH [of "settle own_step t (v, n)" "settle own_step t' (v, n)"]
      settle_local [of t n t' v] Cons.prems show ?thesis by (simp del: settle.simps)
  next
    case False
    with Cons.IH [of "settle own_step t c" t'] settle_other Cons.prems show ?thesis
      by (simp del: settle.simps)
  qed
qed simp

subsection \<open>The properties\<close>

text \<open>
  C22: The ownership tracker implements the lending discipline. After any sequence of calls
  on any values (fewer than \<open>2 ^ 64\<close> of them, so that no counter can wrap), the tracker's
  map, read through \<open>holding_of\<close>, is the map the abstract discipline reaches with the same
  calls, and the tracker accepts a further call exactly when the discipline does.
\<close>

theorem tracker_implements_lending:
  assumes "length cs + 1 < 2 ^ 64"
  shows "map_option holding_of \<circ> run own_step Map.empty cs = arun own_spec Map.empty cs \<and>
    (is_ok (own_step (run own_step Map.empty cs) c) \<longleftrightarrow> own_spec (arun own_spec Map.empty cs) c \<noteq> None)"
proof -
  let ?t = "run own_step Map.empty cs" and ?m = "arun own_spec Map.empty cs"
  have r: "tracks (Suc 0) ?t ?m"
    using lending.sim_run [of cs "Suc 0" Map.empty Map.empty] tracks_empty assms by simp
  then have "map_option holding_of \<circ> ?t = ?m" by (simp add: tracks_def)
  moreover have "is_ok (own_step ?t c) \<longleftrightarrow> own_spec ?m c \<noteq> None"
    using tracker_sim_fail [OF r, of c] tracker_sim_ok [OF _ r, of c]
    by (cases "own_step ?t c") auto
  ultimately show ?thesis by blast
qed

theorem tracker_implements_lending_witness:
  "map_option holding_of (run own_step Map.empty
       [(Declare, ''x''), (Initialize, ''x''), (BorrowShared, ''x'')] ''x'') = Some (Held 1) \<and>
   \<not> is_ok (own_step (run own_step Map.empty
       [(Declare, ''x''), (Initialize, ''x''), (BorrowShared, ''x'')]) (Move, ''x''))"
proof -
  let ?cs = "[(Declare, ''x''), (Initialize, ''x''), (BorrowShared, ''x'')]"
  have l: "length ?cs + 1 < 2 ^ 64" by simp
  have m: "arun own_spec Map.empty ?cs ''x'' = Some (Held 1)" by (simp add: own_spec_def)
  have "map_option holding_of (run own_step Map.empty ?cs ''x'') = Some (Held 1)"
    using tracker_implements_lending [OF l] m by (metis comp_apply)
  moreover have "own_spec (arun own_spec Map.empty ?cs) (Move, ''x'') = None"
    using m by (simp add: own_spec_def del: arun.simps)
  moreover have "is_ok (own_step (run own_step Map.empty ?cs) (Move, ''x'')) \<longleftrightarrow>
      own_spec (arun own_spec Map.empty ?cs) (Move, ''x'') \<noteq> None"
    using tracker_implements_lending [OF l] by (rule conjunct2)
  ultimately show ?thesis by blast
qed

text \<open>
  C30: A mutable borrow is exclusive. While a value is mutably borrowed, whatever calls are
  made on it and on other values, as long as none of them releases the mutable borrow its
  snapshot stays the same, and every call on it except the release is refused.
\<close>

theorem mutable_borrow_exclusive:
  assumes "t n = Some w" and "os_state w = MutablyBorrowed" and "(ReleaseMutable, n) \<notin> set cs"
    and "v \<noteq> ReleaseMutable"
  shows "run own_step t cs n = Some w \<and> \<not> is_ok (own_step (run own_step t cs) (v, n))"
proof -
  have refused: "\<exists>e. own_step t (v, n) = Inl e" if "t n = Some w" "v \<noteq> ReleaseMutable" for t v
    using that assms(2) by (cases v) (auto simp: result_simps)
  have "run own_step t cs n = Some w"
    using assms(1,3)
  proof (induction cs arbitrary: t)
    case (Cons c cs)
    have "settle own_step t c n = Some w"
      using Cons.prems refused [of t "fst c"] settle_other [of c n t]
      by (cases c; cases "snd c = n") auto
    then show ?case using Cons by simp
  qed simp
  then show ?thesis using refused assms(4) by force
qed

theorem mutable_borrow_exclusive_witness:
  "let t = run own_step Map.empty [(Declare, ''x''), (Initialize, ''x''), (BorrowMutable, ''x'')] in
   run own_step t [(Read, ''x''), (Declare, ''y''), (Move, ''x'')] ''x''
     = Some \<lparr>os_state = MutablyBorrowed, os_shared_borrows = 0\<rparr>"
proof -
  let ?t = "run own_step Map.empty [(Declare, ''x''), (Initialize, ''x''), (BorrowMutable, ''x'')]"
  have "?t ''x'' = Some \<lparr>os_state = MutablyBorrowed, os_shared_borrows = 0\<rparr>"
    by (simp add: result_simps)
  from mutable_borrow_exclusive [of ?t, OF this, of "[(Read, ''x''), (Declare, ''y''), (Move, ''x'')]" Read]
  show ?thesis by (simp only: Let_def) simp
qed



definition lent_out :: "nat \<Rightarrow> OwnershipSnapshot" where
  "lent_out k = \<lparr>os_state = (if k = 0 then Owned else SharedBorrowed), os_shared_borrows = of_nat k\<rparr>"

lemma settle_borrow:
  "t n = Some (lent_out k) \<Longrightarrow> settle own_step t (BorrowShared, n) n = Some (lent_out (Suc k))"
  by (auto simp: result_simps lent_out_def add.commute)

lemma settle_release:
  assumes "t n = Some (lent_out (Suc k))" and "Suc k < 2 ^ 64"
  shows "settle own_step t (ReleaseShared, n) n = Some (lent_out k)"
proof -
  have "(of_nat (Suc k) :: size_t) \<noteq> 0" and "(of_nat k :: size_t) = 0 \<longleftrightarrow> k = 0"
    using assms(2) by (simp_all add: word_unat_eq_iff unat_of_nat take_bit_nat_eq_self del: of_nat_Suc)
  then show ?thesis using assms(1) by (simp add: result_simps lent_out_def Let_def)
qed

lemma run_borrows:
  "t n = Some (lent_out i) \<Longrightarrow>
    run own_step t (replicate k (BorrowShared, n)) n = Some (lent_out (i + k))"
proof (induction k arbitrary: t i)
  case (Suc k)
  from Suc.IH [of "settle own_step t (BorrowShared, n)" "Suc i"] settle_borrow [of t n i] Suc.prems
  show ?case by (simp del: settle.simps)
qed simp

lemma run_releases:
  "t n = Some (lent_out (j + i)) \<Longrightarrow> j + i < 2 ^ 64 \<Longrightarrow>
    run own_step t (replicate j (ReleaseShared, n)) n = Some (lent_out i)"
proof (induction j arbitrary: t)
  case (Suc j)
  from Suc.IH [of "settle own_step t (ReleaseShared, n)"] settle_release [of t n "j + i"] Suc.prems
  show ?case by (simp del: settle.simps)
qed simp

lemma lent_out_calls:
  assumes "t n = Some (lent_out k)" and "0 < k"
  shows "is_ok (read_value t n)" "\<not> is_ok (moveValue t n)" "\<not> is_ok (assign t n)"
    "\<not> is_ok (borrowMutable t n)"
  using assms by (simp_all add: result_simps lent_out_def)

text \<open>
  Shared borrows are counted. Take an owned value and let calls on other values be
  interleaved in any way with \<open>k\<close> shared borrows of it followed by \<open>j \<le> k\<close> releases: while
  some borrow is outstanding the value is readable but cannot be moved, assigned or
  mutably borrowed, and when all are released it is owned again with a zero counter.
\<close>

theorem shared_borrows_balance:
  assumes "t n = Some \<lparr>os_state = Owned, os_shared_borrows = 0\<rparr>" and "j \<le> k" and "k < 2 ^ 64"
    and "[c \<leftarrow> cs. snd c = n] = replicate k (BorrowShared, n) @ replicate j (ReleaseShared, n)"
  shows "if j < k
    then is_ok (read_value (run own_step t cs) n) \<and> \<not> is_ok (moveValue (run own_step t cs) n) \<and>
      \<not> is_ok (assign (run own_step t cs) n) \<and> \<not> is_ok (borrowMutable (run own_step t cs) n)
    else run own_step t cs n = Some \<lparr>os_state = Owned, os_shared_borrows = 0\<rparr>"
proof -
  have "t n = Some (lent_out 0)" using assms(1) by (simp add: lent_out_def)
  then have "run own_step t cs n = Some (lent_out (k - j))"
    using run_local [of t n t cs] run_borrows [of t n 0 k] run_releases [of _ n j "k - j"] assms(2-4)
    by (simp add: run_append)
  then show ?thesis
    using lent_out_calls [of "run own_step t cs" n "k - j"] assms(2) by (auto simp: lent_out_def)
qed

theorem shared_borrows_balance_witness:
  "run own_step (Map.empty(''x'' \<mapsto> \<lparr>os_state = Owned, os_shared_borrows = 0\<rparr>))
     [(BorrowShared, ''x''), (Declare, ''y''), (BorrowShared, ''x''), (ReleaseShared, ''x''),
      (ReleaseShared, ''x'')] ''x'' = Some \<lparr>os_state = Owned, os_shared_borrows = 0\<rparr>"
  using shared_borrows_balance [of "Map.empty(''x'' \<mapsto> \<lparr>os_state = Owned, os_shared_borrows = 0\<rparr>)"
      "''x''" "Suc (Suc 0)" "Suc (Suc 0)" "[(BorrowShared, ''x''), (Declare, ''y''), (BorrowShared, ''x''),
        (ReleaseShared, ''x''), (ReleaseShared, ''x'')]"]
  by (simp del: run.simps)

end
