(* ===== verification/Sha256.thy ===== *)
theory Sha256
  imports Prelude
begin

section \<open>SHA-256\<close>

text \<open>
  \<open>module/Sha256.cpp\<close>: the incremental context (\<open>update\<close>, \<open>finish\<close>, \<open>transform\<close>), the one
  shot \<open>sha256\<close> and the chunked \<open>sha256File\<close>. Words keep their width. The reference
  side is the standard's description of the hash (padding, recursive message schedule,
  compression folded over blocks); the development shows the context computes it.
\<close>

unbundle bit_operations_syntax


subsection \<open>The context\<close>

text \<open>The table, one definition per row of the source.\<close>

definition kRow0 :: "u32 list" where
  "kRow0 = [0x428a2f98, 0x71374491, 0xb5c0fbcf, 0xe9b5dba5, 0x3956c25b, 0x59f111f1, 0x923f82a4, 0xab1c5ed5]"

definition kRow1 :: "u32 list" where
  "kRow1 = [0xd807aa98, 0x12835b01, 0x243185be, 0x550c7dc3, 0x72be5d74, 0x80deb1fe, 0x9bdc06a7, 0xc19bf174]"

definition kRow2 :: "u32 list" where
  "kRow2 = [0xe49b69c1, 0xefbe4786, 0x0fc19dc6, 0x240ca1cc, 0x2de92c6f, 0x4a7484aa, 0x5cb0a9dc, 0x76f988da]"

definition kRow3 :: "u32 list" where
  "kRow3 = [0x983e5152, 0xa831c66d, 0xb00327c8, 0xbf597fc7, 0xc6e00bf3, 0xd5a79147, 0x06ca6351, 0x14292967]"

definition kRow4 :: "u32 list" where
  "kRow4 = [0x27b70a85, 0x2e1b2138, 0x4d2c6dfc, 0x53380d13, 0x650a7354, 0x766a0abb, 0x81c2c92e, 0x92722c85]"

definition kRow5 :: "u32 list" where
  "kRow5 = [0xa2bfe8a1, 0xa81a664b, 0xc24b8b70, 0xc76c51a3, 0xd192e819, 0xd6990624, 0xf40e3585, 0x106aa070]"

definition kRow6 :: "u32 list" where
  "kRow6 = [0x19a4c116, 0x1e376c08, 0x2748774c, 0x34b0bcb5, 0x391c0cb3, 0x4ed8aa4a, 0x5b9cca4f, 0x682e6ff3]"

definition kRow7 :: "u32 list" where
  "kRow7 = [0x748f82ee, 0x78a5636f, 0x84c87814, 0x8cc70208, 0x90befffa, 0xa4506ceb, 0xbef9a3f7, 0xc67178f2]"

definition kRoundConstants :: "u32 list" where
  "kRoundConstants = concat [kRow0, kRow1, kRow2, kRow3, kRow4, kRow5, kRow6, kRow7]"

definition rotateRight :: "u32 \<Rightarrow> nat \<Rightarrow> u32" where
  "rotateRight v k = (drop_bit k v OR push_bit (32 - k) v)"

record Sha256Context =
  sc_state :: "u32 list"
  sc_block :: "u8 list"
  sc_block_size :: nat
  sc_total_bytes :: "64 word"

definition Sha256Context_init :: Sha256Context where
  "Sha256Context_init = \<lparr>
     sc_state = [0x6a09e667, 0xbb67ae85, 0x3c6ef372, 0xa54ff53a,
                 0x510e527f, 0x9b05688c, 0x1f83d9ab, 0x5be0cd19],
     sc_block = replicate 64 0, sc_block_size = 0, sc_total_bytes = 0\<rparr>"

text \<open>The two loops that fill \<open>words\<close>: sixteen big-endian words, then the expansion.\<close>

definition load_word :: "u8 list \<Rightarrow> nat \<Rightarrow> u32" where
  "load_word block i = (let k = i * 4 in
     push_bit 24 (ucast (block ! k)) OR push_bit 16 (ucast (block ! (k + 1))) OR
     push_bit 8 (ucast (block ! (k + 2))) OR ucast (block ! (k + 3)))"

definition expand_word :: "u32 list \<Rightarrow> nat \<Rightarrow> u32" where
  "expand_word ws i = (let
     s0 = rotateRight (ws ! (i - 15)) 7 XOR rotateRight (ws ! (i - 15)) 18 XOR drop_bit 3 (ws ! (i - 15));
     s1 = rotateRight (ws ! (i - 2)) 17 XOR rotateRight (ws ! (i - 2)) 19 XOR drop_bit 10 (ws ! (i - 2))
     in ws ! (i - 16) + s0 + ws ! (i - 7) + s1)"

definition schedule_words :: "u8 list \<Rightarrow> u32 list" where
  "schedule_words block =
     fold (\<lambda>i ws. ws[i := expand_word ws i]) [16..<64]
       (fold (\<lambda>i ws. ws[i := load_word block i]) [0..<16] (replicate 64 0))"

type_synonym working = "u32 \<times> u32 \<times> u32 \<times> u32 \<times> u32 \<times> u32 \<times> u32 \<times> u32"

definition sha_round :: "u32 list \<Rightarrow> nat \<Rightarrow> working \<Rightarrow> working" where
  "sha_round ws i v = (case v of (a, b, c, d, e, f, g, h) \<Rightarrow> let
     sum1 = rotateRight e 6 XOR rotateRight e 11 XOR rotateRight e 25;
     chosen = (e AND f) XOR ((NOT e) AND g);
     temp1 = h + sum1 + chosen + kRoundConstants ! i + ws ! i;
     sum0 = rotateRight a 2 XOR rotateRight a 13 XOR rotateRight a 22;
     majority = (a AND b) XOR (a AND c) XOR (b AND c);
     temp2 = sum0 + majority
     in (temp1 + temp2, a, b, c, d + temp1, e, f, g))"

definition transform_state :: "u32 list \<Rightarrow> u8 list \<Rightarrow> u32 list" where
  "transform_state st block = (let ws = schedule_words block in
     case fold (sha_round ws) [0..<64]
       (st ! 0, st ! 1, st ! 2, st ! 3, st ! 4, st ! 5, st ! 6, st ! 7) of
       (a, b, c, d, e, f, g, h) \<Rightarrow>
         [st ! 0 + a, st ! 1 + b, st ! 2 + c, st ! 3 + d, st ! 4 + e, st ! 5 + f, st ! 6 + g, st ! 7 + h])"

definition transform :: "Sha256Context \<Rightarrow> Sha256Context" where
  "transform c = c\<lparr>sc_state := transform_state (sc_state c) (sc_block c)\<rparr>"

text \<open>
  The body of the \<open>while (length != 0)\<close> loop of \<open>update\<close>, and the loop. The loop makes no
  progress if the block is ever full at its head, so that it returns is a theorem.
\<close>

fun store_bytes :: "u8 list \<Rightarrow> nat \<Rightarrow> u8 list \<Rightarrow> u8 list" where
  "store_bytes block at [] = block"
| "store_bytes block at (b # bs) = store_bytes (block[at := b]) (at + 1) bs"

definition absorb_once :: "Sha256Context \<Rightarrow> u8 list \<Rightarrow> Sha256Context \<times> u8 list" where
  "absorb_once c bytes = (let
     available = 64 - sc_block_size c;
     cnt = (if length bytes < available then length bytes else available);
     c' = c\<lparr>sc_block := store_bytes (sc_block c) (sc_block_size c) (take cnt bytes),
            sc_block_size := sc_block_size c + cnt\<rparr>
     in (if sc_block_size c' = 64 then (transform c')\<lparr>sc_block_size := 0\<rparr> else c', drop cnt bytes))"

partial_function (option) absorb :: "Sha256Context \<Rightarrow> u8 list \<Rightarrow> Sha256Context option" where
  [code]: "absorb c bytes = (if bytes = [] then Some c
     else (case absorb_once c bytes of (c', rest) \<Rightarrow> absorb c' rest))"

definition sha_update :: "Sha256Context \<Rightarrow> u8 list \<Rightarrow> (bool \<times> Sha256Context) option" where
  "sha_update c bytes =
     (if length bytes > unat (- 1 - sc_total_bytes c) then Some (False, c)
      else map_option (\<lambda>c'. (True, c'))
        (absorb (c\<lparr>sc_total_bytes := sc_total_bytes c + of_nat (length bytes)\<rparr>) bytes))"

definition append_byte :: "u8 \<Rightarrow> Sha256Context \<Rightarrow> Sha256Context" where
  "append_byte b c = c\<lparr>sc_block := (sc_block c)[sc_block_size c := b], sc_block_size := sc_block_size c + 1\<rparr>"

function pad_zeros :: "nat \<Rightarrow> Sha256Context \<Rightarrow> Sha256Context" where
  "pad_zeros limit c = (if sc_block_size c < limit then pad_zeros limit (append_byte 0 c) else c)"
  by auto
termination by (relation "measure (\<lambda>(limit, c). limit - sc_block_size c)") (auto simp: append_byte_def)

fun hex_digit :: "nat \<Rightarrow> char" where
  "hex_digit d = (if d < 10 then char_of (48 + d) else char_of (87 + d))"

fun show_hex :: "nat \<Rightarrow> string" where
  "show_hex n = (if n < 16 then [hex_digit n] else show_hex (n div 16) @ [hex_digit (n mod 16)])"

definition setw0 :: "nat \<Rightarrow> string \<Rightarrow> string" where
  "setw0 w s = replicate (w - length s) (CHR ''0'') @ s"

definition length_byte :: "64 word \<Rightarrow> nat \<Rightarrow> u8" where
  "length_byte bits i = ucast (drop_bit (56 - i * 8) bits AND 0xff)"

definition finish :: "Sha256Context \<Rightarrow> (string \<times> Sha256Context) option" where
  "finish c =
     (if sc_total_bytes c > (- 1) div 8 then None
      else let
        bit_count = sc_total_bytes c * 8;
        c1 = append_byte 0x80 c;
        c2 = (if sc_block_size c1 > 56 then (transform (pad_zeros 64 c1))\<lparr>sc_block_size := 0\<rparr> else c1);
        c3 = pad_zeros 56 c2;
        c4 = c3\<lparr>sc_block := fold (\<lambda>i b. b[56 + i := length_byte bit_count i]) [0..<8] (sc_block c3)\<rparr>;
        c5 = (transform c4)\<lparr>sc_block_size := 0\<rparr>
      in Some (concat (map (\<lambda>v. setw0 8 (show_hex (unat v))) (sc_state c5)), c5))"

definition sha256 :: "u8 list \<Rightarrow> string option" where
  "sha256 bytes = (case sha_update Sha256Context_init bytes of
       None \<Rightarrow> None
     | Some (ok, c) \<Rightarrow> if \<not> ok then Some [] else
         (case finish c of None \<Rightarrow> Some [] | Some (digest, _) \<Rightarrow> Some digest))"


text \<open>
  A file as \<open>std::ifstream\<close> shows it: it cannot be opened, it can be read to its end, or the
  device fails after some bytes (\<open>bad()\<close>). One round of the loop reads up to 8192 bytes; a
  short read ends the loop, since it sets the stream's end-of-file and fail bits.
\<close>

datatype input_file = Missing | Readable "u8 list" | Faulty "u8 list"

function file_loop :: "Sha256Context \<Rightarrow> u8 list \<Rightarrow> (bool \<times> Sha256Context) option" where
  "file_loop c rest = (let buffer = take 8192 rest in
     case (if length buffer > 0 then sha_update c buffer else Some (True, c)) of
       None \<Rightarrow> None
     | Some (ok, c') \<Rightarrow>
         if \<not> ok then Some (False, c')
         else if length buffer < 8192 then Some (True, c')
         else file_loop c' (drop 8192 rest))"
  by auto
termination by (relation "measure (length \<circ> snd)") auto

declare file_loop.simps [simp del]

definition sha256File :: "input_file \<Rightarrow> string option option" where
  "sha256File f = (case f of
       Missing \<Rightarrow> Some None
     | Readable bytes \<Rightarrow> (case file_loop Sha256Context_init bytes of
           None \<Rightarrow> None
         | Some (ok, c) \<Rightarrow> Some (if ok then map_option fst (finish c) else None))
     | Faulty bytes \<Rightarrow> map_option (\<lambda>_. None) (file_loop Sha256Context_init bytes))"

subsection \<open>The standard's description\<close>

definition fips_sigma0 :: "u32 \<Rightarrow> u32" where
  "fips_sigma0 x = word_rotr 7 x XOR word_rotr 18 x XOR drop_bit 3 x"

definition fips_sigma1 :: "u32 \<Rightarrow> u32" where
  "fips_sigma1 x = word_rotr 17 x XOR word_rotr 19 x XOR drop_bit 10 x"

function fips_W :: "u32 list \<Rightarrow> nat \<Rightarrow> u32" where
  "fips_W M t = (if t < 16 then M ! t
     else fips_sigma1 (fips_W M (t - 2)) + fips_W M (t - 7) + fips_sigma0 (fips_W M (t - 15))
       + fips_W M (t - 16))"
  by auto
termination by (relation "measure snd") auto

declare fips_W.simps [simp del]

definition fips_block_words :: "u8 list \<Rightarrow> u32 list" where
  "fips_block_words block = map (\<lambda>i. word_of_nat (
     unat (block ! (4 * i)) * 2 ^ 24 + unat (block ! (4 * i + 1)) * 2 ^ 16 +
     unat (block ! (4 * i + 2)) * 2 ^ 8 + unat (block ! (4 * i + 3)))) [0..<16]"

fun fips_step :: "u32 \<Rightarrow> u32 \<Rightarrow> working \<Rightarrow> working" where
  "fips_step K W (a, b, c, d, e, f, g, h) = (let
     T1 = h + (word_rotr 6 e XOR word_rotr 11 e XOR word_rotr 25 e) + ((e AND f) XOR ((NOT e) AND g)) + K + W;
     T2 = (word_rotr 2 a XOR word_rotr 13 a XOR word_rotr 22 a) + ((a AND b) XOR (a AND c) XOR (b AND c))
     in (T1 + T2, a, b, c, d + T1, e, f, g))"

fun add_working :: "u32 list \<Rightarrow> working \<Rightarrow> u32 list" where
  "add_working H (a, b, c, d, e, f, g, h) = map2 (+) H [a, b, c, d, e, f, g, h]"

fun working_of :: "u32 list \<Rightarrow> working" where
  "working_of H = (H ! 0, H ! 1, H ! 2, H ! 3, H ! 4, H ! 5, H ! 6, H ! 7)"

definition fips_compress :: "u8 list \<Rightarrow> u32 list \<Rightarrow> u32 list" where
  "fips_compress block H = add_working H
     (fold (\<lambda>t. fips_step (kRoundConstants ! t) (fips_W (fips_block_words block) t)) [0..<64] (working_of H))"

definition be_bytes :: "nat \<Rightarrow> nat \<Rightarrow> u8 list" where
  "be_bytes k n = map (\<lambda>i. word_of_nat (n div 256 ^ (k - 1 - i))) [0..<k]"

definition fips_pad :: "u8 list \<Rightarrow> u8 list" where
  "fips_pad m = m @ [0x80] @ replicate ((119 - length m mod 64) mod 64) 0 @ be_bytes 8 (8 * length m)"

function chunks :: "u8 list \<Rightarrow> u8 list list" where
  "chunks xs = (if length xs < 64 then [] else take 64 xs # chunks (drop 64 xs))"
  by auto
termination by (relation "measure length") auto

declare chunks.simps [simp del]

definition fips_hash :: "u8 list \<Rightarrow> u32 list" where
  "fips_hash m = fold fips_compress (chunks (fips_pad m)) (sc_state Sha256Context_init)"

fun hex_digits :: "nat \<Rightarrow> nat \<Rightarrow> string" where
  "hex_digits 0 n = []"
| "hex_digits (Suc k) n = hex_digits k (n div 16) @ [hex_digit (n mod 16)]"

definition fips_sha256 :: "u8 list \<Rightarrow> string" where
  "fips_sha256 m = concat (map (\<lambda>w. hex_digits 8 (unat w)) (fips_hash m))"

subsection \<open>Compression\<close>

lemma rotateRight_rotr:
  assumes "k \<le> 32"
  shows "rotateRight v k = word_rotr k v"
proof (rule bit_word_eqI)
  fix n
  assume n: "n < LENGTH(32)"
  have out: "\<not> bit v (k + n)" if "32 \<le> n + k" using that bit_imp_le_length [of v "k + n"] by auto
  show "bit (rotateRight v k) n = bit (word_rotr k v) n"
  proof (cases "n + k < 32")
    case True
    then show ?thesis using n by (auto simp: rotateRight_def bit_word_rotr_iff bit_simps add.commute)
  next
    case False
    then have m: "(n + k) mod 32 = n - (32 - k)" and le: "32 - k \<le> n"
      using n assms by (auto simp: mod_if)
    have "bit (rotateRight v k) n \<longleftrightarrow> bit v (n - (32 - k))"
      using n False out le by (simp add: rotateRight_def bit_simps)
    moreover have "bit (word_rotr k v) n \<longleftrightarrow> bit v (n - (32 - k))"
      using n m by (simp add: bit_word_rotr_iff)
    ultimately show ?thesis by blast
  qed
qed

lemma shifted_byte: "push_bit n (ucast (b :: u8)) = (word_of_nat (unat b * 2 ^ n) :: u32)"
  by (simp add: push_bit_eq_mult)

lemma disjoint_bytes:
  fixes a b c d :: u8
  shows "push_bit 24 (ucast a) OR push_bit 16 (ucast b) OR push_bit 8 (ucast c) OR (ucast d :: u32) =
    push_bit 24 (ucast a) + push_bit 16 (ucast b) + push_bit 8 (ucast c) + ucast d"
proof -
  have high: "n < 8" if "bit x n" for x :: u8 and n using bit_imp_le_length [OF that] by simp
  have 1: "push_bit 8 (ucast c) AND (ucast d :: u32) = 0"
    by (rule bit_word_eqI) (auto simp: bit_simps dest!: high)
  have 2: "push_bit 16 (ucast b) AND (push_bit 8 (ucast c) OR (ucast d :: u32)) = 0"
    by (rule bit_word_eqI) (auto simp: bit_simps dest!: high)
  have 3: "push_bit 24 (ucast a) AND (push_bit 16 (ucast b) OR push_bit 8 (ucast c) OR (ucast d :: u32)) = 0"
    by (rule bit_word_eqI) (auto simp: bit_simps dest!: high)
  show ?thesis
    by (simp only: add.assoc disjunctive_add_eq_or [OF 1] disjunctive_add_eq_or [OF 2]
        disjunctive_add_eq_or [OF 3])
qed

lemma load_word_value:
  "load_word block i = word_of_nat (
     unat (block ! (4 * i)) * 2 ^ 24 + unat (block ! (4 * i + 1)) * 2 ^ 16 +
     unat (block ! (4 * i + 2)) * 2 ^ 8 + unat (block ! (4 * i + 3)))"
proof -
  have "ucast b = (word_of_nat (unat b) :: u32)" for b :: u8 by simp
  then show ?thesis
    unfolding load_word_def Let_def disjoint_bytes unfolding shifted_byte mult.commute [of i] by simp
qed


text \<open>A loop that fills a list position by position, each from the positions before it.\<close>

lemma fill_loop:
  assumes "\<And>xs i. i < n \<Longrightarrow> length xs = N \<Longrightarrow> (\<forall>j < i. xs ! j = W j) \<Longrightarrow> m \<le> i \<Longrightarrow> f xs i = W i"
    and "length xs = N" and "\<forall>j < m. xs ! j = W j" and "m \<le> n" and "n \<le> N"
  shows "length (fold (\<lambda>i xs. xs[i := f xs i]) [m..<n] xs) = N \<and>
    (\<forall>j < n. fold (\<lambda>i xs. xs[i := f xs i]) [m..<n] xs ! j = W j)"
  using assms(4,1,5)
proof (induction n rule: dec_induct)
  case base
  then show ?case using assms by simp
next
  case (step n)
  then have IH: "length (fold (\<lambda>i xs. xs[i := f xs i]) [m..<n] xs) = N"
    "\<forall>j < n. fold (\<lambda>i xs. xs[i := f xs i]) [m..<n] xs ! j = W j"
    by auto
  then show ?case using step.prems(1) [of n, OF _ IH] step by (auto simp: nth_list_update less_Suc_eq)
qed

lemma fips_W_low: "t < 16 \<Longrightarrow> fips_W M t = M ! t"
  by (subst fips_W.simps) simp

lemma fips_W_high: "16 \<le> t \<Longrightarrow> fips_W M t =
    fips_sigma1 (fips_W M (t - 2)) + fips_W M (t - 7) + fips_sigma0 (fips_W M (t - 15)) + fips_W M (t - 16)"
  by (subst fips_W.simps) simp

lemma expand_word_fips:
  assumes "\<forall>j < i. ws ! j = fips_W M j" and "16 \<le> i"
  shows "expand_word ws i = fips_W M i"
proof -
  have "ws ! (i - d) = fips_W M (i - d)" if "0 < d" "d \<le> 16" for d using that assms by simp
  then show ?thesis
    by (simp add: expand_word_def Let_def fips_sigma0_def fips_sigma1_def rotateRight_rotr
        fips_W_high [OF assms(2)])
qed

lemma schedule_words_nth:
  assumes "t < 64"
  shows "schedule_words block ! t = fips_W (fips_block_words block) t"
proof -
  let ?W = "fips_W (fips_block_words block)"
  define ws where "ws = fold (\<lambda>i ws. ws[i := load_word block i]) [0..<16] (replicate 64 0)"
  have ws: "length ws = 64 \<and> (\<forall>j < 16. ws ! j = ?W j)"
    unfolding ws_def by (rule fill_loop) (auto simp: fips_W_low fips_block_words_def load_word_value)
  have "length (fold (\<lambda>i ws. ws[i := expand_word ws i]) [16..<64] ws) = 64 \<and>
      (\<forall>j < 64. fold (\<lambda>i ws. ws[i := expand_word ws i]) [16..<64] ws ! j = ?W j)"
    by (rule fill_loop) (use ws in \<open>blast intro: expand_word_fips | simp\<close>)+
  then show ?thesis using assms unfolding schedule_words_def ws_def by blast
qed

lemma working_cases: "\<exists>a b c d e f g h. (v :: working) = (a, b, c, d, e, f, g, h)"
  by (metis surj_pair)

lemma sha_round_fips: "i < 64 \<Longrightarrow> sha_round (schedule_words block) i v =
    fips_step (kRoundConstants ! i) (fips_W (fips_block_words block) i) v"
  using working_cases [of v] by (auto simp: sha_round_def Let_def rotateRight_rotr schedule_words_nth)

lemma add_working_length [simp]: "length H = 8 \<Longrightarrow> length (add_working H v) = 8"
  using working_cases [of v] by auto

lemma add_working_nth: "length H = 8 \<Longrightarrow> (case v of (a, b, c, d, e, f, g, h) \<Rightarrow>
    [H ! 0 + a, H ! 1 + b, H ! 2 + c, H ! 3 + d, H ! 4 + e, H ! 5 + f, H ! 6 + g, H ! 7 + h]) = add_working H v"
  using working_cases [of v] by (auto simp: length_Suc_conv eval_nat_numeral)

lemma transform_state_fips:
  assumes "length H = 8"
  shows "transform_state H block = fips_compress block H"
proof -
  have "fold (sha_round (schedule_words block)) [0..<64] v =
      fold (\<lambda>t. fips_step (kRoundConstants ! t) (fips_W (fips_block_words block) t)) [0..<64] v" for v
    by (rule fold_cong) (auto simp: sha_round_fips)
  then show ?thesis
    by (simp only: transform_state_def fips_compress_def Let_def add_working_nth [OF assms] working_of.simps)
qed


subsection \<open>The context holds a prefix of the message\<close>

definition H0 :: "u32 list" where
  "H0 = sc_state Sha256Context_init"

definition filled :: "Sha256Context \<Rightarrow> u8 list \<Rightarrow> bool" where
  "filled c m \<longleftrightarrow> length (sc_block c) = 64 \<and> sc_block_size c \<le> 64 \<and>
     (\<exists>bs. (\<forall>b \<in> set bs. length b = 64) \<and> m = concat bs @ take (sc_block_size c) (sc_block c) \<and>
       sc_state c = fold fips_compress bs H0)"

lemma length_H0 [simp]: "length H0 = 8"
  by (simp add: H0_def Sha256Context_init_def)

lemma length_fold_compress: "length H = 8 \<Longrightarrow> length (fold fips_compress bs H) = 8"
  by (induction bs arbitrary: H) (simp_all add: fips_compress_def)

lemma filled_init: "filled Sha256Context_init []"
  by (auto simp: filled_def H0_def Sha256Context_init_def intro: exI [of _ "[]"])

lemma concat_lengths: "\<forall>b \<in> set bs. length b = 64 \<Longrightarrow> length (concat bs) = 64 * length bs"
  by (induction bs) auto

lemma filled_length:
  assumes "filled c m"
  shows "length m mod 64 = sc_block_size c mod 64"
  using assms by (auto simp: filled_def concat_lengths)

lemma filled_transform:
  assumes "filled c m" and "sc_block_size c = 64"
  shows "filled ((transform c)\<lparr>sc_block_size := 0\<rparr>) m"
proof -
  obtain bs where bs: "\<forall>b \<in> set bs. length b = 64" "m = concat bs @ sc_block c"
    "sc_state c = fold fips_compress bs H0" "length (sc_block c) = 64"
    using assms by (auto simp: filled_def)
  then have "transform_state (sc_state c) (sc_block c) = fold fips_compress (bs @ [sc_block c]) H0"
    by (simp add: transform_state_fips length_fold_compress)
  with bs show ?thesis
    by (auto simp: filled_def transform_def intro!: exI [of _ "bs @ [sc_block c]"])
qed

lemma store_bytes_take:
  "at + length xs \<le> length block \<Longrightarrow>
    length (store_bytes block at xs) = length block \<and>
    take (at + length xs) (store_bytes block at xs) = take at block @ xs"
proof (induction xs arbitrary: block at)
  case (Cons x xs)
  from Cons.IH [of "at + 1" "block[at := x]"] Cons.prems show ?case
    by (simp add: take_Suc_conv_app_nth)
qed simp

lemma filled_store:
  assumes "filled c m" and "sc_block_size c + length xs \<le> 64"
  shows "filled (c\<lparr>sc_block := store_bytes (sc_block c) (sc_block_size c) xs,
    sc_block_size := sc_block_size c + length xs\<rparr>) (m @ xs)"
  using assms store_bytes_take [of "sc_block_size c" xs "sc_block c"] by (auto simp: filled_def)

lemma absorb_once_filled:
  assumes "filled c m" and "sc_block_size c < 64" and "xs \<noteq> []"
  shows "\<exists>ys. xs = ys @ snd (absorb_once c xs) \<and> ys \<noteq> [] \<and> filled (fst (absorb_once c xs)) (m @ ys) \<and>
    sc_block_size (fst (absorb_once c xs)) < 64 \<and>
    sc_total_bytes (fst (absorb_once c xs)) = sc_total_bytes c"
proof -
  define cnt where "cnt = (if length xs < 64 - sc_block_size c then length xs else 64 - sc_block_size c)"
  let ?ys = "take cnt xs"
  let ?c = "c\<lparr>sc_block := store_bytes (sc_block c) (sc_block_size c) ?ys,
    sc_block_size := sc_block_size c + cnt\<rparr>"
  have len: "length ?ys = cnt" "sc_block_size c + cnt \<le> 64" "0 < cnt"
    using assms by (auto simp: cnt_def)
  have "filled ?c (m @ ?ys)" using filled_store [OF assms(1), of ?ys] len by simp
  moreover have "absorb_once c xs =
      (if sc_block_size ?c = 64 then (transform ?c)\<lparr>sc_block_size := 0\<rparr> else ?c, drop cnt xs)"
    by (simp add: absorb_once_def Let_def cnt_def)
  ultimately show ?thesis
    using filled_transform [of ?c] len assms(3)
    by (intro exI [of _ ?ys]) (auto simp: transform_def)
qed

lemma absorb_filled:
  "filled c m \<Longrightarrow> sc_block_size c < 64 \<Longrightarrow> \<exists>c'. absorb c xs = Some c' \<and> filled c' (m @ xs) \<and>
    sc_block_size c' < 64 \<and> sc_total_bytes c' = sc_total_bytes c"
proof (induction "length xs" arbitrary: c m xs rule: less_induct)
  case less
  show ?case
  proof (cases "xs = []")
    case True
    then show ?thesis using less.prems by (simp add: absorb.simps)
  next
    case False
    obtain c1 rest where step: "absorb_once c xs = (c1, rest)" by (cases "absorb_once c xs")
    from absorb_once_filled [OF less.prems False] step obtain ys where
      ys: "xs = ys @ rest" "ys \<noteq> []" "filled c1 (m @ ys)" "sc_block_size c1 < 64"
      "sc_total_bytes c1 = sc_total_bytes c" by auto
    then show ?thesis using less.hyps [of rest c1 "m @ ys"] False step by (subst absorb.simps) auto
  qed
qed


lemma append_byte_filled:
  assumes "filled c m" and "sc_block_size c < 64"
  shows "filled (append_byte b c) (m @ [b])"
  using filled_store [of c m "[b]"] assms by (simp add: append_byte_def)

lemma append_byte_size [simp]: "sc_block_size (append_byte b c) = sc_block_size c + 1"
  by (simp add: append_byte_def)

declare pad_zeros.simps [simp del]

lemma pad_zeros_filled:
  "limit \<le> 64 \<Longrightarrow> filled c m \<Longrightarrow> filled (pad_zeros limit c) (m @ replicate (limit - sc_block_size c) 0) \<and>
    sc_block_size (pad_zeros limit c) = max limit (sc_block_size c)"
proof (induction limit c arbitrary: m rule: pad_zeros.induct)
  case (1 limit c)
  show ?case
  proof (cases "sc_block_size c < limit")
    case True
    then have "limit - sc_block_size c = Suc (limit - Suc (sc_block_size c))" by simp
    moreover have "filled (append_byte 0 c) (m @ [0])" using append_byte_filled True 1 by simp
    note 1(1) [OF True 1(2) this]
    ultimately show ?thesis using True by (subst (1 2) pad_zeros.simps) (auto simp: max_def)
  next
    case False
    with 1 show ?thesis by (subst (1 2) pad_zeros.simps) simp
  qed
qed

lemma chunks_concat: "\<forall>b \<in> set bs. length b = 64 \<Longrightarrow> chunks (concat bs) = bs"
  by (induction bs) (subst chunks.simps; simp)+

lemma filled_state: "filled c m \<Longrightarrow> sc_block_size c = 0 \<Longrightarrow> sc_state c = fold fips_compress (chunks m) H0"
  by (auto simp: filled_def chunks_concat)

lemma low_byte: "ucast (x AND 0xff :: u64) = (ucast x :: u8)"
proof (rule bit_word_eqI)
  fix n
  assume "n < LENGTH(8)"
  moreover have ff: "(0xff :: u64) = mask 8" by (simp add: mask_eq_exp_minus_1)
  ultimately show "bit (ucast (x AND 0xff :: u64) :: u8) n = bit (ucast x :: u8) n"
    unfolding ff by (simp add: bit_simps)
qed

lemma length_byte_value: "n < 2 ^ 64 \<Longrightarrow> length_byte (of_nat n) i = word_of_nat (n div 2 ^ (56 - i * 8))"
proof -
  assume "n < 2 ^ 64"
  then have "unat (drop_bit (56 - i * 8) (of_nat n :: u64)) = n div 2 ^ (56 - i * 8)"
    by (subst unat_drop_bit_eq) (simp add: drop_bit_eq_div unat_of_nat take_bit_nat_eq_self)
  then show ?thesis by (simp add: length_byte_def low_byte) (metis of_nat_unat)
qed

lemma length_bytes_store:
  assumes "n < 2 ^ 64"
  shows "fold (\<lambda>i b. b[56 + i := length_byte (of_nat n) i]) [0..<8] block = store_bytes block 56 (be_bytes 8 n)"
  using length_byte_value [OF assms] by (simp add: be_bytes_def upt_rec)

lemma be_bytes_length [simp]: "length (be_bytes k n) = k"
  by (simp add: be_bytes_def)


lemma finish_blocks:
  assumes "filled c m" and "sc_block_size c < 64"
  defines "c1 \<equiv> append_byte 0x80 c"
  defines "c2 \<equiv> (if sc_block_size c1 > 56 then (transform (pad_zeros 64 c1))\<lparr>sc_block_size := 0\<rparr> else c1)"
  shows "filled (pad_zeros 56 c2) (m @ [0x80] @ replicate ((119 - length m mod 64) mod 64) 0) \<and>
    sc_block_size (pad_zeros 56 c2) = 56"
proof -
  have size: "length m mod 64 = sc_block_size c" using filled_length [OF assms(1)] assms(2) by simp
  have c1: "filled c1 (m @ [0x80])" "sc_block_size c1 = sc_block_size c + 1"
    using append_byte_filled [OF assms(1,2)] by (simp_all add: c1_def)
  show ?thesis
  proof (cases "sc_block_size c1 > 56")
    case True
    let ?m = "m @ [0x80] @ replicate (63 - sc_block_size c) 0"
    have "filled (pad_zeros 64 c1) ?m" "sc_block_size (pad_zeros 64 c1) = 64"
      using pad_zeros_filled [of 64 c1 "m @ [0x80]"] c1 assms(2) by simp_all
    then have "filled c2 ?m" "sc_block_size c2 = 0"
      using filled_transform True by (simp_all add: c2_def)
    then have "filled (pad_zeros 56 c2) (?m @ replicate 56 0)" "sc_block_size (pad_zeros 56 c2) = 56"
      using pad_zeros_filled [of 56 c2 ?m] by simp_all
    moreover have "(119 - sc_block_size c) mod 64 = 63 - sc_block_size c + 56"
      using True assms(2) c1(2) by (simp add: mod_if)
    then have "replicate ((119 - sc_block_size c) mod 64) (0 :: u8) =
        replicate (63 - sc_block_size c) 0 @ replicate 56 0"
      by (simp only: replicate_add)
    ultimately show ?thesis unfolding size by simp
  next
    case False
    then have "c2 = c1" by (simp add: c2_def)
    moreover have "(119 - sc_block_size c) mod 64 = 55 - sc_block_size c"
      using False c1(2) by (simp add: mod_if)
    ultimately show ?thesis
      using pad_zeros_filled [of 56 c1 "m @ [0x80]"] c1 False by (simp add: size)
  qed
qed

declare show_hex.simps [simp del]

lemma hex_digit_zero: "hex_digit 0 = CHR ''0''"
  by code_simp

lemma hex_digits_zero: "hex_digits k 0 = replicate k (CHR ''0'')"
  by (induction k) (simp_all add: replicate_append_same hex_digit_zero del: hex_digit.simps)

lemma hex_digits_setw0: "n < 16 ^ Suc k \<Longrightarrow> setw0 (Suc k) (show_hex n) = hex_digits (Suc k) n"
proof (induction k arbitrary: n)
  case 0
  then show ?case by (subst show_hex.simps) (simp add: setw0_def)
next
  case (Suc k)
  show ?case
  proof (cases "n < 16")
    case True
    then show ?thesis
      using hex_digits_zero [of "Suc k"] by (subst show_hex.simps) (simp add: setw0_def del: hex_digit.simps)
  next
    case False
    have "setw0 (Suc (Suc k)) (xs @ [d]) = setw0 (Suc k) xs @ [d]" for xs d by (simp add: setw0_def)
    moreover have "n div 16 < 16 ^ Suc k" using Suc.prems by (simp add: div_less_iff_less_mult mult.commute)
    ultimately show ?thesis
      using Suc.IH [of "n div 16"] False
      by (subst show_hex.simps) (simp del: hex_digit.simps)
  qed
qed

definition holds :: "Sha256Context \<Rightarrow> u8 list \<Rightarrow> bool" where
  "holds c m \<longleftrightarrow> filled c m \<and> sc_block_size c < 64 \<and> length m < 2 ^ 64 \<and>
     sc_total_bytes c = of_nat (length m)"

definition fips_digest :: "u8 list \<Rightarrow> string option" where
  "fips_digest m = (if 8 * length m < 2 ^ 64 then Some (fips_sha256 m) else None)"

lemma total_limit:
  "n < 2 ^ 64 \<Longrightarrow> (of_nat n :: u64) > (- 1) div 8 \<longleftrightarrow> \<not> 8 * n < 2 ^ 64"
  using word_div_max_iff [of 8 "of_nat n"] by (auto simp: unat_of_nat take_bit_nat_eq_self)

lemma finish_holds:
  assumes "holds c m"
  shows "map_option fst (finish c) = fips_digest m"
proof (cases "8 * length m < 2 ^ 64")
  case False
  then show ?thesis using assms total_limit [of "length m"] by (simp add: finish_def fips_digest_def holds_def)
next
  case True
  let ?n = "8 * length m"
  define c1 where "c1 = append_byte 0x80 c"
  define c2 where "c2 = (if sc_block_size c1 > 56 then (transform (pad_zeros 64 c1))\<lparr>sc_block_size := 0\<rparr> else c1)"
  define c3 where "c3 = pad_zeros 56 c2"
  define c4 where "c4 = c3\<lparr>sc_block := store_bytes (sc_block c3) 56 (be_bytes 8 ?n), sc_block_size := 64\<rparr>"
  have bits: "sc_total_bytes c * 8 = of_nat ?n" using assms by (simp add: holds_def)
  have c3: "filled c3 (m @ [0x80] @ replicate ((119 - length m mod 64) mod 64) 0)" "sc_block_size c3 = 56"
    using finish_blocks [of c m] assms unfolding holds_def c3_def c2_def c1_def by auto
  have "filled c4 (fips_pad m)"
    using filled_store [OF c3(1), of "be_bytes 8 ?n"] c3(2) by (simp add: c4_def fips_pad_def)
  then have st: "sc_state (transform c4) = fips_hash m"
    using filled_state [OF filled_transform] by (simp add: c4_def fips_hash_def H0_def)
  have "finish c = Some (concat (map (\<lambda>v. setw0 8 (show_hex (unat v))) (sc_state (transform c4))),
      (transform c4)\<lparr>sc_block_size := 0\<rparr>)"
    unfolding finish_def Let_def bits length_bytes_store [OF True] c1_def [symmetric] c2_def [symmetric]
      c3_def [symmetric]
    using True assms total_limit [of "length m"] by (simp add: c4_def transform_def holds_def)
  moreover have "setw0 8 (show_hex (unat v)) = hex_digits 8 (unat v)" for v :: u32
    using hex_digits_setw0 [of "unat v" 7] unsigned_less [of v] by simp
  ultimately show ?thesis using True by (simp add: st fips_digest_def fips_sha256_def)
qed


lemma update_holds:
  assumes "holds c m"
  shows "if length m + length xs < 2 ^ 64 then \<exists>c'. sha_update c xs = Some (True, c') \<and> holds c' (m @ xs)
    else sha_update c xs = Some (False, c)"
proof -
  have room: "unat (- 1 - sc_total_bytes c) = 2 ^ 64 - 1 - length m"
    using assms by (subst unat_sub) (simp_all add: holds_def unat_max_size_t unat_of_nat take_bit_nat_eq_self
        word_le_nat_alt)
  show ?thesis
  proof (cases "length m + length xs < 2 ^ 64")
    case True
    let ?c = "c\<lparr>sc_total_bytes := sc_total_bytes c + of_nat (length xs)\<rparr>"
    have "filled ?c m" "sc_block_size ?c < 64" using assms by (simp_all add: holds_def filled_def)
    then show ?thesis
      using absorb_filled [of ?c m xs] room True assms by (auto simp: sha_update_def holds_def)
  next
    case False
    then show ?thesis using room assms by (auto simp: sha_update_def holds_def)
  qed
qed

lemma holds_init: "holds Sha256Context_init []"
  using filled_init by (simp add: holds_def) (simp add: Sha256Context_init_def)

subsection \<open>Feeding a hash in pieces\<close>

text \<open>
  What a client of the context relies on: a context that holds a message accepts more bytes
  until the length limit, and finishing it gives the digest of what it holds.
\<close>

locale incremental_hash =
  fixes start :: 'c and upd :: "'c \<Rightarrow> 'b list \<Rightarrow> (bool \<times> 'c) option" and fin :: "'c \<Rightarrow> 'd option"
    and digest :: "'b list \<Rightarrow> 'd option" and limit :: nat and keeps :: "'c \<Rightarrow> 'b list \<Rightarrow> bool"
  assumes keeps_start: "keeps start []"
    and keeps_update: "keeps c m \<Longrightarrow> length m + length xs < limit \<Longrightarrow>
      \<exists>c'. upd c xs = Some (True, c') \<and> keeps c' (m @ xs)"
    and full_update: "keeps c m \<Longrightarrow> \<not> length m + length xs < limit \<Longrightarrow> upd c xs = Some (False, c)"
    and keeps_finish: "keeps c m \<Longrightarrow> fin c = digest m"
    and full_digest: "\<not> length m < limit \<Longrightarrow> digest m = None"
begin

lemma one_shot:
  "(case upd start m of None \<Rightarrow> None | Some (ok, c) \<Rightarrow> Some (if ok then fin c else None)) = Some (digest m)"
proof (cases "length m < limit")
  case True
  then obtain c where "upd start m = Some (True, c)" "keeps c m"
    using keeps_update [OF keeps_start, of m] by auto
  then show ?thesis by (simp add: keeps_finish)
next
  case False
  then show ?thesis using full_update [OF keeps_start, of m] full_digest by simp
qed

end

interpretation sha: incremental_hash Sha256Context_init sha_update "\<lambda>c. map_option fst (finish c)" fips_digest
  "2 ^ 64" holds
proof (unfold_locales, goal_cases)
  case 1
  show ?case by (rule holds_init)
next
  case (2 c m xs)
  then show ?case using update_holds [of c m xs] by simp
next
  case (3 c m xs)
  then show ?case using update_holds [of c m xs] by simp
next
  case (4 c m)
  then show ?case by (rule finish_holds)
next
  case (5 m)
  then show ?case by (simp add: fips_digest_def)
qed

lemma sha256_fips: "sha256 m = Some (case fips_digest m of None \<Rightarrow> [] | Some d \<Rightarrow> d)"
  using sha.one_shot [of m] unfolding sha256_def by (auto split: option.splits)


lemma file_loop_holds:
  "holds c m \<Longrightarrow> if length m + length rest < 2 ^ 64
     then \<exists>c'. file_loop c rest = Some (True, c') \<and> holds c' (m @ rest)
     else \<exists>c'. file_loop c rest = Some (False, c')"
proof (induction "length rest" arbitrary: c m rest rule: less_induct)
  case less
  let ?buf = "take 8192 rest" and ?rest = "drop 8192 rest"
  show ?case
  proof (cases "length m + length ?buf < 2 ^ 64")
    case False
    then have "\<not> length m + length rest < 2 ^ 64" "0 < length ?buf"
      using less.prems by (auto simp: holds_def)
    then show ?thesis
      using sha.full_update [OF less.prems False] by (subst (1 2) file_loop.simps) (simp add: Let_def)
  next
    case True
    obtain c1 where c1: "sha_update c ?buf = Some (True, c1)" "holds c1 (m @ ?buf)"
      using sha.keeps_update [OF less.prems True] by blast
    show ?thesis
    proof (cases "length ?buf < 8192")
      case short: True
      then have "?buf = rest" by simp
      with c1 less.prems short True show ?thesis
        by (subst (1 2) file_loop.simps) (auto simp: Let_def)
    next
      case full: False
      then have "file_loop c rest = file_loop c1 ?rest"
        by (subst file_loop.simps) (use c1(1) full in \<open>auto simp: Let_def\<close>)
      moreover have "length ?rest < length rest" using full by auto
      ultimately show ?thesis using less.hyps [of ?rest c1 "m @ ?buf"] c1(2) full by auto
    qed
  qed
qed

subsection \<open>The properties\<close>


text \<open>
  C29: \<open>sha256File\<close> reads a file in pieces of 8192 bytes and returns the same digest as
  hashing the whole contents at once; it reports failure exactly when the file cannot be
  opened, the device fails, or the contents are too long to hash.
\<close>

theorem sha256File_is_sha256:
  "sha256File f = Some (case f of Missing \<Rightarrow> None | Faulty _ \<Rightarrow> None
     | Readable m \<Rightarrow> if 8 * length m < 2 ^ 64 then sha256 m else None)"
proof (cases f)
  case (Readable m)
  show ?thesis
  proof (cases "length m < 2 ^ 64")
    case True
    then obtain c where "file_loop Sha256Context_init m = Some (True, c)" "holds c m"
      using file_loop_holds [OF holds_init, of m] by auto
    then show ?thesis
      using Readable finish_holds [of c m] by (simp add: sha256File_def sha256_fips fips_digest_def)
  next
    case False
    then obtain c where "file_loop Sha256Context_init m = Some (False, c)"
      using file_loop_holds [OF holds_init, of m] by auto
    with False Readable show ?thesis by (auto simp: sha256File_def)
  qed
next
  case (Faulty m)
  then show ?thesis
    using file_loop_holds [OF holds_init, of m] by (auto simp: sha256File_def split: if_splits)
qed (simp add: sha256File_def)

end
