(* ===== verification/CText.thy ===== *)
theory CText
  imports Prelude
begin

section \<open>Text routines of the C and C++ library\<close>

text \<open>
  The routines of the standard library that several components use to read text: character
  classes of the C locale, the integer reader \<open>std::strtoll\<close>, and splitting a stream at a
  delimiter with \<open>std::getline\<close>. A string handed over as \<open>c_str()\<close> ends at its first NUL.
\<close>

definition is_space :: "char \<Rightarrow> bool" where
  "is_space c = (c \<in> {CHR '' '', CHR 0x09, CHR 0x0A, CHR 0x0B, CHR 0x0C, CHR 0x0D})"

definition is_digit :: "char \<Rightarrow> bool" where
  "is_digit c = (48 \<le> (of_char c :: nat) \<and> (of_char c :: nat) \<le> 57)"

definition is_upper :: "char \<Rightarrow> bool" where
  "is_upper c = (65 \<le> (of_char c :: nat) \<and> (of_char c :: nat) \<le> 90)"

definition to_lower :: "char \<Rightarrow> char" where
  "to_lower c = (if is_upper c then char_of ((of_char c :: nat) + 32) else c)"

definition digits_value :: "string \<Rightarrow> nat" where
  "digits_value ds = foldl (\<lambda>n c. 10 * n + (of_char c - 48)) 0 ds"

definition c_str :: "string \<Rightarrow> string" where
  "c_str s = takeWhile (\<lambda>c. c \<noteq> CHR 0x00) s"

text \<open>
  \<open>std::strtoll\<close> in base ten: the value, clamped to the signed 64-bit range; the unread rest;
  and whether \<open>errno\<close> was set. Without digits nothing is consumed.
\<close>

definition strtoll :: "string \<Rightarrow> int \<times> string \<times> bool" where
  "strtoll raw = (let
     s = dropWhile is_space raw;
     neg = (s \<noteq> [] \<and> hd s = CHR ''-'');
     t = (if s \<noteq> [] \<and> hd s \<in> {CHR ''-'', CHR ''+''} then tl s else s);
     ds = takeWhile is_digit t;
     n = (if neg then - int (digits_value ds) else int (digits_value ds))
     in if ds = [] then (0, raw, False)
        else if n > 2 ^ 63 - 1 then (2 ^ 63 - 1, dropWhile is_digit t, True)
        else if n < - (2 ^ 63) then (- (2 ^ 63), dropWhile is_digit t, True)
        else (n, dropWhile is_digit t, False))"

text \<open>The pieces that successive \<open>std::getline\<close> calls with a delimiter give.\<close>

fun split_on :: "char \<Rightarrow> string \<Rightarrow> string list" where
  "split_on d [] = [[]]"
| "split_on d (c # cs) =
     (if c = d then [] # split_on d cs else (c # hd (split_on d cs)) # tl (split_on d cs))"

definition getlines :: "char \<Rightarrow> string \<Rightarrow> string list" where
  "getlines d s = (let ps = split_on d s in if last ps = [] then butlast ps else ps)"

subsection \<open>Reading back a printed number\<close>

lemma digit_char_digit: "d < 10 \<Longrightarrow> is_digit (digit_char d)"
  by (simp add: digit_char_def is_digit_def)

lemma digit_char_value: "d < 10 \<Longrightarrow> (of_char (digit_char d) :: nat) - 48 = d"
  by (simp add: digit_char_def)

lemma show_nat_digits: "list_all is_digit (show_nat n)"
proof (induction n rule: show_nat.induct)
  case (1 n)
  then show ?case by (subst show_nat.simps) (auto simp: digit_char_digit)
qed

lemma show_nat_not_Nil [simp]: "show_nat n \<noteq> []"
  by (subst show_nat.simps) simp

lemma digits_value_show: "digits_value (show_nat n) = n"
proof (induction n rule: show_nat.induct)
  case (1 n)
  then show ?case by (subst show_nat.simps) (auto simp: digits_value_def digit_char_value)
qed

lemma takeWhile_digits: "list_all is_digit ds \<Longrightarrow> takeWhile is_digit ds = ds"
  and dropWhile_digits: "list_all is_digit ds \<Longrightarrow> dropWhile is_digit ds = []"
  by (induction ds) auto

lemma digit_not_space: "is_digit c \<Longrightarrow> \<not> is_space c"
  by (auto simp: is_digit_def is_space_def)

lemma digit_not_sign: "is_digit c \<Longrightarrow> c \<noteq> CHR ''-'' \<and> c \<noteq> CHR ''+'' \<and> c \<noteq> CHR '','' \<and> c \<noteq> CHR 0x00"
  by (auto simp: is_digit_def)

lemma strtoll_digits:
  assumes "list_all is_digit ds" and "ds \<noteq> []" and "digits_value ds \<le> 2 ^ 63 - 1"
  shows "strtoll ds = (int (digits_value ds), [], False)"
  using assms by (cases ds)
    (auto simp: strtoll_def Let_def digit_not_space digit_not_sign takeWhile_digits dropWhile_digits)

lemma strtoll_minus_digits:
  assumes "list_all is_digit ds" and "ds \<noteq> []" and "digits_value ds \<le> 2 ^ 63"
  shows "strtoll (CHR ''-'' # ds) = (- int (digits_value ds), [], False)"
  using assms by (auto simp: strtoll_def Let_def is_space_def takeWhile_digits dropWhile_digits)

lemma strtoll_show_int:
  assumes "- (2 ^ 63) \<le> i" and "i < 2 ^ 63"
  shows "strtoll (show_int i) = (i, [], False)"
proof (cases "i < 0")
  case True
  then have "nat (- i) \<le> 2 ^ 63" using assms by (simp add: nat_le_iff)
  then show ?thesis using True show_nat_digits [of "nat (- i)"]
    by (simp add: show_int_def strtoll_minus_digits digits_value_show)
next
  case False
  then have "nat i \<le> 2 ^ 63 - 1" using assms by (simp add: nat_le_iff)
  then show ?thesis using False show_nat_digits [of "nat i"]
    by (simp add: show_int_def strtoll_digits digits_value_show)
qed

lemma split_on_not_Nil [simp]: "split_on d s \<noteq> []"
  by (induction s) auto

lemma split_on_append: "d \<notin> set xs \<Longrightarrow> split_on d (xs @ d # ys) = xs # split_on d ys"
  by (induction xs) auto

lemma split_on_single: "d \<notin> set xs \<Longrightarrow> split_on d xs = [xs]"
  by (induction xs) auto

fun join_with :: "char \<Rightarrow> string list \<Rightarrow> string" where
  "join_with d [] = []"
| "join_with d [p] = p"
| "join_with d (p # q # ps) = p @ d # join_with d (q # ps)"

lemma set_join_with: "set (join_with d ps) \<subseteq> insert d (\<Union>p \<in> set ps. set p)"
  by (induction d ps rule: join_with.induct) auto

lemma split_on_join: "ps \<noteq> [] \<Longrightarrow> \<forall>p \<in> set ps. d \<notin> set p \<Longrightarrow> split_on d (join_with d ps) = ps"
  by (induction d ps rule: join_with.induct) (auto simp: split_on_append split_on_single)

lemma getlines_join:
  assumes "\<forall>p \<in> set ps. p \<noteq> [] \<and> d \<notin> set p"
  shows "getlines d (join_with d ps) = ps"
proof (cases "ps = []")
  case False
  then have "split_on d (join_with d ps) = ps" using assms by (simp add: split_on_join)
  moreover have "last ps \<noteq> []" using False assms by (meson last_in_set)
  ultimately show ?thesis by (simp add: getlines_def Let_def)
qed (simp add: getlines_def)

end
