(* ===== verification/ParserGuard.thy ===== *)
theory ParserGuard
  imports CText
begin

section \<open>The parser's resource guard\<close>

text \<open>
  \<open>parser/ParserLimits.h\<close>: the process-wide guard that bounds source size, scanner matches,
  token size and delimiter nesting. The guard state is a record threaded through the
  operations; the process environment is an argument of the operations that read it; the
  text written to the error stream is the value \<open>emitParserGuardFailure\<close> returns.
\<close>

subsection \<open>Reading a limit from the environment\<close>

text \<open>
  \<open>std::strtoull\<close> in base ten: leading white space, an optional sign, the longest run of
  digits. It returns the value (negated in 64 bits after a minus sign), the unread rest of
  the text, and whether \<open>errno\<close> was set to \<open>ERANGE\<close>. Without digits nothing is consumed.
\<close>

record parsed_number =
  pn_value :: u64
  pn_rest :: string
  pn_range :: bool

definition strtoull :: "string \<Rightarrow> parsed_number" where
  "strtoull raw = (let
     s = dropWhile is_space raw;
     neg = (s \<noteq> [] \<and> hd s = CHR ''-'');
     t = (if s \<noteq> [] \<and> hd s \<in> {CHR ''-'', CHR ''+''} then tl s else s);
     ds = takeWhile is_digit t;
     n = digits_value ds
     in if ds = [] then \<lparr>pn_value = 0, pn_rest = raw, pn_range = False\<rparr>
        else if n \<ge> 2 ^ 64 then \<lparr>pn_value = - 1, pn_rest = dropWhile is_digit t, pn_range = True\<rparr>
        else \<lparr>pn_value = (if neg then - of_nat n else of_nat n), pn_rest = dropWhile is_digit t,
              pn_range = False\<rparr>)"

type_synonym environment = "string \<Rightarrow> string option"

definition lowerOnlyEnvironmentLimit :: "environment \<Rightarrow> string \<Rightarrow> size_t \<Rightarrow> size_t" where
  "lowerOnlyEnvironmentLimit env name production_ceiling = (case env name of
       None \<Rightarrow> production_ceiling
     | Some raw \<Rightarrow>
         if raw = [] then production_ceiling
         else let parsed = strtoull raw in
           if pn_range parsed \<or> pn_rest parsed = raw \<or> pn_rest parsed \<noteq> [] \<or> pn_value parsed = 0
           then production_ceiling
           else min (pn_value parsed) production_ceiling)"

subsection \<open>State and operations\<close>

record ParserLimits =
  max_source_bytes :: size_t
  max_scanner_matches :: size_t
  max_token_bytes :: size_t
  max_nesting_depth :: size_t

definition MaxSourceBytes :: size_t where "MaxSourceBytes = 4 * 1024 * 1024"
definition MaxScannerMatches :: size_t where "MaxScannerMatches = 250000"
definition MaxTokenBytes :: size_t where "MaxTokenBytes = 16 * 1024"
definition MaxNestingDepth :: size_t where "MaxNestingDepth = 256"

record ParserGuardState =
  gs_limits :: ParserLimits
  gs_scanner_matches :: size_t
  gs_nesting_depth :: size_t
  gs_failure_code :: string
  gs_failure_message :: string
  gs_emitted :: bool

definition guard_state_init :: ParserGuardState where
  "guard_state_init = \<lparr>
     gs_limits = \<lparr>max_source_bytes = MaxSourceBytes, max_scanner_matches = MaxScannerMatches,
       max_token_bytes = MaxTokenBytes, max_nesting_depth = MaxNestingDepth\<rparr>,
     gs_scanner_matches = 0, gs_nesting_depth = 0, gs_failure_code = [], gs_failure_message = [],
     gs_emitted = False\<rparr>"

definition limitMessage :: "string \<Rightarrow> u64 \<Rightarrow> size_t \<Rightarrow> string" where
  "limitMessage subject observed maximum =
     subject @ '' '' @ show_nat (unat observed) @ '' exceeds maximum '' @ show_nat (unat maximum)"

definition resetParserGuard :: "environment \<Rightarrow> ParserGuardState" where
  "resetParserGuard env = guard_state_init\<lparr>gs_limits := \<lparr>
     max_source_bytes = lowerOnlyEnvironmentLimit env ''SHORTHAND_MAX_SOURCE_BYTES'' MaxSourceBytes,
     max_scanner_matches = lowerOnlyEnvironmentLimit env ''SHORTHAND_MAX_SCANNER_MATCHES'' MaxScannerMatches,
     max_token_bytes = lowerOnlyEnvironmentLimit env ''SHORTHAND_MAX_TOKEN_BYTES'' MaxTokenBytes,
     max_nesting_depth = lowerOnlyEnvironmentLimit env ''SHORTHAND_MAX_NESTING_DEPTH'' MaxNestingDepth\<rparr>\<rparr>"

definition currentParserLimits :: "ParserGuardState \<Rightarrow> ParserLimits" where
  "currentParserLimits g = gs_limits g"

definition hasParserGuardFailure :: "ParserGuardState \<Rightarrow> bool" where
  "hasParserGuardFailure g = (gs_failure_code g \<noteq> [])"

definition recordParserGuardFailure :: "string option \<Rightarrow> string \<Rightarrow> ParserGuardState \<Rightarrow> ParserGuardState" where
  "recordParserGuardFailure code message g =
     (if gs_failure_code g \<noteq> [] then g
      else g\<lparr>gs_failure_code := (case code of None \<Rightarrow> ''SHD2001'' | Some c \<Rightarrow> c),
             gs_failure_message := message\<rparr>)"

definition validateSourceBytes :: "environment \<Rightarrow> u64 \<Rightarrow> ParserGuardState \<Rightarrow> bool \<times> ParserGuardState" where
  "validateSourceBytes env source_bytes g = (let
     g = g\<lparr>gs_limits := (gs_limits g)\<lparr>max_source_bytes :=
       lowerOnlyEnvironmentLimit env ''SHORTHAND_MAX_SOURCE_BYTES'' MaxSourceBytes\<rparr>\<rparr>
     in if source_bytes \<le> max_source_bytes (gs_limits g) then (True, g)
        else (False, recordParserGuardFailure (Some ''SHD2004'')
               (limitMessage ''source bytes'' source_bytes (max_source_bytes (gs_limits g))) g))"

definition noteScannerMatch :: "ParserGuardState \<Rightarrow> bool \<times> ParserGuardState" where
  "noteScannerMatch g =
     (if hasParserGuardFailure g then (False, g)
      else let g = g\<lparr>gs_scanner_matches := gs_scanner_matches g + 1\<rparr> in
        if gs_scanner_matches g \<le> max_scanner_matches (gs_limits g) then (True, g)
        else (False, recordParserGuardFailure (Some ''SHD2006'')
               (limitMessage ''scanner matches'' (gs_scanner_matches g) (max_scanner_matches (gs_limits g))) g))"

definition noteTokenBytes :: "size_t \<Rightarrow> ParserGuardState \<Rightarrow> bool \<times> ParserGuardState" where
  "noteTokenBytes token_bytes g =
     (if hasParserGuardFailure g then (False, g)
      else if token_bytes \<le> max_token_bytes (gs_limits g) then (True, g)
      else (False, recordParserGuardFailure (Some ''SHD2005'')
             (limitMessage ''token bytes'' token_bytes (max_token_bytes (gs_limits g))) g))"

definition enterDelimiter :: "ParserGuardState \<Rightarrow> bool \<times> ParserGuardState" where
  "enterDelimiter g =
     (if hasParserGuardFailure g then (False, g)
      else if gs_nesting_depth g \<ge> max_nesting_depth (gs_limits g)
      then (False, recordParserGuardFailure (Some ''SHD2007'')
             (limitMessage ''delimiter nesting depth'' (gs_nesting_depth g + 1)
               (max_nesting_depth (gs_limits g))) g)
      else (True, g\<lparr>gs_nesting_depth := gs_nesting_depth g + 1\<rparr>))"

definition leaveDelimiter :: "ParserGuardState \<Rightarrow> ParserGuardState" where
  "leaveDelimiter g =
     (if gs_nesting_depth g > 0 then g\<lparr>gs_nesting_depth := gs_nesting_depth g - 1\<rparr> else g)"

definition parserGuardFailureCode :: "ParserGuardState \<Rightarrow> string" where
  "parserGuardFailureCode g = (if gs_failure_code g = [] then ''SHD2001'' else gs_failure_code g)"

definition parserGuardFailureMessage :: "ParserGuardState \<Rightarrow> string" where
  "parserGuardFailureMessage g =
     (if gs_failure_message g = [] then ''parser guard failure'' else gs_failure_message g)"

definition emitParserGuardFailure ::
  "string option \<Rightarrow> int \<Rightarrow> int \<Rightarrow> int \<Rightarrow> int \<Rightarrow> ParserGuardState \<Rightarrow> string \<times> ParserGuardState" where
  "emitParserGuardFailure source_path first_line first_column last_line last_column g =
     (if gs_emitted g \<or> \<not> hasParserGuardFailure g then ([], g)
      else let
        g = g\<lparr>gs_emitted := True\<rparr>;
        path = (case source_path of None \<Rightarrow> ''<input>'' | Some p \<Rightarrow> p);
        at = (\<lambda>l c. show_int l @ '':'' @ show_int c)
        in (''----------------ERROR----------------'' @ [CHR 0x0A] @
            path @ '':'' @ at first_line first_column @ '': error: ['' @ parserGuardFailureCode g @ ''] '' @
            parserGuardFailureMessage g @ '' [range '' @ at first_line first_column @ ''-'' @
            at last_line last_column @ '']'' @ [CHR 0x0A], g))"

subsection \<open>The calls the scanner and the driver make\<close>

datatype guard_call =
  Reset environment | ValidateSource environment u64 | Match | Token size_t | Enter | Leave
| Emit "string option" int int int int

fun guard_step :: "ParserGuardState \<Rightarrow> guard_call \<Rightarrow> bool \<times> ParserGuardState" where
  "guard_step g (Reset env) = (True, resetParserGuard env)"
| "guard_step g (ValidateSource env n) = validateSourceBytes env n g"
| "guard_step g Match = noteScannerMatch g"
| "guard_step g (Token n) = noteTokenBytes n g"
| "guard_step g Enter = enterDelimiter g"
| "guard_step g Leave = (True, leaveDelimiter g)"
| "guard_step g (Emit p l c l' c') = (True, snd (emitParserGuardFailure p l c l' c' g))"

definition guard_run :: "guard_call list \<Rightarrow> ParserGuardState" where
  "guard_run = run (\<lambda>g c. Inr (snd (guard_step g c)) :: unit + ParserGuardState) guard_state_init"


text \<open>
  What a scan asks of the guard, and the declarative reading of the limits: how many matches
  it makes, how long its tokens are, how deep its delimiters nest (a stray closing
  delimiter leaves the depth at zero).
\<close>

fun accepts :: "ParserGuardState \<Rightarrow> guard_call list \<Rightarrow> bool" where
  "accepts g [] = True"
| "accepts g (c # cs) = (fst (guard_step g c) \<and> accepts (snd (guard_step g c)) cs)"

fun scan_call :: "guard_call \<Rightarrow> bool" where
  "scan_call Match = True"
| "scan_call (Token n) = True"
| "scan_call Enter = True"
| "scan_call Leave = True"
| "scan_call _ = False"

fun depth_from :: "nat \<Rightarrow> guard_call list \<Rightarrow> nat" where
  "depth_from d [] = d"
| "depth_from d (Enter # cs) = depth_from (d + 1) cs"
| "depth_from d (Leave # cs) = depth_from (d - 1) cs"
| "depth_from d (_ # cs) = depth_from d cs"

fun depths_within :: "nat \<Rightarrow> nat \<Rightarrow> guard_call list \<Rightarrow> bool" where
  "depths_within D d cs = (\<forall>k \<le> length cs. depth_from d (take k cs) \<le> D)"

definition lowered :: "size_t \<Rightarrow> size_t \<Rightarrow> bool" where
  "lowered n ceiling \<longleftrightarrow> 0 < n \<and> n \<le> ceiling"

definition guard_inv :: "ParserGuardState \<Rightarrow> bool" where
  "guard_inv g \<longleftrightarrow>
     lowered (max_source_bytes (gs_limits g)) MaxSourceBytes \<and>
     lowered (max_scanner_matches (gs_limits g)) MaxScannerMatches \<and>
     lowered (max_token_bytes (gs_limits g)) MaxTokenBytes \<and>
     lowered (max_nesting_depth (gs_limits g)) MaxNestingDepth \<and>
     gs_nesting_depth g \<le> max_nesting_depth (gs_limits g) \<and>
     unat (gs_scanner_matches g) \<le> unat (max_scanner_matches (gs_limits g)) + of_bool (hasParserGuardFailure g) \<and>
     (gs_emitted g \<longrightarrow> hasParserGuardFailure g)"

subsection \<open>Every call keeps the invariant\<close>

lemma lowerOnly_lowered: "0 < c \<Longrightarrow> lowered (lowerOnlyEnvironmentLimit env name c) c"
  by (auto simp: lowerOnlyEnvironmentLimit_def lowered_def Let_def min_def word_gt_0 split: option.splits)

lemma ceilings_pos: "0 < MaxSourceBytes" "0 < MaxScannerMatches" "0 < MaxTokenBytes" "0 < MaxNestingDepth"
  by (simp_all add: MaxSourceBytes_def MaxScannerMatches_def MaxTokenBytes_def MaxNestingDepth_def)

lemmas guard_ops = resetParserGuard_def validateSourceBytes_def noteScannerMatch_def noteTokenBytes_def
  enterDelimiter_def leaveDelimiter_def emitParserGuardFailure_def recordParserGuardFailure_def
  hasParserGuardFailure_def Let_def

lemma small_inc:
  fixes n :: size_t
  assumes "n \<le> c" and "c \<le> MaxScannerMatches"
  shows "unat (n + 1) = Suc (unat n)"
proof -
  have "unat n \<le> 250000"
    using assms by (simp add: word_le_nat_alt MaxScannerMatches_def)
  then show ?thesis by (simp add: unat_word_ariths)
qed

lemma guard_inv_init: "guard_inv guard_state_init"
  by (simp add: guard_inv_def guard_state_init_def lowered_def ceilings_pos hasParserGuardFailure_def
      MaxScannerMatches_def)

lemma nesting_inc:
  fixes n :: size_t
  assumes "\<not> c \<le> n"
  shows "n + 1 \<le> c"
  using assms by (metis not_less word_le_less_eq inc_le)

lemma guard_inv_match: "guard_inv g \<Longrightarrow> guard_inv (snd (noteScannerMatch g))"
  using small_inc [of "gs_scanner_matches g" "max_scanner_matches (gs_limits g)"]
  by (auto simp: guard_inv_def guard_ops lowered_def word_le_nat_alt)

lemma guard_inv_leave: "guard_inv g \<Longrightarrow> guard_inv (leaveDelimiter g)"
  by (auto simp: guard_inv_def guard_ops word_le_nat_alt word_less_nat_alt unat_sub)

lemma guard_inv_step: "guard_inv g \<Longrightarrow> guard_inv (snd (guard_step g c))"
proof (cases c)
  case (Reset env)
  then show ?thesis
    using lowerOnly_lowered ceilings_pos
    by (simp add: guard_inv_def resetParserGuard_def guard_state_init_def)
next
  case (ValidateSource env n)
  then show "guard_inv g \<Longrightarrow> ?thesis"
    using lowerOnly_lowered [OF ceilings_pos(1)] by (auto simp: guard_inv_def guard_ops)
next
  case Enter
  then show "guard_inv g \<Longrightarrow> ?thesis"
    by (auto simp: guard_inv_def guard_ops nesting_inc)
qed (auto simp: guard_inv_match guard_inv_leave, auto simp: guard_inv_def guard_ops)

interpretation guard: invariant_object "\<lambda>g c. Inr (snd (guard_step g c)) :: unit + ParserGuardState"
  guard_state_init guard_inv
  by unfold_locales (auto simp: guard_inv_init guard_inv_step)


subsection \<open>Failures stay\<close>

lemma failure_step:
  assumes "hasParserGuardFailure g" and "\<forall>env. c \<noteq> Reset env"
  shows "gs_failure_code (snd (guard_step g c)) = gs_failure_code g \<and>
    gs_failure_message (snd (guard_step g c)) = gs_failure_message g"
  using assms by (cases c) (auto simp: guard_ops)

lemma failure_run:
  assumes "hasParserGuardFailure g" and "\<forall>env. Reset env \<notin> set cs"
  shows "gs_failure_code (run (\<lambda>g c. Inr (snd (guard_step g c)) :: unit + ParserGuardState) g cs) = gs_failure_code g \<and>
    gs_failure_message (run (\<lambda>g c. Inr (snd (guard_step g c)) :: unit + ParserGuardState) g cs) = gs_failure_message g"
  using assms
proof (induction cs arbitrary: g)
  case (Cons c cs)
  have keep: "gs_failure_code (snd (guard_step g c)) = gs_failure_code g"
    "gs_failure_message (snd (guard_step g c)) = gs_failure_message g"
    using failure_step [of g c] Cons.prems by auto
  have "hasParserGuardFailure (snd (guard_step g c))"
    using keep Cons.prems by (simp add: hasParserGuardFailure_def)
  then show ?case using Cons.IH [of "snd (guard_step g c)"] Cons.prems keep by auto
qed simp

subsection \<open>What a scan may do\<close>

lemma depths_within_Nil: "depths_within D d [] \<longleftrightarrow> d \<le> D"
  by simp

lemma depths_within_Cons:
  "depths_within D d (c # cs) \<longleftrightarrow> d \<le> D \<and> depths_within D (depth_from d [c]) cs"
proof -
  define e where "e = depth_from d [c]"
  have "depth_from d (c # xs) = depth_from e xs" for xs
    unfolding e_def by (cases c) auto
  moreover have "(\<forall>k \<le> Suc n. P k) \<longleftrightarrow> P 0 \<and> (\<forall>k \<le> n. P (Suc k))" for n and P :: "nat \<Rightarrow> bool"
    by (metis Suc_le_mono le0 not0_implies_Suc)
  ultimately show ?thesis unfolding e_def [symmetric] by (simp del: depth_from.simps(2-))
qed

declare depths_within.simps [simp del]

lemma accepted_step:
  assumes "guard_inv g" and "\<not> hasParserGuardFailure g" and "scan_call c"
  defines "g' \<equiv> snd (guard_step g c)"
  shows "if fst (guard_step g c)
    then \<not> hasParserGuardFailure g' \<and> gs_limits g' = gs_limits g \<and>
      unat (gs_scanner_matches g') = unat (gs_scanner_matches g) + of_bool (c = Match) \<and>
      unat (gs_nesting_depth g') = depth_from (unat (gs_nesting_depth g)) [c] \<and>
      (\<forall>n. c = Token n \<longrightarrow> n \<le> max_token_bytes (gs_limits g))
    else c = Match \<and> unat (gs_scanner_matches g) = unat (max_scanner_matches (gs_limits g)) \<or>
      (\<exists>n. c = Token n \<and> \<not> n \<le> max_token_bytes (gs_limits g)) \<or>
      c = Enter \<and> unat (gs_nesting_depth g) = unat (max_nesting_depth (gs_limits g))"
proof (cases c)
  case Match
  have "unat (gs_scanner_matches g + 1) = Suc (unat (gs_scanner_matches g))"
    using assms by (intro small_inc) (auto simp: guard_inv_def lowered_def word_le_nat_alt)
  then show ?thesis using assms(1,2) Match
    by (auto simp: g'_def guard_ops guard_inv_def word_le_nat_alt)
next
  case Enter
  have "unat (gs_nesting_depth g + 1) = Suc (unat (gs_nesting_depth g))"
    if "\<not> max_nesting_depth (gs_limits g) \<le> gs_nesting_depth g"
    using that by (intro unat_inc_less [of _ "max_nesting_depth (gs_limits g)"]) simp
  then show ?thesis using assms(1,2) Enter
    by (auto simp: g'_def guard_ops guard_inv_def word_le_nat_alt)
next
  case Leave
  then show ?thesis using assms(2)
    by (auto simp: g'_def guard_ops word_le_nat_alt word_less_nat_alt unat_sub)
qed (use assms in \<open>auto simp: guard_ops\<close>)

lemma accepts_iff:
  assumes "\<forall>c \<in> set cs. scan_call c" and "guard_inv g" and "\<not> hasParserGuardFailure g"
  shows "accepts g cs \<longleftrightarrow>
    unat (gs_scanner_matches g) + count_list cs Match \<le> unat (max_scanner_matches (gs_limits g)) \<and>
    (\<forall>n. Token n \<in> set cs \<longrightarrow> n \<le> max_token_bytes (gs_limits g)) \<and>
    depths_within (unat (max_nesting_depth (gs_limits g))) (unat (gs_nesting_depth g)) cs"
  using assms
proof (induction cs arbitrary: g)
  case Nil
  then show ?case by (simp add: guard_inv_def word_le_nat_alt depths_within_Nil)
next
  case (Cons c cs)
  let ?g = "snd (guard_step g c)"
  have inv: "guard_inv ?g" by (rule guard_inv_step) (rule Cons.prems)
  show ?case
  proof (cases "fst (guard_step g c)")
    case True
    with accepted_step [of g c] Cons.prems have g: "\<not> hasParserGuardFailure ?g" "gs_limits ?g = gs_limits g"
      "unat (gs_scanner_matches ?g) = unat (gs_scanner_matches g) + of_bool (c = Match)"
      "unat (gs_nesting_depth ?g) = depth_from (unat (gs_nesting_depth g)) [c]"
      "\<forall>n. c = Token n \<longrightarrow> n \<le> max_token_bytes (gs_limits g)"
      by auto
    have "gs_nesting_depth g \<le> max_nesting_depth (gs_limits g)" using Cons.prems by (simp add: guard_inv_def)
    then show ?thesis
      using Cons.IH [OF _ inv g(1)] Cons.prems(1) True g
      by (auto simp: depths_within_Cons word_le_nat_alt)
  next
    case False
    with accepted_step [of g c] Cons.prems show ?thesis
      by (auto simp: depths_within_Cons depths_within.simps)
  qed
qed


lemmas limit_texts = lowerOnlyEnvironmentLimit_def strtoull_def is_space_def is_digit_def digits_value_def

subsection \<open>The properties\<close>

text \<open>
  Whatever calls are made and whatever the environment holds at each of them, the
  configured limits never exceed the production ceilings and are never zero, the nesting
  depth stays within its limit, the scanner is at most one match past its limit, and once
  it is past the limit a failure is recorded.
\<close>

theorem guard_never_exceeds_ceilings:
  "let g = guard_run cs; l = currentParserLimits g in
     0 < max_source_bytes l \<and> max_source_bytes l \<le> MaxSourceBytes \<and>
     0 < max_scanner_matches l \<and> max_scanner_matches l \<le> MaxScannerMatches \<and>
     0 < max_token_bytes l \<and> max_token_bytes l \<le> MaxTokenBytes \<and>
     0 < max_nesting_depth l \<and> max_nesting_depth l \<le> MaxNestingDepth \<and>
     gs_nesting_depth g \<le> max_nesting_depth l \<and>
     unat (gs_scanner_matches g) \<le> unat (max_scanner_matches l) + of_bool (hasParserGuardFailure g)"
  using guard.inv_reachable [of cs]
  unfolding guard_run_def [symmetric] guard_inv_def lowered_def currentParserLimits_def Let_def by blast

text \<open>
  The first failure is the one reported. Once a failure is recorded, no later call other
  than a reset changes its code or message, and the scanner, token and delimiter checks
  all refuse.
\<close>

theorem first_failure_is_kept:
  assumes "hasParserGuardFailure (guard_run cs)" and "\<forall>env. Reset env \<notin> set ds"
  shows "parserGuardFailureCode (guard_run (cs @ ds)) = parserGuardFailureCode (guard_run cs) \<and>
    parserGuardFailureMessage (guard_run (cs @ ds)) = parserGuardFailureMessage (guard_run cs) \<and>
    \<not> fst (noteScannerMatch (guard_run (cs @ ds))) \<and> \<not> fst (noteTokenBytes n (guard_run (cs @ ds))) \<and>
    \<not> fst (enterDelimiter (guard_run (cs @ ds)))"
proof -
  have "gs_failure_code (guard_run (cs @ ds)) = gs_failure_code (guard_run cs) \<and>
      gs_failure_message (guard_run (cs @ ds)) = gs_failure_message (guard_run cs)"
    using failure_run [OF assms] by (simp add: guard_run_def run_append)
  then show ?thesis
    using assms(1)
    by (simp add: parserGuardFailureCode_def parserGuardFailureMessage_def hasParserGuardFailure_def
        noteScannerMatch_def noteTokenBytes_def enterDelimiter_def)
qed

theorem first_failure_is_kept_witness:
  "parserGuardFailureCode (guard_run ([ValidateSource (\<lambda>_. Some ''8'') 9] @ [Match, Token 3])) = ''SHD2004''"
proof -
  have v: "gs_failure_code (snd (validateSourceBytes (\<lambda>_. Some ''8'') 9 guard_state_init)) = ''SHD2004''"
    by (simp add: validateSourceBytes_def guard_state_init_def recordParserGuardFailure_def
        MaxSourceBytes_def limit_texts)
  have "gs_failure_code (guard_run [ValidateSource (\<lambda>_. Some ''8'') 9]) = ''SHD2004''"
    using v by (simp add: guard_run_def)
  with first_failure_is_kept [of "[ValidateSource (\<lambda>_. Some ''8'') 9]" "[Match, Token 3]"]
  show ?thesis by (simp add: hasParserGuardFailure_def parserGuardFailureCode_def)
qed

text \<open>
  C32: A scan that starts from a reset guard is accepted exactly when it stays within the
  limits as unbounded numbers: its number of matches, the size of each token, and the
  nesting depth after every prefix of it. The wrapping counters never let a longer scan
  through and never stop a shorter one.
\<close>

theorem scan_accepted_iff_within_limits:
  assumes "\<forall>c \<in> set cs. scan_call c"
  shows "accepts (resetParserGuard env) cs \<longleftrightarrow>
    count_list cs Match \<le> unat (max_scanner_matches (currentParserLimits (resetParserGuard env))) \<and>
    (\<forall>n. Token n \<in> set cs \<longrightarrow> n \<le> max_token_bytes (currentParserLimits (resetParserGuard env))) \<and>
    depths_within (unat (max_nesting_depth (currentParserLimits (resetParserGuard env)))) 0 cs"
proof -
  have "guard_inv (resetParserGuard env)"
    using guard_inv_step [OF guard_inv_init, of "Reset env"] by simp
  from accepts_iff [OF assms this] show ?thesis
    by (simp add: currentParserLimits_def resetParserGuard_def guard_state_init_def hasParserGuardFailure_def)
qed

theorem scan_accepted_iff_within_limits_witness:
  "\<not> accepts (resetParserGuard (\<lambda>_. Some ''1'')) [Enter, Enter]"
proof -
  have l: "max_nesting_depth (currentParserLimits (resetParserGuard (\<lambda>_. Some ''1''))) = 1"
    by (simp add: currentParserLimits_def resetParserGuard_def MaxNestingDepth_def limit_texts)
  show ?thesis
    using scan_accepted_iff_within_limits [of "[Enter, Enter]" "\<lambda>_. Some ''1''"]
    unfolding l by (auto simp: depths_within.simps)
qed

end
