(* ===== verification/AITypes.thy ===== *)
theory AITypes
  imports CText
begin

section \<open>Names, formats and shapes of the AI runtime\<close>

text \<open>
  \<open>ai_runtime/AI_Types.cpp\<close>: the enumerations of element types, model formats and backends
  with their readers and printers, and tensor shapes. A dimension is a signed 64-bit integer,
  kept as an \<open>int\<close>; the product of a shape is computed in \<open>size_t\<close> and wraps.
\<close>

datatype ElementType = Float32 | Float16 | BFloat16 | Int8 | Int4 | Int32 | ElementUnknown

datatype ModelFormat = Onnx | TensorRTEngine | TorchScript | OpenVINOIR | GGUF | FormatUnknown

datatype BackendKind = TensorRT | OnnxRuntimeTensorRT | OnnxRuntimeCUDA | OnnxRuntimeCPU | OpenVINO
  | LibTorch | LlamaCpp | Fallback

definition norm_text :: "string \<Rightarrow> string" where
  "norm_text s = map (\<lambda>c. if c = CHR ''-'' then CHR ''_'' else to_lower c) s"

definition is_blank :: "char \<Rightarrow> bool" where
  "is_blank c = (c \<in> {CHR '' '', CHR 0x09, CHR 0x0D, CHR 0x0A})"

definition trim :: "string \<Rightarrow> string" where
  "trim s = rev (dropWhile is_blank (rev (dropWhile is_blank s)))"

definition parseInt64NoThrow :: "string \<Rightarrow> int option" where
  "parseInt64NoThrow token = (let t = trim token in
     if t = [] then None
     else (case strtoll (c_str t) of (v, rest, erange) \<Rightarrow>
       if erange \<or> rest = c_str t \<or> rest \<noteq> [] then None else Some v))"

definition parseElementType :: "string \<Rightarrow> ElementType" where
  "parseElementType v = (let s = norm_text v in
     if s = ''float'' \<or> s = ''float32'' \<or> s = ''f32'' then Float32
     else if s = ''float16'' \<or> s = ''fp16'' \<or> s = ''f16'' then Float16
     else if s = ''bfloat16'' \<or> s = ''bf16'' then BFloat16
     else if s = ''int8'' then Int8 else if s = ''int4'' then Int4
     else if s = ''int32'' \<or> s = ''int'' then Int32 else ElementUnknown)"

definition parseModelFormat :: "string \<Rightarrow> ModelFormat" where
  "parseModelFormat v = (let s = norm_text v in
     if s = ''onnx'' then Onnx
     else if s = ''engine'' \<or> s = ''tensorrt'' \<or> s = ''tensorrt_engine'' then TensorRTEngine
     else if s = ''torchscript'' \<or> s = ''torch'' then TorchScript
     else if s = ''openvino_ir'' \<or> s = ''openvino'' then OpenVINOIR
     else if s = ''gguf'' then GGUF else FormatUnknown)"

definition parseBackendKind :: "string \<Rightarrow> BackendKind" where
  "parseBackendKind v = (let s = norm_text v in
     if s = ''tensorrt'' then TensorRT
     else if s = ''onnxruntime_tensorrt'' then OnnxRuntimeTensorRT
     else if s = ''onnxruntime_cuda'' then OnnxRuntimeCUDA
     else if s = ''onnxruntime'' \<or> s = ''onnxruntime_cpu'' then OnnxRuntimeCPU
     else if s = ''openvino'' then OpenVINO else if s = ''libtorch'' then LibTorch
     else if s = ''llamacpp'' \<or> s = ''llama_cpp'' \<or> s = ''llama.cpp'' then LlamaCpp else Fallback)"

fun backendKindToString :: "BackendKind \<Rightarrow> string" where
  "backendKindToString TensorRT = ''tensorrt''"
| "backendKindToString OnnxRuntimeTensorRT = ''onnxruntime_tensorrt''"
| "backendKindToString OnnxRuntimeCUDA = ''onnxruntime_cuda''"
| "backendKindToString OnnxRuntimeCPU = ''onnxruntime_cpu''"
| "backendKindToString OpenVINO = ''openvino''"
| "backendKindToString LibTorch = ''libtorch''"
| "backendKindToString LlamaCpp = ''llamacpp''"
| "backendKindToString Fallback = ''fallback''"

fun modelFormatToString :: "ModelFormat \<Rightarrow> string" where
  "modelFormatToString Onnx = ''onnx''"
| "modelFormatToString TensorRTEngine = ''engine''"
| "modelFormatToString TorchScript = ''torchscript''"
| "modelFormatToString OpenVINOIR = ''openvino_ir''"
| "modelFormatToString GGUF = ''gguf''"
| "modelFormatToString FormatUnknown = ''unknown''"

fun parse_dims :: "string list \<Rightarrow> int list \<Rightarrow> int list" where
  "parse_dims [] r = r"
| "parse_dims (t # ts) r = (case parseInt64NoThrow t of None \<Rightarrow> [] | Some v \<Rightarrow> parse_dims ts (r @ [v]))"

definition parseShapeCsv :: "string \<Rightarrow> int list" where
  "parseShapeCsv csv =
     (if norm_text (trim csv) = ''dynamic'' then [] else parse_dims (getlines (CHR '','') csv) [])"

fun product_loop :: "int list \<Rightarrow> size_t \<Rightarrow> size_t" where
  "product_loop [] p = p"
| "product_loop (d # ds) p = (if d \<le> 0 then 0 else product_loop ds (p * of_int d))"

definition productOfShape :: "int list \<Rightarrow> size_t" where
  "productOfShape s = (if s = [] then 0 else product_loop s 1)"

definition validateShape :: "int list \<Rightarrow> bool" where
  "validateShape s = (s \<noteq> [] \<and> productOfShape s > 0)"

subsection \<open>Names\<close>

lemma parseBackendKind_name: "norm_text s = backendKindToString k \<Longrightarrow> parseBackendKind s = k"
  by (cases k) (simp_all add: parseBackendKind_def)

lemma parseModelFormat_name: "norm_text s = modelFormatToString f \<Longrightarrow> parseModelFormat s = f"
  by (cases f) (simp_all add: parseModelFormat_def)

text \<open>
  The names of backends and model formats read back: parsing a text that normalises to
  what the printers print gives the same value, for every backend and every format. The
  normal form maps upper case to lower case and hyphens to underscores.
\<close>

theorem backend_and_format_names_read_back:
  "(norm_text s = backendKindToString k \<longrightarrow> parseBackendKind s = k) \<and>
   (norm_text t = modelFormatToString f \<longrightarrow> parseModelFormat t = f) \<and>
   parseBackendKind (backendKindToString k) = k \<and> parseModelFormat (modelFormatToString f) = f"
proof -
  have "norm_text (backendKindToString k) = backendKindToString k" "norm_text (modelFormatToString f) = modelFormatToString f"
    by (cases k; simp only: backendKindToString.simps; code_simp)
      (cases f; simp only: modelFormatToString.simps; code_simp)
  then show ?thesis by (simp add: parseBackendKind_name parseModelFormat_name)
qed

theorem backend_and_format_names_read_back_witness:
  "norm_text ''ONNXRuntime-CUDA'' = backendKindToString OnnxRuntimeCUDA \<and> parseBackendKind ''ONNXRuntime-CUDA'' = OnnxRuntimeCUDA"
proof -
  have "norm_text ''ONNXRuntime-CUDA'' = backendKindToString OnnxRuntimeCUDA"
    by code_simp
  then show ?thesis using backend_and_format_names_read_back [of "''ONNXRuntime-CUDA''" OnnxRuntimeCUDA] by blast
qed

subsection \<open>Shapes\<close>

lemma no_blank_drop: "\<forall>c \<in> set s. \<not> is_blank c \<Longrightarrow> dropWhile is_blank s = s"
  by (cases s) auto

lemma no_blank_trim: "\<forall>c \<in> set s. \<not> is_blank c \<Longrightarrow> trim s = s"
  by (simp add: trim_def no_blank_drop)

definition dim_char :: "char \<Rightarrow> bool" where
  "dim_char c \<longleftrightarrow> is_digit c \<or> c = CHR ''-''"

lemma show_int_chars: "list_all dim_char (show_int i)"
  using show_nat_digits by (auto simp: show_int_def dim_char_def list.pred_set)

lemma dim_char_plain: "dim_char c \<Longrightarrow> \<not> is_blank c \<and> c \<noteq> CHR '','' \<and> c \<noteq> CHR 0x00 \<and> to_lower c \<noteq> CHR ''d''"
  by (auto simp: dim_char_def is_blank_def is_digit_def to_lower_def is_upper_def)

lemma show_int_not_Nil: "show_int i \<noteq> []"
  by (simp add: show_int_def)

lemma parseInt64_show:
  assumes "- (2 ^ 63) \<le> i" and "i < 2 ^ 63"
  shows "parseInt64NoThrow (show_int i) = Some i"
proof -
  have "trim (show_int i) = show_int i" "c_str (show_int i) = show_int i"
    using show_int_chars [of i] dim_char_plain
    by (auto simp: c_str_def list.pred_set intro!: no_blank_trim)
  then show ?thesis using assms
    by (simp add: parseInt64NoThrow_def Let_def show_int_not_Nil [symmetric] strtoll_show_int) (simp add: show_int_not_Nil)
qed

lemma parse_dims_show:
  "\<forall>d \<in> set ds. - (2 ^ 63) \<le> d \<and> d < 2 ^ 63 \<Longrightarrow> parse_dims (map show_int ds) r = r @ ds"
  by (induction ds arbitrary: r) (auto simp: parseInt64_show)


lemma not_dynamic: "norm_text (trim (join_with (CHR '','') (map show_int ds))) \<noteq> ''dynamic''"
proof -
  let ?s = "join_with (CHR '','') (map show_int ds)"
  have c: "c = CHR '','' \<or> dim_char c" if "c \<in> set ?s" for c
    using that set_join_with [of "CHR '',''" "map show_int ds"] show_int_chars by (auto simp: list.pred_set)
  have "\<not> is_blank c \<and> to_lower c \<noteq> CHR ''d''" if "c \<in> set ?s" for c
    using c [OF that] dim_char_plain [of c] by (auto simp: is_blank_def to_lower_def is_upper_def)
  then have "trim ?s = ?s" "CHR ''d'' \<notin> set (norm_text ?s)"
    by (blast intro: no_blank_trim) (use \<open>\<And>c. c \<in> set ?s \<Longrightarrow> \<not> is_blank c \<and> to_lower c \<noteq> CHR ''d''\<close> in
      \<open>force simp: norm_text_def split: if_splits\<close>)
  then show ?thesis by (metis list.set_intros(1))
qed

text \<open>
  Shapes read back: the comma-separated decimal text of any list of 64-bit dimensions
  parses to that list.
\<close>

theorem shape_text_reads_back:
  assumes "\<forall>d \<in> set ds. - (2 ^ 63) \<le> d \<and> d < 2 ^ 63"
  shows "parseShapeCsv (join_with (CHR '','') (map show_int ds)) = ds"
proof -
  have plain: "show_int d \<noteq> [] \<and> CHR '','' \<notin> set (show_int d)" for d
    using show_int_chars [of d] dim_char_plain show_int_not_Nil by (auto simp: list.pred_set)
  have "getlines (CHR '','') (join_with (CHR '','') (map show_int ds)) = map show_int ds"
    by (rule getlines_join) (simp add: plain)
  then show ?thesis using parse_dims_show [OF assms, of "[]"] not_dynamic [of ds] unfolding parseShapeCsv_def by simp
qed

theorem shape_text_reads_back_witness:
  "list_all (\<lambda>d. - (2 ^ 63) \<le> d \<and> d < (2 ^ 63 :: int)) [1, 3, 224, 224] \<and>
   parseShapeCsv (join_with (CHR '','') (map show_int [1, 3, 224, 224])) = [1, 3, 224, 224]"
  using shape_text_reads_back [of "[1, 3, 224, 224]"] by simp

subsection \<open>Element counts\<close>

lemma product_loop_value:
  "\<forall>d \<in> set ds. 0 < d \<Longrightarrow> product_loop ds p = p * of_int (prod_list ds)"
  by (induction ds arbitrary: p) (auto simp: algebra_simps)

lemma product_loop_zero: "\<exists>d \<in> set ds. d \<le> 0 \<Longrightarrow> product_loop ds p = 0"
  by (induction ds arbitrary: p) auto

text \<open>
  C35: The element count of a shape is the product of its dimensions modulo \<open>2 ^ 64\<close>, and zero
  for an empty shape or one with a dimension that is not positive. So \<open>validateShape\<close> accepts
  exactly the non-empty shapes of positive dimensions whose true product is not a multiple of
  \<open>2 ^ 64\<close>, and the count is exact exactly when the true product fits.
\<close>

theorem element_count_modulo:
  "uint (productOfShape s) =
     (if s = [] \<or> (\<exists>d \<in> set s. d \<le> 0) then 0 else prod_list s mod 2 ^ 64) \<and>
   (validateShape s \<longleftrightarrow> s \<noteq> [] \<and> (\<forall>d \<in> set s. 0 < d) \<and> \<not> 2 ^ 64 dvd prod_list s)"
proof (cases "s \<noteq> [] \<and> (\<forall>d \<in> set s. 0 < d)")
  case True
  then have "productOfShape s = of_int (prod_list s)"
    by (simp add: productOfShape_def product_loop_value)
  then have u: "uint (productOfShape s) = prod_list s mod 2 ^ 64"
    by (simp add: unsigned_of_int take_bit_eq_mod)
  have "validateShape s \<longleftrightarrow> uint (productOfShape s) \<noteq> 0"
    using True by (simp add: validateShape_def word_neq_0_conv [symmetric] unsigned_0 uint_0_iff)
  then show ?thesis using True u by (auto simp: dvd_eq_mod_eq_0 dest: leD)
next
  case False
  then have "s = [] \<or> (\<exists>d \<in> set s. d \<le> 0)" by (auto simp: not_less)
  then have "productOfShape s = 0" using product_loop_zero [of s 1] by (auto simp: productOfShape_def)
  then show ?thesis using False by (auto simp: validateShape_def not_less)
qed

theorem element_count_modulo_witness:
  "uint (productOfShape [4294967297, 4294967296]) = 4294967296"
  using element_count_modulo [of "[4294967297, 4294967296]"] by simp

end
