(* ===== verification/AST.thy ===== *)
theory AST
  imports Binary64
begin

section \<open>The abstract syntax\<close>

text \<open>
  The node classes of \<open>ast/AST.h\<close> and their constructors in \<open>ast/AST.cpp\<close>. Pointers that
  the grammar never leaves null are plain components; the two that may be null (the
  condition of a goto, the expression of a return) are options. Source positions live in a
  table keyed by node address outside the nodes and are not part of the tree. An \<open>int\<close> of
  the sources is a 32-bit word read as two's complement.
\<close>

type_synonym i32 = "32 word"

datatype ShortType = T_Int | T_String | T_Void | T_Boolean | T_Float

subsection \<open>Declarations\<close>

record AST_TYPED_SCALAR_DECLARATION =
  sd_name :: string
  sd_type :: ShortType

record AST_TYPED_ARRAY_DECLARATION =
  ad_name :: string
  ad_size :: int
  ad_type :: ShortType

record AST_DATA_DECLARATION_BLOCK =
  db_single_ints :: "string list"
  db_array_ints :: "(string \<times> int) list"
  db_typed_scalars :: "AST_TYPED_SCALAR_DECLARATION list"
  db_typed_arrays :: "AST_TYPED_ARRAY_DECLARATION list"

definition empty_decl_block :: AST_DATA_DECLARATION_BLOCK where
  "empty_decl_block = \<lparr>db_single_ints = [], db_array_ints = [], db_typed_scalars = [], db_typed_arrays = []\<rparr>"

definition decl_push_scalar :: "string \<Rightarrow> AST_DATA_DECLARATION_BLOCK \<Rightarrow> AST_DATA_DECLARATION_BLOCK" where
  "decl_push_scalar name b = b\<lparr>
     db_single_ints := db_single_ints b @ [name],
     db_typed_scalars := db_typed_scalars b @ [\<lparr>sd_name = name, sd_type = T_Int\<rparr>]\<rparr>"

definition decl_push_array :: "string \<Rightarrow> int \<Rightarrow> AST_DATA_DECLARATION_BLOCK \<Rightarrow> AST_DATA_DECLARATION_BLOCK" where
  "decl_push_array name n b = b\<lparr>
     db_array_ints := db_array_ints b @ [(name, n)],
     db_typed_arrays := db_typed_arrays b @ [\<lparr>ad_name = name, ad_size = n, ad_type = T_Int\<rparr>]\<rparr>"

definition decl_push_block :: "AST_DATA_DECLARATION_BLOCK \<Rightarrow> AST_DATA_DECLARATION_BLOCK \<Rightarrow> AST_DATA_DECLARATION_BLOCK" where
  "decl_push_block c b = \<lparr>
     db_single_ints = db_single_ints b @ db_single_ints c,
     db_array_ints = db_array_ints b @ db_array_ints c,
     db_typed_scalars = db_typed_scalars b @ db_typed_scalars c,
     db_typed_arrays = db_typed_arrays b @ db_typed_arrays c\<rparr>"

definition decl_setType :: "ShortType \<Rightarrow> AST_DATA_DECLARATION_BLOCK \<Rightarrow> AST_DATA_DECLARATION_BLOCK" where
  "decl_setType ty b = b\<lparr>
     db_typed_scalars := map (\<lambda>e. e\<lparr>sd_type := ty\<rparr>) (db_typed_scalars b),
     db_typed_arrays := map (\<lambda>e. e\<lparr>ad_type := ty\<rparr>) (db_typed_arrays b)\<rparr>"

subsection \<open>Expressions\<close>

datatype binop =
  BOP_ERROR | BOP_PLUS | BOP_MINUS | BOP_MULTIPLY | BOP_DIVIDE | BOP_MODULO | BOP_LESS | BOP_GREATER
| BOP_LESS_OR_EQUAL | BOP_GREATER_OR_EQUAL | BOP_EQUAL | BOP_NOT_EQUAL | BOP_OR | BOP_AND

datatype unop = UOP_ERROR | UOP_UMINUS

definition binop_of :: "string \<Rightarrow> binop" where
  "binop_of op =
     (if op = ''+'' then BOP_PLUS else if op = ''-'' then BOP_MINUS else if op = ''/'' then BOP_DIVIDE
      else if op = ''*'' then BOP_MULTIPLY else if op = ''%'' then BOP_MODULO
      else if op = ''<'' then BOP_LESS else if op = ''>'' then BOP_GREATER
      else if op = ''>='' then BOP_GREATER_OR_EQUAL else if op = ''<='' then BOP_LESS_OR_EQUAL
      else if op = ''=='' then BOP_EQUAL else if op = ''!='' then BOP_NOT_EQUAL
      else if op = ''||'' then BOP_OR else if op = ''&&'' then BOP_AND else BOP_ERROR)"

definition unop_of :: "string \<Rightarrow> unop" where
  "unop_of op = (if op = ''-'' then UOP_UMINUS else UOP_ERROR)"

datatype AST_EXPRESSION =
  E_Binary AST_EXPRESSION AST_EXPRESSION binop
| E_Unary AST_EXPRESSION unop
| E_Var AST_VARIABLE
| E_Literal i32
| E_String string
| E_Bool bool
| E_Float binary64
| E_Call string "AST_EXPRESSION list"
and AST_VARIABLE =
  V_Simple string
| V_Array string AST_EXPRESSION

subsection \<open>Data of the AI and certification statements\<close>

record QualityGuardrail =
  qg_metric :: string
  qg_op :: string
  qg_threshold :: binary64

record ModelDeclarationData =
  md_name :: string
  md_format :: string
  md_path :: string
  md_task :: string
  md_precision :: string
  md_input_shape :: string
  md_output_shape :: string
  md_backend_preference :: "string list"
  md_compact :: bool
  md_has_quality_guardrail :: bool
  md_quality_guardrail :: QualityGuardrail

record TensorDeclarationData =
  tn_name :: string
  tn_element_type :: string
  tn_shape_csv :: string
  tn_dynamic :: bool
  tn_rank :: int
  tn_total_elements :: int

record GreenAIContractData =
  gc_name :: string
  gc_functional_unit :: string
  gc_success_criteria :: string
  gc_measurement_quality :: string
  gc_data_quality :: string
  gc_carbon_factor_scope :: string
  gc_evidence_retention :: string
  gc_claims_mode :: string
  gc_boundary :: "string list"
  gc_carbon_factor :: binary64
  gc_energy_budget_j :: binary64
  gc_carbon_budget_gco2e :: binary64
  gc_has_functional_unit :: bool
  gc_has_success_criteria :: bool
  gc_has_boundary :: bool
  gc_has_mq :: bool
  gc_has_dq :: bool
  gc_has_carbon_factor :: bool
  gc_has_quality_guardrail :: bool
  gc_quality_guardrail :: QualityGuardrail

record GreenAIMeasurementData =
  gm_workload :: string
  gm_backend :: string
  gm_inferences :: i32
  gm_watts :: binary64
  gm_seconds :: binary64

datatype C3EcoDeclarationKind =
  CertificationProfile | Certification | FunctionalUnit | Workload | Boundary | MeasurementPlan
| AILifecycle | RAGPipeline | TokenBudget | ModelRouting | Guardrails

fun c3EcoDeclarationKindName :: "C3EcoDeclarationKind \<Rightarrow> string" where
  "c3EcoDeclarationKindName CertificationProfile = ''certification_profile''"
| "c3EcoDeclarationKindName Certification = ''certification''"
| "c3EcoDeclarationKindName FunctionalUnit = ''functional_unit''"
| "c3EcoDeclarationKindName Workload = ''workload''"
| "c3EcoDeclarationKindName Boundary = ''boundary''"
| "c3EcoDeclarationKindName MeasurementPlan = ''measurement_plan''"
| "c3EcoDeclarationKindName AILifecycle = ''ai_lifecycle''"
| "c3EcoDeclarationKindName RAGPipeline = ''rag_pipeline''"
| "c3EcoDeclarationKindName TokenBudget = ''token_budget''"
| "c3EcoDeclarationKindName ModelRouting = ''model_routing''"
| "c3EcoDeclarationKindName Guardrails = ''guardrails''"

datatype C3EcoValueKind = C3_String | C3_Identifier | C3_Integer | C3_Decimal | C3_Boolean

fun c3EcoValueKindName :: "C3EcoValueKind \<Rightarrow> string" where
  "c3EcoValueKindName C3_String = ''string''"
| "c3EcoValueKindName C3_Identifier = ''identifier''"
| "c3EcoValueKindName C3_Integer = ''integer''"
| "c3EcoValueKindName C3_Decimal = ''decimal''"
| "c3EcoValueKindName C3_Boolean = ''boolean''"

record C3EcoValueData =
  cv_kind :: C3EcoValueKind
  cv_text :: string

record C3EcoFieldData =
  cf_name :: string
  cf_values :: "C3EcoValueData list"

record C3EcoDeclarationData =
  cd_kind :: C3EcoDeclarationKind
  cd_name :: string
  cd_fields :: "C3EcoFieldData list"

subsection \<open>Statements, functions and programs\<close>

datatype AST_PRINTABLE_ITEM = P_String string | P_Expr AST_EXPRESSION

datatype AST_STATEMENT =
  S_Decl AST_DATA_DECLARATION_BLOCK
| S_Expr AST_EXPRESSION
| S_Call string "AST_VARIABLE list"
| S_Assign AST_VARIABLE AST_EXPRESSION
| S_Block AST_BLOCK
| S_If AST_EXPRESSION AST_BLOCK
| S_IfElse AST_EXPRESSION AST_BLOCK AST_BLOCK
| S_For AST_VARIABLE AST_EXPRESSION AST_EXPRESSION AST_EXPRESSION AST_BLOCK
| S_While AST_EXPRESSION AST_BLOCK
| S_Goto "AST_EXPRESSION option" string
| S_Read "AST_VARIABLE list"
| S_Print "AST_PRINTABLE_ITEM list"
| S_Label string
| S_GreenReport string AST_EXPRESSION AST_EXPRESSION AST_EXPRESSION
| S_AiInfer string string string
| S_Model ModelDeclarationData
| S_Tensor TensorDeclarationData
| S_Contract GreenAIContractData
| S_Measure GreenAIMeasurementData
| S_C3Eco C3EcoDeclarationData
| S_Infer string string string
| S_Break
| S_Continue
| S_Return "AST_EXPRESSION option"
and AST_BLOCK = Block bool "AST_STATEMENT list"

text \<open>The loop form without a step gets the literal one.\<close>

definition for_without_step :: "AST_VARIABLE \<Rightarrow> AST_EXPRESSION \<Rightarrow> AST_EXPRESSION \<Rightarrow> AST_BLOCK \<Rightarrow> AST_STATEMENT" where
  "for_without_step v from to body = S_For v from (E_Literal 1) to body"

record AST_FUNCTION =
  fn_name :: string
  fn_type :: ShortType
  fn_parameters :: AST_DATA_DECLARATION_BLOCK
  fn_block :: AST_BLOCK

record AST_PROGRAM =
  pg_decl_block :: AST_DATA_DECLARATION_BLOCK
  pg_functions :: "AST_FUNCTION list"
  pg_code_block :: AST_BLOCK

end
