(* ===== verification/Interpreter.thy ===== *)
theory Interpreter
  imports AST "HOL-Library.Monad_Syntax" "HOL-Library.Signed_Division"
begin

section \<open>The interpreter\<close>

text \<open>
  \<open>visitors/Interpreter.cpp\<close>. The members of the class are the record \<open>interp\<close>; each
  \<open>visit\<close> method is one definition that takes the state and returns it updated. The frame
  stack is a list with the innermost frame first (the vector's back). What the program
  prints is the list \<open>in_out\<close>; diagnostics are the list \<open>in_errors\<close> of source path, code and
  text; the standard input is the list of answers that successive extractions give. A trap
  of the machine (undefined arithmetic, an impossible allocation) sets \<open>in_trapped\<close> and
  stops the run like a failure.

  A run may not end, so the visitors take fuel: \<open>None\<close> means that the fuel ran out and
  nothing else. The methods that recurse through \<open>accept\<close> take the visitors of their
  children as arguments, and one recursive definition at the end ties them together.
\<close>

subsection \<open>Values and state\<close>

record RuntimeValue =
  rv_type :: ShortType
  rv_int :: i32
  rv_float :: binary64
  rv_string :: string

record Frame =
  fr_scalars :: "string \<rightharpoonup> RuntimeValue"
  fr_arrays :: "string \<rightharpoonup> RuntimeValue list"

datatype FlowSignal = F_Normal | F_Return | F_Break | F_Continue | F_Goto

datatype stdin_answer = X_Int i32 | X_Float binary64 | X_Fail

datatype stdout_item = O_Text string | O_Int i32 | O_Float binary64

record interp =
  in_frames :: "Frame list"
  in_functions :: "string \<rightharpoonup> AST_FUNCTION \<times> string"
  in_aiModels :: "string \<rightharpoonup> ModelDeclarationData"
  in_aiTensors :: "string \<rightharpoonup> TensorDeclarationData"
  in_entry_source :: string
  in_active_source :: string
  in_str :: string
  in_num :: i32
  in_current_value :: RuntimeValue
  in_flow :: FlowSignal
  in_goto_target :: string
  in_return_value :: RuntimeValue
  in_failed :: bool
  in_trapped :: bool
  in_call_depth :: nat
  in_goto_transfers :: nat
  in_stdin :: "stdin_answer list"
  in_out :: "stdout_item list"
  in_errors :: "(string \<times> string \<times> string) list"

definition kMaxCallDepth :: nat where "kMaxCallDepth = 256"
definition kMaxGotoTransfers :: nat where "kMaxGotoTransfers = 1000000"

definition empty_frame :: Frame where
  "empty_frame = \<lparr>fr_scalars = Map.empty, fr_arrays = Map.empty\<rparr>"

definition defaultValue :: "ShortType \<Rightarrow> RuntimeValue" where
  "defaultValue ty = \<lparr>rv_type = ty, rv_int = 0, rv_float = B_Zero False, rv_string = []\<rparr>"

definition int_value :: "i32 \<Rightarrow> RuntimeValue" where
  "int_value i = (defaultValue T_Int)\<lparr>rv_int := i\<rparr>"

definition Interpreter_init :: "string \<Rightarrow> stdin_answer list \<Rightarrow> interp" where
  "Interpreter_init source_path input = \<lparr>
     in_frames = [empty_frame], in_functions = Map.empty, in_aiModels = Map.empty, in_aiTensors = Map.empty,
     in_entry_source = source_path, in_active_source = source_path, in_str = [], in_num = 0,
     in_current_value = defaultValue T_Int, in_flow = F_Normal, in_goto_target = [],
     in_return_value = defaultValue T_Int, in_failed = False, in_trapped = False, in_call_depth = 0,
     in_goto_transfers = 0, in_stdin = input, in_out = [], in_errors = []\<rparr>"

definition truthy :: "RuntimeValue \<Rightarrow> bool" where
  "truthy v = (case rv_type v of
       T_Float \<Rightarrow> \<not> b_eq (rv_float v) (B_Zero False)
     | T_String \<Rightarrow> rv_string v \<noteq> []
     | _ \<Rightarrow> rv_int v \<noteq> 0)"

definition unquoteShortString :: "string \<Rightarrow> string" where
  "unquoteShortString s =
     (if length s \<ge> 2 \<and> hd s = CHR 0x22 \<and> last s = CHR 0x22 then butlast (tl s) else s)"

definition runtimeError :: "string \<Rightarrow> string \<Rightarrow> interp \<Rightarrow> interp" where
  "runtimeError code msg s = s\<lparr>in_failed := True, in_errors := in_errors s @
     [(if in_active_source s = [] then (if in_entry_source s = [] then ''<runtime>'' else in_entry_source s)
       else in_active_source s, code, msg)]\<rparr>"

definition trap :: "interp \<Rightarrow> interp" where
  "trap s = s\<lparr>in_failed := True, in_trapped := True\<rparr>"

definition print :: "stdout_item list \<Rightarrow> interp \<Rightarrow> interp" where
  "print xs s = s\<lparr>in_out := in_out s @ xs\<rparr>"

subsection \<open>Storage\<close>

fun readScalar :: "Frame list \<Rightarrow> string \<Rightarrow> RuntimeValue option" where
  "readScalar [] n = None"
| "readScalar (f # fs) n = (case fr_scalars f n of Some v \<Rightarrow> Some v | None \<Rightarrow> readScalar fs n)"

fun writeScalar :: "Frame list \<Rightarrow> string \<Rightarrow> RuntimeValue \<Rightarrow> Frame list option" where
  "writeScalar [] n v = None"
| "writeScalar (f # fs) n v = (case fr_scalars f n of
       Some w \<Rightarrow> if rv_type w \<noteq> rv_type v then None
                 else Some (f\<lparr>fr_scalars := (fr_scalars f)(n \<mapsto> v)\<rparr> # fs)
     | None \<Rightarrow> map_option (\<lambda>fs'. f # fs') (writeScalar fs n v))"

definition in_bounds :: "i32 \<Rightarrow> 'a list \<Rightarrow> bool" where
  "in_bounds i xs = (\<not> (sint i < 0 \<or> nat (sint i) \<ge> length xs))"

fun readArray :: "Frame list \<Rightarrow> string \<Rightarrow> i32 \<Rightarrow> RuntimeValue option" where
  "readArray [] n i = None"
| "readArray (f # fs) n i = (case fr_arrays f n of
       None \<Rightarrow> readArray fs n i
     | Some xs \<Rightarrow> if in_bounds i xs then Some (xs ! nat (sint i)) else None)"

fun writeArray :: "Frame list \<Rightarrow> string \<Rightarrow> i32 \<Rightarrow> RuntimeValue \<Rightarrow> Frame list option" where
  "writeArray [] n i v = None"
| "writeArray (f # fs) n i v = (case fr_arrays f n of
       None \<Rightarrow> map_option (\<lambda>fs'. f # fs') (writeArray fs n i v)
     | Some xs \<Rightarrow>
         if \<not> in_bounds i xs then None
         else if rv_type (xs ! nat (sint i)) \<noteq> rv_type v then None
         else Some (f\<lparr>fr_arrays := (fr_arrays f)(n \<mapsto> xs[nat (sint i) := v])\<rparr> # fs))"

text \<open>Declaring into a frame; \<open>Inr\<close> names the duplicate that stopped it.\<close>

fun declare_scalars :: "AST_TYPED_SCALAR_DECLARATION list \<Rightarrow> Frame \<Rightarrow> Frame \<times> string option" where
  "declare_scalars [] f = (f, None)"
| "declare_scalars (d # ds) f =
     (if fr_scalars f (sd_name d) \<noteq> None then (f, Some (sd_name d))
      else declare_scalars ds (f\<lparr>fr_scalars := (fr_scalars f)(sd_name d \<mapsto> defaultValue (sd_type d))\<rparr>))"

datatype array_decl_result = AD_Ok | AD_Duplicate string | AD_BadSize

fun declare_arrays :: "AST_TYPED_ARRAY_DECLARATION list \<Rightarrow> Frame \<Rightarrow> Frame \<times> array_decl_result" where
  "declare_arrays [] f = (f, AD_Ok)"
| "declare_arrays (d # ds) f =
     (if ad_size d < 0 then (f, AD_BadSize)
      else if fr_arrays f (ad_name d) \<noteq> None then (f, AD_Duplicate (ad_name d))
      else declare_arrays ds (f\<lparr>fr_arrays := (fr_arrays f)(ad_name d \<mapsto>
             replicate (nat (ad_size d)) (defaultValue (ad_type d)))\<rparr>))"

definition initializeDeclarationsInto :: "AST_DATA_DECLARATION_BLOCK \<Rightarrow> nat \<Rightarrow> interp \<Rightarrow> interp" where
  "initializeDeclarationsInto b k s = (case declare_scalars (db_typed_scalars b) (in_frames s ! k) of
       (f, Some n) \<Rightarrow> runtimeError ''SHD7004'' (''duplicate scalar declaration reached runtime: `'' @ n @ ''`'')
           (s\<lparr>in_frames := (in_frames s)[k := f]\<rparr>)
     | (f, None) \<Rightarrow> (case declare_arrays (db_typed_arrays b) f of
           (g, AD_Ok) \<Rightarrow> s\<lparr>in_frames := (in_frames s)[k := g]\<rparr>
         | (g, AD_Duplicate n) \<Rightarrow>
             runtimeError ''SHD7004'' (''duplicate array declaration reached runtime: `'' @ n @ ''`'')
               (s\<lparr>in_frames := (in_frames s)[k := g]\<rparr>)
         | (g, AD_BadSize) \<Rightarrow> trap (s\<lparr>in_frames := (in_frames s)[k := g]\<rparr>)))"

definition ensure_frame :: "interp \<Rightarrow> interp" where
  "ensure_frame s = (if in_frames s = [] then s\<lparr>in_frames := [empty_frame]\<rparr> else s)"

definition initializeDeclarations :: "AST_DATA_DECLARATION_BLOCK \<Rightarrow> interp \<Rightarrow> interp" where
  "initializeDeclarations b s = initializeDeclarationsInto b 0 (ensure_frame s)"

definition registerFunctions :: "AST_FUNCTION list \<Rightarrow> string \<Rightarrow> interp \<Rightarrow> interp" where
  "registerFunctions fs source_path s =
     s\<lparr>in_functions := fold (\<lambda>f m. m(fn_name f \<mapsto> (f, source_path))) fs (in_functions s)\<rparr>"

definition addLibraryProgram :: "AST_PROGRAM \<Rightarrow> string \<Rightarrow> interp \<Rightarrow> interp" where
  "addLibraryProgram p source_path s = (let s1 = ensure_frame s in
     registerFunctions (pg_functions p) source_path
       (initializeDeclarationsInto (pg_decl_block p) (length (in_frames s1) - 1) s1))"

subsection \<open>Integer arithmetic\<close>

definition fromUnsigned32 :: "u32 \<Rightarrow> i32" where
  "fromUnsigned32 v =
     (if v \<le> 0x7fffffff then v
      else let distance = - 1 - v in word_of_int (- 1 - uint distance))"

definition wrapAdd :: "i32 \<Rightarrow> i32 \<Rightarrow> i32" where "wrapAdd l r = fromUnsigned32 (l + r)"
definition wrapSub :: "i32 \<Rightarrow> i32 \<Rightarrow> i32" where "wrapSub l r = fromUnsigned32 (l - r)"
definition wrapMul :: "i32 \<Rightarrow> i32 \<Rightarrow> i32" where "wrapMul l r = fromUnsigned32 (l * r)"

text \<open>
  C++ division and remainder, which truncate. They are undefined for a zero divisor and for
  the least integer divided by minus one: \<open>None\<close>.
\<close>

definition int_min :: i32 where "int_min = 0x80000000"

definition cpp_div :: "i32 \<Rightarrow> i32 \<Rightarrow> i32 option" where
  "cpp_div l r = (if r = 0 \<or> l = int_min \<and> r = - 1 then None else Some (word_of_int (sint l sdiv sint r)))"

definition cpp_mod :: "i32 \<Rightarrow> i32 \<Rightarrow> i32 option" where
  "cpp_mod l r = (if r = 0 \<or> l = int_min \<and> r = - 1 then None else Some (word_of_int (sint l smod sint r)))"


subsection \<open>Expressions\<close>

type_synonym visitor = "interp \<Rightarrow> interp option"

definition evaluate :: "(AST_EXPRESSION \<Rightarrow> visitor) \<Rightarrow> AST_EXPRESSION \<Rightarrow> interp \<Rightarrow> (RuntimeValue \<times> interp) option" where
  "evaluate ev e s = do {
     s1 \<leftarrow> ev e (s\<lparr>in_current_value := defaultValue T_Int\<rparr>);
     Some (in_current_value s1, s1)
   }"

definition set_value :: "RuntimeValue \<Rightarrow> interp \<Rightarrow> interp" where
  "set_value v s = s\<lparr>in_current_value := v\<rparr>"

definition bool_value :: "bool \<Rightarrow> RuntimeValue" where
  "bool_value b = (defaultValue T_Boolean)\<lparr>rv_int := (if b then 1 else 0)\<rparr>"

definition float_value :: "binary64 \<Rightarrow> RuntimeValue" where
  "float_value x = (defaultValue T_Float)\<lparr>rv_float := x\<rparr>"

text \<open>The three parts of the binary visitor: float operands, string operands, the rest.\<close>

definition binary_float :: "binop \<Rightarrow> binary64 \<Rightarrow> binary64 \<Rightarrow> interp \<Rightarrow> interp" where
  "binary_float op l r s = (case op of
       BOP_PLUS \<Rightarrow> set_value (float_value (b_add l r)) s
     | BOP_MINUS \<Rightarrow> set_value (float_value (b_sub l r)) s
     | BOP_MULTIPLY \<Rightarrow> set_value (float_value (b_mul l r)) s
     | BOP_DIVIDE \<Rightarrow>
         if b_eq r (B_Zero False)
         then runtimeError ''SHD7001'' ''float division by zero is forbidden by shorthand.type_memory.v1'' s
         else set_value (float_value (b_div l r)) s
     | BOP_LESS \<Rightarrow> set_value (bool_value (b_lt l r)) s
     | BOP_GREATER \<Rightarrow> set_value (bool_value (b_lt r l)) s
     | BOP_LESS_OR_EQUAL \<Rightarrow> set_value (bool_value (b_le l r)) s
     | BOP_GREATER_OR_EQUAL \<Rightarrow> set_value (bool_value (b_le r l)) s
     | BOP_EQUAL \<Rightarrow> set_value (bool_value (b_eq l r)) s
     | BOP_NOT_EQUAL \<Rightarrow> set_value (bool_value (\<not> b_eq l r)) s
     | _ \<Rightarrow> s)"

definition binary_string :: "binop \<Rightarrow> string \<Rightarrow> string \<Rightarrow> interp \<Rightarrow> interp" where
  "binary_string op l r s = (case op of
       BOP_EQUAL \<Rightarrow> set_value (bool_value (l = r)) s
     | BOP_NOT_EQUAL \<Rightarrow> set_value (bool_value (l \<noteq> r)) s
     | _ \<Rightarrow> s)"

definition binary_int :: "binop \<Rightarrow> i32 \<Rightarrow> i32 \<Rightarrow> interp \<Rightarrow> interp" where
  "binary_int op l r s = (case op of
       BOP_PLUS \<Rightarrow> set_value (int_value (wrapAdd l r)) s
     | BOP_MINUS \<Rightarrow> set_value (int_value (wrapSub l r)) s
     | BOP_MULTIPLY \<Rightarrow> set_value (int_value (wrapMul l r)) s
     | BOP_DIVIDE \<Rightarrow>
         if r = 0 \<or> l = int_min \<and> r = - 1
         then runtimeError ''SHD7001'' ''integer division has an invalid divisor or overflow case'' s
         else (case cpp_div l r of None \<Rightarrow> trap s | Some q \<Rightarrow> set_value (int_value q) s)
     | BOP_MODULO \<Rightarrow>
         if r = 0 \<or> l = int_min \<and> r = - 1
         then runtimeError ''SHD7001'' ''integer remainder has an invalid divisor or overflow case'' s
         else (case cpp_mod l r of None \<Rightarrow> trap s | Some q \<Rightarrow> set_value (int_value q) s)
     | BOP_LESS \<Rightarrow> set_value (bool_value (sint l < sint r)) s
     | BOP_GREATER \<Rightarrow> set_value (bool_value (sint l > sint r)) s
     | BOP_LESS_OR_EQUAL \<Rightarrow> set_value (bool_value (sint l \<le> sint r)) s
     | BOP_GREATER_OR_EQUAL \<Rightarrow> set_value (bool_value (sint l \<ge> sint r)) s
     | BOP_EQUAL \<Rightarrow> set_value (bool_value (l = r)) s
     | BOP_NOT_EQUAL \<Rightarrow> set_value (bool_value (l \<noteq> r)) s
     | BOP_OR \<Rightarrow> set_value (bool_value (l \<noteq> 0 \<or> r \<noteq> 0)) s
     | BOP_AND \<Rightarrow> set_value (bool_value (l \<noteq> 0 \<and> r \<noteq> 0)) s
     | BOP_ERROR \<Rightarrow> runtimeError ''SHD7004'' ''unsupported binary operator reached runtime'' s)"

definition visit_binary :: "(AST_EXPRESSION \<Rightarrow> visitor) \<Rightarrow> AST_EXPRESSION \<Rightarrow> AST_EXPRESSION \<Rightarrow> binop \<Rightarrow> visitor" where
  "visit_binary ev left right op s = do {
     (l, s1) \<leftarrow> evaluate ev left s;
     if in_failed s1 then Some s1
     else do {
       (r, s2) \<leftarrow> evaluate ev right s1;
       if in_failed s2 then Some s2
       else let s3 = set_value (defaultValue T_Boolean) s2 in
         Some (if rv_type l = T_Float then binary_float op (rv_float l) (rv_float r) s3
               else if rv_type l = T_String then binary_string op (rv_string l) (rv_string r) s3
               else binary_int op (rv_int l) (rv_int r) s3)
     }
   }"

definition visit_unary :: "(AST_EXPRESSION \<Rightarrow> visitor) \<Rightarrow> AST_EXPRESSION \<Rightarrow> unop \<Rightarrow> visitor" where
  "visit_unary ev e op s = do {
     (v, s1) \<leftarrow> evaluate ev e s;
     Some (if in_failed s1 then s1
       else if op = UOP_UMINUS then
         (if rv_type v = T_Float then set_value (v\<lparr>rv_float := b_neg (rv_float v)\<rparr>) s1
          else set_value (v\<lparr>rv_int := wrapSub 0 (rv_int v)\<rparr>) s1)
       else runtimeError ''SHD7004'' ''unsupported unary operator reached runtime'' s1)
   }"

definition visit_simple_variable :: "string \<Rightarrow> visitor" where
  "visit_simple_variable n s = (let s1 = s\<lparr>in_str := n\<rparr> in Some (
     case readScalar (in_frames s1) n of
       None \<Rightarrow> runtimeError ''SHD7004'' (''scalar is not declared: `'' @ n @ ''`'') s1
     | Some v \<Rightarrow> set_value v s1))"

definition visit_array_variable :: "(AST_EXPRESSION \<Rightarrow> visitor) \<Rightarrow> string \<Rightarrow> AST_EXPRESSION \<Rightarrow> visitor" where
  "visit_array_variable ev n index s = do {
     (i, s1) \<leftarrow> evaluate ev index s;
     let s2 = s1\<lparr>in_num := rv_int i, in_str := n\<rparr> in
     Some (if in_failed s2 then s2
       else (case readArray (in_frames s2) n (rv_int i) of
           None \<Rightarrow> runtimeError ''SHD7002'' (''array index is outside declared bounds for `'' @ n @ ''`'') s2
         | Some v \<Rightarrow> set_value v s2))
   }"

fun visit_variable :: "(AST_EXPRESSION \<Rightarrow> visitor) \<Rightarrow> AST_VARIABLE \<Rightarrow> visitor" where
  "visit_variable ev (V_Simple n) s = visit_simple_variable n s"
| "visit_variable ev (V_Array n i) s = visit_array_variable ev n i s"

fun is_array_variable :: "AST_VARIABLE \<Rightarrow> bool" where
  "is_array_variable (V_Simple _) = False"
| "is_array_variable (V_Array _ _) = True"

subsection \<open>Function calls\<close>

fun evaluate_arguments :: "(AST_EXPRESSION \<Rightarrow> visitor) \<Rightarrow> AST_EXPRESSION list \<Rightarrow> RuntimeValue list \<Rightarrow>
    interp \<Rightarrow> (RuntimeValue list \<times> interp) option" where
  "evaluate_arguments ev [] vs s = Some (vs, s)"
| "evaluate_arguments ev (e # es) vs s = do {
     (v, s1) \<leftarrow> evaluate ev e s;
     if in_failed s1 then Some (vs @ [v], s1) else evaluate_arguments ev es (vs @ [v]) s1
   }"

fun bind_arguments :: "AST_TYPED_SCALAR_DECLARATION list \<Rightarrow> RuntimeValue list \<Rightarrow> Frame \<Rightarrow> Frame option" where
  "bind_arguments ps [] f = Some f"
| "bind_arguments [] (a # as) f = None"
| "bind_arguments (p # ps) (a # as) f =
     (if sd_type p \<noteq> rv_type a then None
      else bind_arguments ps as (f\<lparr>fr_scalars := (fr_scalars f)(sd_name p \<mapsto> a)\<rparr>))"

definition enter_function :: "AST_FUNCTION \<Rightarrow> string \<Rightarrow> Frame \<Rightarrow> interp \<Rightarrow> interp" where
  "enter_function fn source f s = s\<lparr>
     in_frames := f # in_frames s, in_call_depth := in_call_depth s + 1, in_flow := F_Normal,
     in_goto_target := [], in_return_value := defaultValue (fn_type fn), in_active_source := source\<rparr>"

definition check_function_end :: "AST_FUNCTION \<Rightarrow> string \<Rightarrow> interp \<Rightarrow> interp" where
  "check_function_end fn name s = (let
     s1 = (if in_flow s = F_Break \<or> in_flow s = F_Continue \<or> in_flow s = F_Goto
           then runtimeError ''SHD7004'' (''control-flow signal escaped function `'' @ name @ ''`'') s else s)
     in if \<not> in_failed s1 \<and> fn_type fn \<noteq> T_Void \<and> in_flow s1 \<noteq> F_Return
        then runtimeError ''SHD7004''
          (''non-void function completed without a return value: `'' @ name @ ''`'') s1
        else s1)"

definition leave_function :: "interp \<Rightarrow> interp \<Rightarrow> interp" where
  "leave_function caller s = s\<lparr>
     in_call_depth := in_call_depth s - 1, in_frames := tl (in_frames s),
     in_active_source := in_active_source caller, in_flow := in_flow caller,
     in_goto_target := in_goto_target caller, in_return_value := in_return_value caller\<rparr>"

text \<open>Returns the status (true for zero), the result, and the state.\<close>

definition invokeFunction :: "(AST_BLOCK \<Rightarrow> visitor) \<Rightarrow> string \<Rightarrow> RuntimeValue list \<Rightarrow> interp \<Rightarrow>
    (bool \<times> RuntimeValue \<times> interp) option" where
  "invokeFunction bl name args s = (let
     fail = (\<lambda>code msg. Some (False, defaultValue T_Void, runtimeError code msg s)) in
     case in_functions s name of
       None \<Rightarrow> fail ''SHD7004'' (''function registry missing `'' @ name @ ''`'')
     | Some (fn, source) \<Rightarrow>
         if db_array_ints (fn_parameters fn) \<noteq> []
         then fail ''SHD7004'' (''unsupported function parameter layout for `'' @ name @ ''`'')
         else if length (db_single_ints (fn_parameters fn)) \<noteq> length args
         then fail ''SHD3004'' (''function '' @ name @ '' arity changed after semantic validation'')
         else if in_call_depth s \<ge> kMaxCallDepth
         then fail ''SHD7004'' ''maximum deterministic function call depth exceeded''
         else (case bind_arguments (db_typed_scalars (fn_parameters fn)) args empty_frame of
             None \<Rightarrow> fail ''SHD7004''
               ''function argument type mismatch reached runtime after semantic validation''
           | Some f \<Rightarrow> do {
               s1 \<leftarrow> bl (fn_block fn) (enter_function fn source f s);
               let s2 = check_function_end fn name s1;
                   result = (if in_flow s2 = F_Return then in_return_value s2 else defaultValue (fn_type fn));
                   s3 = leave_function s s2
               in Some (\<not> in_failed s3, result, s3)
             }))"

definition visit_call :: "(AST_EXPRESSION \<Rightarrow> visitor) \<Rightarrow> (AST_BLOCK \<Rightarrow> visitor) \<Rightarrow> string \<Rightarrow> AST_EXPRESSION list \<Rightarrow> visitor" where
  "visit_call ev bl name args s = do {
     (vs, s1) \<leftarrow> evaluate_arguments ev args [] s;
     if in_failed s1 then Some s1
     else do {
       (ok, result, s2) \<leftarrow> invokeFunction bl name vs s1;
       Some (if ok then set_value result s2 else s2)
     }
   }"

definition visit_call_statement :: "(AST_EXPRESSION \<Rightarrow> visitor) \<Rightarrow> (AST_BLOCK \<Rightarrow> visitor) \<Rightarrow> string \<Rightarrow> AST_VARIABLE list \<Rightarrow> visitor" where
  "visit_call_statement ev bl name params s = do {
     (vs, s1) \<leftarrow> evaluate_arguments ev (map E_Var params) [] s;
     if in_failed s1 then Some s1
     else do {
       (ok, result, s2) \<leftarrow> invokeFunction bl name vs s1;
       Some s2
     }
   }"

fun visit_expression :: "(AST_EXPRESSION \<Rightarrow> visitor) \<Rightarrow> (AST_BLOCK \<Rightarrow> visitor) \<Rightarrow> AST_EXPRESSION \<Rightarrow> visitor" where
  "visit_expression ev bl (E_Binary l r op) s = visit_binary ev l r op s"
| "visit_expression ev bl (E_Unary e op) s = visit_unary ev e op s"
| "visit_expression ev bl (E_Var v) s = visit_variable ev v s"
| "visit_expression ev bl (E_Literal i) s = Some (set_value (int_value i) s)"
| "visit_expression ev bl (E_String t) s =
     Some (set_value ((defaultValue T_String)\<lparr>rv_string := unquoteShortString t\<rparr>) (s\<lparr>in_str := t\<rparr>))"
| "visit_expression ev bl (E_Bool b) s = Some (set_value (bool_value b) s)"
| "visit_expression ev bl (E_Float x) s = Some (set_value (float_value x) s)"
| "visit_expression ev bl (E_Call name args) s = visit_call ev bl name args s"


subsection \<open>Statements\<close>

text \<open>
  Storing through the members \<open>str\<close> and \<open>num\<close> that visiting the target variable has set; the
  two messages are those of the statement that stores.
\<close>

definition store_target :: "AST_VARIABLE \<Rightarrow> RuntimeValue \<Rightarrow> string \<Rightarrow> string \<Rightarrow> interp \<Rightarrow> interp" where
  "store_target target v array_msg scalar_msg s =
     (if is_array_variable target
      then (case writeArray (in_frames s) (in_str s) (in_num s) v of
          None \<Rightarrow> runtimeError ''SHD7002'' array_msg s
        | Some fs \<Rightarrow> s\<lparr>in_frames := fs\<rparr>)
      else (case writeScalar (in_frames s) (in_str s) v of
          None \<Rightarrow> runtimeError ''SHD7004'' scalar_msg s
        | Some fs \<Rightarrow> s\<lparr>in_frames := fs\<rparr>))"

definition visit_assignment :: "(AST_EXPRESSION \<Rightarrow> visitor) \<Rightarrow> AST_VARIABLE \<Rightarrow> AST_EXPRESSION \<Rightarrow> visitor" where
  "visit_assignment ev target e s = do {
     (v, s1) \<leftarrow> evaluate ev e s;
     if in_failed s1 then Some s1
     else do {
       s2 \<leftarrow> visit_variable ev target s1;
       Some (if in_failed s2 then s2
         else store_target target v
           (''array write is outside declared bounds for `'' @ in_str s2 @ ''`'')
           (''assignment target is not declared: `'' @ in_str s2 @ ''`'') s2)
     }
   }"

definition visit_if :: "(AST_EXPRESSION \<Rightarrow> visitor) \<Rightarrow> (AST_BLOCK \<Rightarrow> visitor) \<Rightarrow> AST_EXPRESSION \<Rightarrow> AST_BLOCK \<Rightarrow> visitor" where
  "visit_if ev bl c b s = do {
     (v, s1) \<leftarrow> evaluate ev c s;
     if \<not> in_failed s1 \<and> truthy v then bl b s1 else Some s1
   }"

definition visit_if_else :: "(AST_EXPRESSION \<Rightarrow> visitor) \<Rightarrow> (AST_BLOCK \<Rightarrow> visitor) \<Rightarrow> AST_EXPRESSION \<Rightarrow> AST_BLOCK \<Rightarrow>
    AST_BLOCK \<Rightarrow> visitor" where
  "visit_if_else ev bl c b1 b2 s = do {
     (v, s1) \<leftarrow> evaluate ev c s;
     if in_failed s1 then Some s1 else if truthy v then bl b1 s1 else bl b2 s1
   }"

text \<open>
  One round of the \<open>while\<close> inside the counting loop. The result says whether the loop goes on.
\<close>

definition loop_store :: "AST_VARIABLE \<Rightarrow> i32 \<Rightarrow> interp \<Rightarrow> interp" where
  "loop_store v i s = store_target v (int_value i) ''loop variable array index out of bounds''
     ''loop variable is not declared'' s"

definition for_round :: "(AST_EXPRESSION \<Rightarrow> visitor) \<Rightarrow> (AST_BLOCK \<Rightarrow> visitor) \<Rightarrow> AST_VARIABLE \<Rightarrow> AST_EXPRESSION \<Rightarrow>
    AST_EXPRESSION \<Rightarrow> AST_BLOCK \<Rightarrow> interp \<Rightarrow> (bool \<times> interp) option" where
  "for_round ev bl v step to body s =
     (if in_failed s then Some (False, s)
      else do {
        (current, s1) \<leftarrow> evaluate ev (E_Var v) s;
        if in_failed s1 then Some (False, s1)
        else do {
          (stp, s2) \<leftarrow> evaluate ev step s1;
          if in_failed s2 then Some (False, s2)
          else if rv_int stp = 0
          then Some (False, runtimeError ''SHD7003'' ''loop step must be non-zero'' s2)
          else do {
            (lim, s3) \<leftarrow> evaluate ev to s2;
            if in_failed s3 then Some (False, s3)
            else if \<not> (if sint (rv_int stp) > 0 then sint (rv_int current) < sint (rv_int lim)
                      else sint (rv_int current) > sint (rv_int lim))
            then Some (False, s3)
            else do {
              s4 \<leftarrow> bl body s3;
              if in_failed s4 \<or> in_flow s4 = F_Return then Some (False, s4)
              else if in_flow s4 = F_Break then Some (False, s4\<lparr>in_flow := F_Normal\<rparr>)
              else let s5 = (if in_flow s4 = F_Continue then s4\<lparr>in_flow := F_Normal\<rparr> else s4) in do {
                (after_body, s6) \<leftarrow> evaluate ev (E_Var v) s5;
                if in_failed s6 then Some (False, s6)
                else let s7 = loop_store v (wrapAdd (rv_int after_body) (rv_int stp)) s6
                  in Some (\<not> in_failed s7, s7)
              }
            }
          }
        }
      })"

definition visit_for :: "(AST_EXPRESSION \<Rightarrow> visitor) \<Rightarrow> visitor \<Rightarrow> AST_VARIABLE \<Rightarrow> AST_EXPRESSION \<Rightarrow> visitor" where
  "visit_for ev rounds v from s = do {
     (initial, s1) \<leftarrow> evaluate ev from s;
     if in_failed s1 then Some s1
     else do {
       s2 \<leftarrow> visit_variable ev v s1;
       if in_failed s2 then Some s2
       else let s3 = loop_store v (rv_int initial) s2 in
         if in_failed s3 then Some s3 else rounds s3
     }
   }"

definition while_round :: "(AST_EXPRESSION \<Rightarrow> visitor) \<Rightarrow> (AST_BLOCK \<Rightarrow> visitor) \<Rightarrow> AST_EXPRESSION \<Rightarrow> AST_BLOCK \<Rightarrow>
    interp \<Rightarrow> (bool \<times> interp) option" where
  "while_round ev bl c body s =
     (if in_failed s then Some (False, s)
      else do {
        (v, s1) \<leftarrow> evaluate ev c s;
        if in_failed s1 \<or> \<not> truthy v then Some (False, s1)
        else do {
          s2 \<leftarrow> bl body s1;
          if in_failed s2 \<or> in_flow s2 = F_Return then Some (False, s2)
          else if in_flow s2 = F_Break then Some (False, s2\<lparr>in_flow := F_Normal\<rparr>)
          else Some (True, if in_flow s2 = F_Continue then s2\<lparr>in_flow := F_Normal\<rparr> else s2)
        }
      })"

definition visit_goto :: "(AST_EXPRESSION \<Rightarrow> visitor) \<Rightarrow> AST_EXPRESSION option \<Rightarrow> string \<Rightarrow> visitor" where
  "visit_goto ev cond label s = (case cond of
       None \<Rightarrow> Some (s\<lparr>in_goto_target := label, in_flow := F_Goto\<rparr>)
     | Some c \<Rightarrow> do {
         (v, s1) \<leftarrow> evaluate ev c s;
         Some (if in_failed s1 \<or> \<not> truthy v then s1
           else s1\<lparr>in_goto_target := label, in_flow := F_Goto\<rparr>)
       })"

definition visit_return :: "(AST_EXPRESSION \<Rightarrow> visitor) \<Rightarrow> AST_EXPRESSION option \<Rightarrow> visitor" where
  "visit_return ev e s =
     (if in_call_depth s = 0
      then Some (runtimeError ''SHD7004'' ''return reached top-level runtime'' s)
      else do {
        s1 \<leftarrow> (case e of None \<Rightarrow> Some s
          | Some x \<Rightarrow> do { (v, s') \<leftarrow> evaluate ev x s; Some (s'\<lparr>in_return_value := v\<rparr>) });
        Some (if in_failed s1 then s1 else s1\<lparr>in_flow := F_Return\<rparr>)
      })"

definition cin_extract :: "RuntimeValue \<Rightarrow> stdin_answer list \<Rightarrow> RuntimeValue option" where
  "cin_extract v input =
     (if rv_type v = T_Float
      then (case input of X_Float x # _ \<Rightarrow> Some (v\<lparr>rv_float := x\<rparr>) | _ \<Rightarrow> None)
      else (case input of X_Int i # _ \<Rightarrow> Some (v\<lparr>rv_int := i\<rparr>) | _ \<Rightarrow> None))"

fun visit_read :: "(AST_EXPRESSION \<Rightarrow> visitor) \<Rightarrow> AST_VARIABLE list \<Rightarrow> visitor" where
  "visit_read ev [] s = Some s"
| "visit_read ev (v # vs) s = do {
     s1 \<leftarrow> visit_variable ev v s;
     if in_failed s1 then Some s1
     else (case cin_extract (in_current_value s1) (in_stdin s1) of
         None \<Rightarrow> Some (runtimeError ''SHD7004'' ''read failed to parse typed input''
           (s1\<lparr>in_stdin := tl (in_stdin s1)\<rparr>))
       | Some x \<Rightarrow>
           let s2 = store_target v x ''read target array index out of bounds''
                 ''read target is not declared'' (s1\<lparr>in_stdin := tl (in_stdin s1)\<rparr>)
           in if in_failed s2 then Some s2 else visit_read ev vs s2)
   }"

definition printed :: "RuntimeValue \<Rightarrow> stdout_item" where
  "printed v = (case rv_type v of T_Float \<Rightarrow> O_Float (rv_float v) | T_String \<Rightarrow> O_Text (rv_string v)
     | _ \<Rightarrow> O_Int (rv_int v))"

fun visit_print_items :: "(AST_EXPRESSION \<Rightarrow> visitor) \<Rightarrow> bool \<Rightarrow> AST_PRINTABLE_ITEM list \<Rightarrow> visitor" where
  "visit_print_items ev first [] s = Some (print [O_Text [CHR 0x0A]] s)"
| "visit_print_items ev first (item # items) s = (let s0 = (if first then s else print [O_Text '' ''] s) in
     case item of
       P_Expr e \<Rightarrow> do {
         (v, s1) \<leftarrow> evaluate ev e s0;
         if in_failed s1 then Some s1 else visit_print_items ev False items (print [printed v] s1)
       }
     | P_String t \<Rightarrow> do {
         (v, s1) \<leftarrow> evaluate ev (E_String t) s0;
         visit_print_items ev False items (print [O_Text (rv_string v)] s1)
       })"

definition visit_greenai_report :: "(AST_EXPRESSION \<Rightarrow> visitor) \<Rightarrow> string \<Rightarrow> AST_EXPRESSION \<Rightarrow> AST_EXPRESSION \<Rightarrow>
    AST_EXPRESSION \<Rightarrow> visitor" where
  "visit_greenai_report ev workload inferences watts seconds s = do {
     (i, s1) \<leftarrow> evaluate ev inferences s;
     (w, s2) \<leftarrow> evaluate ev watts s1;
     (t, s3) \<leftarrow> evaluate ev seconds s2;
     if in_failed s3 then Some s3
     else let energy = wrapMul (rv_int w) (rv_int t) in
       (case (if energy = 0 then Some 0 else cpp_div (rv_int i) energy) of
           None \<Rightarrow> Some (trap s3)
         | Some q \<Rightarrow> Some (print [O_Text (''GreenAI workload '' @ unquoteShortString workload),
             O_Text '': inferences='', O_Int (rv_int i), O_Text '' energy_j='', O_Int energy,
             O_Text '' inf_per_j='', O_Int q, O_Text [CHR 0x0A]] s3))
   }"


text \<open>
  The AI statements. The AI runtime they call is the argument \<open>ai_host\<close>: the text the
  one-line inference prints, and the result of an inference on a declared model and tensor.
\<close>

record InferenceResult =
  ir_success :: bool
  ir_fallback :: bool
  ir_backend_name :: string
  ir_provider_name :: string
  ir_outputs :: nat
  ir_status_text :: string
  ir_reason :: string

record ai_host =
  ah_ai_infer :: "string \<Rightarrow> string \<Rightarrow> string \<Rightarrow> string"
  ah_infer :: "ModelDeclarationData \<Rightarrow> TensorDeclarationData \<Rightarrow> InferenceResult"

definition line :: "string \<Rightarrow> interp \<Rightarrow> interp" where
  "line t s = print [O_Text (t @ [CHR 0x0A])] s"

definition visit_ai_infer :: "ai_host \<Rightarrow> string \<Rightarrow> string \<Rightarrow> string \<Rightarrow> visitor" where
  "visit_ai_infer h path shape input s = Some (line (ah_ai_infer h (unquoteShortString path)
     (unquoteShortString shape) (unquoteShortString input)) s)"

definition visit_model :: "ModelDeclarationData \<Rightarrow> visitor" where
  "visit_model d s = Some (line (''Registered model '' @ md_name d @ '' (fallback-capable)'')
     (s\<lparr>in_aiModels := (in_aiModels s)(md_name d \<mapsto> d)\<rparr>))"

definition visit_tensor :: "TensorDeclarationData \<Rightarrow> visitor" where
  "visit_tensor d s = Some (s\<lparr>in_aiTensors := (in_aiTensors s)(tn_name d \<mapsto> d)\<rparr>)"

definition visit_contract :: "GreenAIContractData \<Rightarrow> visitor" where
  "visit_contract d s = Some (line (''GreenAI contract '' @ gc_name d @ '' evidence_only'') s)"

definition visit_measurement :: "GreenAIMeasurementData \<Rightarrow> visitor" where
  "visit_measurement d s =
     Some (line (''GreenAI workload '' @ gm_workload d @ '' measurement_status=declared_budget_only'') s)"

definition visit_infer :: "ai_host \<Rightarrow> string \<Rightarrow> string \<Rightarrow> visitor" where
  "visit_infer h model input s = Some (
     case in_aiModels s model of
       None \<Rightarrow> line (''AI inference error: model='' @ model @ '' runtime_backend=fallback reason=unknown_model'') s
     | Some m \<Rightarrow> (case in_aiTensors s input of
         None \<Rightarrow> line (''AI inference error: model='' @ model @ '' runtime_backend=fallback reason=unknown_tensor'') s
       | Some t \<Rightarrow> let r = ah_infer h m t in
           if ir_success r then line (''AI inference success: model='' @ model @ '' runtime_backend='' @
             ir_backend_name r @ '' provider='' @ ir_provider_name r @ '' outputs='' @ show_nat (ir_outputs r)) s
           else if ir_fallback r then line (''AI inference fallback: model='' @ model @
             '' runtime_backend=fallback inference_status='' @ ir_status_text r @ '' reason='' @ ir_reason r) s
           else line (''AI inference error: model='' @ model @ '' runtime_backend='' @ ir_backend_name r @
             '' reason='' @ ir_reason r) s))"

subsection \<open>Blocks, labels and the recursion\<close>

fun label_index :: "AST_STATEMENT list \<Rightarrow> string \<Rightarrow> nat option" where
  "label_index [] l = None"
| "label_index (S_Label m # ss) l = (if m = l then Some 0 else map_option Suc (label_index ss l))"
| "label_index (_ # ss) l = map_option Suc (label_index ss l)"

text \<open>One round of the loop over the statements of a block; \<open>loop\<close> is the rest of the loop.\<close>

definition block_step :: "(AST_STATEMENT \<Rightarrow> visitor) \<Rightarrow> (AST_STATEMENT list \<Rightarrow> nat \<Rightarrow> visitor) \<Rightarrow>
    AST_STATEMENT list \<Rightarrow> nat \<Rightarrow> visitor" where
  "block_step ex loop ss pc s =
     (if \<not> (pc < length ss \<and> \<not> in_failed s) then Some s
      else if in_flow s \<noteq> F_Normal then Some s
      else do {
        s1 \<leftarrow> ex (ss ! pc) s;
        if in_failed s1 then Some s1
        else if in_flow s1 = F_Goto then (case label_index ss (in_goto_target s1) of
            None \<Rightarrow> Some (runtimeError ''SHD7004''
              (''goto target escaped its validated lexical block: `'' @ in_goto_target s1 @ ''`'') s1)
          | Some k \<Rightarrow>
              let s2 = s1\<lparr>in_goto_transfers := in_goto_transfers s1 + 1\<rparr> in
              if in_goto_transfers s2 > kMaxGotoTransfers
              then Some (runtimeError ''SHD7004'' ''maximum deterministic goto transfer budget exceeded'' s2)
              else loop ss (k + 1) (s2\<lparr>in_flow := F_Normal, in_goto_target := []\<rparr>))
        else if in_flow s1 \<noteq> F_Normal then Some s1
        else loop ss (pc + 1) s1
      })"

fun visit_block :: "(AST_STATEMENT list \<Rightarrow> nat \<Rightarrow> visitor) \<Rightarrow> AST_BLOCK \<Rightarrow> visitor" where
  "visit_block loop (Block lexical ss) s =
     (if lexical
      then do {
        s1 \<leftarrow> loop ss 0 (s\<lparr>in_frames := empty_frame # in_frames s\<rparr>);
        Some (s1\<lparr>in_frames := tl (in_frames s1)\<rparr>)
      }
      else loop ss 0 s)"

type_synonym for_loop = "AST_VARIABLE \<Rightarrow> AST_EXPRESSION \<Rightarrow> AST_EXPRESSION \<Rightarrow> AST_BLOCK \<Rightarrow> visitor"
type_synonym while_loop = "AST_EXPRESSION \<Rightarrow> AST_BLOCK \<Rightarrow> visitor"

fun visit_statement :: "ai_host \<Rightarrow> (AST_EXPRESSION \<Rightarrow> visitor) \<Rightarrow> (AST_BLOCK \<Rightarrow> visitor) \<Rightarrow> for_loop \<Rightarrow>
    while_loop \<Rightarrow> AST_STATEMENT \<Rightarrow> visitor" where
  "visit_statement h ev bl fl wl (S_Decl b) s = Some (initializeDeclarations b s)"
| "visit_statement h ev bl fl wl (S_Expr e) s = do { (v, s1) \<leftarrow> evaluate ev e s; Some s1 }"
| "visit_statement h ev bl fl wl (S_Call f ps) s = visit_call_statement ev bl f ps s"
| "visit_statement h ev bl fl wl (S_Assign v e) s = visit_assignment ev v e s"
| "visit_statement h ev bl fl wl (S_Block b) s = bl b s"
| "visit_statement h ev bl fl wl (S_If c b) s = visit_if ev bl c b s"
| "visit_statement h ev bl fl wl (S_IfElse c b1 b2) s = visit_if_else ev bl c b1 b2 s"
| "visit_statement h ev bl fl wl (S_For v from step to body) s = visit_for ev (fl v step to body) v from s"
| "visit_statement h ev bl fl wl (S_While c body) s = wl c body s"
| "visit_statement h ev bl fl wl (S_Goto c l) s = visit_goto ev c l s"
| "visit_statement h ev bl fl wl (S_Read vs) s = visit_read ev vs s"
| "visit_statement h ev bl fl wl (S_Print ps) s = visit_print_items ev True ps s"
| "visit_statement h ev bl fl wl (S_Label l) s = Some s"
| "visit_statement h ev bl fl wl (S_GreenReport w i p t) s = visit_greenai_report ev w i p t s"
| "visit_statement h ev bl fl wl (S_AiInfer m sh i) s = visit_ai_infer h m sh i s"
| "visit_statement h ev bl fl wl (S_Model d) s = visit_model d s"
| "visit_statement h ev bl fl wl (S_Tensor d) s = visit_tensor d s"
| "visit_statement h ev bl fl wl (S_Contract d) s = visit_contract d s"
| "visit_statement h ev bl fl wl (S_Measure d) s = visit_measurement d s"
| "visit_statement h ev bl fl wl (S_C3Eco d) s = Some s"
| "visit_statement h ev bl fl wl (S_Infer m i out) s = visit_infer h m i s"
| "visit_statement h ev bl fl wl S_Break s = Some (s\<lparr>in_flow := F_Break\<rparr>)"
| "visit_statement h ev bl fl wl S_Continue s = Some (s\<lparr>in_flow := F_Continue\<rparr>)"
| "visit_statement h ev bl fl wl (S_Return e) s = visit_return ev e s"

definition loop_again :: "(bool \<times> interp) option \<Rightarrow> visitor \<Rightarrow> interp option" where
  "loop_again result again = do { (go, s1) \<leftarrow> result; if go then again s1 else Some s1 }"

fun accept_expr :: "ai_host \<Rightarrow> nat \<Rightarrow> AST_EXPRESSION \<Rightarrow> visitor"
  and accept_stmt :: "ai_host \<Rightarrow> nat \<Rightarrow> AST_STATEMENT \<Rightarrow> visitor"
  and accept_block :: "ai_host \<Rightarrow> nat \<Rightarrow> AST_BLOCK \<Rightarrow> visitor"
  and block_loop :: "ai_host \<Rightarrow> nat \<Rightarrow> AST_STATEMENT list \<Rightarrow> nat \<Rightarrow> visitor"
  and for_rounds :: "ai_host \<Rightarrow> nat \<Rightarrow> for_loop"
  and while_rounds :: "ai_host \<Rightarrow> nat \<Rightarrow> while_loop" where
  "accept_expr h 0 = (\<lambda>e s. None)"
| "accept_expr h (Suc n) = visit_expression (accept_expr h n) (accept_block h n)"
| "accept_stmt h 0 = (\<lambda>st s. None)"
| "accept_stmt h (Suc n) =
     visit_statement h (accept_expr h n) (accept_block h n) (for_rounds h n) (while_rounds h n)"
| "accept_block h 0 = (\<lambda>b s. None)"
| "accept_block h (Suc n) = visit_block (block_loop h n)"
| "block_loop h 0 = (\<lambda>ss pc s. None)"
| "block_loop h (Suc n) = block_step (accept_stmt h n) (block_loop h n)"
| "for_rounds h 0 = (\<lambda>v step to body s. None)"
| "for_rounds h (Suc n) = (\<lambda>v step to body s.
     loop_again (for_round (accept_expr h n) (accept_block h n) v step to body s) (for_rounds h n v step to body))"
| "while_rounds h 0 = (\<lambda>c body s. None)"
| "while_rounds h (Suc n) = (\<lambda>c body s.
     loop_again (while_round (accept_expr h n) (accept_block h n) c body s) (while_rounds h n c body))"

definition visit_program :: "ai_host \<Rightarrow> nat \<Rightarrow> AST_PROGRAM \<Rightarrow> visitor" where
  "visit_program h n p s = do {
     s1 \<leftarrow> accept_block h n (pg_code_block p)
       (registerFunctions (pg_functions p) (in_entry_source s) (initializeDeclarations (pg_decl_block p) s));
     Some (if \<not> in_failed s1 \<and> in_flow s1 \<noteq> F_Normal
       then runtimeError ''SHD7004'' ''control-flow signal escaped the top-level program'' s1 else s1)
   }"

end
