(* ===== verification/InterpreterRuns.thy ===== *)
theory InterpreterRuns
  imports Interpreter "HOL-Library.Sublist"
begin

section \<open>What every run of the interpreter keeps\<close>

text \<open>
  Facts about all runs are proved once, for a relation between the states before and after:
  the locale \<open>visitor_relation\<close> lists what the primitive updates of the visitors must
  satisfy, and its conclusion is that every visitor satisfies the relation. The
  interpretations instantiate it with the shape of the store, the error flag, the call
  stack and the input and output streams.
\<close>

subsection \<open>Relations every visitor respects\<close>

locale visitor_relation =
  fixes K :: "interp \<Rightarrow> interp \<Rightarrow> bool"
  assumes K_refl: "K s s"
    and K_trans: "K s t \<Longrightarrow> K t u \<Longrightarrow> K s u"
    and K_value: "K s (s\<lparr>in_current_value := v\<rparr>)"
    and K_str: "K s (s\<lparr>in_str := n\<rparr>)"
    and K_num: "K s (s\<lparr>in_num := i\<rparr>)"
    and K_error: "K s (runtimeError c m s)"
    and K_trap: "K s (trap s)"
    and K_print: "K s (print xs s)"
    and K_scalar: "writeScalar (in_frames s) n v = Some fs \<Longrightarrow> K s (s\<lparr>in_frames := fs\<rparr>)"
    and K_array: "writeArray (in_frames s) n i v = Some fs \<Longrightarrow> K s (s\<lparr>in_frames := fs\<rparr>)"
    and K_flow: "K s (s\<lparr>in_flow := fl\<rparr>)"
    and K_target: "K s (s\<lparr>in_goto_target := n\<rparr>)"
    and K_return: "K s (s\<lparr>in_return_value := v\<rparr>)"
    and K_stdin: "K s (s\<lparr>in_stdin := tl (in_stdin s)\<rparr>)"
    and K_transfers: "K s (s\<lparr>in_goto_transfers := in_goto_transfers s + 1\<rparr>)"
    and K_model: "K s (s\<lparr>in_aiModels := mo\<rparr>)"
    and K_tensor: "K s (s\<lparr>in_aiTensors := te\<rparr>)"
    and K_declare: "K s (initializeDeclarations b s)"
    and K_scope: "K (s\<lparr>in_frames := empty_frame # in_frames s\<rparr>) t \<Longrightarrow> K s (t\<lparr>in_frames := tl (in_frames t)\<rparr>)"
    and K_call: "K (enter_function fn src f s) t \<Longrightarrow> K s (leave_function s t)"
begin

text \<open>A visitor that, whenever it returns, returns a related state.\<close>

definition obeys :: "visitor \<Rightarrow> bool" where
  "obeys f \<longleftrightarrow> (\<forall>s t. f s = Some t \<longrightarrow> K s t)"

lemma obeysD: "obeys f \<Longrightarrow> f s = Some t \<Longrightarrow> K s t"
  by (simp add: obeys_def)

lemma K_set_value: "K s t \<Longrightarrow> K s (set_value v t)"
  by (metis K_trans K_value set_value_def)

lemma K_runtimeError: "K s t \<Longrightarrow> K s (runtimeError c m t)"
  by (metis K_trans K_error)

lemma K_trapped: "K s t \<Longrightarrow> K s (trap t)"
  by (metis K_trans K_trap)

lemma K_printed: "K s t \<Longrightarrow> K s (print xs t)"
  by (metis K_trans K_print)

lemma K_line: "K s t \<Longrightarrow> K s (line x t)"
  by (simp add: line_def K_printed)

lemma K_flowed: "K s t \<Longrightarrow> K s (t\<lparr>in_flow := fl\<rparr>)"
  by (metis K_trans K_flow)

lemma K_jump: "K s t \<Longrightarrow> K s (t\<lparr>in_goto_target := n, in_flow := fl\<rparr>)"
  by (rule K_trans [OF K_trans [OF _ K_target [of t n]] K_flow])

lemmas K_more = K_refl K_set_value K_runtimeError K_trapped K_printed K_line K_flowed K_jump

lemma K_evaluate:
  assumes "obeys (ev e)" and "evaluate ev e s = Some (v, t)"
  shows "K s t"
  using assms K_value [of s "defaultValue T_Int"]
  by (auto simp: evaluate_def obeys_def split: Option.bind_splits intro: K_trans)

lemma K_binary:
  assumes "K s t"
  shows "K s (binary_float op x y t)" "K s (binary_string op a b t)" "K s (binary_int op i j t)"
  using assms
  by (auto simp: binary_float_def binary_string_def binary_int_def K_more split: binop.splits option.splits)

lemma K_store: "K s t \<Longrightarrow> K s (store_target v x m1 m2 t)"
  by (auto simp: store_target_def K_more split: option.splits intro: K_trans K_scalar K_array)

lemma visit_variable_obeys:
  assumes "\<And>e. obeys (ev e)"
  shows "obeys (visit_variable ev v)"
proof (cases v)
  case (V_Simple n)
  then show ?thesis
    by (auto simp: obeys_def visit_simple_variable_def Let_def K_more split: option.splits
        intro!: K_set_value K_runtimeError K_str)
next
  case (V_Array n e)
  have "K s (t\<lparr>in_num := i, in_str := n\<rparr>)" if "K s t" for s t i
    using that K_num [of t i] K_str [of "t\<lparr>in_num := i\<rparr>" n] by (auto intro: K_trans)
  with V_Array assms show ?thesis
    by (auto simp: obeys_def visit_array_variable_def Let_def split: Option.bind_splits option.splits
        if_splits intro!: K_set_value K_runtimeError dest!: K_evaluate [OF assms])
qed

lemma evaluate_arguments_obeys:
  assumes ev: "\<And>e. obeys (ev e)"
  shows "evaluate_arguments ev es vs s = Some (ws, t) \<Longrightarrow> K s t"
proof (induction es arbitrary: vs s)
  case (Cons e es)
  from Cons.prems show ?case
    by (auto split: Option.bind_splits if_splits dest!: K_evaluate [OF ev] Cons.IH intro: K_trans)
qed (simp add: K_refl)

lemma check_function_end_obeys: "K s t \<Longrightarrow> K s (check_function_end fn name t)"
  by (simp add: check_function_end_def Let_def K_more)

lemma invokeFunction_obeys:
  assumes bl: "\<And>b. obeys (bl b)" and "invokeFunction bl name args s = Some (ok, v, t)"
  shows "K s t"
proof -
  have "K s (leave_function s (check_function_end fn name u))"
    if "bl (fn_block fn) (enter_function fn src f s) = Some u" for fn src f u
    using obeysD [OF bl that] by (intro K_call check_function_end_obeys)
  then show ?thesis using assms(2)
    by (auto simp: invokeFunction_def Let_def K_more split: option.splits if_splits Option.bind_splits)
qed

lemma visit_expression_obeys:
  assumes ev: "\<And>e. obeys (ev e)" and bl: "\<And>b. obeys (bl b)"
  shows "obeys (visit_expression ev bl e)"
proof (cases e)
  case (E_Binary l r op)
  then show ?thesis
    by (auto simp: obeys_def visit_binary_def Let_def split: Option.bind_splits if_splits
        dest!: K_evaluate [OF ev] intro!: K_binary K_set_value intro: K_trans)
next
  case (E_Unary e op)
  then show ?thesis
    by (auto simp: obeys_def visit_unary_def split: Option.bind_splits if_splits
        dest!: K_evaluate [OF ev] intro!: K_set_value K_runtimeError)
next
  case (E_Var v)
  then show ?thesis using visit_variable_obeys [OF ev] by (simp add: obeys_def)
next
  case (E_String t)
  have "K s (set_value v (s\<lparr>in_str := t\<rparr>))" for s v by (intro K_set_value K_str)
  with E_String show ?thesis by (simp add: obeys_def)
next
  case (E_Call f args)
  then show ?thesis
    by (auto simp: obeys_def visit_call_def split: Option.bind_splits if_splits
        dest!: evaluate_arguments_obeys [OF ev] invokeFunction_obeys [OF bl] intro!: K_set_value intro: K_trans)
qed (auto simp: obeys_def K_more)

lemma visit_read_obeys:
  assumes ev: "\<And>e. obeys (ev e)"
  shows "visit_read ev vs s = Some t \<Longrightarrow> K s t"
proof (induction vs arbitrary: s)
  case (Cons v vs)
  from Cons.prems obtain s1 where s1: "visit_variable ev v s = Some s1"
    by (auto split: Option.bind_splits)
  have k: "K s s1" using obeysD [OF visit_variable_obeys [OF ev] s1] .
  then have "K s (s1\<lparr>in_stdin := tl (in_stdin s1)\<rparr>)" using K_stdin K_trans by blast
  then show ?case
    using Cons.prems s1 k Cons.IH
    by (auto simp: Let_def split: option.splits if_splits intro: K_runtimeError K_store K_trans)
qed (simp add: K_refl)

lemma visit_print_obeys:
  assumes ev: "\<And>e. obeys (ev e)"
  shows "visit_print_items ev first ps s = Some t \<Longrightarrow> K s t"
proof (induction ps arbitrary: first s)
  case (Cons p ps)
  define s0 where "s0 = (if first then s else print [O_Text '' ''] s)"
  have s0: "K s s0" by (simp add: s0_def K_refl K_print)
  have step: "K s u" if "evaluate ev e s0 = Some (v, u)" for e v u
    using K_trans [OF s0 K_evaluate [OF ev that]] .
  show ?case
  proof (cases p)
    case (P_Expr e)
    with Cons.prems show ?thesis unfolding visit_print_items.simps s0_def [symmetric] Let_def
      by (auto split: Option.bind_splits if_splits dest!: step Cons.IH intro: K_trans [OF K_printed])
  next
    case (P_String x)
    with Cons.prems show ?thesis unfolding visit_print_items.simps s0_def [symmetric] Let_def
      by (auto split: Option.bind_splits if_splits dest!: step Cons.IH intro: K_trans [OF K_printed])
  qed
qed (auto simp: K_more)

text \<open>
  The same for the bodies of the larger visitors, as rules that follow their structure:
  \<open>to1\<close> for a computation that ends in a state, \<open>to2\<close> for one that also returns a value.
\<close>

definition to1 :: "interp \<Rightarrow> interp option \<Rightarrow> bool" where
  "to1 s m \<longleftrightarrow> (\<forall>t. m = Some t \<longrightarrow> K s t)"

definition to2 :: "interp \<Rightarrow> ('v \<times> interp) option \<Rightarrow> bool" where
  "to2 s m \<longleftrightarrow> (\<forall>v t. m = Some (v, t) \<longrightarrow> K s t)"

lemma obeys_to1: "obeys f \<longleftrightarrow> (\<forall>s. to1 s (f s))"
  by (simp add: obeys_def to1_def)

lemma to1_visit: "obeys f \<Longrightarrow> K s t \<Longrightarrow> to1 s (f t)"
  by (auto simp: obeys_def to1_def intro: K_trans)

lemma to2_evaluate: "obeys (ev e) \<Longrightarrow> K s t \<Longrightarrow> to2 s (evaluate ev e t)"
  by (auto simp: to2_def intro: K_trans K_evaluate)

lemma to1_Some: "K s t \<Longrightarrow> to1 s (Some t)"
  by (simp add: to1_def)

lemma to2_Some: "K s t \<Longrightarrow> to2 s (Some (v, t))"
  by (simp add: to2_def)

lemma to_if:
  "(c \<Longrightarrow> to1 s m) \<Longrightarrow> (\<not> c \<Longrightarrow> to1 s m') \<Longrightarrow> to1 s (if c then m else m')"
  "(c \<Longrightarrow> to2 s k) \<Longrightarrow> (\<not> c \<Longrightarrow> to2 s k') \<Longrightarrow> to2 s (if c then k else k')"
  "K s t \<Longrightarrow> K s t' \<Longrightarrow> K s (if c then t else t')"
  by simp_all

lemma to_bind1:
  assumes "to1 s m" and "\<And>t. K s t \<Longrightarrow> to1 s (f t)"
  shows "to1 s (m \<bind> f)"
  using assms by (auto simp: to1_def split: Option.bind_splits)

lemma to_bind12:
  assumes "to1 s m" and "\<And>t. K s t \<Longrightarrow> to2 s (f t)"
  shows "to2 s (m \<bind> f)"
  using assms by (auto simp: to1_def to2_def split: Option.bind_splits)

lemma to_bind21:
  assumes "to2 s m" and "\<And>v t. K s t \<Longrightarrow> to1 s (f (v, t))"
  shows "to1 s (m \<bind> f)"
  using assms by (auto simp: to1_def to2_def split: Option.bind_splits)

lemma to_bind2:
  assumes "to2 s m" and "\<And>v t. K s t \<Longrightarrow> to2 s (f (v, t))"
  shows "to2 s (m \<bind> f)"
  using assms by (auto simp: to2_def split: Option.bind_splits)

lemmas to_rules = to_bind1 to_bind12 to_bind21 to_bind2 to_if to1_Some to2_Some to2_evaluate
  K_store K_binary K_set_value K_runtimeError K_trapped K_printed K_line K_flowed K_jump

lemma K_loop_store: "K s t \<Longrightarrow> K s (loop_store v i t)"
  by (simp add: loop_store_def K_store)

lemma for_round_obeys:
  assumes ev: "\<And>e. obeys (ev e)" and bl: "\<And>b. obeys (bl b)"
  shows "to2 s (for_round ev bl v step to body s)"
  unfolding for_round_def Let_def
  by (auto intro!: to_rules K_refl K_loop_store to1_visit [OF bl] ev)

lemma while_round_obeys:
  assumes ev: "\<And>e. obeys (ev e)" and bl: "\<And>b. obeys (bl b)"
  shows "to2 s (while_round ev bl c body s)"
  unfolding while_round_def by (auto intro!: to_rules K_refl to1_visit [OF bl] ev)

lemma to_rounds: "to2 s m \<Longrightarrow> obeys again \<Longrightarrow> to1 s (loop_again m again)"
  unfolding loop_again_def by (rule to_bind21) (auto intro: to1_visit to1_Some)

lemma visit_statement_obeys:
  assumes ev: "\<And>e. obeys (ev e)" and bl: "\<And>b. obeys (bl b)"
    and fl: "\<And>v st to b. obeys (fl v st to b)" and wl: "\<And>c b. obeys (wl c b)"
  shows "obeys (visit_statement h ev bl fl wl st)"
proof -
  note vv = to1_visit [OF visit_variable_obeys [OF ev]]
  note intros = to_rules K_refl ev to1_visit [OF bl] vv to1_visit [OF fl] to1_visit [OF wl] K_loop_store
  have ret: "K s (t\<lparr>in_return_value := v\<rparr>)" if "K s t" for s t v
    using K_trans [OF that K_return] .
  have dat: "K s (t\<lparr>in_aiModels := m\<rparr>)" "K s (t\<lparr>in_aiTensors := n\<rparr>)" if "K s t" for s t m n
    using K_trans [OF that] K_model K_tensor by auto
  show ?thesis
    unfolding obeys_to1
  proof
    fix s
    show "to1 s (visit_statement h ev bl fl wl st s)"
    proof (cases st)
      case (S_Call f ps)
      then show ?thesis
        by (auto simp: visit_call_statement_def to1_def split: Option.bind_splits if_splits
            dest!: evaluate_arguments_obeys [OF ev] invokeFunction_obeys [OF bl] intro: K_trans)
    next
      case (S_Read vs)
      then show ?thesis using visit_read_obeys [OF ev] by (simp add: to1_def)
    next
      case (S_Print ps)
      then show ?thesis using visit_print_obeys [OF ev] by (simp add: to1_def)
    next
      case (S_Goto c l)
      then show ?thesis by (auto simp: visit_goto_def split: option.split intro!: intros)
    next
      case (S_Return e)
      then show ?thesis by (auto simp: visit_return_def split: option.split intro!: intros ret)
    next
      case (S_GreenReport w i p t)
      then show ?thesis
        by (auto simp: visit_greenai_report_def Let_def split: option.split intro!: intros)
    next
      case (S_Infer m i out)
      then show ?thesis
        by (auto simp: visit_infer_def Let_def split: option.split intro!: intros)
    qed (auto simp: visit_assignment_def visit_if_def visit_if_else_def visit_for_def Let_def visit_ai_infer_def
        visit_model_def visit_tensor_def visit_contract_def visit_measurement_def
        intro!: intros dat to1_Some K_declare)
  qed
qed

lemma block_step_obeys:
  assumes ex: "\<And>st. obeys (ex st)" and loop: "\<And>ss pc. obeys (loop ss pc)"
  shows "obeys (block_step ex loop ss pc)"
proof -
  have tr: "K s (t\<lparr>in_goto_transfers := Suc (in_goto_transfers t)\<rparr>)" if "K s t" for s t
    using K_trans [OF that K_transfers] by simp
  have jumped: "K s (t\<lparr>in_goto_transfers := Suc (in_goto_transfers t), in_flow := fl, in_goto_target := n\<rparr>)"
    if "K s t" for s t fl n
    by (rule K_trans [OF K_flowed [OF tr [OF that]] K_target])
  show ?thesis
    unfolding obeys_to1 block_step_def Let_def
    by (auto split: option.split intro!: to_rules K_refl tr jumped to1_visit [OF ex] to1_visit [OF loop])
qed

lemma visit_block_obeys:
  assumes loop: "\<And>ss pc. obeys (loop ss pc)"
  shows "obeys (visit_block loop b)"
proof (cases b)
  case (Block lexical ss)
  with assms show ?thesis
    by (auto simp: obeys_def split: Option.bind_splits intro: K_scope)
qed

text \<open>Every visitor, at every fuel, respects the relation.\<close>

lemma all_obey:
  "obeys (accept_expr h n e) \<and> obeys (accept_stmt h n st) \<and> obeys (accept_block h n b) \<and>
   obeys (block_loop h n ss pc) \<and> obeys (for_rounds h n v step to body) \<and> obeys (while_rounds h n c body)"
proof (induction n arbitrary: e st b ss pc v step to body c)
  case 0
  show ?case by (simp add: obeys_def)
next
  case (Suc n)
  note IH = Suc [THEN conjunct1] Suc [THEN conjunct2, THEN conjunct1]
    Suc [THEN conjunct2, THEN conjunct2, THEN conjunct1]
    Suc [THEN conjunct2, THEN conjunct2, THEN conjunct2, THEN conjunct1]
    Suc [THEN conjunct2, THEN conjunct2, THEN conjunct2, THEN conjunct2, THEN conjunct1]
    Suc [THEN conjunct2, THEN conjunct2, THEN conjunct2, THEN conjunct2, THEN conjunct2]
  have "obeys (for_rounds h (Suc n) v step to body)" "obeys (while_rounds h (Suc n) c body)"
    unfolding obeys_to1 for_rounds.simps while_rounds.simps
    by (blast intro: to_rounds for_round_obeys while_round_obeys IH)+
  then show ?case
    using visit_expression_obeys [OF IH(1,3)] visit_statement_obeys [OF IH(1,3,5,6)]
      block_step_obeys [OF IH(2,4)] visit_block_obeys [OF IH(4)]
    by simp
qed

lemma stmt_related: "accept_stmt h n st s = Some t \<Longrightarrow> K s t"
  and expr_related: "accept_expr h n e s = Some t \<Longrightarrow> K s t"
  and block_related: "accept_block h n b s = Some t \<Longrightarrow> K s t"
  using all_obey obeysD by blast+

end


subsection \<open>The shape of the store\<close>

text \<open>
  The types a frame gives to its scalars and to the elements of its arrays. The length of
  an array is the length of its list of types.
\<close>

definition scalar_types :: "Frame \<Rightarrow> string \<rightharpoonup> ShortType" where
  "scalar_types f n = map_option rv_type (fr_scalars f n)"

definition array_types :: "Frame \<Rightarrow> string \<rightharpoonup> ShortType list" where
  "array_types f n = map_option (map rv_type) (fr_arrays f n)"

definition frame_shape :: "Frame \<Rightarrow> (string \<rightharpoonup> ShortType) \<times> (string \<rightharpoonup> ShortType list)" where
  "frame_shape f = (scalar_types f, array_types f)"

definition frame_grows :: "Frame \<Rightarrow> Frame \<Rightarrow> bool" where
  "frame_grows f g \<longleftrightarrow> scalar_types f \<subseteq>\<^sub>m scalar_types g \<and> array_types f \<subseteq>\<^sub>m array_types g"

definition store_grows :: "interp \<Rightarrow> interp \<Rightarrow> bool" where
  "store_grows s t \<longleftrightarrow> (in_frames s \<noteq> [] \<longrightarrow> length (in_frames t) = length (in_frames s) \<and>
     map frame_shape (tl (in_frames t)) = map frame_shape (tl (in_frames s)) \<and>
     frame_grows (hd (in_frames s)) (hd (in_frames t)))"

lemma frame_grows_refl: "frame_grows f f"
  by (simp add: frame_grows_def)

lemma frame_grows_shape: "frame_shape f = frame_shape g \<Longrightarrow> frame_grows f g"
  by (simp add: frame_grows_def frame_shape_def)

lemma frame_grows_trans: "frame_grows f g \<Longrightarrow> frame_grows g h \<Longrightarrow> frame_grows f h"
  by (auto simp: frame_grows_def intro: map_le_trans)

lemma writeScalar_shape: "writeScalar fs n v = Some gs \<Longrightarrow> map frame_shape gs = map frame_shape fs"
  by (induction fs arbitrary: gs)
    (auto simp: frame_shape_def scalar_types_def array_types_def fun_eq_iff split: option.splits if_splits)

lemma writeArray_shape: "writeArray fs n i v = Some gs \<Longrightarrow> map frame_shape gs = map frame_shape fs"
proof (induction fs arbitrary: gs)
  case (Cons f fs)
  have "map rv_type (xs[k := v]) = map rv_type xs" if "rv_type (xs ! k) = rv_type v" "k < length xs" for xs k
    using that by (simp add: map_update list_update_same_conv)
  with Cons show ?case
    by (auto simp: frame_shape_def scalar_types_def array_types_def fun_eq_iff in_bounds_def
        split: option.splits if_splits)
qed simp

lemma store_grows_same: "map frame_shape (in_frames t) = map frame_shape (in_frames s) \<Longrightarrow> store_grows s t"
  by (cases "in_frames s"; cases "in_frames t") (auto simp: store_grows_def frame_grows_shape dest: map_eq_imp_length_eq)

lemma declare_scalars_grows: "declare_scalars ds f = (g, r) \<Longrightarrow> frame_grows f g"
proof (induction ds arbitrary: f)
  case (Cons d ds)
  have "frame_grows f (f\<lparr>fr_scalars := (fr_scalars f)(sd_name d \<mapsto> v)\<rparr>)" if "fr_scalars f (sd_name d) = None" for v
    using that by (auto simp: frame_grows_def scalar_types_def array_types_def map_le_def)
  with Cons show ?case by (auto split: if_splits intro: frame_grows_refl frame_grows_trans)
qed (simp add: frame_grows_refl)

lemma declare_arrays_grows: "declare_arrays ds f = (g, r) \<Longrightarrow> frame_grows f g"
proof (induction ds arbitrary: f)
  case (Cons d ds)
  have "frame_grows f (f\<lparr>fr_arrays := (fr_arrays f)(ad_name d \<mapsto> v)\<rparr>)" if "fr_arrays f (ad_name d) = None" for v
    using that by (auto simp: frame_grows_def scalar_types_def array_types_def map_le_def)
  with Cons show ?case by (auto split: if_splits intro: frame_grows_refl frame_grows_trans)
qed (simp add: frame_grows_refl)

lemma runtimeError_frames [simp]: "in_frames (runtimeError c m s) = in_frames s"
  by (simp add: runtimeError_def)

lemma trap_frames [simp]: "in_frames (trap s) = in_frames s"
  by (simp add: trap_def)

lemma initializeDeclarations_frames:
  assumes "in_frames s \<noteq> []"
  shows "\<exists>g. in_frames (initializeDeclarations b s) = (in_frames s)[0 := g] \<and> frame_grows (hd (in_frames s)) g"
proof -
  obtain f r where 1: "declare_scalars (db_typed_scalars b) (in_frames s ! 0) = (f, r)" by force
  obtain g q where 2: "declare_arrays (db_typed_arrays b) f = (g, q)" by force
  have "frame_grows (hd (in_frames s)) f" "frame_grows (hd (in_frames s)) g"
    using declare_scalars_grows [OF 1] declare_arrays_grows [OF 2] assms
    by (auto simp: hd_conv_nth intro: frame_grows_trans)
  then show ?thesis
    using 1 2 assms
    by (auto simp: initializeDeclarations_def initializeDeclarationsInto_def ensure_frame_def
        split: option.splits array_decl_result.splits)
qed

interpretation store: visitor_relation store_grows
proof (unfold_locales, goal_cases)
  case (2 s t u)
  then show ?case by (fastforce simp: store_grows_def intro: frame_grows_trans)
next
  case (18 s b)
  then show ?case
    using initializeDeclarations_frames [of s b]
    by (cases "in_frames s") (auto simp: store_grows_def frame_grows_refl)
next
  case (19 s t)
  then show ?case by (intro store_grows_same) (simp add: store_grows_def)
next
  case (20 fn src f s t)
  then show ?case
    by (intro store_grows_same) (simp add: store_grows_def enter_function_def leave_function_def)
qed (auto intro!: store_grows_same simp: writeScalar_shape writeArray_shape print_def)


subsection \<open>Errors, calls and streams\<close>

definition error_state_ok :: "interp \<Rightarrow> bool" where
  "error_state_ok s \<longleftrightarrow> (in_failed s \<longleftrightarrow> in_errors s \<noteq> [] \<or> in_trapped s)"

definition errors_grow :: "interp \<Rightarrow> interp \<Rightarrow> bool" where
  "errors_grow s t \<longleftrightarrow> (in_failed s \<longrightarrow> in_failed t) \<and> prefix (in_errors s) (in_errors t) \<and>
     (error_state_ok s \<longrightarrow> error_state_ok t)"

definition calls_balanced :: "interp \<Rightarrow> interp \<Rightarrow> bool" where
  "calls_balanced s t \<longleftrightarrow> in_call_depth t = in_call_depth s \<and> in_functions t = in_functions s \<and>
     in_entry_source t = in_entry_source s \<and> in_active_source t = in_active_source s"

definition streams_advance :: "interp \<Rightarrow> interp \<Rightarrow> bool" where
  "streams_advance s t \<longleftrightarrow> prefix (in_out s) (in_out t) \<and> suffix (in_stdin t) (in_stdin s)"

text \<open>
  A relation that does not look at the frames needs fewer laws: storing, declaring and
  entering a scope all reduce to one.
\<close>

lemma initializeDeclarations_forms:
  "\<exists>fs. initializeDeclarations b s = s\<lparr>in_frames := fs\<rparr> \<or> initializeDeclarations b s = trap (s\<lparr>in_frames := fs\<rparr>) \<or>
     (\<exists>c m. initializeDeclarations b s = runtimeError c m (s\<lparr>in_frames := fs\<rparr>))"
proof -
  obtain fs where fs: "ensure_frame s = s\<lparr>in_frames := fs\<rparr>"
    by (metis ensure_frame_def interp.surjective interp.update_convs(1))
  show ?thesis
    unfolding initializeDeclarations_def fs initializeDeclarationsInto_def
    by (simp split: prod.split option.split array_decl_result.split) blast
qed

locale frame_blind_relation =
  fixes K :: "interp \<Rightarrow> interp \<Rightarrow> bool"
  assumes B_refl: "K s s"
    and B_trans: "K s t \<Longrightarrow> K t u \<Longrightarrow> K s u"
    and B_frames: "K s (s\<lparr>in_frames := fs\<rparr>)"
    and B_value: "K s (s\<lparr>in_current_value := v\<rparr>)"
    and B_str: "K s (s\<lparr>in_str := n\<rparr>)"
    and B_num: "K s (s\<lparr>in_num := i\<rparr>)"
    and B_error: "K s (runtimeError c m s)"
    and B_trap: "K s (trap s)"
    and B_print: "K s (print xs s)"
    and B_flow: "K s (s\<lparr>in_flow := fl\<rparr>)"
    and B_target: "K s (s\<lparr>in_goto_target := n\<rparr>)"
    and B_return: "K s (s\<lparr>in_return_value := v\<rparr>)"
    and B_stdin: "K s (s\<lparr>in_stdin := tl (in_stdin s)\<rparr>)"
    and B_transfers: "K s (s\<lparr>in_goto_transfers := in_goto_transfers s + 1\<rparr>)"
    and B_model: "K s (s\<lparr>in_aiModels := mo\<rparr>)"
    and B_tensor: "K s (s\<lparr>in_aiTensors := te\<rparr>)"
    and B_call: "K (enter_function fn src f s) t \<Longrightarrow> K s (leave_function s t)"
begin

lemma B_declare: "K s (initializeDeclarations b s)"
proof -
  have "K s (trap (s\<lparr>in_frames := fs\<rparr>))" "K s (runtimeError c m (s\<lparr>in_frames := fs\<rparr>))" for fs c m
    using B_trans [OF B_frames B_trap] B_trans [OF B_frames B_error] by blast+
  then show ?thesis using initializeDeclarations_forms [of b s] B_frames [of s] by metis
qed

lemma B_scope: "K (s\<lparr>in_frames := fs\<rparr>) t \<Longrightarrow> K s (t\<lparr>in_frames := gs\<rparr>)"
  using B_trans B_frames by blast

end

sublocale frame_blind_relation \<subseteq> visitor_relation K
  by unfold_locales
    (rule B_refl B_value B_str B_num B_error B_trap B_print B_frames B_flow B_target B_return B_stdin
      B_transfers B_model B_tensor B_declare | erule B_trans B_scope B_call; assumption?)+

interpretation errors: frame_blind_relation errors_grow
  by unfold_locales
    (auto simp: errors_grow_def error_state_ok_def runtimeError_def trap_def print_def enter_function_def
      leave_function_def)

interpretation calls: frame_blind_relation calls_balanced
  by unfold_locales
    (simp_all add: calls_balanced_def runtimeError_def trap_def print_def enter_function_def leave_function_def)

interpretation streams: frame_blind_relation streams_advance
  by unfold_locales
    (auto simp: streams_advance_def runtimeError_def trap_def print_def enter_function_def
      leave_function_def intro: prefix_order.trans suffix_order.trans)

end
