(* ===== verification/InterpreterFuel.thy ===== *)
theory InterpreterFuel
  imports InterpreterRuns
begin

section \<open>Fuel\<close>

text \<open>
  More fuel never changes a result, so the fuel of a run is not part of its meaning; and
  for statements without loops and calls a bound on the fuel is given that suffices in
  every state, gotos included, because the interpreter's transfer budget bounds them.
\<close>

subsection \<open>More fuel, same result\<close>

definition agrees :: "'a option \<Rightarrow> 'a option \<Rightarrow> bool" where
  "agrees a b \<longleftrightarrow> (a = None \<or> a = b)"

lemma agrees_refl: "agrees a a"
  by (simp add: agrees_def)

lemma agrees_bind:
  assumes "agrees m m'" and "\<And>x. agrees (f x) (f' x)"
  shows "agrees (m \<bind> f) (m' \<bind> f')"
  using assms(1) assms(2) [of "the m"] by (cases m) (auto simp: agrees_def)

lemma agrees_if: "agrees a a' \<Longrightarrow> agrees b b' \<Longrightarrow> agrees (if c then a else b) (if c then a' else b')"
  by simp

lemma agrees_prod: "(\<And>x y. agrees (f x y) (g x y)) \<Longrightarrow> agrees (case p of (x, y) \<Rightarrow> f x y) (case p of (x, y) \<Rightarrow> g x y)"
  by (cases p) simp

lemma agrees_option:
  "agrees a a' \<Longrightarrow> (\<And>x. agrees (f x) (f' x)) \<Longrightarrow>
    agrees (case p of None \<Rightarrow> a | Some x \<Rightarrow> f x) (case p of None \<Rightarrow> a' | Some x \<Rightarrow> f' x)"
  by (cases p) simp_all

lemmas agrees_rules = agrees_bind agrees_if agrees_prod agrees_option

lemma evaluate_agrees: "agrees (ev e (s\<lparr>in_current_value := defaultValue T_Int\<rparr>))
    (ev' e (s\<lparr>in_current_value := defaultValue T_Int\<rparr>)) \<Longrightarrow> agrees (evaluate ev e s) (evaluate ev' e s)"
  unfolding evaluate_def by (intro agrees_bind agrees_refl)

lemma visit_variable_agrees:
  assumes ev: "\<And>e s. agrees (ev e s) (ev' e s)"
  shows "agrees (visit_variable ev v s) (visit_variable ev' v s)"
  by (cases v) (auto simp: visit_array_variable_def Let_def intro!: agrees_rules evaluate_agrees ev agrees_refl)

lemma evaluate_arguments_agrees:
  assumes ev: "\<And>e s. agrees (ev e s) (ev' e s)"
  shows "agrees (evaluate_arguments ev es vs s) (evaluate_arguments ev' es vs s)"
  by (induction es arbitrary: vs s) (auto intro!: agrees_rules evaluate_agrees ev simp: agrees_refl)

lemma invokeFunction_agrees:
  assumes bl: "\<And>b s. agrees (bl b s) (bl' b s)"
  shows "agrees (invokeFunction bl f vs s) (invokeFunction bl' f vs s)"
  unfolding invokeFunction_def Let_def
  by (auto intro!: agrees_rules bl agrees_refl)

lemma visit_expression_agrees:
  assumes ev: "\<And>e s. agrees (ev e s) (ev' e s)" and bl: "\<And>b s. agrees (bl b s) (bl' b s)"
  shows "agrees (visit_expression ev bl e s) (visit_expression ev' bl' e s)"
  by (cases e)
    (auto simp: visit_binary_def visit_unary_def visit_call_def Let_def
      intro!: agrees_rules evaluate_agrees ev visit_variable_agrees evaluate_arguments_agrees
        invokeFunction_agrees bl agrees_refl)

lemma visit_read_agrees:
  assumes ev: "\<And>e s. agrees (ev e s) (ev' e s)"
  shows "agrees (visit_read ev vs s) (visit_read ev' vs s)"
  by (induction vs arbitrary: s)
    (auto simp: Let_def intro!: agrees_rules visit_variable_agrees ev simp: agrees_refl)

lemma visit_print_agrees:
  assumes ev: "\<And>e s. agrees (ev e s) (ev' e s)"
  shows "agrees (visit_print_items ev first ps s) (visit_print_items ev' first ps s)"
proof (induction ps arbitrary: first s)
  case (Cons p ps)
  then show ?case
    by (cases p) (auto simp: Let_def intro!: agrees_rules evaluate_agrees ev agrees_refl)
qed (simp add: agrees_refl)

lemma rounds_agree:
  assumes ev: "\<And>e s. agrees (ev e s) (ev' e s)" and bl: "\<And>b s. agrees (bl b s) (bl' b s)"
  shows "agrees (for_round ev bl v step to body s) (for_round ev' bl' v step to body s)"
    and "agrees (while_round ev bl c body s) (while_round ev' bl' c body s)"
  unfolding for_round_def while_round_def Let_def
  by (intro agrees_rules evaluate_agrees ev bl agrees_refl)+

lemma loop_again_agrees: "agrees r r' \<Longrightarrow> (\<And>s. agrees (a s) (a' s)) \<Longrightarrow> agrees (loop_again r a) (loop_again r' a')"
  unfolding loop_again_def by (intro agrees_rules agrees_refl)

lemma visit_statement_agrees:
  assumes ev: "\<And>e s. agrees (ev e s) (ev' e s)" and bl: "\<And>b s. agrees (bl b s) (bl' b s)"
    and fl: "\<And>v st to b s. agrees (fl v st to b s) (fl' v st to b s)"
    and wl: "\<And>c b s. agrees (wl c b s) (wl' c b s)"
  shows "agrees (visit_statement h ev bl fl wl st s) (visit_statement h ev' bl' fl' wl' st s)"
  by (cases st)
    (auto simp: visit_call_statement_def visit_assignment_def visit_if_def visit_if_else_def visit_for_def
      visit_goto_def visit_return_def visit_greenai_report_def Let_def
      intro!: agrees_rules evaluate_agrees ev bl fl wl visit_variable_agrees evaluate_arguments_agrees
        invokeFunction_agrees visit_read_agrees visit_print_agrees agrees_refl)

lemma block_step_agrees:
  assumes "\<And>st s. agrees (ex st s) (ex' st s)" and "\<And>ss pc s. agrees (lo ss pc s) (lo' ss pc s)"
  shows "agrees (block_step ex lo ss pc s) (block_step ex' lo' ss pc s)"
  unfolding block_step_def Let_def by (intro agrees_rules assms agrees_refl)

lemma visit_block_agrees:
  assumes "\<And>ss pc s. agrees (lo ss pc s) (lo' ss pc s)"
  shows "agrees (visit_block lo b s) (visit_block lo' b s)"
  by (cases b) (auto intro!: agrees_rules assms agrees_refl)

lemmas accept_simps = accept_expr.simps(2) accept_stmt.simps(2) accept_block.simps(2) block_loop.simps(2)
  for_rounds.simps(2) while_rounds.simps(2)

lemma more_fuel_step:
  "agrees (accept_expr h n e s) (accept_expr h (Suc n) e s) \<and>
   agrees (accept_stmt h n st s) (accept_stmt h (Suc n) st s) \<and>
   agrees (accept_block h n b s) (accept_block h (Suc n) b s) \<and>
   agrees (block_loop h n ss pc s) (block_loop h (Suc n) ss pc s) \<and>
   agrees (for_rounds h n v step to body s) (for_rounds h (Suc n) v step to body s) \<and>
   agrees (while_rounds h n c body s) (while_rounds h (Suc n) c body s)"
proof (induction n arbitrary: e st b ss pc v step to body c s)
  case 0
  show ?case by (simp add: agrees_def)
next
  case (Suc n)
  note IH = Suc [THEN conjunct1] Suc [THEN conjunct2, THEN conjunct1]
    Suc [THEN conjunct2, THEN conjunct2, THEN conjunct1]
    Suc [THEN conjunct2, THEN conjunct2, THEN conjunct2, THEN conjunct1]
    Suc [THEN conjunct2, THEN conjunct2, THEN conjunct2, THEN conjunct2, THEN conjunct1]
    Suc [THEN conjunct2, THEN conjunct2, THEN conjunct2, THEN conjunct2, THEN conjunct2]
  show ?case
    unfolding accept_simps
    by (intro conjI visit_expression_agrees visit_statement_agrees visit_block_agrees block_step_agrees
        loop_again_agrees rounds_agree IH [unfolded accept_simps])
qed

lemma agrees_trans: "agrees a b \<Longrightarrow> agrees b c \<Longrightarrow> agrees a c"
  by (auto simp: agrees_def)

lemma more_fuel_stmt: "n \<le> m \<Longrightarrow> agrees (accept_stmt h n st s) (accept_stmt h m st s)"
  by (induction m rule: dec_induct)
    (auto simp del: accept_stmt.simps intro: agrees_refl agrees_trans more_fuel_step [THEN conjunct2, THEN conjunct1])

lemma more_fuel_block: "n \<le> m \<Longrightarrow> agrees (accept_block h n b s) (accept_block h m b s)"
  by (induction m rule: dec_induct)
    (auto simp del: accept_block.simps
      intro: agrees_refl agrees_trans more_fuel_step [THEN conjunct2, THEN conjunct2, THEN conjunct1])


subsection \<open>Loop-free statements end\<close>

text \<open>Expressions without calls, statements without loops and calls (gotos are allowed).\<close>

fun call_free :: "AST_EXPRESSION \<Rightarrow> bool" and call_free_var :: "AST_VARIABLE \<Rightarrow> bool" where
  "call_free (E_Binary l r op) = (call_free l \<and> call_free r)"
| "call_free (E_Unary e op) = call_free e"
| "call_free (E_Var v) = call_free_var v"
| "call_free (E_Call f es) = False"
| "call_free _ = True"
| "call_free_var (V_Simple n) = True"
| "call_free_var (V_Array n e) = call_free e"

fun call_free_item :: "AST_PRINTABLE_ITEM \<Rightarrow> bool" where
  "call_free_item (P_Expr e) = call_free e"
| "call_free_item (P_String t) = True"

fun loop_free :: "AST_STATEMENT \<Rightarrow> bool" and loop_free_block :: "AST_BLOCK \<Rightarrow> bool" where
  "loop_free (S_Expr e) = call_free e"
| "loop_free (S_Call f ps) = False"
| "loop_free (S_Assign v e) = (call_free_var v \<and> call_free e)"
| "loop_free (S_Block b) = loop_free_block b"
| "loop_free (S_If c b) = (call_free c \<and> loop_free_block b)"
| "loop_free (S_IfElse c b1 b2) = (call_free c \<and> loop_free_block b1 \<and> loop_free_block b2)"
| "loop_free (S_For v f st t b) = False"
| "loop_free (S_While c b) = False"
| "loop_free (S_Goto c l) = (case c of None \<Rightarrow> True | Some e \<Rightarrow> call_free e)"
| "loop_free (S_Read vs) = list_all call_free_var vs"
| "loop_free (S_Print ps) = list_all call_free_item ps"
| "loop_free (S_GreenReport w i p t) = (call_free i \<and> call_free p \<and> call_free t)"
| "loop_free (S_Return e) = (case e of None \<Rightarrow> True | Some x \<Rightarrow> call_free x)"
| "loop_free _ = True"
| "loop_free_block (Block l ss) = (\<forall>st \<in> set ss. loop_free st)"

definition returns :: "'a option \<Rightarrow> bool" where
  "returns m \<longleftrightarrow> m \<noteq> None"

lemma returns_bind: "returns m \<Longrightarrow> (\<And>x. returns (f x)) \<Longrightarrow> returns (m \<bind> f)"
  by (auto simp: returns_def)

lemma returns_Some: "returns (Some x)"
  by (simp add: returns_def)

lemma returns_if: "returns a \<Longrightarrow> returns b \<Longrightarrow> returns (if c then a else b)"
  by simp

lemma returns_prod: "(\<And>x y. returns (f x y)) \<Longrightarrow> returns (case p of (x, y) \<Rightarrow> f x y)"
  by (cases p) simp

lemma returns_option: "returns a \<Longrightarrow> (\<And>x. returns (f x)) \<Longrightarrow> returns (case p of None \<Rightarrow> a | Some x \<Rightarrow> f x)"
  by (cases p) simp_all

lemmas returns_rules = returns_bind returns_Some returns_if returns_prod returns_option

definition halts :: "(nat \<Rightarrow> visitor) \<Rightarrow> bool" where
  "halts f \<longleftrightarrow> eventually (\<lambda>n. \<forall>s. returns (f n s)) sequentially"

lemma halts_shift: "halts (\<lambda>n. f (Suc n)) \<Longrightarrow> halts f"
  unfolding halts_def by (rule eventually_sequentially_Suc [THEN iffD1])

lemma evaluate_returns: "(\<And>s. returns (ev e s)) \<Longrightarrow> returns (evaluate ev e s)"
  unfolding evaluate_def by (intro returns_rules)

lemma visit_variable_returns:
  "(\<And>n e s. v = V_Array n e \<Longrightarrow> returns (ev e s)) \<Longrightarrow> returns (visit_variable ev v s)"
  by (cases v)
    (auto simp: visit_simple_variable_def visit_array_variable_def Let_def intro!: returns_rules evaluate_returns)

text \<open>A call-free expression needs no more fuel than its size.\<close>

lemma call_free_returns:
  "call_free e \<Longrightarrow> size e < n \<Longrightarrow> returns (accept_expr h n e s)"
proof (induction n arbitrary: e s)
  case (Suc n)
  show ?case
  proof (cases e)
    case (E_Var v)
    have "returns (accept_expr h n x t)" if "v = V_Array m x" for m x t
      using Suc.IH [of x t] Suc.prems E_Var that by simp
    then show ?thesis using E_Var by (simp add: visit_variable_returns)
  qed (use Suc in \<open>auto simp: visit_binary_def visit_unary_def Let_def intro!: returns_rules evaluate_returns\<close>)
qed simp


lemma call_free_halts: "call_free e \<Longrightarrow> halts (\<lambda>n. accept_expr h n e)"
  unfolding halts_def eventually_sequentially
  by (intro exI [of _ "Suc (size e)"]) (auto intro: call_free_returns)

lemma variable_halts: "call_free_var v \<Longrightarrow> halts (\<lambda>n. visit_variable (accept_expr h n) v)"
proof (cases v)
  case (V_Array m e)
  moreover assume "call_free_var v"
  ultimately have "halts (\<lambda>n. accept_expr h n e)" by (simp add: call_free_halts)
  then show ?thesis unfolding halts_def
    by eventually_elim (use V_Array in \<open>auto intro!: visit_variable_returns simp del: visit_variable.simps\<close>)
qed (simp add: halts_def visit_simple_variable_def Let_def returns_Some)

lemma read_halts: "list_all call_free_var vs \<Longrightarrow> halts (\<lambda>n. visit_read (accept_expr h n) vs)"
proof (induction vs)
  case (Cons v vs)
  then have "halts (\<lambda>n. visit_read (accept_expr h n) vs)" "halts (\<lambda>n. visit_variable (accept_expr h n) v)"
    by (auto simp: variable_halts)
  then show ?case unfolding halts_def
    by eventually_elim (auto simp: Let_def intro!: returns_rules)
qed (simp add: halts_def returns_Some)

lemma print_halts: "list_all call_free_item ps \<Longrightarrow>
    eventually (\<lambda>n. \<forall>first s. returns (visit_print_items (accept_expr h n) first ps s)) sequentially"
proof (induction ps)
  case (Cons p ps)
  then have "eventually (\<lambda>n. \<forall>first s. returns (visit_print_items (accept_expr h n) first ps s)) sequentially"
    "halts (\<lambda>n. accept_expr h n (case p of P_Expr e \<Rightarrow> e | P_String t \<Rightarrow> E_String t))"
    by (auto intro: call_free_halts split: AST_PRINTABLE_ITEM.split elim: call_free_item.elims)
  then show ?case unfolding halts_def
    by eventually_elim (cases p; auto simp: Let_def intro!: returns_rules evaluate_returns)
qed (simp add: returns_Some)

subsection \<open>Blocks with gotos\<close>

definition transfers_grow :: "interp \<Rightarrow> interp \<Rightarrow> bool" where
  "transfers_grow s t \<longleftrightarrow> in_goto_transfers s \<le> in_goto_transfers t"

interpretation transfers: frame_blind_relation transfers_grow
  by unfold_locales
    (auto simp: transfers_grow_def runtimeError_def trap_def print_def enter_function_def leave_function_def)

lemma label_index_less: "label_index ss l = Some k \<Longrightarrow> k < length ss"
  by (induction ss l arbitrary: k rule: label_index.induct) (auto split: if_splits)

text \<open>
  What is left of a pass over a block: the transfers still allowed, each of which may start
  a new pass, and the statements left in this pass.
\<close>

definition passes :: "nat \<Rightarrow> nat \<Rightarrow> interp \<Rightarrow> nat" where
  "passes len pc s = (Suc kMaxGotoTransfers - in_goto_transfers s) * Suc len + (len - pc)"

lemma passes_next:
  assumes "pc < len" and "in_goto_transfers s \<le> in_goto_transfers t"
  shows "passes len (Suc pc) t < passes len pc s"
proof -
  have "(Suc kMaxGotoTransfers - in_goto_transfers t) * Suc len \<le> (Suc kMaxGotoTransfers - in_goto_transfers s) * Suc len"
    using assms(2) by (intro mult_right_mono) auto
  then show ?thesis using assms(1) unfolding passes_def by (intro add_le_less_mono) auto
qed

lemma passes_goto:
  assumes "in_goto_transfers s < in_goto_transfers t" and "in_goto_transfers t \<le> kMaxGotoTransfers" and "k < len"
  shows "passes len (Suc k) t < passes len pc s"
proof -
  have "Suc (Suc kMaxGotoTransfers - in_goto_transfers t) \<le> Suc kMaxGotoTransfers - in_goto_transfers s"
    using assms(1,2) by simp
  then have "Suc (Suc kMaxGotoTransfers - in_goto_transfers t) * Suc len \<le>
      (Suc kMaxGotoTransfers - in_goto_transfers s) * Suc len"
    by (rule mult_right_mono) simp
  then have "(Suc kMaxGotoTransfers - in_goto_transfers t) * Suc len + Suc len \<le>
      (Suc kMaxGotoTransfers - in_goto_transfers s) * Suc len"
    by (simp only: mult_Suc add.commute)
  then show ?thesis unfolding passes_def by linarith
qed

lemma block_loop_returns:
  assumes ss: "\<And>n st s. N \<le> n \<Longrightarrow> st \<in> set ss \<Longrightarrow> returns (accept_stmt h n st s)"
  shows "N + passes (length ss) pc s < n \<Longrightarrow> returns (block_loop h n ss pc s)"
proof (induction n arbitrary: pc s)
  case (Suc n)
  have step: "returns (accept_stmt h n (ss ! pc) s)" if "pc < length ss"
    using ss Suc.prems that by simp
  have go: "returns (block_loop h n ss (Suc k) u)" if "passes (length ss) (Suc k) u < passes (length ss) pc s" for k u
    using Suc that by simp
  show ?case
  proof (cases "pc < length ss \<and> \<not> in_failed s \<and> in_flow s = F_Normal")
    case True
    then obtain t where t: "accept_stmt h n (ss ! pc) s = Some t" using step by (auto simp: returns_def)
    have le: "in_goto_transfers s \<le> in_goto_transfers t"
      using transfers.stmt_related [OF t] by (simp add: transfers_grow_def)
    have rest: "returns (block_loop h n ss (Suc pc) t)" using go passes_next True le by blast
    have jump: "returns (block_loop h n ss (Suc k)
        (t\<lparr>in_goto_transfers := Suc (in_goto_transfers t), in_flow := F_Normal, in_goto_target := []\<rparr>))"
      if "label_index ss l = Some k" "Suc (in_goto_transfers t) \<le> kMaxGotoTransfers" for k l
      using le that label_index_less by (intro go passes_goto) auto
    show ?thesis using True t rest jump
      by (auto simp: block_step_def Let_def returns_Some split: option.splits)
  qed (auto simp: block_step_def returns_Some)
qed simp


lemma block_halts:
  assumes "\<And>st. st \<in> set ss \<Longrightarrow> halts (\<lambda>n. accept_stmt h n st)"
  shows "halts (\<lambda>n. accept_block h n (Block l ss))"
proof -
  have "eventually (\<lambda>n. \<forall>st \<in> set ss. \<forall>s. returns (accept_stmt h n st s)) sequentially"
    using assms by (auto simp: halts_def intro!: eventually_ball_finite)
  then obtain N where N: "\<And>n st s. N \<le> n \<Longrightarrow> st \<in> set ss \<Longrightarrow> returns (accept_stmt h n st s)"
    unfolding eventually_sequentially by blast
  define M where "M = N + (Suc kMaxGotoTransfers * Suc (length ss) + length ss)"
  have "returns (block_loop h n ss 0 s)" if "M < n" for n s
  proof -
    have "(Suc kMaxGotoTransfers - in_goto_transfers s) * Suc (length ss) \<le> Suc kMaxGotoTransfers * Suc (length ss)"
      by (intro mult_right_mono) simp_all
    then have "N + passes (length ss) 0 s < n" using that unfolding M_def passes_def by linarith
    then show ?thesis using block_loop_returns [of N ss h] N by blast
  qed
  then have "returns (accept_block h (Suc n) (Block l ss) s)" if "M < n" for n s
    using that by (auto intro!: returns_rules)
  then have "halts (\<lambda>n. accept_block h (Suc n) (Block l ss))"
    unfolding halts_def eventually_sequentially by (intro exI [of _ "Suc M"]) auto
  then show ?thesis by (rule halts_shift)
qed

lemma stmt_haltsI:
  assumes "eventually P sequentially" and "\<And>n s. P n \<Longrightarrow> returns (accept_stmt h (Suc n) st s)"
  shows "halts (\<lambda>n. accept_stmt h n st)"
  by (rule halts_shift) (use assms in \<open>auto simp: halts_def elim: eventually_mono\<close>)

lemmas halting_parts = halts_def eventually_conj_iff

lemma loop_free_halts:
  "loop_free st \<Longrightarrow> halts (\<lambda>n. accept_stmt h n st)"
  "loop_free_block b \<Longrightarrow> halts (\<lambda>n. accept_block h n b)"
proof (induction st and b rule: loop_free_loop_free_block.induct)
  case (1 e)
  then show ?case
    by (intro stmt_haltsI [OF call_free_halts [unfolded halts_def], of e])
      (auto intro!: returns_rules evaluate_returns)
next
  case (3 v e)
  then have "eventually (\<lambda>n. (\<forall>s. returns (visit_variable (accept_expr h n) v s)) \<and>
      (\<forall>s. returns (accept_expr h n e s))) sequentially"
    using variable_halts [of v h] call_free_halts [of e h] by (simp add: halting_parts)
  then show ?case
    by (rule stmt_haltsI) (auto simp: visit_assignment_def intro!: returns_rules evaluate_returns)
next
  case (4 b)
  then show ?case by (intro stmt_haltsI [of "\<lambda>n. \<forall>s. returns (accept_block h n b s)"]) (auto simp: halts_def)
next
  case (5 c b)
  then have "eventually (\<lambda>n. (\<forall>s. returns (accept_expr h n c s)) \<and> (\<forall>s. returns (accept_block h n b s))) sequentially"
    using call_free_halts [of c h] by (simp add: halting_parts)
  then show ?case
    by (rule stmt_haltsI) (auto simp: visit_if_def intro!: returns_rules evaluate_returns)
next
  case (6 c b1 b2)
  then have "eventually (\<lambda>n. (\<forall>s. returns (accept_expr h n c s)) \<and> (\<forall>s. returns (accept_block h n b1 s)) \<and>
      (\<forall>s. returns (accept_block h n b2 s))) sequentially"
    using call_free_halts [of c h] by (simp add: halting_parts)
  then show ?case
    by (rule stmt_haltsI) (auto simp: visit_if_else_def intro!: returns_rules evaluate_returns)
next
  case (9 c l)
  then show ?case
  proof (cases c)
    case (Some e)
    then have "eventually (\<lambda>n. \<forall>s. returns (accept_expr h n e s)) sequentially"
      using 9 call_free_halts [of e h] by (simp add: halts_def)
    then show ?thesis using Some
      by (intro stmt_haltsI [of "\<lambda>n. \<forall>s. returns (accept_expr h n e s)"])
        (auto simp: visit_goto_def intro!: returns_rules evaluate_returns)
  qed (auto simp: visit_goto_def intro!: stmt_haltsI [OF eventually_True] returns_rules)
next
  case (10 vs)
  then show ?case using read_halts [of vs h]
    by (intro stmt_haltsI [of "\<lambda>n. \<forall>s. returns (visit_read (accept_expr h n) vs s)"]) (auto simp: halts_def)
next
  case (11 ps)
  then show ?case
    by (intro stmt_haltsI [OF print_halts]) auto
next
  case (12 w i p t)
  then have "eventually (\<lambda>n. (\<forall>s. returns (accept_expr h n i s)) \<and> (\<forall>s. returns (accept_expr h n p s)) \<and>
      (\<forall>s. returns (accept_expr h n t s))) sequentially"
    using call_free_halts [of i h] call_free_halts [of p h] call_free_halts [of t h] by (simp add: halting_parts)
  then show ?case
    by (rule stmt_haltsI) (auto simp: visit_greenai_report_def Let_def intro!: returns_rules evaluate_returns)
next
  case (13 e)
  then show ?case
  proof (cases e)
    case (Some x)
    then have "eventually (\<lambda>n. \<forall>s. returns (accept_expr h n x s)) sequentially"
      using 13 call_free_halts [of x h] by (simp add: halts_def)
    then show ?thesis using Some
      by (intro stmt_haltsI [of "\<lambda>n. \<forall>s. returns (accept_expr h n x s)"])
        (auto simp: visit_return_def intro!: returns_rules evaluate_returns)
  qed (auto simp: visit_return_def intro!: stmt_haltsI [OF eventually_True] returns_rules)
next
  case (15 l ss)
  then show ?case by (intro block_halts) auto
qed (auto simp: visit_ai_infer_def visit_model_def visit_tensor_def visit_contract_def visit_measurement_def
    visit_infer_def intro!: stmt_haltsI [OF eventually_True] returns_Some)

end
