(* ===== verification/InterpreterFlow.thy ===== *)
theory InterpreterFlow
  imports InterpreterFuel
begin

section \<open>Control-flow signals\<close>

text \<open>
  The interpreter raises \<open>goto\<close>, \<open>break\<close>, \<open>continue\<close> and \<open>return\<close> as a signal in the member
  \<open>flow\<close>, which the enclosing block, loop or call consumes. This theory says which signals a
  statement can leave behind: \<open>signals\<close> reads them off the syntax.
\<close>

fun signals :: "AST_STATEMENT \<Rightarrow> FlowSignal set" and signals_block :: "AST_BLOCK \<Rightarrow> FlowSignal set" where
  "signals (S_Block b) = signals_block b"
| "signals (S_If c b) = signals_block b"
| "signals (S_IfElse c b1 b2) = signals_block b1 \<union> signals_block b2"
| "signals (S_For v f st t b) = signals_block b - {F_Break, F_Continue}"
| "signals (S_While c b) = signals_block b - {F_Break, F_Continue}"
| "signals (S_Goto c l) = {F_Goto}"
| "signals S_Break = {F_Break}"
| "signals S_Continue = {F_Continue}"
| "signals (S_Return e) = {F_Return}"
| "signals _ = {}"
| "signals_block (Block l ss) = (\<Union>st \<in> set ss. signals st) - {F_Goto}"

subsection \<open>Expressions leave the signal alone\<close>

definition flow_kept :: "visitor \<Rightarrow> bool" where
  "flow_kept f \<longleftrightarrow> (\<forall>s t. f s = Some t \<longrightarrow> in_flow t = in_flow s)"

lemma flow_updates [simp]:
  "in_flow (runtimeError c m s) = in_flow s" "in_flow (trap s) = in_flow s" "in_flow (set_value v s) = in_flow s"
  "in_flow (print xs s) = in_flow s" "in_flow (line x s) = in_flow s" "in_flow (leave_function s t) = in_flow s"
  "in_flow (store_target tg v m1 m2 s) = in_flow s"
  by (auto simp: runtimeError_def trap_def set_value_def print_def line_def leave_function_def store_target_def
      split: option.splits)

lemma runtimeError_failed [simp]: "in_failed (runtimeError c m s)"
  by (simp add: runtimeError_def)

lemma initializeDeclarations_flow [simp]: "in_flow (initializeDeclarations b s) = in_flow s"
  using initializeDeclarations_forms [of b s] by auto

lemma evaluate_flow: "flow_kept (ev e) \<Longrightarrow> evaluate ev e s = Some (v, t) \<Longrightarrow> in_flow t = in_flow s"
  by (auto simp: flow_kept_def evaluate_def split: bind_splits)

lemma evaluate_arguments_flow:
  assumes ev: "\<And>e. flow_kept (ev e)"
  shows "evaluate_arguments ev es vs s = Some (ws, t) \<Longrightarrow> in_flow t = in_flow s"
  by (induction es arbitrary: vs s) (auto split: bind_splits if_splits dest!: evaluate_flow [OF ev])

lemma invokeFunction_flow: "invokeFunction bl name args s = Some (ok, r, t) \<Longrightarrow> in_flow t = in_flow s"
  by (auto simp: invokeFunction_def Let_def split: option.splits if_splits bind_splits)

lemma visit_variable_flow: "(\<And>e. flow_kept (ev e)) \<Longrightarrow> flow_kept (visit_variable ev v)"
  unfolding flow_kept_def
  by (cases v) (auto simp: visit_simple_variable_def visit_array_variable_def Let_def
      split: option.splits bind_splits if_splits dest!: evaluate_flow [unfolded flow_kept_def, rotated])

lemma binary_flow [simp]:
  "in_flow (binary_float op x y s) = in_flow s" "in_flow (binary_string op a b s) = in_flow s"
  "in_flow (binary_int op l r s) = in_flow s"
  by (auto simp: binary_float_def binary_string_def binary_int_def split: binop.split option.split)

lemma visit_expression_flow:
  assumes ev: "\<And>e. flow_kept (ev e)"
  shows "flow_kept (visit_expression ev bl e)"
proof (cases e)
  case (E_Var v)
  then show ?thesis using visit_variable_flow [where v = v, OF ev] by (simp add: flow_kept_def)
qed (auto simp: flow_kept_def visit_binary_def visit_unary_def visit_call_def Let_def
    split: bind_splits if_splits dest!: evaluate_flow [OF ev] evaluate_arguments_flow [OF ev] invokeFunction_flow)

lemma accept_expr_flow: "flow_kept (accept_expr h n e)"
  by (induction n arbitrary: e) (simp_all add: visit_expression_flow, simp add: flow_kept_def)


subsection \<open>Statements leave the signals of their syntax\<close>

definition ends :: "FlowSignal set \<Rightarrow> interp option \<Rightarrow> bool" where
  "ends S m \<longleftrightarrow> (\<forall>t. m = Some t \<longrightarrow> in_failed t \<or> in_flow t \<in> insert F_Normal S)"

definition keeps_normal :: "('v \<times> interp) option \<Rightarrow> bool" where
  "keeps_normal m \<longleftrightarrow> (\<forall>v t. m = Some (v, t) \<longrightarrow> in_flow t = F_Normal)"

lemma ends_mono: "ends S m \<Longrightarrow> S \<subseteq> T \<Longrightarrow> ends T m"
  by (auto simp: ends_def)

lemma ends_Some: "in_failed t \<or> in_flow t \<in> insert F_Normal S \<Longrightarrow> ends S (Some t)"
  by (simp add: ends_def)

lemma ends_None: "ends S None"
  by (simp add: ends_def)

lemma ends_if: "(c \<Longrightarrow> ends S a) \<Longrightarrow> (\<not> c \<Longrightarrow> ends S b) \<Longrightarrow> ends S (if c then a else b)"
  by simp

lemma ends_evaluate:
  "flow_kept (ev e) \<Longrightarrow> in_flow s = F_Normal \<Longrightarrow> (\<And>v t. in_flow t = F_Normal \<Longrightarrow> ends S (f (v, t))) \<Longrightarrow>
   ends S (evaluate ev e s \<bind> f)"
  by (cases "evaluate ev e s") (auto simp: ends_None dest: evaluate_flow)

lemma ends_variable:
  "(\<And>e. flow_kept (ev e)) \<Longrightarrow> in_flow s = F_Normal \<Longrightarrow> (\<And>t. in_flow t = F_Normal \<Longrightarrow> ends S (f t)) \<Longrightarrow>
   ends S (visit_variable ev v s \<bind> f)"
  using visit_variable_flow [of ev v]
  by (cases "visit_variable ev v s") (auto simp: ends_None flow_kept_def)

lemma ends_block:
  "ends S (bl s) \<Longrightarrow> (\<And>t. in_failed t \<or> in_flow t \<in> insert F_Normal S \<Longrightarrow> ends T (f t)) \<Longrightarrow> ends T (bl s \<bind> f)"
  by (cases "bl s") (auto simp: ends_None ends_def [of S])

lemmas ends_rules = ends_Some ends_if ends_evaluate ends_variable

lemma visit_read_ends:
  assumes ev: "\<And>e. flow_kept (ev e)"
  shows "in_flow s = F_Normal \<Longrightarrow> ends {} (visit_read ev vs s)"
proof (induction vs arbitrary: s)
  case (Cons v vs)
  then show ?case by (auto simp: Let_def ev intro!: ends_rules split: option.split)
qed (simp add: ends_Some)

lemma visit_print_ends:
  assumes ev: "\<And>e. flow_kept (ev e)"
  shows "in_flow s = F_Normal \<Longrightarrow> ends {} (visit_print_items ev first ps s)"
proof (induction ps arbitrary: s first)
  case (Cons p ps)
  then show ?case by (cases p) (auto simp: Let_def ev intro!: ends_rules)
qed (simp add: ends_Some)

text \<open>The rounds of a loop consume \<open>break\<close> and \<open>continue\<close>.\<close>

definition round_ends :: "FlowSignal set \<Rightarrow> (bool \<times> interp) option \<Rightarrow> bool" where
  "round_ends S m \<longleftrightarrow> (\<forall>go t. m = Some (go, t) \<longrightarrow>
     (if go then in_flow t = F_Normal else in_failed t \<or> in_flow t \<in> insert F_Normal S))"

lemma round_ends_simps:
  "round_ends S (Some (True, t)) \<longleftrightarrow> in_flow t = F_Normal"
  "round_ends S (Some (False, t)) \<longleftrightarrow> in_failed t \<or> in_flow t \<in> insert F_Normal S"
  by (auto simp: round_ends_def)

lemma loop_again_ends:
  "round_ends S m \<Longrightarrow> (\<And>t. in_flow t = F_Normal \<Longrightarrow> ends S (again t)) \<Longrightarrow> ends S (loop_again m again)"
  by (cases m) (auto simp: loop_again_def round_ends_simps ends_None ends_def [of S "Some t" for t] split: if_splits)


lemma round_Some: "(if go then in_flow t = F_Normal else in_failed t \<or> in_flow t \<in> insert F_Normal S) \<Longrightarrow>
    round_ends S (Some (go, t))"
  by (simp add: round_ends_def)

lemma round_if: "(c \<Longrightarrow> round_ends S a) \<Longrightarrow> (\<not> c \<Longrightarrow> round_ends S b) \<Longrightarrow> round_ends S (if c then a else b)"
  by simp

lemma round_evaluate:
  "flow_kept (ev e) \<Longrightarrow> in_flow s = F_Normal \<Longrightarrow> (\<And>v t. in_flow t = F_Normal \<Longrightarrow> round_ends S (f (v, t))) \<Longrightarrow>
   round_ends S (evaluate ev e s \<bind> f)"
  by (cases "evaluate ev e s") (auto simp: round_ends_def [of S None] dest: evaluate_flow)

lemma round_block:
  fixes bl :: "AST_BLOCK \<Rightarrow> visitor"
  shows "ends S (bl b s) \<Longrightarrow> (\<And>t. in_failed t \<or> in_flow t \<in> insert F_Normal S \<Longrightarrow> round_ends T (f t)) \<Longrightarrow>
   round_ends T (bl b s \<bind> f)"
  by (cases "bl b s") (auto simp: ends_def round_ends_def [of T None])

lemmas round_rules = round_Some round_if round_evaluate

lemma normal_left:
  "fl \<in> S \<Longrightarrow> F_Goto \<notin> S \<Longrightarrow> fl \<noteq> F_Return \<Longrightarrow> fl \<noteq> F_Break \<Longrightarrow> fl \<noteq> F_Continue \<Longrightarrow> fl = F_Normal"
  by (cases fl) auto

lemma while_round_ends:
  assumes ev: "\<And>e. flow_kept (ev e)" and bl: "\<And>s. in_flow s = F_Normal \<Longrightarrow> ends (signals_block b) (bl b s)"
    and s: "in_flow s = F_Normal" and goto: "F_Goto \<notin> signals_block b"
  shows "round_ends (signals_block b - {F_Break, F_Continue}) (while_round ev bl c b s)"
  unfolding while_round_def
  by (intro round_rules ev s) (use s goto in \<open>auto intro!: round_rules round_block [of _ bl, OF bl] dest: normal_left\<close>)

lemma for_round_ends:
  assumes ev: "\<And>e. flow_kept (ev e)" and bl: "\<And>s. in_flow s = F_Normal \<Longrightarrow> ends (signals_block b) (bl b s)"
    and s: "in_flow s = F_Normal" and goto: "F_Goto \<notin> signals_block b"
  shows "round_ends (signals_block b - {F_Break, F_Continue}) (for_round ev bl v st to b s)"
  unfolding for_round_def loop_store_def
  by (intro round_rules ev s, (use s ev in \<open>auto intro!: round_rules round_block [of _ bl, OF bl] simp: Let_def\<close>)?)
    (rule normal_left [OF _ goto])


lemma block_loop_step_ends:
  assumes ex: "\<And>st s. st \<in> set ss \<Longrightarrow> in_flow s = F_Normal \<Longrightarrow> ends (signals st) (ex st s)"
    and loop: "\<And>pc s. in_flow s = F_Normal \<Longrightarrow> ends (signals_block (Block l ss)) (loop ss pc s)"
    and s: "in_flow s = F_Normal"
  shows "ends (signals_block (Block l ss)) (block_step ex loop ss pc s)"
proof (cases "pc < length ss \<and> \<not> in_failed s")
  case True
  then have "ends (signals (ss ! pc)) (ex (ss ! pc) s)" and "signals (ss ! pc) \<subseteq> (\<Union>st \<in> set ss. signals st)"
    using ex s by (auto intro: nth_mem)
  then show ?thesis using True s loop
    by (cases "ex (ss ! pc) s")
      (auto simp: block_step_def Let_def ends_None ends_def [of "signals st" for st] intro!: ends_Some
        split: option.split simp del: insert_iff)
qed (auto simp: block_step_def s intro: ends_Some)

lemma visit_statement_ends:
  assumes ev: "\<And>e. flow_kept (ev e)"
    and bl: "\<And>b s. in_flow s = F_Normal \<Longrightarrow> ends (signals_block b) (bl b s)"
    and fl: "\<And>v st to b s. in_flow s = F_Normal \<Longrightarrow> ends (signals_block b - {F_Break, F_Continue}) (fl v st to b s)"
    and wl: "\<And>c b s. in_flow s = F_Normal \<Longrightarrow> ends (signals_block b - {F_Break, F_Continue}) (wl c b s)"
    and s: "in_flow s = F_Normal"
  shows "ends (signals st) (visit_statement h ev bl fl wl st s)"
proof (cases st)
  case (S_Call f ps)
  then show ?thesis using s
    by (auto simp: ends_def visit_call_statement_def split: bind_splits if_splits
        dest!: evaluate_arguments_flow [OF ev] invokeFunction_flow)
next
  case (S_Assign v e)
  then show ?thesis using s by (auto simp: visit_assignment_def ev intro!: ends_rules)
next
  case (S_If c b)
  then show ?thesis using s by (auto simp: visit_if_def ev intro!: ends_rules bl)
next
  case (S_IfElse c b1 b2)
  then show ?thesis using s
    by (auto simp: visit_if_else_def ev intro!: ends_rules intro: ends_mono [OF bl])
next
  case (S_For v f st t b)
  then show ?thesis using s by (auto simp: visit_for_def loop_store_def Let_def ev intro!: ends_rules fl)
next
  case (S_Goto c l)
  then show ?thesis using s by (cases c) (auto simp: visit_goto_def ev intro!: ends_rules split: if_splits)
next
  case (S_Return e)
  then show ?thesis using s by (cases e) (auto simp: visit_return_def ev intro!: ends_rules)
qed (use s in \<open>auto simp: visit_read_ends [OF ev] visit_print_ends [OF ev] visit_greenai_report_def Let_def
    visit_ai_infer_def visit_model_def visit_tensor_def visit_contract_def visit_measurement_def visit_infer_def ev
    intro!: ends_rules bl wl split: option.split\<close>)


lemma no_goto_signal: "F_Goto \<notin> signals_block b"
  by (cases b) simp

lemma all_end:
  "(\<forall>st s. in_flow s = F_Normal \<longrightarrow> ends (signals st) (accept_stmt h n st s)) \<and>
   (\<forall>b s. in_flow s = F_Normal \<longrightarrow> ends (signals_block b) (accept_block h n b s)) \<and>
   (\<forall>l ss pc s. in_flow s = F_Normal \<longrightarrow> ends (signals_block (Block l ss)) (block_loop h n ss pc s)) \<and>
   (\<forall>v st to b s. in_flow s = F_Normal \<longrightarrow>
      ends (signals_block b - {F_Break, F_Continue}) (for_rounds h n v st to b s)) \<and>
   (\<forall>c b s. in_flow s = F_Normal \<longrightarrow> ends (signals_block b - {F_Break, F_Continue}) (while_rounds h n c b s))"
proof (induction n)
  case (Suc n)
  note IH = Suc.IH [THEN conjunct1, rule_format]
    Suc.IH [THEN conjunct2, THEN conjunct1, rule_format]
    Suc.IH [THEN conjunct2, THEN conjunct2, THEN conjunct1, rule_format]
    Suc.IH [THEN conjunct2, THEN conjunct2, THEN conjunct2, THEN conjunct1, rule_format]
    Suc.IH [THEN conjunct2, THEN conjunct2, THEN conjunct2, THEN conjunct2, rule_format]
  have "ends (signals_block (Block l ss)) (visit_block (block_loop h n) (Block l ss) s)" if "in_flow s = F_Normal" for l ss s
    using IH(3) [of s l ss 0] IH(3) [of "s\<lparr>in_frames := empty_frame # in_frames s\<rparr>" l ss 0] that
    by (cases l) (auto intro!: ends_block [of _ "block_loop h n ss 0"] ends_Some simp del: signals_block.simps)
  then have block: "ends (signals_block b) (visit_block (block_loop h n) b s)" if "in_flow s = F_Normal" for b s
    using that by (cases b) blast
  show ?case unfolding accept_expr.simps accept_stmt.simps accept_block.simps block_loop.simps for_rounds.simps while_rounds.simps
    by (intro conjI allI impI visit_statement_ends accept_expr_flow IH block block_loop_step_ends loop_again_ends
        for_round_ends while_round_ends no_goto_signal)
qed (simp add: ends_None)

end
