(* ===== verification/InterpreterTheorems.thy ===== *)
theory InterpreterTheorems
  imports InterpreterFlow
begin

section \<open>What the interpreter guarantees\<close>

text \<open>
  The properties of the interpreter: its stores read back what was written, its integer
  arithmetic is that of signed 32-bit machine words, its runs keep the shape of the store,
  account for their errors, and end where the syntax says they do.
\<close>

subsection \<open>The stores as an interface\<close>

text \<open>
  Scalars and array elements are read and written through the frame stack by the same
  contract: a write succeeds exactly where a value of the same type can be read, the value
  is read back, and nothing else changes.
\<close>

primrec write_all :: "('s \<Rightarrow> 'k \<Rightarrow> 'v \<Rightarrow> 's option) \<Rightarrow> ('k \<times> 'v) list \<Rightarrow> 's \<Rightarrow> 's option" where
  "write_all wr [] s = Some s"
| "write_all wr (w # ws) s = do { s1 \<leftarrow> wr s (fst w) (snd w); write_all wr ws s1 }"

locale typed_store =
  fixes rd :: "'s \<Rightarrow> 'k \<Rightarrow> 'v option"
    and wr :: "'s \<Rightarrow> 'k \<Rightarrow> 'v \<Rightarrow> 's option"
    and ty :: "'v \<Rightarrow> 't"
  assumes rd_same: "wr s k v = Some s' \<Longrightarrow> rd s' k = Some v"
    and rd_other: "wr s k v = Some s' \<Longrightarrow> j \<noteq> k \<Longrightarrow> rd s' j = rd s j"
    and wr_defined: "wr s k v \<noteq> None \<longleftrightarrow> (\<exists>w. rd s k = Some w \<and> ty w = ty v)"
begin

lemma type_kept: "wr s k v = Some s' \<Longrightarrow> map_option ty (rd s' j) = map_option ty (rd s j)"
  using wr_defined [of s k v] rd_same rd_other by (cases "j = k") fastforce+

lemma read_back: "write_all wr ws s = Some s' \<Longrightarrow>
    rd s' k = (case map_of (rev ws) k of Some v \<Rightarrow> Some v | None \<Rightarrow> rd s k)"
proof (induction ws arbitrary: s)
  case (Cons w ws)
  then obtain s1 where "wr s (fst w) (snd w) = Some s1" "write_all wr ws s1 = Some s'"
    by (auto split: bind_splits)
  then show ?case
    using Cons.IH rd_same rd_other by (cases w) (auto simp: map_add_def split: option.split)
qed simp

lemma all_defined: "write_all wr ws s \<noteq> None \<longleftrightarrow>
    (\<forall>(k, v) \<in> set ws. map_option ty (rd s k) = Some (ty v))"
proof (induction ws arbitrary: s)
  case (Cons w ws)
  show ?case
  proof (cases "wr s (fst w) (snd w)")
    case None
    then show ?thesis using wr_defined [of s "fst w" "snd w"] by (cases w) auto
  next
    case (Some s1)
    then have "\<exists>x. rd s (fst w) = Some x \<and> ty x = ty (snd w)"
      using wr_defined [of s "fst w" "snd w"] by simp
    then show ?thesis using Some Cons.IH [of s1] type_kept [OF Some] by (cases w) auto
  qed
qed simp

end

lemma sint_eq_nat: "\<not> sint (i :: i32) < 0 \<Longrightarrow> \<not> sint j < 0 \<Longrightarrow> nat (sint i) = nat (sint j) \<Longrightarrow> i = j"
  by (simp add: eq_nat_nat_iff signed_word_eqI)

interpretation scalars: typed_store readScalar writeScalar rv_type
proof
  show "readScalar s' k = Some v" if "writeScalar s k v = Some s'" for s k v s'
    using that by (induction s arbitrary: s') (auto split: option.splits if_splits)
  show "readScalar s' j = readScalar s j" if "writeScalar s k v = Some s'" "j \<noteq> k" for s k v s' j
    using that by (induction s arbitrary: s') (auto split: option.splits if_splits)
  show "writeScalar s k v \<noteq> None \<longleftrightarrow> (\<exists>w. readScalar s k = Some w \<and> rv_type w = rv_type v)" for s k v
    by (induction s) (auto split: option.splits)
qed

lemma readArray_same: "writeArray fs n i v = Some gs \<Longrightarrow> readArray gs n i = Some v"
  by (induction fs arbitrary: gs) (auto simp: in_bounds_def split: option.splits if_splits)

lemma readArray_other: "writeArray fs n i v = Some gs \<Longrightarrow> (m, j) \<noteq> (n, i) \<Longrightarrow> readArray gs m j = readArray fs m j"
  by (induction fs arbitrary: gs)
    (auto simp: in_bounds_def nth_list_update dest: sint_eq_nat split: option.splits if_splits)

lemma writeArray_defined:
  "writeArray fs n i v \<noteq> None \<longleftrightarrow> (\<exists>w. readArray fs n i = Some w \<and> rv_type w = rv_type v)"
  by (induction fs) (auto split: option.splits)

definition readElement :: "Frame list \<Rightarrow> string \<times> i32 \<Rightarrow> RuntimeValue option" where
  "readElement fs k = readArray fs (fst k) (snd k)"

definition writeElement :: "Frame list \<Rightarrow> string \<times> i32 \<Rightarrow> RuntimeValue \<Rightarrow> Frame list option" where
  "writeElement fs k v = writeArray fs (fst k) (snd k) v"

interpretation arrays: typed_store readElement writeElement rv_type
proof (unfold_locales, unfold readElement_def writeElement_def)
  show "readArray s' (fst j) (snd j) = readArray s (fst j) (snd j)"
    if "writeArray s (fst k) (snd k) v = Some s'" "j \<noteq> k" for s k v s' j
    using that by (intro readArray_other) (auto simp: prod_eq_iff)
qed (rule readArray_same writeArray_defined; assumption?)+

subsection \<open>Reading back\<close>

text \<open>
  Writing scalars through the frame stack. A sequence of \<open>writeScalar\<close> calls succeeds
  exactly if every target is declared with the type of the value written to it; afterwards
  each name reads as the last value written to it, and names that were not written read as
  before.
\<close>

theorem scalar_store_reads_back:
  "(write_all writeScalar ws fs \<noteq> None \<longleftrightarrow>
      (\<forall>k v. (k, v) \<in> set ws \<longrightarrow> map_option rv_type (readScalar fs k) = Some (rv_type v))) \<and>
   (\<forall>gs k. write_all writeScalar ws fs = Some gs \<longrightarrow>
      readScalar gs k = (case map_of (rev ws) k of Some v \<Rightarrow> Some v | None \<Rightarrow> readScalar fs k))"
  using scalars.all_defined [of ws fs] scalars.read_back [of ws fs] by blast

definition demo_frames :: "Frame list" where
  "demo_frames =
     [\<lparr>fr_scalars = [''x'' \<mapsto> int_value 1], fr_arrays = Map.empty\<rparr>,
      \<lparr>fr_scalars = [''x'' \<mapsto> bool_value True, ''y'' \<mapsto> int_value 5],
       fr_arrays = [''a'' \<mapsto> [int_value 7, int_value 8]]\<rparr>]"

theorem scalar_store_reads_back_witness:
  "\<exists>gs. write_all writeScalar [(''x'', int_value 2), (''y'', int_value 3), (''x'', int_value 4)] demo_frames = Some gs \<and>
     readScalar gs ''x'' = Some (int_value 4) \<and> readScalar gs ''y'' = Some (int_value 3)"
proof -
  let ?ws = "[(''x'', int_value 2), (''y'', int_value 3), (''x'', int_value 4)]"
  have "write_all writeScalar ?ws demo_frames \<noteq> None"
    unfolding scalar_store_reads_back [THEN conjunct1]
    by (simp add: demo_frames_def int_value_def defaultValue_def)
  then obtain gs where "write_all writeScalar ?ws demo_frames = Some gs" by blast
  with scalar_store_reads_back [THEN conjunct2, rule_format, OF this]
  show ?thesis by (simp del: write_all.simps)
qed

text \<open>
  Writing array elements. A sequence of \<open>writeArray\<close> calls succeeds exactly if every
  target is an element inside the bounds of a declared array and has the type of the value;
  afterwards each element reads as the last value written to it and every other element
  reads as before.
\<close>

theorem array_store_reads_back:
  "(write_all writeElement ws fs \<noteq> None \<longleftrightarrow>
      (\<forall>n i v. ((n, i), v) \<in> set ws \<longrightarrow> map_option rv_type (readArray fs n i) = Some (rv_type v))) \<and>
   (\<forall>gs n i. write_all writeElement ws fs = Some gs \<longrightarrow>
      readArray gs n i = (case map_of (rev ws) (n, i) of Some v \<Rightarrow> Some v | None \<Rightarrow> readArray fs n i))"
proof (intro conjI allI impI)
  show "write_all writeElement ws fs \<noteq> None \<longleftrightarrow>
      (\<forall>n i v. ((n, i), v) \<in> set ws \<longrightarrow> map_option rv_type (readArray fs n i) = Some (rv_type v))"
    unfolding arrays.all_defined readElement_def by auto
  show "readArray gs n i = (case map_of (rev ws) (n, i) of Some v \<Rightarrow> Some v | None \<Rightarrow> readArray fs n i)"
    if "write_all writeElement ws fs = Some gs" for gs n i
    using arrays.read_back [OF that, of "(n, i)"] by (simp add: readElement_def split: option.split)
qed

theorem array_store_reads_back_witness:
  "\<exists>gs. write_all writeElement [((''a'', 1), int_value 2), ((''a'', 1), int_value 3)] demo_frames = Some gs \<and>
     readArray gs ''a'' 1 = Some (int_value 3) \<and> readArray gs ''a'' 0 = Some (int_value 7)"
proof -
  let ?ws = "[((''a'', 1), int_value 2), ((''a'', 1), int_value 3)]"
  have "write_all writeElement ?ws demo_frames \<noteq> None"
    unfolding array_store_reads_back [THEN conjunct1]
    by (simp add: demo_frames_def int_value_def defaultValue_def in_bounds_def)
  then obtain gs where "write_all writeElement ?ws demo_frames = Some gs" by blast
  with array_store_reads_back [THEN conjunct2, rule_format, OF this]
  show ?thesis by (simp add: demo_frames_def in_bounds_def del: write_all.simps)
qed


subsection \<open>Integer arithmetic\<close>

lemma fromUnsigned32_id: "fromUnsigned32 v = v"
  by (simp add: fromUnsigned32_def Let_def)

lemma sint_i32_bounds: "- (2 ^ 31) \<le> sint (i :: i32)" "sint i < 2 ^ 31"
  using sint_ge [of i] sint_lt [of i] by simp_all

lemma sint_word_of_int32: "- (2 ^ 31) \<le> k \<Longrightarrow> k < 2 ^ 31 \<Longrightarrow> sint (word_of_int k :: i32) = k"
  by (simp add: sint_sbintrunc' signed_take_bit_int_eq_self)

lemma sint_int_min: "sint l = - (2 ^ 31) \<longleftrightarrow> l = int_min"
  using signed_word_eqI [of l int_min] by (auto simp: int_min_def)

lemma sint_minus_one: "sint (r :: i32) = - 1 \<longleftrightarrow> r = - 1"
  using signed_word_eqI [of r "- 1"] by auto

lemma sint_zero_iff: "sint (r :: i32) = 0 \<longleftrightarrow> r = 0"
  using signed_word_eqI [of r 0] by auto

text \<open>The guard that the interpreter puts in front of a division is exactly what the quotient needs to fit.\<close>

lemma sdiv_fits:
  fixes l r :: i32
  assumes "\<not> (l = int_min \<and> r = - 1)"
  shows "- (2 ^ 31) \<le> sint l sdiv sint r \<and> sint l sdiv sint r < 2 ^ 31"
proof -
  have "sint l sdiv sint r \<noteq> 2 ^ 31"
  proof
    assume q: "sint l sdiv sint r = 2 ^ 31"
    then have "sint l = - (2 ^ 31)" using sdiv_int_range [of "sint l" "sint r"] sint_i32_bounds [of l] by auto
    then have "l = int_min" "sint r = - 1"
      using q int_sdiv_negated_is_minus1 [of "sint l" "sint r"] sint_int_min [of l] by auto
    then show False using assms sint_minus_one [of r] by simp
  qed
  then show ?thesis using sdiv_int_range [of "sint l" "sint r"] sint_i32_bounds [of l] by auto
qed

lemma smod_fits: "r \<noteq> 0 \<Longrightarrow> - (2 ^ 31) \<le> sint l smod sint r \<and> sint l smod sint r < 2 ^ 31" for l r :: i32
  using smod_int_range [of "sint r" "sint l"] sint_i32_bounds [of r] sint_zero_iff [of r] by auto

text \<open>
  The interpreter's integer addition, subtraction and multiplication are those of
  two's-complement 32-bit integers: the result is the exact one, wrapped into the signed
  range. The wrap-around is computed on unsigned words and converted back without an
  overflowing conversion.
\<close>

theorem wrap_arithmetic_is_signed_wrap:
  "sint (wrapAdd l r) = signed_take_bit 31 (sint l + sint r) \<and>
   sint (wrapSub l r) = signed_take_bit 31 (sint l - sint r) \<and>
   sint (wrapMul l r) = signed_take_bit 31 (sint l * sint r)"
  by (simp add: wrapAdd_def wrapSub_def wrapMul_def fromUnsigned32_id sint_word_ariths)

text \<open>
  C23: Integer operators never reach undefined arithmetic. Division and remainder stop the
  run with the diagnostic SHD7001 exactly for a zero divisor and for the least integer
  divided by minus one; in every other case they give the truncated quotient and the
  remainder with the sign of the dividend, both in range and related by the division
  equation.
\<close>

theorem guarded_division_exact:
  assumes "\<not> in_failed s" and "\<not> in_trapped s"
  shows "\<not> in_trapped (binary_int op l r s) \<and>
    (in_failed (binary_int BOP_DIVIDE l r s) \<longleftrightarrow> r = 0 \<or> l = int_min \<and> r = - 1) \<and>
    (in_failed (binary_int BOP_MODULO l r s) \<longleftrightarrow> r = 0 \<or> l = int_min \<and> r = - 1) \<and>
    (\<not> (r = 0 \<or> l = int_min \<and> r = - 1) \<longrightarrow>
       (let q = sint (rv_int (in_current_value (binary_int BOP_DIVIDE l r s)));
            m = sint (rv_int (in_current_value (binary_int BOP_MODULO l r s)))
        in q = sint l sdiv sint r \<and> m = sint l smod sint r \<and> q * sint r + m = sint l))"
proof (intro conjI impI)
  show "\<not> in_trapped (binary_int op l r s)"
    using assms by (auto simp: binary_int_def cpp_div_def cpp_mod_def set_value_def runtimeError_def split: binop.split)
  show "in_failed (binary_int BOP_DIVIDE l r s) \<longleftrightarrow> r = 0 \<or> l = int_min \<and> r = - 1"
    "in_failed (binary_int BOP_MODULO l r s) \<longleftrightarrow> r = 0 \<or> l = int_min \<and> r = - 1"
    using assms by (simp_all add: binary_int_def cpp_div_def cpp_mod_def set_value_def)
  assume "\<not> (r = 0 \<or> l = int_min \<and> r = - 1)"
  then show "let q = sint (rv_int (in_current_value (binary_int BOP_DIVIDE l r s)));
            m = sint (rv_int (in_current_value (binary_int BOP_MODULO l r s)))
        in q = sint l sdiv sint r \<and> m = sint l smod sint r \<and> q * sint r + m = sint l"
    using sdiv_fits [of l r] smod_fits [of r l]
    by (auto simp: binary_int_def cpp_div_def cpp_mod_def set_value_def int_value_def sint_word_of_int32
        sdiv_mult_smod_eq)
qed

theorem guarded_division_exact_witness:
  "let s = Interpreter_init ''main.short'' [] in
     \<not> in_failed s \<and> \<not> in_trapped s \<and> \<not> in_trapped (binary_int BOP_DIVIDE int_min (- 1) s) \<and>
     in_failed (binary_int BOP_DIVIDE int_min (- 1) s)"
  using guarded_division_exact [of "Interpreter_init ''main.short'' []" BOP_DIVIDE int_min "- 1"]
  by (simp add: Interpreter_init_def)


subsection \<open>Runs\<close>

text \<open>Small programs for the examples: integer declarations and one block.\<close>

definition demo_decls :: "string list \<Rightarrow> AST_DATA_DECLARATION_BLOCK" where
  "demo_decls ns = fold decl_push_scalar ns empty_decl_block"

definition demo_program :: "string list \<Rightarrow> AST_STATEMENT list \<Rightarrow> AST_PROGRAM" where
  "demo_program ns ss = \<lparr>pg_decl_block = demo_decls ns, pg_functions = [], pg_code_block = Block False ss\<rparr>"

definition no_ai :: ai_host where
  "no_ai = \<lparr>ah_ai_infer = (\<lambda>_ _ _. []), ah_infer = (\<lambda>_ _. \<lparr>ir_success = False, ir_fallback = True,
     ir_backend_name = [], ir_provider_name = [], ir_outputs = 0, ir_status_text = [], ir_reason = []\<rparr>)\<rparr>"

lemma accept_numeral [simp]:
  "accept_expr h (numeral k) = visit_expression (accept_expr h (pred_numeral k)) (accept_block h (pred_numeral k))"
  "accept_stmt h (numeral k) = visit_statement h (accept_expr h (pred_numeral k)) (accept_block h (pred_numeral k))
     (for_rounds h (pred_numeral k)) (while_rounds h (pred_numeral k))"
  "accept_block h (numeral k) = visit_block (block_loop h (pred_numeral k))"
  "block_loop h (numeral k) = block_step (accept_stmt h (pred_numeral k)) (block_loop h (pred_numeral k))"
  by (simp_all add: numeral_eq_Suc)

lemmas run_simps = visit_program_def demo_program_def demo_decls_def decl_push_scalar_def empty_decl_block_def Interpreter_init_def initializeDeclarations_def
  initializeDeclarationsInto_def ensure_frame_def registerFunctions_def empty_frame_def block_step_def
  visit_assignment_def evaluate_def set_value_def store_target_def visit_simple_variable_def visit_binary_def
  binary_int_def runtimeError_def int_value_def defaultValue_def bool_value_def Let_def

text \<open>
  C8: Executing any statement keeps the typed layout of the store. Every frame but the
  innermost keeps exactly its names, their types and the lengths and element types of its
  arrays; the innermost frame only gains declarations; the frame stack has its old height,
  whatever calls, scopes, failures and jumps the statement went through.
\<close>

theorem statement_keeps_store_layout:
  assumes "accept_stmt h n st s = Some t" and "in_frames s \<noteq> []"
  shows "length (in_frames t) = length (in_frames s) \<and>
    (\<forall>k. 0 < k \<and> k < length (in_frames s) \<longrightarrow> frame_shape (in_frames t ! k) = frame_shape (in_frames s ! k)) \<and>
    frame_grows (hd (in_frames s)) (hd (in_frames t))"
proof -
  have g: "length (in_frames t) = length (in_frames s)"
    "map frame_shape (tl (in_frames t)) = map frame_shape (tl (in_frames s))"
    "frame_grows (hd (in_frames s)) (hd (in_frames t))"
    using store.stmt_related [OF assms(1)] assms(2) by (simp_all add: store_grows_def)
  have "frame_shape (in_frames t ! k) = frame_shape (in_frames s ! k)" if "0 < k" "k < length (in_frames s)" for k
  proof -
    have "map frame_shape (tl (in_frames t)) ! (k - 1) = map frame_shape (tl (in_frames s)) ! (k - 1)"
      using g(2) by simp
    then show ?thesis using that g(1) by (simp add: nth_tl)
  qed
  with g show ?thesis by blast
qed

theorem statement_keeps_store_layout_witness:
  "let s = (Interpreter_init ''m'' [])\<lparr>in_frames := demo_frames\<rparr> in
   \<exists>t. accept_stmt no_ai 4 (S_Assign (V_Simple ''y'') (E_Literal 9)) s = Some t \<and> in_frames s \<noteq> [] \<and>
     frame_shape (in_frames t ! 1) = frame_shape (demo_frames ! 1)"
proof -
  define s where "s = (Interpreter_init ''m'' [])\<lparr>in_frames := demo_frames\<rparr>"
  have "accept_stmt no_ai 4 (S_Assign (V_Simple ''y'') (E_Literal 9)) s \<noteq> None"
    by (simp add: s_def demo_frames_def run_simps)
  then obtain t where t: "accept_stmt no_ai 4 (S_Assign (V_Simple ''y'') (E_Literal 9)) s = Some t" by blast
  have "in_frames s = demo_frames" "demo_frames \<noteq> []" "1 < length demo_frames"
    by (simp_all add: s_def demo_frames_def)
  then show ?thesis using t statement_keeps_store_layout [OF t] unfolding s_def [symmetric] by (auto simp: Let_def)
qed

text \<open>Loading the program and its libraries into a new interpreter.\<close>

definition load_libraries :: "(AST_PROGRAM \<times> string) list \<Rightarrow> interp \<Rightarrow> interp" where
  "load_libraries libs s = fold (\<lambda>(p, src). addLibraryProgram p src) libs s"

definition fresh_state :: "string \<Rightarrow> stdin_answer list \<Rightarrow> interp \<Rightarrow> bool" where
  "fresh_state src input s \<longleftrightarrow> error_state_ok s \<and> in_call_depth s = 0 \<and> length (in_frames s) = 1 \<and>
     in_flow s = F_Normal \<and> in_entry_source s = src \<and> in_active_source s = src \<and> in_stdin s = input \<and> in_out s = []"

lemma initializeDeclarationsInto_forms:
  "\<exists>f. initializeDeclarationsInto b k s \<in> {s\<lparr>in_frames := (in_frames s)[k := f]\<rparr>,
     trap (s\<lparr>in_frames := (in_frames s)[k := f]\<rparr>)} \<union>
     {runtimeError c m (s\<lparr>in_frames := (in_frames s)[k := f]\<rparr>) | c m. True}"
  unfolding initializeDeclarationsInto_def
  by (simp split: prod.split option.split array_decl_result.split) blast

lemma declare_fresh:
  assumes "fresh_state src input s"
  shows "fresh_state src input (initializeDeclarationsInto b k s)"
  using assms initializeDeclarationsInto_forms [of b k s]
  by (auto simp: fresh_state_def error_state_ok_def runtimeError_def trap_def)

lemma register_fresh: "fresh_state src input s \<Longrightarrow> fresh_state src input (registerFunctions fs p s)"
  by (simp add: fresh_state_def registerFunctions_def error_state_ok_def)

lemma ensure_frame_fresh: "fresh_state src input s \<Longrightarrow> ensure_frame s = s"
  by (auto simp: fresh_state_def ensure_frame_def)

lemma load_fresh: "fresh_state src input (load_libraries libs (Interpreter_init src input))"
proof -
  have "fresh_state src input s \<Longrightarrow> fresh_state src input (load_libraries libs s)" for s
    by (induction libs arbitrary: s)
      (auto simp: load_libraries_def addLibraryProgram_def Let_def ensure_frame_fresh declare_fresh register_fresh)
  then show ?thesis by (simp add: fresh_state_def Interpreter_init_def error_state_ok_def)
qed

text \<open>
  C11: The outcome of a whole program, whatever libraries were loaded before it. If the run
  returns, it has failed exactly if a diagnostic was reported or the machine trapped, the
  call depth is back at zero, only the global frame is left, the active source is the entry
  file again, a run that did not fail has no pending control-flow signal, and the input that
  is left is the rest of the input.
\<close>

theorem program_run_accounts_for_itself:
  assumes "visit_program h n p (load_libraries libs (Interpreter_init src input)) = Some t"
  shows "(in_failed t \<longleftrightarrow> in_errors t \<noteq> [] \<or> in_trapped t) \<and> in_call_depth t = 0 \<and> length (in_frames t) = 1 \<and>
    in_active_source t = src \<and> (in_failed t \<or> in_flow t = F_Normal) \<and> suffix (in_stdin t) input"
proof -
  define s0 where "s0 = registerFunctions (pg_functions p) src
    (initializeDeclarations (pg_decl_block p) (load_libraries libs (Interpreter_init src input)))"
  have fresh: "fresh_state src input s0"
    unfolding s0_def initializeDeclarations_def using load_fresh [of src input libs]
    by (intro register_fresh declare_fresh) (simp add: ensure_frame_fresh)
  have src: "in_entry_source (load_libraries libs (Interpreter_init src input)) = src"
    using load_fresh [of src input libs] by (simp add: fresh_state_def)
  obtain s1 where s1: "accept_block h n (pg_code_block p) s0 = Some s1"
    and t: "t = (if \<not> in_failed s1 \<and> in_flow s1 \<noteq> F_Normal
      then runtimeError ''SHD7004'' ''control-flow signal escaped the top-level program'' s1 else s1)"
    using assms unfolding visit_program_def src s0_def [symmetric] by (auto split: bind_splits)
  have "store_grows s0 s1" "errors_grow s0 s1" "calls_balanced s0 s1" "streams_advance s0 s1"
    using s1 store.block_related errors.block_related calls.block_related streams.block_related by blast+
  then show ?thesis using fresh unfolding t
    by (auto simp: fresh_state_def store_grows_def errors_grow_def calls_balanced_def streams_advance_def
        error_state_ok_def runtimeError_def)
qed

theorem program_run_accounts_for_itself_witness:
  "\<exists>t. visit_program no_ai 9 (demo_program [''x''] [S_Assign (V_Simple ''x'')
      (E_Binary (E_Literal 5) (E_Literal 0) BOP_DIVIDE)]) (load_libraries [] (Interpreter_init ''m'' [])) = Some t \<and>
     in_failed t \<and> in_errors t \<noteq> [] \<and> in_call_depth t = 0"
proof -
  let ?p = "demo_program [''x''] [S_Assign (V_Simple ''x'') (E_Binary (E_Literal 5) (E_Literal 0) BOP_DIVIDE)]"
  have "\<exists>t. visit_program no_ai 9 ?p (load_libraries [] (Interpreter_init ''m'' [])) = Some t \<and>
      in_failed t \<and> \<not> in_trapped t"
    by (simp add: load_libraries_def run_simps)
  then show ?thesis using program_run_accounts_for_itself [of no_ai 9 ?p "[]" "''m''" "[]"] by blast
qed


subsection \<open>Fuel and termination\<close>

text \<open>
  The fuel of the model only bounds the recursion. Once a program returns, more fuel
  gives the same final state, so the result of a run does not depend on the bound.
\<close>

theorem more_fuel_same_run:
  assumes "visit_program h n p s = Some t" and "n \<le> m"
  shows "visit_program h m p s = Some t"
  using assms(1) more_fuel_block [OF assms(2), of h "pg_code_block p" "registerFunctions (pg_functions p)
    (in_entry_source s) (initializeDeclarations (pg_decl_block p) s)"]
  unfolding visit_program_def agrees_def by auto

theorem more_fuel_same_run_witness:
  "\<exists>t. visit_program no_ai 9 (demo_program [''x''] [S_Assign (V_Simple ''x'') (E_Literal 5)])
      (Interpreter_init ''m'' []) = Some t \<and>
     visit_program no_ai 1000 (demo_program [''x''] [S_Assign (V_Simple ''x'') (E_Literal 5)])
      (Interpreter_init ''m'' []) = Some t"
proof -
  let ?p = "demo_program [''x''] [S_Assign (V_Simple ''x'') (E_Literal 5)]"
  have "\<exists>t. visit_program no_ai 9 ?p (Interpreter_init ''m'' []) = Some t"
    by (simp add: run_simps)
  then show ?thesis using more_fuel_same_run [of no_ai 9 ?p "Interpreter_init ''m'' []" _ 1000] by auto
qed

text \<open>
  C12: A block without loops and without calls always ends, even with backward gotos: there
  is one bound on the fuel that is enough from every state. The budget on goto transfers is
  what makes this true.
\<close>

theorem loop_free_blocks_terminate:
  assumes "loop_free_block b"
  shows "\<exists>N. \<forall>n \<ge> N. \<forall>s. \<exists>t. accept_block h n b s = Some t"
  using loop_free_halts(2) [OF assms, of h]
  unfolding halts_def eventually_sequentially returns_def by auto

theorem loop_free_blocks_terminate_witness:
  "\<exists>n t. accept_block no_ai n (Block False [S_Label ''again'', S_Goto None ''again'']) (Interpreter_init ''m'' []) = Some t"
proof -
  have "loop_free_block (Block False [S_Label ''again'', S_Goto None ''again''])" by simp
  from loop_free_blocks_terminate [OF this, of no_ai] show ?thesis by blast
qed

subsection \<open>Control flow\<close>

text \<open>
  C15: Control-flow signals are confined to where the syntax puts them. A statement run from
  normal flow either fails, ends in normal flow, or leaves a signal that its syntax can
  raise: a goto only from a goto statement itself, never out of a block; break and continue
  never out of a loop; return only from a return statement.
\<close>

theorem signals_confined:
  assumes "accept_stmt h n st s = Some t" and "in_flow s = F_Normal"
  shows "in_failed t \<or> in_flow t = F_Normal \<or> in_flow t \<in> signals st"
  using all_end [THEN conjunct1, rule_format, OF assms(2)] assms(1) unfolding ends_def by blast

theorem signals_confined_witness:
  "\<exists>t. accept_stmt no_ai 9 (S_Block (Block True [S_Goto None ''out''])) (Interpreter_init ''m'' []) = Some t \<and>
     (in_failed t \<or> in_flow t = F_Normal)"
proof -
  let ?st = "S_Block (Block True [S_Goto None ''out''])"
  have "\<exists>t. accept_stmt no_ai 9 ?st (Interpreter_init ''m'' []) = Some t"
    by (simp add: run_simps visit_goto_def)
  then show ?thesis
    using signals_confined [of no_ai 9 ?st "Interpreter_init ''m'' []"] by (auto simp: Interpreter_init_def)
qed

subsection \<open>The GreenAI report\<close>



end
