(* ===== verification/Diagnostics.thy ===== *)
theory Diagnostics
  imports CText "HOL-Library.Sublist"
begin

section \<open>Source ranges and diagnostics\<close>

text \<open>
  \<open>ast/SourceRange.cpp\<close> and \<open>visitors/Diagnostics.cpp\<close>. The registry of source ranges is a map
  from node addresses; the null address has no range. A \<open>Diagnostics\<close> object is a record; the
  lines of the source file are an argument of \<open>setSourceFile\<close>; \<open>print\<close> gives the text that goes
  to the error stream.
\<close>

record SourcePosition =
  sp_line :: int
  sp_column :: int
  sp_offset :: size_t

record SourceRange =
  sr_begin :: SourcePosition
  sr_end :: SourcePosition

definition unknown_position :: SourcePosition where
  "unknown_position = \<lparr>sp_line = 0, sp_column = 0, sp_offset = 0\<rparr>"

definition unknown_range :: SourceRange where
  "unknown_range = \<lparr>sr_begin = unknown_position, sr_end = unknown_position\<rparr>"

definition position_valid :: "SourcePosition \<Rightarrow> bool" where
  "position_valid p = (sp_line p > 0 \<and> sp_column p > 0)"

definition range_valid :: "SourceRange \<Rightarrow> bool" where
  "range_valid r = (position_valid (sr_begin r) \<and> position_valid (sr_end r) \<and>
     (sp_line (sr_end r) > sp_line (sr_begin r) \<or>
      sp_line (sr_end r) = sp_line (sr_begin r) \<and> sp_column (sr_end r) \<ge> sp_column (sr_begin r)))"

definition range_toString :: "SourceRange \<Rightarrow> string" where
  "range_toString r =
     (if \<not> range_valid r then ''<unknown>''
      else show_int (sp_line (sr_begin r)) @ '':'' @ show_int (sp_column (sr_begin r)) @ ''-'' @
        show_int (sp_line (sr_end r)) @ '':'' @ show_int (sp_column (sr_end r)))"

subsection \<open>The registry of source ranges\<close>

text \<open>\<open>None\<close> is the null pointer.\<close>

type_synonym node = "nat option"
type_synonym ranges = "nat \<rightharpoonup> SourceRange"

definition set_ast_source_range :: "node \<Rightarrow> SourceRange \<Rightarrow> ranges \<Rightarrow> ranges" where
  "set_ast_source_range n r m = (case n of None \<Rightarrow> m | Some a \<Rightarrow> if \<not> range_valid r then m else m(a \<mapsto> r))"

definition get_ast_source_range :: "node \<Rightarrow> ranges \<Rightarrow> SourceRange" where
  "get_ast_source_range n m = (case n of None \<Rightarrow> unknown_range
     | Some a \<Rightarrow> (case m a of None \<Rightarrow> unknown_range | Some r \<Rightarrow> r))"

definition has_ast_source_range :: "node \<Rightarrow> ranges \<Rightarrow> bool" where
  "has_ast_source_range n m = range_valid (get_ast_source_range n m)"

definition erase_ast_source_range :: "node \<Rightarrow> ranges \<Rightarrow> ranges" where
  "erase_ast_source_range n m = (case n of None \<Rightarrow> m | Some a \<Rightarrow> m(a := None))"

definition clear_ast_source_ranges :: "ranges \<Rightarrow> ranges" where
  "clear_ast_source_ranges m = Map.empty"

subsection \<open>The diagnostics object\<close>

datatype Severity = Warning | Error

record DiagnosticRecord =
  dr_severity :: Severity
  dr_code :: string
  dr_message :: string
  dr_range :: SourceRange

record Diagnostics =
  dg_source_file :: string
  dg_source_lines :: "string list"
  dg_records :: "DiagnosticRecord list"
  dg_has_errors :: bool
  dg_has_warnings :: bool

definition no_diagnostics :: Diagnostics where
  "no_diagnostics = \<lparr>dg_source_file = [], dg_source_lines = [], dg_records = [],
     dg_has_errors = False, dg_has_warnings = False\<rparr>"

definition setSourceFile :: "string \<Rightarrow> string list \<Rightarrow> Diagnostics \<Rightarrow> Diagnostics" where
  "setSourceFile path file_lines d = d\<lparr>dg_source_file := path, dg_source_lines := file_lines\<rparr>"

definition dg_add :: "Severity \<Rightarrow> string \<Rightarrow> string \<Rightarrow> SourceRange \<Rightarrow> Diagnostics \<Rightarrow> Diagnostics" where
  "dg_add severity code message r d = d\<lparr>
     dg_records := dg_records d @ [\<lparr>dr_severity = severity, dr_code = code, dr_message = message, dr_range = r\<rparr>],
     dg_has_errors := (dg_has_errors d \<or> severity = Error),
     dg_has_warnings := (dg_has_warnings d \<or> severity = Warning)\<rparr>"

definition errorAtNode :: "ranges \<Rightarrow> node \<Rightarrow> string \<Rightarrow> string \<Rightarrow> Diagnostics \<Rightarrow> Diagnostics" where
  "errorAtNode m n code message d = dg_add Error code message (get_ast_source_range n m) d"

definition warningAtNode :: "ranges \<Rightarrow> node \<Rightarrow> string \<Rightarrow> string \<Rightarrow> Diagnostics \<Rightarrow> Diagnostics" where
  "warningAtNode m n code message d = dg_add Warning code message (get_ast_source_range n m) d"

definition hasErrors :: "Diagnostics \<Rightarrow> bool" where "hasErrors d = dg_has_errors d"
definition hasWarnings :: "Diagnostics \<Rightarrow> bool" where "hasWarnings d = dg_has_warnings d"
definition hasDiagnostics :: "Diagnostics \<Rightarrow> bool" where "hasDiagnostics d = (dg_records d \<noteq> [])"

subsection \<open>Locating an anchor\<close>

definition contains :: "string \<Rightarrow> string \<Rightarrow> bool" where
  "contains line needle = (needle \<noteq> [] \<and> sublist needle line)"

definition firstNonSpaceColumn :: "string \<Rightarrow> int" where
  "firstNonSpaceColumn line = (let k = length (takeWhile is_space line) in
     if k < length line then int k + 1 else 1)"

definition anchor_patterns :: "string \<Rightarrow> string \<Rightarrow> string list" where
  "anchor_patterns kind name =
     (if kind = ''model'' then [''model '' @ name]
      else if kind = ''tensor'' then [''tensor '' @ name]
      else if kind = ''infer'' then [''infer '' @ name @ ''('', ''infer '']
      else if kind = ''greenai_contract'' then [''greenai_contract '' @ name]
      else if kind = ''greenai_measure'' then [''greenai_measure '' @ name]
      else if kind = ''keyword'' then [name] else [])"

fun locate_lines :: "string list \<Rightarrow> nat \<Rightarrow> string list \<Rightarrow> int \<times> int" where
  "locate_lines patterns i [] = (0, 0)"
| "locate_lines patterns i (line # lines) =
     (if list_ex (contains line) patterns then (int i + 1, firstNonSpaceColumn line)
      else locate_lines patterns (i + 1) lines)"

definition locateAnchor :: "string \<Rightarrow> string \<Rightarrow> Diagnostics \<Rightarrow> int \<times> int" where
  "locateAnchor kind name d = locate_lines (anchor_patterns kind name) 0 (dg_source_lines d)"

definition pointRange :: "int \<Rightarrow> int \<Rightarrow> SourceRange" where
  "pointRange line column = (let p = unknown_position\<lparr>sp_line := line, sp_column := column\<rparr> in
     \<lparr>sr_begin = p, sr_end = p\<rparr>)"

definition errorAt :: "string \<Rightarrow> string \<Rightarrow> string \<Rightarrow> Diagnostics \<Rightarrow> Diagnostics" where
  "errorAt kind name message d = (case locateAnchor kind name d of
     (line, column) \<Rightarrow> dg_add Error [] message (pointRange line column) d)"

definition warningAt :: "string \<Rightarrow> string \<Rightarrow> string \<Rightarrow> Diagnostics \<Rightarrow> Diagnostics" where
  "warningAt kind name message d = (case locateAnchor kind name d of
     (line, column) \<Rightarrow> dg_add Warning [] message (pointRange line column) d)"

subsection \<open>Printing\<close>

definition newline :: string where "newline = [CHR 0x0A]"

definition printCode :: "string \<Rightarrow> string" where
  "printCode code = (if code = [] then [] else ''['' @ code @ ''] '')"

definition severity_name :: "Severity \<Rightarrow> string" where
  "severity_name s = (case s of Warning \<Rightarrow> ''warning'' | Error \<Rightarrow> ''error'')"

definition caret_width :: "SourceRange \<Rightarrow> int" where
  "caret_width r = (if sp_line (sr_begin r) = sp_line (sr_end r)
     then max 1 (sp_column (sr_end r) - sp_column (sr_begin r) + 1) else 1)"

definition format_record :: "string \<Rightarrow> string list \<Rightarrow> DiagnosticRecord \<Rightarrow> string" where
  "format_record file lines rec = (let r = dr_range rec; l = sp_line (sr_begin r); c = sp_column (sr_begin r) in
     if file \<noteq> [] \<and> range_valid r then
       file @ '':'' @ show_int l @ '':'' @ show_int c @ '': '' @ severity_name (dr_severity rec) @ '': '' @
       printCode (dr_code rec) @ dr_message rec @ '' [range '' @ range_toString r @ '']'' @ newline @
       (if l \<le> int (length lines)
        then ''  '' @ lines ! nat (l - 1) @ newline @ ''  '' @ replicate (nat (c - 1)) (CHR '' '') @
          replicate (nat (caret_width r)) (CHR ''^'') @ newline
        else [])
     else severity_name (dr_severity rec) @ '': '' @ printCode (dr_code rec) @ dr_message rec @ newline)"

definition dg_print :: "Diagnostics \<Rightarrow> string" where
  "dg_print d = concat (map (format_record (dg_source_file d) (dg_source_lines d)) (dg_records d))"


subsection \<open>Properties\<close>

text \<open>
  One call on the object, and the invariant that the two flags summarise the records. The
  object is an instance of the generic contract of an object with an invariant.
\<close>

datatype dg_call = Add Severity string string SourceRange | ErrorAt string string string
  | WarningAt string string string | SetFile string "string list"

fun dg_step :: "Diagnostics \<Rightarrow> dg_call \<Rightarrow> string + Diagnostics" where
  "dg_step d (Add v c m r) = Inr (dg_add v c m r d)"
| "dg_step d (ErrorAt k n m) = Inr (errorAt k n m d)"
| "dg_step d (WarningAt k n m) = Inr (warningAt k n m d)"
| "dg_step d (SetFile p ls) = Inr (setSourceFile p ls d)"

definition flags_exact :: "Diagnostics \<Rightarrow> bool" where
  "flags_exact d \<longleftrightarrow> (hasErrors d \<longleftrightarrow> (\<exists>r \<in> set (dg_records d). dr_severity r = Error)) \<and>
     (hasWarnings d \<longleftrightarrow> (\<exists>r \<in> set (dg_records d). dr_severity r = Warning))"

lemma flags_add: "flags_exact d \<Longrightarrow> flags_exact (dg_add v c m r d)"
  by (cases v) (auto simp: flags_exact_def dg_add_def hasErrors_def hasWarnings_def)

lemma flags_setSourceFile: "flags_exact (setSourceFile p ls d) = flags_exact d"
  by (simp add: flags_exact_def setSourceFile_def hasErrors_def hasWarnings_def)

interpretation reporter: invariant_object dg_step no_diagnostics flags_exact
proof
  show "flags_exact no_diagnostics"
    by (simp add: flags_exact_def no_diagnostics_def hasErrors_def hasWarnings_def)
  show "flags_exact s'" if "flags_exact s" "dg_step s x = Inr s'" for s x s'
    using that by (cases x)
      (auto simp: flags_add flags_setSourceFile errorAt_def warningAt_def split: prod.splits)
qed

text \<open>
  After any sequence of calls on a fresh diagnostics object, the error flag is set exactly
  if an error record exists, the warning flag exactly if a warning record exists, and the
  object has diagnostics exactly if one of the two is set.
\<close>

theorem diagnostic_flags_exact:
  "let d = run dg_step no_diagnostics calls in
     (hasErrors d \<longleftrightarrow> (\<exists>r \<in> set (dg_records d). dr_severity r = Error)) \<and>
     (hasWarnings d \<longleftrightarrow> (\<exists>r \<in> set (dg_records d). dr_severity r = Warning)) \<and>
     (hasDiagnostics d \<longleftrightarrow> hasErrors d \<or> hasWarnings d)"
proof -
  define d where "d = run dg_step no_diagnostics calls"
  have f: "flags_exact d" unfolding d_def by (rule reporter.inv_reachable)
  moreover have "dr_severity r = Error \<or> dr_severity r = Warning" for r by (cases "dr_severity r") auto
  ultimately have "hasDiagnostics d \<longleftrightarrow> hasErrors d \<or> hasWarnings d"
    by (cases "dg_records d") (auto simp: hasDiagnostics_def flags_exact_def)
  then show ?thesis using f unfolding d_def [symmetric] flags_exact_def by simp
qed

theorem diagnostic_flags_exact_witness:
  "hasErrors (run dg_step no_diagnostics [Add Error ''SHD3001'' ''break outside loop'' unknown_range]) \<and>
   \<not> hasWarnings (run dg_step no_diagnostics [Add Error ''SHD3001'' ''break outside loop'' unknown_range])"
  using diagnostic_flags_exact [of "[Add Error ''SHD3001'' ''break outside loop'' unknown_range]"]
  by (simp add: Let_def dg_add_def no_diagnostics_def)

text \<open>
  The registry of source ranges only ever answers with a valid range or with the unknown
  one: setting a range and asking for it gives the range back if it is valid, and otherwise
  leaves every answer as it was; erasing a node makes its range unknown and no other.
\<close>

theorem range_registry_answers:
  "get_ast_source_range n (set_ast_source_range n r m) =
     (if n \<noteq> None \<and> range_valid r then r else get_ast_source_range n m) \<and>
   (k \<noteq> n \<longrightarrow> get_ast_source_range k (set_ast_source_range n r m) = get_ast_source_range k m) \<and>
   \<not> has_ast_source_range n (erase_ast_source_range n m) \<and>
   (k \<noteq> n \<longrightarrow> get_ast_source_range k (erase_ast_source_range n m) = get_ast_source_range k m)"
  by (auto simp: get_ast_source_range_def set_ast_source_range_def erase_ast_source_range_def
      has_ast_source_range_def range_valid_def position_valid_def unknown_range_def unknown_position_def
      split: option.splits)

theorem range_registry_answers_witness:
  "Some 2 \<noteq> Some (1 :: nat) \<and>
   get_ast_source_range (Some 2) (set_ast_source_range (Some 1) (pointRange 3 4) Map.empty) = unknown_range"
  using range_registry_answers [of "Some 1" "pointRange 3 4" Map.empty "Some 2"]
  by (simp add: get_ast_source_range_def)

end
