(* ===== verification/Decimal.thy ===== *)
theory Decimal
  imports Binary64 CText
begin

section \<open>Reading floating-point text\<close>

text \<open>
  \<open>std::strtod\<close> in the C locale, rounding to nearest: the value, the unread rest, and whether
  \<open>errno\<close> was set (overflow, or an inexact result below the normal range). Decimal and
  hexadecimal forms, infinities and NaNs are read; without a number nothing is consumed.
\<close>

definition is_hex :: "char \<Rightarrow> bool" where
  "is_hex c = (is_digit c \<or> (of_char (to_lower c) :: nat) \<in> {97..102})"

definition hex_digit :: "char \<Rightarrow> nat" where
  "hex_digit c = (if is_digit c then of_char c - 48 else of_char (to_lower c) - 87)"

definition number_value :: "nat \<Rightarrow> (char \<Rightarrow> nat) \<Rightarrow> string \<Rightarrow> nat" where
  "number_value base dig ds = foldl (\<lambda>n c. base * n + dig c) 0 ds"

definition dec_digit :: "char \<Rightarrow> nat" where "dec_digit c = of_char c - 48"

text \<open>The optional exponent part: its value and the rest.\<close>

definition read_exponent :: "char \<Rightarrow> string \<Rightarrow> int \<times> string" where
  "read_exponent mark s =
     (if s = [] \<or> to_lower (hd s) \<noteq> mark then (0, s)
      else let t = tl s;
        neg = (t \<noteq> [] \<and> hd t = CHR ''-'');
        u = (if t \<noteq> [] \<and> hd t \<in> {CHR ''-'', CHR ''+''} then tl t else t);
        ds = takeWhile is_digit u
      in if ds = [] then (0, s)
         else ((if neg then - int (digits_value ds) else int (digits_value ds)), dropWhile is_digit u))"

definition rat_power :: "rat \<Rightarrow> int \<Rightarrow> rat" where
  "rat_power b k = (if 0 \<le> k then b ^ nat k else 1 / b ^ nat (- k))"

text \<open>Mantissa with an optional fraction; \<open>None\<close> without a digit.\<close>

definition read_mantissa :: "nat \<Rightarrow> (char \<Rightarrow> bool) \<Rightarrow> (char \<Rightarrow> nat) \<Rightarrow> string \<Rightarrow> (rat \<times> string) option" where
  "read_mantissa base is_dig dig s = (let
     ip = takeWhile is_dig s; t = dropWhile is_dig s;
     point = (t \<noteq> [] \<and> hd t = CHR ''.'');
     fp = (if point then takeWhile is_dig (tl t) else []);
     rest = (if point then dropWhile is_dig (tl t) else t)
     in if ip = [] \<and> fp = [] then None
        else Some (of_nat (number_value base dig ip) +
          of_nat (number_value base dig fp) / of_nat base ^ length fp, rest))"

definition starts_with_ci :: "string \<Rightarrow> string \<Rightarrow> bool" where
  "starts_with_ci p s = (map to_lower (take (length p) s) = p)"

definition nan_rest :: "string \<Rightarrow> string" where
  "nan_rest t = (if t \<noteq> [] \<and> hd t = CHR ''(''
     then (let u = dropWhile (\<lambda>c. is_digit c \<or> is_upper c \<or> (of_char c :: nat) \<in> {97..122} \<or> c = CHR ''_'') (tl t)
           in if u \<noteq> [] \<and> hd u = CHR '')'' then tl u else t)
     else t)"

definition signed64 :: "bool \<Rightarrow> rat \<Rightarrow> binary64" where
  "signed64 neg q = (if q = 0 then B_Zero neg else round64 (if neg then - q else q))"

definition range_error :: "rat \<Rightarrow> bool" where
  "range_error q = (\<not> b_finite (round64 q) \<or> q \<noteq> 0 \<and> \<bar>q\<bar> < two_pow (- 1022) \<and> b_val (round64 q) \<noteq> q)"

definition strtod :: "string \<Rightarrow> binary64 \<times> string \<times> bool" where
  "strtod raw = (let
     s = dropWhile is_space raw;
     neg = (s \<noteq> [] \<and> hd s = CHR ''-'');
     t = (if s \<noteq> [] \<and> hd s \<in> {CHR ''-'', CHR ''+''} then tl s else s)
     in if starts_with_ci ''infinity'' t then (B_Inf neg, drop 8 t, False)
        else if starts_with_ci ''inf'' t then (B_Inf neg, drop 3 t, False)
        else if starts_with_ci ''nan'' t then (B_NaN, nan_rest (drop 3 t), False)
        else (case (if starts_with_ci ''0x'' t then read_mantissa 16 is_hex hex_digit (drop 2 t) else None) of
            Some (m, rest) \<Rightarrow> (case read_exponent (CHR ''p'') rest of (e, rest') \<Rightarrow>
              let q = m * rat_power 2 e in (signed64 neg q, rest', range_error q))
          | None \<Rightarrow> (case read_mantissa 10 is_digit dec_digit t of
              Some (m, rest) \<Rightarrow> (case read_exponent (CHR ''e'') rest of (e, rest') \<Rightarrow>
                let q = m * rat_power 10 e in (signed64 neg q, rest', range_error q))
            | None \<Rightarrow> (B_Zero False, raw, False))))"

end
