(* ===== verification/Profiles.thy ===== *)
theory Profiles
  imports AST Diagnostics Decimal
begin

section \<open>Certification profiles\<close>

text \<open>
  The part of \<open>visitors/SemanticAnalyzer.cpp\<close> that checks C3-ECO declarations: the field tables,
  the readers of integers, decimals, dates and versions, the field checks of a declaration, the
  typed checks of a declaration that a profile links, and the links of a profile. Each check
  gives the list of its reports in order. The sets of field names are lists in the order in
  which the sets iterate; a declaration node is its position in the list of nodes.
\<close>

type_synonym report = "Severity \<times> string \<times> string"

definition err :: "string \<Rightarrow> string \<Rightarrow> report" where "err code message = (Error, code, message)"
definition warn :: "string \<Rightarrow> string \<Rightarrow> report" where "warn code message = (Warning, code, message)"

subsection \<open>Field tables\<close>

fun c3EcoRequiredFields :: "C3EcoDeclarationKind \<Rightarrow> string list" where
  "c3EcoRequiredFields CertificationProfile =
     [''ai_lifecycle'', ''boundary'', ''certification'', ''functional_unit'', ''guardrails'', ''profile_version'',
      ''valid_from'', ''valid_until'', ''workload'']"
| "c3EcoRequiredFields Certification =
     [''deployment_mode'', ''geography'', ''owner'', ''software_class'', ''validity_period'', ''version'']"
| "c3EcoRequiredFields FunctionalUnit = [''denominator'', ''quality_threshold'', ''success_condition'']"
| "c3EcoRequiredFields Workload =
     [''batch_size'', ''cache_state'', ''concurrency'', ''measured_runs'', ''traffic_profile'', ''warmup_runs'']"
| "c3EcoRequiredFields Boundary = [''include'']"
| "c3EcoRequiredFields MeasurementPlan =
     [''carbon_factor'', ''instrument'', ''retention'', ''sampling'', ''uncertainty'']"
| "c3EcoRequiredFields AILifecycle =
     [''evaluation_included'', ''fine_tuning_included'', ''lifecycle_scope'', ''model_provider'', ''role'',
      ''training_included'']"
| "c3EcoRequiredFields RAGPipeline = [''cache_policy'', ''embedding_model'', ''retrieval_top_k'', ''vector_db'']"
| "c3EcoRequiredFields TokenBudget = [''cache_hit_rate_min_percent'', ''input_tokens_p95'', ''output_tokens_p95'']"
| "c3EcoRequiredFields ModelRouting = [''fallback'', ''route'']"
| "c3EcoRequiredFields Guardrails =
     [''accessibility'', ''accuracy'', ''error_rate_percent'', ''functional_tests'', ''p95_latency_ms'',
      ''privacy_telemetry'', ''security_scan'']"

definition c3EcoAllowedFields :: "C3EcoDeclarationKind \<Rightarrow> string list" where
  "c3EcoAllowedFields kind = c3EcoRequiredFields kind @
     (if kind = Certification then [''release_date'', ''cloud_region''] else []) @
     (if kind = FunctionalUnit then [''unit'', ''quality_metric'', ''latency_slo_ms'', ''error_rate_slo_percent''] else []) @
     (if kind = Boundary then [''exclude'', ''evidence'', ''exclusion_reason'', ''exclusion_materiality_percent'',
        ''materiality_threshold_percent'', ''opaque_provider_treatment''] else [])"

definition c3EcoHasField :: "C3EcoDeclarationData \<Rightarrow> string \<Rightarrow> bool" where
  "c3EcoHasField d name = list_ex (\<lambda>f. cf_name f = name) (cd_fields d)"

fun append_text :: "string \<Rightarrow> C3EcoValueData list \<Rightarrow> string" where
  "append_text text [] = text"
| "append_text text (v # vs) = append_text ((if text = [] then [] else text @ '' '') @ cv_text v) vs"

definition c3EcoFieldText :: "C3EcoDeclarationData \<Rightarrow> string \<Rightarrow> string" where
  "c3EcoFieldText d name =
     foldl (\<lambda>text f. if cf_name f \<noteq> name then text else append_text text (cf_values f)) [] (cd_fields d)"

definition c3EcoField :: "C3EcoDeclarationData \<Rightarrow> string \<Rightarrow> C3EcoFieldData option" where
  "c3EcoField d name = List.find (\<lambda>f. cf_name f = name) (cd_fields d)"

subsection \<open>Literals\<close>

definition c3EcoParseInteger :: "string \<Rightarrow> int option" where
  "c3EcoParseInteger text = (if text = [] then None
     else (case strtoll (c_str text) of (v, rest, erange) \<Rightarrow>
       if erange \<or> rest = c_str text \<or> rest \<noteq> [] then None else Some v))"

definition c3EcoParseDecimal :: "string \<Rightarrow> binary64 option" where
  "c3EcoParseDecimal text = (if text = [] then None
     else (case strtod (c_str text) of (v, rest, erange) \<Rightarrow>
       if erange \<or> rest = c_str text \<or> rest \<noteq> [] \<or> \<not> b_finite v then None else Some v))"

definition c3EcoLeapYear :: "int \<Rightarrow> bool" where
  "c3EcoLeapYear year = (year mod 4 = 0 \<and> (year mod 100 \<noteq> 0 \<or> year mod 400 = 0))"

definition month_days :: "int list" where
  "month_days = [31, 28, 31, 30, 31, 30, 31, 31, 30, 31, 30, 31]"

definition c3EcoIsoDate :: "string \<Rightarrow> bool" where
  "c3EcoIsoDate text =
     (if length text \<noteq> 10 \<or> text ! 4 \<noteq> CHR ''-'' \<or> text ! 7 \<noteq> CHR ''-'' then False
      else if \<not> list_all is_digit (take 4 text @ take 2 (drop 5 text) @ drop 8 text) then False
      else let
        year = int (digits_value (take 4 text));
        month = int (digits_value (take 2 (drop 5 text)));
        day = int (digits_value (drop 8 text))
      in if year < 2000 \<or> month < 1 \<or> month > 12 \<or> day < 1 then False
         else day \<le> (if month = 2 \<and> c3EcoLeapYear year then 29 else month_days ! nat (month - 1)))"

fun semver_loop :: "nat \<Rightarrow> bool \<Rightarrow> string \<Rightarrow> bool" where
  "semver_loop dots digit_in_part [] = (dots = 2 \<and> digit_in_part)"
| "semver_loop dots digit_in_part (c # cs) =
     (if is_digit c then semver_loop dots True cs
      else if c = CHR ''.'' \<and> digit_in_part \<and> dots < 2 then semver_loop (dots + 1) False cs
      else False)"

definition c3EcoSemver :: "string \<Rightarrow> bool" where
  "c3EcoSemver text = semver_loop 0 False text"

text \<open>The order of \<open>std::string\<close>.\<close>

fun string_less :: "string \<Rightarrow> string \<Rightarrow> bool" where
  "string_less _ [] = False"
| "string_less [] (_ # _) = True"
| "string_less (a # as) (b # bs) =
     (if (of_char a :: nat) < of_char b then True else if a = b then string_less as bs else False)"


subsection \<open>A declaration on its own\<close>

definition unsafe_fields :: "string list" where
  "unsafe_fields = [''official_certification_granted'', ''certified_level'', ''certificate_id'', ''certified'']"

definition field_name_reports :: "C3EcoDeclarationData \<Rightarrow> C3EcoFieldData \<Rightarrow> report list" where
  "field_name_reports d f =
     (if cf_name f \<in> set unsafe_fields
      then [err ''SHD5104'' (''C3-ECO declaration must not self-assert certification field `'' @ cf_name f @ ''`'')]
      else if cf_name f \<notin> set (c3EcoAllowedFields (cd_kind d))
      then [err ''SHD5103'' (''invalid field `'' @ cf_name f @ ''` for C3-ECO '' @
             c3EcoDeclarationKindName (cd_kind d) @ '' declaration'')]
      else [])"

definition missing_reports :: "C3EcoDeclarationData \<Rightarrow> string \<Rightarrow> report list" where
  "missing_reports d field =
     (if c3EcoHasField d field then []
      else [err ''SHD5102'' (''C3-ECO '' @ c3EcoDeclarationKindName (cd_kind d) @ '' declaration `'' @ cd_name d @
             ''` missing required field `'' @ field @ ''`'')])"

definition measurement_plan_reports :: "C3EcoDeclarationData \<Rightarrow> report list" where
  "measurement_plan_reports d =
     (if cd_kind d = MeasurementPlan \<and> c3EcoHasField d ''carbon_factor'' then
        let carbon = c3EcoFieldText d ''carbon_factor'' in
        if \<not> sublist ''source'' carbon \<or> \<not> sublist ''unit'' carbon
        then [err ''SHD5103'' ''measurement_plan carbon_factor must name both source and unit''] else []
      else [])"

definition boundary_reports :: "C3EcoDeclarationData \<Rightarrow> report list" where
  "boundary_reports d =
     (if cd_kind d = Boundary \<and> c3EcoHasField d ''exclude'' \<and> \<not> c3EcoHasField d ''exclusion_reason'' then
        let evidence = c3EcoFieldText d ''evidence'' in
        if \<not> sublist ''component'' evidence \<or> \<not> sublist ''reason'' evidence \<or> \<not> sublist ''materiality'' evidence
        then [err ''SHD5103'' ''boundary exclusions require evidence naming component, reason and materiality''] else []
      else [])"

definition declaration_key :: "C3EcoDeclarationData \<Rightarrow> string" where
  "declaration_key d = c3EcoDeclarationKindName (cd_kind d) @ '':'' @ cd_name d"

definition declaration_reports :: "string set \<Rightarrow> C3EcoDeclarationData \<Rightarrow> report list" where
  "declaration_reports seen d =
     (if declaration_key d \<in> seen then [err ''SHD5101'' (''duplicate C3-ECO declaration: '' @ declaration_key d)] else []) @
     concat (map (field_name_reports d) (cd_fields d)) @
     concat (map (missing_reports d) (c3EcoRequiredFields (cd_kind d))) @
     measurement_plan_reports d @ boundary_reports d"

subsection \<open>Typed fields of a linked declaration\<close>

definition declaration_title :: "C3EcoDeclarationData \<Rightarrow> string" where
  "declaration_title d = c3EcoDeclarationKindName (cd_kind d) @ '' `'' @ cd_name d @ ''`''"

definition field_message :: "C3EcoDeclarationData \<Rightarrow> string \<Rightarrow> string \<Rightarrow> string" where
  "field_message d name text = declaration_title d @ '' field `'' @ name @ ''` '' @ text"

definition single :: "C3EcoDeclarationData \<Rightarrow> string \<Rightarrow> C3EcoValueKind \<Rightarrow> C3EcoValueData option \<times> report list" where
  "single d name kind = (case c3EcoField d name of
       None \<Rightarrow> (None, [])
     | Some f \<Rightarrow> (case cf_values f of
           [v] \<Rightarrow> if cv_kind v = kind then (Some v, [])
             else (None, [err ''SHD5201'' (field_message d name (''requires exactly one '' @ c3EcoValueKindName kind @ '' literal''))])
         | _ \<Rightarrow> (None, [err ''SHD5201'' (field_message d name (''requires exactly one '' @ c3EcoValueKindName kind @ '' literal''))])))"

definition requireV2Field :: "C3EcoDeclarationData \<Rightarrow> string \<Rightarrow> report list" where
  "requireV2Field d name = (if c3EcoHasField d name then []
     else [err ''SHD5208'' (declaration_title d @ '' is linked by profile v2 and requires field `'' @ name @ ''`'')])"

text \<open>A check of the one literal of a field, if the field has it.\<close>

definition on_single :: "C3EcoDeclarationData \<Rightarrow> string \<Rightarrow> C3EcoValueKind \<Rightarrow> (string \<Rightarrow> report list) \<Rightarrow> report list" where
  "on_single d name kind check = (case single d name kind of
       (None, r) \<Rightarrow> r | (Some v, r) \<Rightarrow> r @ check (cv_text v))"

definition enumValue :: "C3EcoDeclarationData \<Rightarrow> string \<Rightarrow> string list \<Rightarrow> report list" where
  "enumValue d name allowed = on_single d name C3_Identifier (\<lambda>text.
     if text \<notin> set allowed
     then [err ''SHD5202'' (field_message d name (''has unsupported domain value `'' @ text @ ''`''))] else [])"

definition integerRange :: "C3EcoDeclarationData \<Rightarrow> string \<Rightarrow> int \<Rightarrow> int \<Rightarrow> report list" where
  "integerRange d name minimum maximum = on_single d name C3_Integer (\<lambda>text.
     case c3EcoParseInteger text of
       None \<Rightarrow> [err ''SHD5201'' (field_message d name ''is not a valid integer'')]
     | Some n \<Rightarrow> if n < minimum \<or> n > maximum
         then [err ''SHD5203'' (field_message d name ''is outside the allowed range'')] else [])"

definition decimalRange :: "C3EcoDeclarationData \<Rightarrow> string \<Rightarrow> int \<Rightarrow> int \<Rightarrow> report list" where
  "decimalRange d name minimum maximum = on_single d name C3_Decimal (\<lambda>text.
     case c3EcoParseDecimal text of
       None \<Rightarrow> [err ''SHD5201'' (field_message d name ''is not a valid decimal'')]
     | Some x \<Rightarrow> if b_lt x (b_of_int minimum) \<or> b_lt (b_of_int maximum) x
         then [err ''SHD5203'' (field_message d name ''is outside the allowed range'')] else [])"

definition nonEmptyString :: "C3EcoDeclarationData \<Rightarrow> string \<Rightarrow> report list" where
  "nonEmptyString d name = on_single d name C3_String (\<lambda>text.
     if text = [] then [err ''SHD5202'' (field_message d name ''must not be empty'')] else [])"

definition requiredBoolean :: "C3EcoDeclarationData \<Rightarrow> string \<Rightarrow> report list" where
  "requiredBoolean d name = on_single d name C3_Boolean (\<lambda>text.
     if text \<noteq> ''true'' then [err ''SHD5202'' (declaration_title d @ '' safeguard field `'' @ name @
       ''` must be true in profile v2'')] else [])"

text \<open>A later test of a literal that was already reported on: only its text.\<close>

definition literal :: "C3EcoDeclarationData \<Rightarrow> string \<Rightarrow> C3EcoValueKind \<Rightarrow> string option" where
  "literal d name kind = map_option cv_text (fst (single d name kind))"

definition test_literal :: "string option \<Rightarrow> (string \<Rightarrow> bool) \<Rightarrow> report \<Rightarrow> report list" where
  "test_literal v bad r = (case v of None \<Rightarrow> [] | Some text \<Rightarrow> if bad text then [r] else [])"


definition certification_reports :: "C3EcoDeclarationData \<Rightarrow> report list" where
  "certification_reports d =
     nonEmptyString d ''version'' @ nonEmptyString d ''owner'' @ nonEmptyString d ''geography'' @
     requireV2Field d ''release_date'' @ nonEmptyString d ''release_date'' @
     (if c3EcoHasField d ''cloud_region'' then nonEmptyString d ''cloud_region'' else []) @
     test_literal (literal d ''version'' C3_String) (\<lambda>t. \<not> c3EcoSemver t)
       (err ''SHD5202'' (declaration_title d @ '' version must use numeric MAJOR.MINOR.PATCH form'')) @
     test_literal (literal d ''release_date'' C3_String) (\<lambda>t. \<not> c3EcoIsoDate t)
       (err ''SHD5202'' (declaration_title d @ '' release_date must be a valid YYYY-MM-DD date'')) @
     test_literal (literal d ''geography'' C3_String)
       (\<lambda>t. \<not> ((length t = 2 \<or> length t = 3) \<and> list_all is_upper t))
       (err ''SHD5202'' (declaration_title d @ '' geography must be a two- or three-letter uppercase code'')) @
     enumValue d ''software_class'' [''S1'', ''S2'', ''S3'', ''S4'', ''S5'', ''S6'', ''S7'', ''S8'', ''S9'', ''S10'',
       ''S11'', ''S12'', ''S13'', ''S14'', ''S6_AI_GENAI'', ''S9_DEVELOPER_TOOLS_CI_CD'', ''S12_INFRASTRUCTURE_PLATFORM''] @
     enumValue d ''deployment_mode'' [''kubernetes'', ''container'', ''vm'', ''bare_metal'', ''edge'', ''serverless'',
       ''hybrid''] @
     integerRange d ''validity_period'' 1 366"

definition functional_unit_reports :: "C3EcoDeclarationData \<Rightarrow> report list" where
  "functional_unit_reports d =
     requireV2Field d ''unit'' @ requireV2Field d ''quality_metric'' @
     integerRange d ''denominator'' 1 1000000000000 @ nonEmptyString d ''success_condition'' @
     decimalRange d ''quality_threshold'' 0 1 @
     enumValue d ''unit'' [''inference'', ''successful_inference'', ''request'', ''successful_request'', ''training_run'',
       ''token'', ''document'', ''gb_processed'', ''build''] @
     enumValue d ''quality_metric'' [''accuracy'', ''f1'', ''precision'', ''recall'', ''pass_rate'', ''quality_score''] @
     (if c3EcoHasField d ''latency_slo_ms'' then integerRange d ''latency_slo_ms'' 1 86400000 else []) @
     (if c3EcoHasField d ''error_rate_slo_percent'' then decimalRange d ''error_rate_slo_percent'' 0 100 else [])"

definition workload_reports :: "C3EcoDeclarationData \<Rightarrow> report list" where
  "workload_reports d =
     enumValue d ''traffic_profile'' [''production_representative'', ''steady'', ''bursty'', ''trace_replay''] @
     integerRange d ''batch_size'' 1 1000000 @ integerRange d ''concurrency'' 1 1000000 @
     integerRange d ''warmup_runs'' 0 1000000000 @ integerRange d ''measured_runs'' 1 1000000000 @
     enumValue d ''cache_state'' [''cold'', ''warm'', ''mixed'', ''disabled'', ''declared'']"

definition components :: "string list" where
  "components = [''compute'', ''accelerator'', ''memory'', ''storage'', ''network'', ''ci_cd'', ''thirdparty'',
     ''thirdparty_ai_api'', ''client_device'', ''training'', ''fine_tuning'']"

definition include_reports :: "C3EcoDeclarationData \<Rightarrow> C3EcoValueData \<Rightarrow> report list" where
  "include_reports d v =
     (if cv_kind v \<noteq> C3_Identifier
      then [err ''SHD5201'' (declaration_title d @ '' include entries must be identifiers'')]
      else if cv_text v \<notin> set components
      then [err ''SHD5202'' (declaration_title d @ '' includes unknown component `'' @ cv_text v @ ''`'')]
      else [])"

text \<open>The loop over the exclusions: the total so far and the reports.\<close>

fun exclusion_loop :: "C3EcoDeclarationData \<Rightarrow> C3EcoValueData list \<Rightarrow> C3EcoValueData list \<Rightarrow> C3EcoValueData list \<Rightarrow>
    binary64 \<Rightarrow> binary64 \<times> report list" where
  "exclusion_loop d (e # es) (r # rs) (m # ms) acc =
     (if cv_kind e \<noteq> C3_Identifier \<or> cv_text e \<notin> set components \<or> cv_kind r \<noteq> C3_String \<or> cv_kind m \<noteq> C3_Decimal
      then (case exclusion_loop d es rs ms acc of (t, reps) \<Rightarrow>
        (t, err ''SHD5201'' (declaration_title d @ '' has an invalid typed exclusion entry'') # reps))
      else (case c3EcoParseDecimal (cv_text m) of
          Some x \<Rightarrow>
            if b_lt x (b_of_int 0) \<or> b_lt (b_of_int 100) x
            then (case exclusion_loop d es rs ms acc of (t, reps) \<Rightarrow> (t,
              err ''SHD5203'' (declaration_title d @ '' exclusion materiality is outside 0..100 percent'') # reps))
            else exclusion_loop d es rs ms (b_add acc x)
        | None \<Rightarrow> (case exclusion_loop d es rs ms acc of (t, reps) \<Rightarrow> (t,
            err ''SHD5203'' (declaration_title d @ '' exclusion materiality is outside 0..100 percent'') # reps))))"
| "exclusion_loop d _ _ _ acc = (acc, [])"

definition exclusion_reports :: "C3EcoDeclarationData \<Rightarrow> C3EcoValueData list \<Rightarrow> report list" where
  "exclusion_reports d excluded =
     (case (c3EcoField d ''exclusion_reason'', c3EcoField d ''exclusion_materiality_percent'') of
        (Some reasons, Some materiality) \<Rightarrow>
          if length (cf_values reasons) \<noteq> length excluded \<or> length (cf_values materiality) \<noteq> length excluded
          then [err ''SHD5207'' (declaration_title d @
                 '' requires one string reason and decimal materiality for every exclusion'')]
          else (case exclusion_loop d excluded (cf_values reasons) (cf_values materiality) (B_Zero False) of (acc, reps) \<Rightarrow>
            (case single d ''materiality_threshold_percent'' C3_Decimal of (threshold, r) \<Rightarrow>
              reps @ r @
              test_literal (map_option cv_text threshold)
                (\<lambda>t. case c3EcoParseDecimal t of None \<Rightarrow> False | Some maximum \<Rightarrow> b_lt maximum acc)
                (err ''SHD5207'' (declaration_title d @ '' cumulative exclusions exceed materiality_threshold_percent''))))
      | _ \<Rightarrow> [err ''SHD5207'' (declaration_title d @
               '' requires one string reason and decimal materiality for every exclusion'')])"

definition boundary_typed_reports :: "C3EcoDeclarationData \<Rightarrow> report list" where
  "boundary_typed_reports d =
     requireV2Field d ''materiality_threshold_percent'' @
     (case c3EcoField d ''include'' of None \<Rightarrow> [] | Some f \<Rightarrow> concat (map (include_reports d) (cf_values f))) @
     decimalRange d ''materiality_threshold_percent'' 0 100 @
     (case c3EcoField d ''exclude'' of
        None \<Rightarrow> []
      | Some f \<Rightarrow> exclusion_reports d (cf_values f) @
          (if list_ex (\<lambda>v. cv_text v = ''thirdparty_ai_api'') (cf_values f)
           then requireV2Field d ''opaque_provider_treatment'' @
             enumValue d ''opaque_provider_treatment'' [''conservative_estimate'', ''included'', ''provider_evidence'']
           else []))"

definition ai_lifecycle_reports :: "C3EcoDeclarationData \<Rightarrow> report list" where
  "ai_lifecycle_reports d =
     enumValue d ''role'' [''application_provider'', ''model_provider'', ''hosted_model_consumer'', ''trainer'',
       ''fine_tuner'', ''inference_operator''] @
     nonEmptyString d ''model_provider'' @
     enumValue d ''lifecycle_scope'' [''inference'', ''training'', ''fine_tuning'', ''end_to_end''] @
     snd (single d ''training_included'' C3_Boolean) @ snd (single d ''fine_tuning_included'' C3_Boolean) @
     requiredBoolean d ''evaluation_included'' @ snd (single d ''role'' C3_Identifier) @
     (if literal d ''role'' C3_Identifier = Some ''trainer''
      then test_literal (literal d ''training_included'' C3_Boolean) (\<lambda>t. t \<noteq> ''true'')
        (err ''SHD5202'' (declaration_title d @ '' trainer role must include training lifecycle evidence'')) else []) @
     (if literal d ''role'' C3_Identifier = Some ''fine_tuner''
      then test_literal (literal d ''fine_tuning_included'' C3_Boolean) (\<lambda>t. t \<noteq> ''true'')
        (err ''SHD5202'' (declaration_title d @ '' fine_tuner role must include fine-tuning lifecycle evidence'')) else [])"

definition guardrails_reports :: "C3EcoDeclarationData \<Rightarrow> report list" where
  "guardrails_reports d =
     requiredBoolean d ''functional_tests'' @ decimalRange d ''accuracy'' 0 1 @
     integerRange d ''p95_latency_ms'' 1 86400000 @ decimalRange d ''error_rate_percent'' 0 100 @
     requiredBoolean d ''security_scan'' @ requiredBoolean d ''accessibility'' @ requiredBoolean d ''privacy_telemetry''"

definition validateC3EcoTypedDeclaration :: "C3EcoDeclarationData \<Rightarrow> report list" where
  "validateC3EcoTypedDeclaration d = (case cd_kind d of
       CertificationProfile \<Rightarrow> integerRange d ''profile_version'' 2 2 @ nonEmptyString d ''valid_from'' @
         nonEmptyString d ''valid_until''
     | Certification \<Rightarrow> certification_reports d
     | FunctionalUnit \<Rightarrow> functional_unit_reports d
     | Workload \<Rightarrow> workload_reports d
     | Boundary \<Rightarrow> boundary_typed_reports d
     | AILifecycle \<Rightarrow> ai_lifecycle_reports d
     | Guardrails \<Rightarrow> guardrails_reports d
     | _ \<Rightarrow> [])"


subsection \<open>Profiles and their links\<close>

definition profile_references :: "(string \<times> C3EcoDeclarationKind) list" where
  "profile_references = [(''certification'', Certification), (''functional_unit'', FunctionalUnit),
     (''workload'', Workload), (''boundary'', Boundary), (''ai_lifecycle'', AILifecycle), (''guardrails'', Guardrails)]"

text \<open>The first node of a kind with a name: what the map of maps holds, since \<open>emplace\<close> keeps the first.\<close>

fun find_declaration :: "C3EcoDeclarationKind \<Rightarrow> string \<Rightarrow> nat \<Rightarrow> C3EcoDeclarationData list \<Rightarrow> (nat \<times> C3EcoDeclarationData) option" where
  "find_declaration kind name i [] = None"
| "find_declaration kind name i (d # ds) =
     (if cd_kind d = kind \<and> cd_name d = name then Some (i, d) else find_declaration kind name (i + 1) ds)"

definition string_literal :: "C3EcoDeclarationData \<Rightarrow> string \<Rightarrow> string option" where
  "string_literal d name = (case c3EcoField d name of
       Some f \<Rightarrow> (case cf_values f of [v] \<Rightarrow> if cv_kind v = C3_String then Some (cv_text v) else None | _ \<Rightarrow> None)
     | None \<Rightarrow> None)"

definition validity_reports :: "C3EcoDeclarationData \<Rightarrow> report list" where
  "validity_reports p = (case (string_literal p ''valid_from'', string_literal p ''valid_until'') of
       (Some from, Some until) \<Rightarrow>
         if \<not> c3EcoIsoDate from \<or> \<not> c3EcoIsoDate until \<or> \<not> string_less from until
         then [err ''SHD5206'' (''certification_profile `'' @ cd_name p @
                ''` requires valid YYYY-MM-DD dates with valid_from before valid_until'')] else []
     | _ \<Rightarrow> [])"

definition reference_message :: "C3EcoDeclarationData \<Rightarrow> string \<Rightarrow> string \<Rightarrow> string" where
  "reference_message p field text = ''certification_profile `'' @ cd_name p @ ''` field `'' @ field @ ''` '' @ text"

definition check_reference :: "C3EcoDeclarationData list \<Rightarrow> C3EcoDeclarationData \<Rightarrow> string \<times> C3EcoDeclarationKind \<Rightarrow>
    nat set \<Rightarrow> report list \<times> nat set" where
  "check_reference nodes p ref validated = (case c3EcoField p (fst ref) of
       None \<Rightarrow> ([], validated)
     | Some f \<Rightarrow> (case cf_values f of
         [v] \<Rightarrow>
           if cv_kind v \<noteq> C3_Identifier
           then ([err ''SHD5201'' (reference_message p (fst ref) ''requires exactly one identifier reference'')], validated)
           else (case find_declaration (snd ref) (cv_text v) 0 nodes of
               None \<Rightarrow>
                 if list_ex (\<lambda>d. cd_name d = cv_text v) nodes
                 then ([err ''SHD5205'' (reference_message p (fst ref)
                         (''references `'' @ cv_text v @ ''` with the wrong declaration kind''))], validated)
                 else ([err ''SHD5204'' (reference_message p (fst ref)
                         (''references unknown declaration `'' @ cv_text v @ ''`''))], validated)
             | Some (i, target) \<Rightarrow>
                 if i \<in> validated then ([], validated)
                 else (validateC3EcoTypedDeclaration target, insert i validated))
       | _ \<Rightarrow> ([err ''SHD5201'' (reference_message p (fst ref) ''requires exactly one identifier reference'')], validated)))"

fun check_references :: "C3EcoDeclarationData list \<Rightarrow> C3EcoDeclarationData \<Rightarrow> (string \<times> C3EcoDeclarationKind) list \<Rightarrow>
    nat set \<Rightarrow> report list \<times> nat set" where
  "check_references nodes p [] validated = ([], validated)"
| "check_references nodes p (ref # refs) validated = (case check_reference nodes p ref validated of (r, validated') \<Rightarrow>
     (case check_references nodes p refs validated' of (rs, validated'') \<Rightarrow> (r @ rs, validated'')))"

fun check_profiles :: "C3EcoDeclarationData list \<Rightarrow> C3EcoDeclarationData list \<Rightarrow> nat set \<Rightarrow> report list" where
  "check_profiles nodes [] validated = []"
| "check_profiles nodes (p # ps) validated =
     (case check_references nodes p profile_references validated of (rs, validated') \<Rightarrow>
       validateC3EcoTypedDeclaration p @ validity_reports p @ rs @ check_profiles nodes ps validated')"

definition validateC3EcoProfiles :: "C3EcoDeclarationData list \<Rightarrow> report list" where
  "validateC3EcoProfiles nodes =
     check_profiles nodes (filter (\<lambda>d. cd_kind d = CertificationProfile) nodes) {}"

end
