(* ===== verification/Analyzer.thy ===== *)
theory Analyzer
  imports AST TypeSystem AITypes Diagnostics Profiles
begin

section \<open>The semantic analyzer\<close>

text \<open>
  \<open>visitors/SemanticAnalyzer.cpp\<close>. The members of the class are the record \<open>analyzer\<close>; scopes
  and label scopes are lists with the innermost first. A method that only reads the members
  and reports diagnostics gives the list of reports, in order (\<open>expressionType\<close> gives the type
  as well); the visitors thread the record and append the reports to its diagnostics. The
  tree of the model carries no addresses, so reports have the unknown source range.
\<close>

subsection \<open>State\<close>

record FunctionSignature =
  fs_return_type :: ShortType
  fs_parameter_types :: "ShortType list"

record VariableInfo =
  vi_type :: ShortType
  vi_is_array :: bool

record analyzer =
  an_diagnostics :: Diagnostics
  an_models :: "string \<rightharpoonup> ModelDeclarationData"
  an_tensors :: "string \<rightharpoonup> TensorDeclarationData"
  an_contracts :: "string \<rightharpoonup> GreenAIContractData"
  an_c3eco_declarations :: "string set"
  an_c3eco_profile_nodes :: "C3EcoDeclarationData list"
  an_functions :: "string set"
  an_function_arity :: "string \<rightharpoonup> nat"
  an_imported_functions :: "string set"
  an_globals :: "string set"
  an_global_types :: "string \<rightharpoonup> ShortType"
  an_global_array_types :: "string \<rightharpoonup> ShortType"
  an_local_scopes :: "(string \<rightharpoonup> VariableInfo) list"
  an_block_label_scopes :: "string set list"
  an_function_return_types :: "string \<rightharpoonup> ShortType"
  an_function_parameter_types :: "string \<rightharpoonup> ShortType list"
  an_return_types :: "ShortType list"
  an_allow_external :: bool
  an_loopDepth :: nat

definition SemanticAnalyzer_init :: analyzer where
  "SemanticAnalyzer_init = \<lparr>an_diagnostics = no_diagnostics, an_models = Map.empty, an_tensors = Map.empty,
     an_contracts = Map.empty, an_c3eco_declarations = {}, an_c3eco_profile_nodes = [], an_functions = {},
     an_function_arity = Map.empty, an_imported_functions = {}, an_globals = {}, an_global_types = Map.empty,
     an_global_array_types = Map.empty, an_local_scopes = [], an_block_label_scopes = [],
     an_function_return_types = Map.empty, an_function_parameter_types = Map.empty, an_return_types = [],
     an_allow_external = True, an_loopDepth = 0\<rparr>"

fun emit :: "report list \<Rightarrow> analyzer \<Rightarrow> analyzer" where
  "emit [] s = s"
| "emit ((v, c, m) # rs) s =
     emit rs (s\<lparr>an_diagnostics := dg_add v c m unknown_range (an_diagnostics s)\<rparr>)"

fun shortTypeName :: "ShortType \<Rightarrow> string" where
  "shortTypeName T_Int = ''int''"
| "shortTypeName T_Boolean = ''bool''"
| "shortTypeName T_Float = ''float/double''"
| "shortTypeName T_String = ''string''"
| "shortTypeName T_Void = ''void''"

fun productionTypeKind :: "ShortType \<Rightarrow> TypeKind" where
  "productionTypeKind T_Int = K_Int32"
| "productionTypeKind T_Boolean = K_Bool"
| "productionTypeKind T_Float = K_Float64"
| "productionTypeKind T_String = K_String"
| "productionTypeKind T_Void = K_Void"

subsection \<open>Signatures of a program\<close>

definition functionNames :: "AST_PROGRAM \<Rightarrow> string set" where
  "functionNames p = set (map fn_name (pg_functions p))"

definition arity_of :: "AST_FUNCTION \<Rightarrow> nat" where
  "arity_of f = length (db_single_ints (fn_parameters f)) + length (db_array_ints (fn_parameters f))"

definition parameter_types_of :: "AST_FUNCTION \<Rightarrow> ShortType list" where
  "parameter_types_of f =
     map sd_type (db_typed_scalars (fn_parameters f)) @ map ad_type (db_typed_arrays (fn_parameters f))"

definition functionArities :: "AST_PROGRAM \<Rightarrow> string \<rightharpoonup> nat" where
  "functionArities p = fold (\<lambda>f m. m(fn_name f \<mapsto> arity_of f)) (pg_functions p) Map.empty"

definition functionSignatures :: "AST_PROGRAM \<Rightarrow> string \<rightharpoonup> FunctionSignature" where
  "functionSignatures p = fold (\<lambda>f m. m(fn_name f \<mapsto>
     \<lparr>fs_return_type = fn_type f, fs_parameter_types = parameter_types_of f\<rparr>)) (pg_functions p) Map.empty"

definition globalNames :: "AST_PROGRAM \<Rightarrow> string set" where
  "globalNames p = set (db_single_ints (pg_decl_block p)) \<union> fst ` set (db_array_ints (pg_decl_block p))"

definition setImportedFunctions_arities :: "(string \<rightharpoonup> nat) \<Rightarrow> bool \<Rightarrow> analyzer \<Rightarrow> analyzer" where
  "setImportedFunctions_arities arities allow s = s\<lparr>
     an_imported_functions := dom arities, an_functions := an_functions s \<union> dom arities,
     an_function_arity := an_function_arity s ++ arities, an_allow_external := allow\<rparr>"

definition setImportedFunctions :: "(string \<rightharpoonup> FunctionSignature) \<Rightarrow> bool \<Rightarrow> analyzer \<Rightarrow> analyzer" where
  "setImportedFunctions signatures allow s = s\<lparr>
     an_imported_functions := dom signatures, an_functions := an_functions s \<union> dom signatures,
     an_function_arity := an_function_arity s ++ (\<lambda>n. map_option (length \<circ> fs_parameter_types) (signatures n)),
     an_function_return_types := an_function_return_types s ++ (\<lambda>n. map_option fs_return_type (signatures n)),
     an_function_parameter_types :=
       an_function_parameter_types s ++ (\<lambda>n. map_option fs_parameter_types (signatures n)),
     an_allow_external := allow\<rparr>"

subsection \<open>Names and expression types\<close>

definition isExecutableScalarType :: "ShortType \<Rightarrow> bool" where
  "isExecutableScalarType ty = (ty = T_Int \<or> ty = T_Boolean \<or> ty = T_Float \<or> ty = T_String)"

definition isDeclared :: "string \<Rightarrow> analyzer \<Rightarrow> bool" where
  "isDeclared name s = (list_ex (\<lambda>sc. sc name \<noteq> None) (an_local_scopes s) \<or> name \<in> an_globals s)"

fun lookup_scopes :: "(string \<rightharpoonup> VariableInfo) list \<Rightarrow> string \<Rightarrow> VariableInfo option" where
  "lookup_scopes [] n = None"
| "lookup_scopes (sc # scs) n = (case sc n of Some v \<Rightarrow> Some v | None \<Rightarrow> lookup_scopes scs n)"

definition lookupType :: "string \<Rightarrow> analyzer \<Rightarrow> (ShortType \<times> bool) option" where
  "lookupType name s = (case lookup_scopes (an_local_scopes s) name of
       Some v \<Rightarrow> Some (vi_type v, vi_is_array v)
     | None \<Rightarrow> (case an_global_types s name of
           Some ty \<Rightarrow> Some (ty, False)
         | None \<Rightarrow> map_option (\<lambda>ty. (ty, True)) (an_global_array_types s name)))"

definition is_arithmetic :: "binop \<Rightarrow> bool" where
  "is_arithmetic op = (op \<in> {BOP_PLUS, BOP_MINUS, BOP_MULTIPLY, BOP_DIVIDE, BOP_MODULO})"

definition is_equality :: "binop \<Rightarrow> bool" where
  "is_equality op = (op \<in> {BOP_EQUAL, BOP_NOT_EQUAL})"

definition is_ordering :: "binop \<Rightarrow> bool" where
  "is_ordering op = (op \<in> {BOP_LESS, BOP_GREATER, BOP_LESS_OR_EQUAL, BOP_GREATER_OR_EQUAL})"

definition is_logical :: "binop \<Rightarrow> bool" where
  "is_logical op = (op \<in> {BOP_OR, BOP_AND})"

text \<open>The part of the binary case after the operands: the type, or the report.\<close>

definition binary_type :: "binop \<Rightarrow> ShortType \<Rightarrow> ShortType \<Rightarrow> ShortType \<times> report list" where
  "binary_type op left right =
     (if left = T_Void \<or> right = T_Void
      then (T_Void, [err ''SHD3022'' ''binary operator requires value operands and cannot consume void''])
      else if left \<noteq> right
      then (T_Void, [err ''SHD3013'' (''operator operands must have the same type; left='' @ shortTypeName left @
             '' right='' @ shortTypeName right)])
      else if is_arithmetic op then
        (if left \<noteq> T_Int \<and> left \<noteq> T_Float
         then (T_Void, [err ''SHD3014'' ''arithmetic operators require int or float operands''])
         else if op = BOP_MODULO \<and> left \<noteq> T_Int
         then (T_Void, [err ''SHD3014'' ''modulo requires int operands''])
         else (left, []))
      else if is_equality op then (T_Boolean, [])
      else if is_ordering op then
        (if left \<noteq> T_Int \<and> left \<noteq> T_Float
         then (T_Void, [err ''SHD3014'' ''ordering operators require int or float operands''])
         else (T_Boolean, []))
      else if is_logical op then
        (if left \<noteq> T_Boolean \<and> left \<noteq> T_Int
         then (T_Void, [err ''SHD3014'' ''logical operators require bool or int operands''])
         else (T_Boolean, []))
      else (T_Void, [err ''SHD3014'' ''unknown expression operator'']))"

definition validateCall :: "analyzer \<Rightarrow> string \<Rightarrow> nat \<Rightarrow> report list" where
  "validateCall s name arity = (case an_function_arity s name of
       None \<Rightarrow> [err ''SHD3023'' (''undefined function: '' @ name)]
     | Some n \<Rightarrow>
         if name = [] then [err ''SHD3023'' (''undefined function: '' @ name)]
         else (if n \<noteq> arity then [err ''SHD3004'' (''function '' @ name @ '' expects '' @ show_nat n @
                 '' argument(s), got '' @ show_nat arity)] else []) @
           (if \<not> an_allow_external s \<and> name \<in> an_imported_functions s
            then [err ''SHD2030'' (''interpreter execution of imported function is disabled by this execution profile: ''
              @ name)] else []))"

definition argument_report :: "string \<Rightarrow> nat \<Rightarrow> ShortType \<Rightarrow> ShortType \<Rightarrow> report list" where
  "argument_report name i expected actual =
     (if actual = T_Void
      then [err ''SHD3022'' (''function '' @ name @ '' argument '' @ show_nat (i + 1) @
             '' requires a value but received void'')]
      else if actual \<noteq> expected
      then [err ''SHD3013'' (''function '' @ name @ '' argument '' @ show_nat (i + 1) @ '' expects '' @
             shortTypeName expected @ '' but received '' @ shortTypeName actual)]
      else [])"

fun expressionType :: "analyzer \<Rightarrow> AST_EXPRESSION \<Rightarrow> ShortType \<times> report list"
  and argument_types :: "analyzer \<Rightarrow> string \<Rightarrow> nat \<Rightarrow> AST_EXPRESSION list \<Rightarrow> ShortType list \<Rightarrow> report list" where
  "expressionType s (E_Literal i) = (T_Int, [])"
| "expressionType s (E_Bool b) = (T_Boolean, [])"
| "expressionType s (E_Float x) = (T_Float, [])"
| "expressionType s (E_String t) = (T_String, [])"
| "expressionType s (E_Var (V_Simple n)) = (case lookupType n s of
       None \<Rightarrow> (T_Void, [err ''SHD3008'' (''undeclared variable: '' @ n)])
     | Some (ty, is_array) \<Rightarrow>
         if is_array then (T_Void, [err ''SHD3013'' (''fixed array `'' @ n @
           ''` requires an index before use as a scalar value'')])
         else (ty, []))"
| "expressionType s (E_Var (V_Array n index)) = (case lookupType n s of
       None \<Rightarrow> (T_Void, [err ''SHD3008'' (''undeclared array: '' @ n)])
     | Some (ty, is_array) \<Rightarrow>
         if \<not> is_array then (T_Void, [err ''SHD3013'' (''scalar `'' @ n @ ''` cannot be indexed'')])
         else (case expressionType s index of (it, r) \<Rightarrow>
           (ty, r @ (if it \<noteq> T_Int then [err ''SHD3013'' ''array index must have type int''] else []))))"
| "expressionType s (E_Unary e op) = (case expressionType s e of (ty, r) \<Rightarrow>
     if ty \<noteq> T_Int \<and> ty \<noteq> T_Float
     then (T_Void, r @ [err ''SHD3014'' ''unary minus requires int or float operand''])
     else (ty, r))"
| "expressionType s (E_Binary l r op) = (case expressionType s l of (lt, r1) \<Rightarrow>
     (case expressionType s r of (rt, r2) \<Rightarrow>
       (case binary_type op lt rt of (ty, r3) \<Rightarrow> (ty, r1 @ r2 @ r3))))"
| "expressionType s (E_Call name args) =
     ((case an_function_return_types s name of None \<Rightarrow> T_Void | Some ty \<Rightarrow> ty),
      validateCall s name (length args) @
      (case an_function_parameter_types s name of
         None \<Rightarrow> []
       | Some expected \<Rightarrow>
           if length expected \<noteq> length args then [] else argument_types s name 0 args expected))"
| "argument_types s name i [] expected = []"
| "argument_types s name i (e # es) [] = []"
| "argument_types s name i (e # es) (t # ts) = (case expressionType s e of (actual, r) \<Rightarrow>
     r @ argument_report name i t actual @ argument_types s name (i + 1) es ts)"

definition validateCallTypes :: "analyzer \<Rightarrow> string \<Rightarrow> AST_EXPRESSION list \<Rightarrow> report list" where
  "validateCallTypes s name args = snd (expressionType s (E_Call name args))"

definition requireConditionType :: "analyzer \<Rightarrow> AST_EXPRESSION \<Rightarrow> report list" where
  "requireConditionType s e = (case expressionType s e of (ty, r) \<Rightarrow>
     r @ (if ty = T_Boolean \<or> ty = T_Int then []
          else [err ''SHD3015'' ''condition must have type bool or int'']))"


subsection \<open>Definite returns\<close>

fun is_transfer :: "AST_STATEMENT \<Rightarrow> bool" where
  "is_transfer (S_Label l) = True"
| "is_transfer (S_Goto c l) = True"
| "is_transfer _ = False"

fun definitelyReturns :: "AST_STATEMENT \<Rightarrow> bool" and definitelyReturns_block :: "AST_BLOCK \<Rightarrow> bool"
  and any_returns :: "AST_STATEMENT list \<Rightarrow> bool" and last_returns :: "AST_STATEMENT list \<Rightarrow> bool" where
  "definitelyReturns (S_Return e) = True"
| "definitelyReturns (S_IfElse c b1 b2) = (definitelyReturns_block b1 \<and> definitelyReturns_block b2)"
| "definitelyReturns (S_Block b) = definitelyReturns_block b"
| "definitelyReturns _ = False"
| "definitelyReturns_block (Block l ss) =
     (if list_ex is_transfer ss then last_returns ss else any_returns ss)"
| "any_returns [] = False"
| "any_returns (st # ss) = (if definitelyReturns st then True else any_returns ss)"
| "last_returns [] = False"
| "last_returns (st # ss) = (if ss = [] then definitelyReturns st else last_returns ss)"

subsection \<open>Declarations\<close>

fun declare_names :: "(string \<times> VariableInfo) list \<Rightarrow> (string \<rightharpoonup> VariableInfo) \<Rightarrow> (string \<rightharpoonup> VariableInfo) \<times> report list" where
  "declare_names [] scope = (scope, [])"
| "declare_names ((n, v) # ds) scope =
     (if scope n \<noteq> None
      then (case declare_names ds scope of (sc, r) \<Rightarrow>
        (sc, err ''SHD3021'' (''duplicate declaration in lexical scope: '' @ n) # r))
      else declare_names ds (scope(n \<mapsto> v)))"

definition declared :: "AST_DATA_DECLARATION_BLOCK \<Rightarrow> (string \<times> VariableInfo) list" where
  "declared b = map (\<lambda>d. (sd_name d, \<lparr>vi_type = sd_type d, vi_is_array = False\<rparr>)) (db_typed_scalars b) @
     map (\<lambda>d. (ad_name d, \<lparr>vi_type = ad_type d, vi_is_array = True\<rparr>)) (db_typed_arrays b)"

definition declareInCurrentScope :: "AST_DATA_DECLARATION_BLOCK \<Rightarrow> analyzer \<Rightarrow> analyzer" where
  "declareInCurrentScope b s = (case an_local_scopes s of
       [] \<Rightarrow> s
     | sc # scs \<Rightarrow> (case declare_names (declared b) sc of (sc', r) \<Rightarrow>
         emit r (s\<lparr>an_local_scopes := sc' # scs\<rparr>)))"

definition descriptor_report :: "TypeDescriptor \<Rightarrow> report list" where
  "descriptor_report d = (case validate d of Inl e \<Rightarrow> [err ''SHD3010'' e] | Inr _ \<Rightarrow> [])"

definition duplicate_report :: "bool \<Rightarrow> string \<Rightarrow> string set \<Rightarrow> report list" where
  "duplicate_report outermost name names =
     (if outermost \<and> name \<in> names then [err ''SHD3021'' (''duplicate declaration: '' @ name)] else [])"

definition executable_report :: "ShortType \<Rightarrow> string \<Rightarrow> string \<Rightarrow> report list" where
  "executable_report ty what name =
     (if isExecutableScalarType ty then []
      else [err ''SHD3003'' (''production executable semantics do not accept '' @ shortTypeName ty @ what @ name @ ''`'')])"

fun scalar_reports :: "bool \<Rightarrow> AST_TYPED_SCALAR_DECLARATION list \<Rightarrow> string set \<Rightarrow> report list \<times> string set" where
  "scalar_reports outermost [] names = ([], names)"
| "scalar_reports outermost (d # ds) names =
     (case scalar_reports outermost ds (if outermost then insert (sd_name d) names else names) of (r, names') \<Rightarrow>
       (duplicate_report outermost (sd_name d) names @ executable_report (sd_type d) '' declaration `'' (sd_name d) @
        descriptor_report (td_scalar (productionTypeKind (sd_type d))) @ r, names'))"

definition array_extent :: "int \<Rightarrow> size_t" where
  "array_extent n = (if n < 0 then 0 else of_int n)"

fun array_reports :: "bool \<Rightarrow> AST_TYPED_ARRAY_DECLARATION list \<Rightarrow> string set \<Rightarrow> report list" where
  "array_reports outermost [] names = []"
| "array_reports outermost (d # ds) names =
     duplicate_report outermost (ad_name d) names @ executable_report (ad_type d) '' array `'' (ad_name d) @
     (if ad_type d = T_String
      then [err ''SHD3003'' ''string arrays require owned element destruction and are reserved by shorthand.type_memory.v1'']
      else []) @
     descriptor_report (td_array (productionTypeKind (ad_type d)) (array_extent (ad_size d))) @
     array_reports outermost ds (if outermost then insert (ad_name d) names else names)"

definition sem_declarations :: "AST_DATA_DECLARATION_BLOCK \<Rightarrow> analyzer \<Rightarrow> analyzer" where
  "sem_declarations b s = (let outermost = (an_local_scopes s = []) in
     case scalar_reports outermost (db_typed_scalars b) {} of (r, names) \<Rightarrow>
       declareInCurrentScope b (emit (r @ array_reports outermost (db_typed_arrays b) names) s))"

subsection \<open>AI and certification statements\<close>

definition validShape :: "string \<Rightarrow> bool" where
  "validShape t = (t = ''dynamic'' \<or> validateShape (parseShapeCsv t))"

definition shapeCompatible :: "string \<Rightarrow> string \<Rightarrow> bool" where
  "shapeCompatible model tensor = (model = [] \<or> tensor = [] \<or> model = ''dynamic'' \<or> tensor = ''dynamic'' \<or>
     parseShapeCsv model = parseShapeCsv tensor)"

fun backendCompatibleWithFormat :: "ModelFormat \<Rightarrow> BackendKind \<Rightarrow> bool" where
  "backendCompatibleWithFormat f Fallback = True"
| "backendCompatibleWithFormat Onnx b = (b \<in> {OnnxRuntimeCPU, OnnxRuntimeCUDA, OnnxRuntimeTensorRT, TensorRT})"
| "backendCompatibleWithFormat TensorRTEngine b = (b = TensorRT \<or> b = OnnxRuntimeTensorRT)"
| "backendCompatibleWithFormat TorchScript b = (b = LibTorch)"
| "backendCompatibleWithFormat OpenVINOIR b = (b = OpenVINO)"
| "backendCompatibleWithFormat GGUF b = (b = LlamaCpp)"
| "backendCompatibleWithFormat FormatUnknown b = False"

definition backend_warnings :: "ModelDeclarationData \<Rightarrow> report list" where
  "backend_warnings d = concat (map (\<lambda>b. let k = parseBackendKind b in
     if k = Fallback \<or> backendCompatibleWithFormat (parseModelFormat (md_format d)) k then []
     else [warn ''SHD4007'' (''model '' @ md_name d @ '' backend_preference '' @ b @
       '' is not compatible with format '' @ md_format d)]) (md_backend_preference d))"

definition has_usable_backend :: "ModelDeclarationData \<Rightarrow> bool" where
  "has_usable_backend d = list_ex (\<lambda>b. let k = parseBackendKind b in
     k = Fallback \<or> backendCompatibleWithFormat (parseModelFormat (md_format d)) k) (md_backend_preference d)"

definition report_if :: "bool \<Rightarrow> report \<Rightarrow> report list" where
  "report_if c r = (if c then [r] else [])"

definition sem_model :: "ModelDeclarationData \<Rightarrow> analyzer \<Rightarrow> analyzer" where
  "sem_model d s = emit (
     report_if (an_models s (md_name d) \<noteq> None) (err ''SHD4001'' (''model redeclared: '' @ md_name d)) @
     report_if (md_format d = [] \<or> parseModelFormat (md_format d) = FormatUnknown)
       (err ''SHD4002'' (''model '' @ md_name d @ '' missing or invalid format'')) @
     report_if (parseElementType (md_precision d) = ElementUnknown)
       (err ''SHD4003'' (''model '' @ md_name d @ '' has invalid precision'')) @
     report_if (md_input_shape d = [] \<or> \<not> validShape (md_input_shape d))
       (err ''SHD4004'' (''model '' @ md_name d @ '' has invalid input_shape'')) @
     report_if (md_output_shape d \<noteq> [] \<and> \<not> validShape (md_output_shape d))
       (err ''SHD4005'' (''model '' @ md_name d @ '' has invalid output_shape'')) @
     report_if (\<not> md_has_quality_guardrail d)
       (err ''SHD4006'' (''model '' @ md_name d @ '' requires quality_guardrail'')) @
     backend_warnings d @
     report_if (md_backend_preference d = [])
       (warn ''SHD4008'' (''model '' @ md_name d @ '' has no backend_preference; fallback will be used if allowed'')) @
     report_if (md_backend_preference d \<noteq> [] \<and> \<not> has_usable_backend d)
       (err ''SHD4009'' (''model '' @ md_name d @ '' has no compatible backend_preference for format '' @ md_format d)))
     (s\<lparr>an_models := (an_models s)(md_name d \<mapsto> d)\<rparr>)"

definition sem_tensor :: "TensorDeclarationData \<Rightarrow> analyzer \<Rightarrow> analyzer" where
  "sem_tensor d s = emit (
     report_if (an_tensors s (tn_name d) \<noteq> None) (err ''SHD4010'' (''tensor redeclared: '' @ tn_name d)) @
     report_if (\<not> validShape (tn_shape_csv d)) (err ''SHD4011'' (''invalid tensor shape for '' @ tn_name d)))
     (s\<lparr>an_tensors := (an_tensors s)(tn_name d \<mapsto> d)\<rparr>)"


definition sem_contract :: "GreenAIContractData \<Rightarrow> analyzer \<Rightarrow> analyzer" where
  "sem_contract d s = emit (
     report_if (\<not> gc_has_functional_unit d)
       (err ''SHD5001'' (''greenai_contract '' @ gc_name d @ '' missing functional_unit'')) @
     report_if (\<not> gc_has_success_criteria d)
       (err ''SHD5002'' (''greenai_contract '' @ gc_name d @ '' missing success_criteria'')) @
     report_if (\<not> gc_has_boundary d) (err ''SHD5003'' (''greenai_contract '' @ gc_name d @ '' missing boundary'')) @
     report_if (\<not> gc_has_mq d \<or> \<not> gc_has_dq d)
       (err ''SHD5004'' (''greenai_contract '' @ gc_name d @ '' requires MQ/DQ'')) @
     report_if (\<not> gc_has_carbon_factor d \<or> b_le (gc_carbon_factor d) (B_Zero False))
       (err ''SHD5005'' (''greenai_contract '' @ gc_name d @ '' requires positive carbon_factor'')) @
     report_if (\<not> gc_has_quality_guardrail d)
       (err ''SHD5006'' (''greenai_contract '' @ gc_name d @ '' requires quality_guardrail'')) @
     report_if (gc_claims_mode d \<noteq> ''evidence_only'') (err ''SHD5007'' ''claims_mode must be evidence_only'') @
     report_if (b_lt (gc_energy_budget_j d) (B_Zero False) \<or> b_lt (gc_carbon_budget_gco2e d) (B_Zero False))
       (err ''SHD5008'' ''budgets must be non-negative''))
     (s\<lparr>an_contracts := (an_contracts s)(gc_name d \<mapsto> d)\<rparr>)"

definition sem_measurement :: "GreenAIMeasurementData \<Rightarrow> analyzer \<Rightarrow> analyzer" where
  "sem_measurement d s = emit (
     report_if (an_contracts s \<noteq> Map.empty \<and> an_contracts s (gm_workload d) = None)
       (err ''SHD5009'' (''greenai_measure references unknown contract: '' @ gm_workload d)) @
     report_if (an_models s \<noteq> Map.empty \<and> an_models s (gm_backend d) = None)
       (warn ''SHD5010'' (''greenai_measure backend '' @ gm_backend d @
          '' is not a declared model; treating as external measurement source''))) s"

definition sem_c3eco :: "C3EcoDeclarationData \<Rightarrow> analyzer \<Rightarrow> analyzer" where
  "sem_c3eco d s = emit (declaration_reports (an_c3eco_declarations s) d)
     (s\<lparr>an_c3eco_profile_nodes := an_c3eco_profile_nodes s @ [d],
        an_c3eco_declarations := insert (declaration_key d) (an_c3eco_declarations s)\<rparr>)"

definition output_reports :: "ModelDeclarationData \<Rightarrow> string \<Rightarrow> TensorDeclarationData option \<Rightarrow> report list" where
  "output_reports m output t = (case t of
       Some o1 \<Rightarrow> report_if (md_output_shape m \<noteq> [] \<and> \<not> shapeCompatible (md_output_shape m) (tn_shape_csv o1))
         (err ''SHD4015'' (''infer output tensor shape '' @ tn_shape_csv o1 @ '' does not match model '' @ md_name m @
            '' output_shape '' @ md_output_shape m))
     | None \<Rightarrow> [warn ''SHD4016'' (''infer output '' @ output @
         '' is implicit; declare a tensor to enable output_shape validation'')])"

definition sem_infer :: "string \<Rightarrow> string \<Rightarrow> string \<Rightarrow> analyzer \<Rightarrow> analyzer" where
  "sem_infer model input output s = emit (
     report_if (an_models s model = None) (err ''SHD4012'' (''infer references unknown model: '' @ model)) @
     report_if (an_tensors s \<noteq> Map.empty \<and> an_tensors s input = None)
       (err ''SHD4013'' (''infer references unknown input tensor: '' @ input)) @
     (case (an_models s model, an_tensors s input) of
        (Some m, Some t) \<Rightarrow>
          report_if (\<not> shapeCompatible (md_input_shape m) (tn_shape_csv t))
            (err ''SHD4014'' (''infer input tensor shape '' @ tn_shape_csv t @ '' does not match model '' @ md_name m @
               '' input_shape '' @ md_input_shape m)) @
          output_reports m output (an_tensors s output)
      | _ \<Rightarrow> [])) s"

subsection \<open>Statements\<close>

definition assignment_reports :: "analyzer \<Rightarrow> AST_VARIABLE \<Rightarrow> AST_EXPRESSION \<Rightarrow> report list" where
  "assignment_reports s v e = (case expressionType s (E_Var v) of (target, r1) \<Rightarrow>
     (case expressionType s e of (source, r2) \<Rightarrow> r1 @ r2 @
       (if target \<noteq> T_Void \<and> source = T_Void
        then [err ''SHD3022'' ''assignment source requires a value but received void'']
        else if target \<noteq> T_Void \<and> target \<noteq> source
        then [err ''SHD3013'' (''assignment requires identical types; target='' @ shortTypeName target @ '' source='' @
               shortTypeName source @ ''. Use an explicit checked conversion when conversion syntax is available.'')]
        else [])))"

definition all_int :: "analyzer \<Rightarrow> AST_EXPRESSION list \<Rightarrow> report \<Rightarrow> report list" where
  "all_int s es r = concat (map (\<lambda>e. snd (expressionType s e)) es) @
     report_if (list_ex (\<lambda>e. fst (expressionType s e) \<noteq> T_Int) es) r"

definition goto_reports :: "analyzer \<Rightarrow> AST_EXPRESSION option \<Rightarrow> string \<Rightarrow> report list" where
  "goto_reports s c label =
     (case an_block_label_scopes s of
        [] \<Rightarrow> [err ''SHD3018'' (''goto target is not defined in the current lexical block: '' @ label)]
      | ls # lss \<Rightarrow>
          if label \<in> ls then []
          else if list_ex (\<lambda>ls. label \<in> ls) lss
          then [err ''SHD3019'' (''goto cannot leave its lexical block: '' @ label)]
          else [err ''SHD3018'' (''goto target is not defined in the current lexical block: '' @ label)]) @
     (case c of None \<Rightarrow> [] | Some e \<Rightarrow> requireConditionType s e)"

definition read_reports :: "analyzer \<Rightarrow> AST_VARIABLE \<Rightarrow> report list" where
  "read_reports s v = (case expressionType s (E_Var v) of (ty, r) \<Rightarrow> r @
     report_if (ty = T_String)
       (err ''SHD3003'' ''read into string is unavailable until a bounded input-capacity syntax is declared''))"

fun print_reports :: "analyzer \<Rightarrow> AST_PRINTABLE_ITEM \<Rightarrow> report list" where
  "print_reports s (P_Expr e) = (case expressionType s e of (ty, r) \<Rightarrow> r @
     report_if (ty = T_Void) (err ''SHD3022'' ''print requires a value and cannot consume void''))"
| "print_reports s (P_String t) = snd (expressionType s (E_String t))"

definition return_reports :: "analyzer \<Rightarrow> AST_EXPRESSION option \<Rightarrow> report list" where
  "return_reports s e = (case an_return_types s of
       [] \<Rightarrow> err ''SHD3005'' ''return outside function'' #
         (case e of None \<Rightarrow> [] | Some x \<Rightarrow> snd (expressionType s x))
     | rt # rts \<Rightarrow>
         report_if (rt = T_Void \<and> e \<noteq> None) (err ''SHD3007'' ''void function cannot return a value'') @
         (case e of
            None \<Rightarrow> report_if (rt \<noteq> T_Void) (err ''SHD3007'' ''non-void function must return a value'')
          | Some x \<Rightarrow>
              if rt = T_Void then []
              else (case expressionType s x of (actual, r) \<Rightarrow> r @
                (if actual = T_Void
                 then [err ''SHD3022'' ''return expression requires a value but received void'']
                 else if actual \<noteq> rt
                 then [err ''SHD3007'' (''return expression has type '' @ shortTypeName actual @
                        '' but function returns '' @ shortTypeName rt)]
                 else []))))"

text \<open>An expression statement visits the expression; only operators, variables and calls report.\<close>

fun expression_statement_reports :: "analyzer \<Rightarrow> AST_EXPRESSION \<Rightarrow> report list" where
  "expression_statement_reports s (E_Call name args) = validateCallTypes s name args"
| "expression_statement_reports s e = snd (expressionType s e)"

subsection \<open>Blocks, functions and programs\<close>

fun label_reports :: "AST_STATEMENT list \<Rightarrow> string set \<Rightarrow> report list \<times> string set" where
  "label_reports [] ls = ([], ls)"
| "label_reports (S_Label l # ss) ls =
     (if l \<in> ls
      then (case label_reports ss ls of (r, ls') \<Rightarrow> (err ''SHD3017'' (''duplicate label in lexical block: '' @ l) # r, ls'))
      else label_reports ss (insert l ls))"
| "label_reports (_ # ss) ls = label_reports ss ls"

fun label_position :: "AST_STATEMENT list \<Rightarrow> string \<Rightarrow> nat option" where
  "label_position [] l = None"
| "label_position (S_Label m # ss) l = (if m = l then Some 0 else map_option Suc (label_position ss l))"
| "label_position (_ # ss) l = map_option Suc (label_position ss l)"

fun is_declaration :: "AST_STATEMENT \<Rightarrow> bool" where
  "is_declaration (S_Decl b) = True"
| "is_declaration _ = False"

definition crosses_declaration :: "AST_STATEMENT list \<Rightarrow> nat \<Rightarrow> nat \<Rightarrow> bool" where
  "crosses_declaration ss i j = list_ex is_declaration (drop (min i j + 1) (take (max i j) ss))"

definition jump_reports :: "AST_STATEMENT list \<Rightarrow> nat \<Rightarrow> AST_STATEMENT \<Rightarrow> report list" where
  "jump_reports ss i st = (case st of
       S_Goto c l \<Rightarrow> (case label_position ss l of
           None \<Rightarrow> []
         | Some j \<Rightarrow> report_if (crosses_declaration ss i j)
             (err ''SHD3019'' (''goto cannot cross a lexical declaration boundary: '' @ l)))
     | _ \<Rightarrow> [])"

definition enter_block :: "bool \<Rightarrow> AST_STATEMENT list \<Rightarrow> analyzer \<Rightarrow> analyzer" where
  "enter_block lexical ss s = (case label_reports ss {} of (r, ls) \<Rightarrow>
     (let s1 = (if lexical then s\<lparr>an_local_scopes := Map.empty # an_local_scopes s\<rparr> else s);
          s2 = emit r s1
      in s2\<lparr>an_block_label_scopes := ls # an_block_label_scopes s2\<rparr>))"

definition leave_block :: "bool \<Rightarrow> analyzer \<Rightarrow> analyzer" where
  "leave_block lexical s = (let s1 = s\<lparr>an_block_label_scopes := tl (an_block_label_scopes s)\<rparr>
     in if lexical then s1\<lparr>an_local_scopes := tl (an_local_scopes s1)\<rparr> else s1)"

definition deeper :: "analyzer \<Rightarrow> analyzer" where "deeper s = s\<lparr>an_loopDepth := an_loopDepth s + 1\<rparr>"
definition shallower :: "analyzer \<Rightarrow> analyzer" where "shallower s = s\<lparr>an_loopDepth := an_loopDepth s - 1\<rparr>"

fun sem_statement :: "AST_STATEMENT \<Rightarrow> analyzer \<Rightarrow> analyzer"
  and sem_block :: "AST_BLOCK \<Rightarrow> analyzer \<Rightarrow> analyzer"
  and sem_statements :: "AST_STATEMENT list \<Rightarrow> nat \<Rightarrow> AST_STATEMENT list \<Rightarrow> analyzer \<Rightarrow> analyzer" where
  "sem_statement (S_Decl b) s = sem_declarations b s"
| "sem_statement (S_Expr e) s = emit (expression_statement_reports s e) s"
| "sem_statement (S_Call f ps) s = emit (validateCallTypes s f (map E_Var ps)) s"
| "sem_statement (S_Assign v e) s = emit (assignment_reports s v e) s"
| "sem_statement (S_Block b) s = sem_block b s"
| "sem_statement (S_If c b) s = sem_block b (emit (requireConditionType s c) s)"
| "sem_statement (S_IfElse c b1 b2) s = sem_block b2 (sem_block b1 (emit (requireConditionType s c) s))"
| "sem_statement (S_For v from step to body) s =
     shallower (sem_block body (deeper (emit (all_int s [E_Var v, from, step, to]
       (err ''SHD3013'' ''counted loop variable, start, step and bound must all have type int'')) s)))"
| "sem_statement (S_While c body) s = shallower (sem_block body (deeper (emit (requireConditionType s c) s)))"
| "sem_statement (S_Goto c l) s = emit (goto_reports s c l) s"
| "sem_statement (S_Read vs) s = emit (concat (map (read_reports s) vs)) s"
| "sem_statement (S_Print ps) s = emit (concat (map (print_reports s) ps)) s"
| "sem_statement (S_Label l) s = s"
| "sem_statement (S_GreenReport w i p t) s = emit (all_int s [i, p, t] (err ''SHD3013''
     ''greenai report inferences, watts and seconds require exact int values; implicit measurement conversion is forbidden'')) s"
| "sem_statement (S_AiInfer m sh i) s = s"
| "sem_statement (S_Model d) s = sem_model d s"
| "sem_statement (S_Tensor d) s = sem_tensor d s"
| "sem_statement (S_Contract d) s = sem_contract d s"
| "sem_statement (S_Measure d) s = sem_measurement d s"
| "sem_statement (S_C3Eco d) s = sem_c3eco d s"
| "sem_statement (S_Infer m i out) s = sem_infer m i out s"
| "sem_statement S_Break s =
     emit (report_if (an_loopDepth s = 0) (err ''SHD3001'' ''break outside loop'')) s"
| "sem_statement S_Continue s =
     emit (report_if (an_loopDepth s = 0) (err ''SHD3002'' ''continue outside loop'')) s"
| "sem_statement (S_Return e) s = emit (return_reports s e) s"
| "sem_block (Block lexical ss) s = leave_block lexical (sem_statements ss 0 ss (enter_block lexical ss s))"
| "sem_statements all i [] s = s"
| "sem_statements all i (st # sts) s =
     sem_statements all (i + 1) sts (sem_statement st (emit (jump_reports all i st) s))"


fun register_functions :: "AST_FUNCTION list \<Rightarrow> string set \<Rightarrow> analyzer \<Rightarrow> analyzer" where
  "register_functions [] local_names s = s"
| "register_functions (f # fs) local_names s = (let name = fn_name f;
     s1 = emit (report_if (name \<in> local_names \<or> name \<in> an_imported_functions s)
       (err ''SHD3009'' (''duplicate function definition: '' @ name))) s
     in register_functions fs (insert name local_names) (s1\<lparr>
       an_functions := insert name (an_functions s1),
       an_function_arity := (an_function_arity s1)(name \<mapsto> arity_of f),
       an_function_return_types := (an_function_return_types s1)(name \<mapsto> fn_type f),
       an_function_parameter_types := (an_function_parameter_types s1)(name \<mapsto> parameter_types_of f)\<rparr>))"

text \<open>The scope of the parameters; \<open>emplace\<close> keeps the first of two equal names.\<close>

definition parameter_scope :: "AST_FUNCTION \<Rightarrow> string \<rightharpoonup> VariableInfo" where
  "parameter_scope f = fst (declare_names (declared (fn_parameters f)) Map.empty)"

definition enter_function_scope :: "AST_FUNCTION \<Rightarrow> analyzer \<Rightarrow> analyzer" where
  "enter_function_scope f s = (let s1 = sem_declarations (fn_parameters f) s;
     s2 = emit (report_if (db_array_ints (fn_parameters f) \<noteq> [])
       (err ''SHD3003'' ''array parameters are not part of the beta-0.4 executable function contract'')) s1
     in s2\<lparr>an_local_scopes := parameter_scope f # an_local_scopes s2, an_return_types := fn_type f # an_return_types s2,
          an_loopDepth := 0\<rparr>)"

definition sem_function :: "AST_FUNCTION \<Rightarrow> analyzer \<Rightarrow> analyzer" where
  "sem_function f s = (let s1 = sem_block (fn_block f) (enter_function_scope f s);
     s2 = emit (report_if (fn_type f \<noteq> T_Void \<and> \<not> definitelyReturns_block (fn_block f))
       (err ''SHD3020'' (''non-void function `'' @ fn_name f @ ''` does not return a value on every structured path''))) s1
     in s2\<lparr>an_loopDepth := an_loopDepth s, an_return_types := tl (an_return_types s2),
          an_local_scopes := tl (an_local_scopes s2)\<rparr>)"

definition sem_functions :: "AST_FUNCTION list \<Rightarrow> analyzer \<Rightarrow> analyzer" where
  "sem_functions fs s = fold sem_function fs (register_functions fs {} s)"

definition sem_logic_block :: "AST_BLOCK \<Rightarrow> analyzer \<Rightarrow> analyzer" where
  "sem_logic_block b s = (let s1 = sem_block b (s\<lparr>an_local_scopes := Map.empty # an_local_scopes s\<rparr>)
     in s1\<lparr>an_local_scopes := tl (an_local_scopes s1)\<rparr>)"

definition load_globals :: "AST_PROGRAM \<Rightarrow> analyzer \<Rightarrow> analyzer" where
  "load_globals p s = s\<lparr>an_c3eco_declarations := {}, an_c3eco_profile_nodes := [], an_globals := globalNames p,
     an_global_types := fold (\<lambda>d m. m(sd_name d \<mapsto> sd_type d)) (db_typed_scalars (pg_decl_block p)) Map.empty,
     an_global_array_types := fold (\<lambda>d m. m(ad_name d \<mapsto> ad_type d)) (db_typed_arrays (pg_decl_block p)) Map.empty\<rparr>"

definition sem_program :: "AST_PROGRAM \<Rightarrow> analyzer \<Rightarrow> analyzer" where
  "sem_program p s = (let s1 = sem_logic_block (pg_code_block p)
       (sem_functions (pg_functions p) (sem_declarations (pg_decl_block p) (load_globals p s)))
     in emit (validateC3EcoProfiles (an_c3eco_profile_nodes s1)) s1)"

definition accepts_program :: "AST_PROGRAM \<Rightarrow> analyzer \<Rightarrow> bool" where
  "accepts_program p s = (\<not> hasErrors (an_diagnostics (sem_program p s)))"

end
