(* ===== verification/AnalyzerFlow.thy ===== *)
theory AnalyzerFlow
  imports Analyzer InterpreterTheorems
begin

section \<open>Accepted control flow\<close>

text \<open>
  What the analyzer's acceptance means for the interpreter's control flow: which signals an
  accepted statement can raise, that an accepted non-void function returns, and that the gotos
  of an accepted block find their label.
\<close>

subsection \<open>Reports only accumulate\<close>

definition errs :: "analyzer \<Rightarrow> bool" where
  "errs s \<longleftrightarrow> hasErrors (an_diagnostics s)"

definition error_in :: "report list \<Rightarrow> bool" where
  "error_in rs \<longleftrightarrow> (\<exists>c m. (Error, c, m) \<in> set rs)"

lemma error_in_simps [simp]:
  "\<not> error_in []" "error_in (err c m # rs)" "error_in (warn c m # rs) \<longleftrightarrow> error_in rs"
  "error_in (rs @ rs') \<longleftrightarrow> error_in rs \<or> error_in rs'" "error_in (report_if p r) \<longleftrightarrow> p \<and> error_in [r]"
  by (auto simp: error_in_def err_def warn_def report_if_def)

lemma error_in_concat [simp]: "error_in (concat rss) \<longleftrightarrow> (\<exists>rs \<in> set rss. error_in rs)"
  by (auto simp: error_in_def)

lemma emit_form: "\<exists>d. emit rs s = s\<lparr>an_diagnostics := d\<rparr>"
  by (induction rs s rule: emit.induct) (auto, metis analyzer.surjective analyzer.update_convs(1))

lemma errs_emit [simp]: "errs (emit rs s) \<longleftrightarrow> errs s \<or> error_in rs"
  by (induction rs s rule: emit.induct) (auto simp: errs_def hasErrors_def dg_add_def error_in_def)

lemma emit_simps [simp]:
  "an_models (emit rs s) = an_models s" "an_tensors (emit rs s) = an_tensors s"
  "an_contracts (emit rs s) = an_contracts s" "an_functions (emit rs s) = an_functions s"
  "an_function_arity (emit rs s) = an_function_arity s"
  "an_imported_functions (emit rs s) = an_imported_functions s"
  "an_globals (emit rs s) = an_globals s" "an_global_types (emit rs s) = an_global_types s"
  "an_global_array_types (emit rs s) = an_global_array_types s"
  "an_local_scopes (emit rs s) = an_local_scopes s"
  "an_block_label_scopes (emit rs s) = an_block_label_scopes s"
  "an_function_return_types (emit rs s) = an_function_return_types s"
  "an_function_parameter_types (emit rs s) = an_function_parameter_types s"
  "an_return_types (emit rs s) = an_return_types s" "an_allow_external (emit rs s) = an_allow_external s"
  "an_loopDepth (emit rs s) = an_loopDepth s" "an_c3eco_profile_nodes (emit rs s) = an_c3eco_profile_nodes s"
  "an_c3eco_declarations (emit rs s) = an_c3eco_declarations s"
  using emit_form [of rs s] by auto

lemma errs_updates [simp]:
  "errs (s\<lparr>an_models := a\<rparr>) = errs s" "errs (s\<lparr>an_tensors := b\<rparr>) = errs s" "errs (s\<lparr>an_contracts := c\<rparr>) = errs s"
  "errs (s\<lparr>an_local_scopes := sc\<rparr>) = errs s" "errs (s\<lparr>an_block_label_scopes := ls\<rparr>) = errs s"
  "errs (s\<lparr>an_return_types := rt\<rparr>) = errs s" "errs (s\<lparr>an_loopDepth := k\<rparr>) = errs s"
  "errs (s\<lparr>an_c3eco_profile_nodes := ns\<rparr>) = errs s" "errs (s\<lparr>an_c3eco_declarations := ks\<rparr>) = errs s"
  "errs (s\<lparr>an_functions := fs\<rparr>) = errs s" "errs (s\<lparr>an_function_arity := m1\<rparr>) = errs s"
  "errs (s\<lparr>an_function_return_types := m2\<rparr>) = errs s" "errs (s\<lparr>an_function_parameter_types := m3\<rparr>) = errs s"
  by (simp_all add: errs_def)

text \<open>The context a visitor hands back: the nesting, the signatures and all scopes but the innermost.\<close>

definition context_kept :: "analyzer \<Rightarrow> analyzer \<Rightarrow> bool" where
  "context_kept s t \<longleftrightarrow> (errs s \<longrightarrow> errs t) \<and> an_loopDepth t = an_loopDepth s \<and>
     an_return_types t = an_return_types s \<and> an_block_label_scopes t = an_block_label_scopes s \<and>
     tl (an_local_scopes t) = tl (an_local_scopes s) \<and>
     (an_local_scopes t = [] \<longleftrightarrow> an_local_scopes s = []) \<and>
     an_function_return_types t = an_function_return_types s \<and>
     an_function_parameter_types t = an_function_parameter_types s \<and> an_function_arity t = an_function_arity s \<and>
     an_global_types t = an_global_types s \<and> an_global_array_types t = an_global_array_types s"

lemma context_refl: "context_kept s s"
  by (simp add: context_kept_def)

lemma context_trans: "context_kept s t \<Longrightarrow> context_kept t u \<Longrightarrow> context_kept s u"
  by (auto simp: context_kept_def)

lemma context_emit: "context_kept s (emit rs s)"
  by (auto simp: context_kept_def)

lemma context_declarations: "context_kept s (sem_declarations b s)"
  by (auto simp: context_kept_def sem_declarations_def declareInCurrentScope_def Let_def
      split: list.splits prod.splits)

lemma context_statement: "context_kept s (sem_statement st s)"
  and context_block: "context_kept s (sem_block b s)"
  and context_statements: "context_kept s (sem_statements all i ss s)"
proof (induction st s and b s and all i ss s rule: sem_statement_sem_block_sem_statements.induct)
  case (1 b s)
  then show ?case by (simp add: context_declarations)
next
  case (27 all i st sts s)
  then show ?case by (auto intro: context_trans context_emit)
next
  case (25 lexical ss s)
  then show ?case
    by (auto simp: context_kept_def enter_block_def leave_block_def Let_def split: prod.splits)
qed (auto simp: context_kept_def deeper_def shallower_def sem_model_def sem_tensor_def sem_contract_def
      sem_measurement_def sem_c3eco_def sem_infer_def)


lemma errs_statement: "errs s \<Longrightarrow> errs (sem_statement st s)"
  and errs_block: "errs s \<Longrightarrow> errs (sem_block b s)"
  and errs_statements: "errs s \<Longrightarrow> errs (sem_statements all i ss s)"
  using context_statement context_block context_statements by (auto simp: context_kept_def)

subsection \<open>Signals of accepted statements\<close>

definition signals_allowed :: "analyzer \<Rightarrow> FlowSignal set \<Rightarrow> bool" where
  "signals_allowed s S \<longleftrightarrow> (an_loopDepth s = 0 \<longrightarrow> F_Break \<notin> S \<and> F_Continue \<notin> S) \<and>
     (an_return_types s = [] \<longrightarrow> F_Return \<notin> S)"

lemma signals_allowed_context: "context_kept s t \<Longrightarrow> signals_allowed t S = signals_allowed s S"
  by (simp add: signals_allowed_def context_kept_def)

lemma signals_allowed_Un: "signals_allowed s S \<Longrightarrow> signals_allowed s T \<Longrightarrow> signals_allowed s (S \<union> T)"
  by (auto simp: signals_allowed_def)

lemma enter_block_context:
  "an_loopDepth (enter_block l ss s) = an_loopDepth s" "an_return_types (enter_block l ss s) = an_return_types s"
  "errs s \<Longrightarrow> errs (enter_block l ss s)"
  by (auto simp: enter_block_def Let_def split: prod.splits)

lemma leave_block_errs [simp]: "errs (leave_block l s) = errs s"
  by (simp add: leave_block_def Let_def)

lemma allowed_statement: "\<not> errs (sem_statement st s) \<Longrightarrow> signals_allowed s (signals st)"
  and allowed_block: "\<not> errs (sem_block b s) \<Longrightarrow> signals_allowed s (signals_block b)"
  and allowed_statements: "\<not> errs (sem_statements all i ss s) \<Longrightarrow> signals_allowed s (\<Union>st \<in> set ss. signals st)"
proof (induction st s and b s and all i ss s rule: sem_statement_sem_block_sem_statements.induct)
  case (7 c b1 b2 s)
  then have "\<not> errs (sem_block b1 (emit (requireConditionType s c) s))" using errs_block by auto
  with 7 show ?case
    using context_block [of "emit (requireConditionType s c) s" b1] context_emit [of s "requireConditionType s c"]
    by (auto simp: signals_allowed_context intro!: signals_allowed_Un)
next
  case (25 lexical ss s)
  then show ?case by (auto simp: signals_allowed_def enter_block_context)
next
  case (27 all i st sts s)
  let ?s = "emit (jump_reports all i st) s"
  have "\<not> errs (sem_statement st ?s)" using 27 errs_statements by auto
  with 27 have "signals_allowed ?s (signals st)" "signals_allowed (sem_statement st ?s) (\<Union>st \<in> set sts. signals st)"
    by simp_all
  then show ?case
    using context_statement [of ?s st] context_emit [of s "jump_reports all i st"]
    by (auto simp: signals_allowed_context intro!: signals_allowed_Un)
qed (auto simp: signals_allowed_def deeper_def shallower_def return_reports_def split: list.splits)


subsection \<open>Definite returns are sound\<close>

text \<open>
  A statement list leads to a return from a position: some statement from there on definitely
  returns, and it is the last one if the list has labels or gotos.
\<close>

definition leads :: "AST_STATEMENT list \<Rightarrow> nat \<Rightarrow> bool" where
  "leads ss pc \<longleftrightarrow> (\<exists>k. pc \<le> k \<and> k < length ss \<and> definitelyReturns (ss ! k) \<and>
     (list_ex is_transfer ss \<longrightarrow> Suc k = length ss))"

lemma any_returns_iff: "any_returns ss \<longleftrightarrow> (\<exists>k < length ss. definitelyReturns (ss ! k))"
  by (induction ss) (auto simp: less_Suc_eq_0_disj)

lemma last_returns_iff: "last_returns ss \<longleftrightarrow> ss \<noteq> [] \<and> definitelyReturns (last ss)"
  by (induction ss) auto

lemma returns_leads: "definitelyReturns_block (Block l ss) \<Longrightarrow> leads ss 0"
  by (auto simp: leads_def any_returns_iff last_returns_iff last_conv_nth split: if_splits
      intro: exI [of _ "length ss - 1"])

lemma goto_signal: "F_Goto \<in> signals st \<Longrightarrow> is_transfer st"
  using no_goto_signal by (cases st) auto

lemma label_not_last:
  assumes "label_index ss l = Some k" and "definitelyReturns (last ss)"
  shows "Suc k < length ss"
proof -
  have "ss ! k = S_Label l \<and> k < length ss"
    using assms(1) by (induction ss l arbitrary: k rule: label_index.induct) (auto split: if_splits)
  then have "ss \<noteq> []" "\<not> definitelyReturns (ss ! k)" "k < length ss" by auto
  then have "ss ! k \<noteq> last ss" "k < length ss" using assms(2) by metis+
  then have "k \<noteq> length ss - 1" "k < length ss" using \<open>ss \<noteq> []\<close> by (auto simp: last_conv_nth)
  then show ?thesis by linarith
qed

lemma leads_jump:
  assumes "leads ss pc" and "label_index ss l = Some k"
  shows "leads ss (Suc k)"
proof -
  have "list_ex is_transfer ss"
    using assms(2) by (induction ss l arbitrary: k rule: label_index.induct) (auto split: if_splits)
  then obtain j where j: "Suc j = length ss" "definitelyReturns (ss ! j)"
    using assms(1) by (auto simp: leads_def)
  then have "ss ! j = last ss" by (cases "ss = []") (auto simp: last_conv_nth dest: sym)
  with j have "definitelyReturns (last ss)" by simp
  then have "Suc k < length ss" using label_not_last assms(2) by blast
  then show ?thesis using j \<open>list_ex is_transfer ss\<close> unfolding leads_def by (intro exI [of _ j]) auto
qed

lemma leads_next:
  assumes "leads ss pc" and "\<not> definitelyReturns (ss ! pc)"
  shows "leads ss (Suc pc)"
proof -
  obtain k where k: "pc \<le> k" "k < length ss" "definitelyReturns (ss ! k)" "list_ex is_transfer ss \<longrightarrow> Suc k = length ss"
    using assms(1) by (auto simp: leads_def)
  moreover have "k \<noteq> pc" using k(3) assms(2) by blast
  ultimately show ?thesis unfolding leads_def by (intro exI [of _ k]) auto
qed

definition returned :: "interp \<Rightarrow> bool" where
  "returned t \<longleftrightarrow> in_failed t \<or> in_flow t = F_Return"

lemma returned_failed: "in_failed t \<Longrightarrow> returned t" and returned_flow: "in_flow t = F_Return \<Longrightarrow> returned t"
  by (simp_all add: returned_def)

lemma returned_frames [simp]: "returned (t\<lparr>in_frames := fs\<rparr>) = returned t"
  by (simp add: returned_def)

lemma block_loop_returned:
  assumes st: "\<And>st s t. st \<in> set ss \<Longrightarrow> definitelyReturns st \<Longrightarrow> in_flow s = F_Normal \<Longrightarrow>
      accept_stmt h n st s = Some t \<Longrightarrow> returned t"
    and loop: "\<And>pc s t. leads ss pc \<Longrightarrow> in_flow s = F_Normal \<Longrightarrow> block_loop h n ss pc s = Some t \<Longrightarrow> returned t"
    and clean: "F_Break \<notin> (\<Union>st \<in> set ss. signals st)" "F_Continue \<notin> (\<Union>st \<in> set ss. signals st)"
    and run: "leads ss pc" "in_flow s = F_Normal" "block_loop h (Suc n) ss pc s = Some t"
  shows "returned t"
proof (cases "in_failed s")
  case False
  have pc: "pc < length ss" using run(1) by (auto simp: leads_def)
  obtain u where u: "accept_stmt h n (ss ! pc) s = Some u"
    using run(3) pc False run(2) by (auto simp: block_step_def split: bind_splits)
  have sig: "in_failed u \<or> in_flow u = F_Normal \<or> in_flow u \<in> signals (ss ! pc)"
    using all_end [THEN conjunct1, rule_format, OF run(2)] u unfolding ends_def by blast
  show ?thesis
  proof (cases "definitelyReturns (ss ! pc)")
    case True
    then have "returned u" using st u run(2) pc nth_mem by blast
    then show ?thesis using run(3) pc False run(2) u
      by (auto simp: block_step_def returned_def split: if_splits)
  next
    case d: False
    note step = run(3) pc False run(2) u
    show ?thesis
    proof (cases "in_failed u \<or> in_flow u = F_Return")
      case True
      then show ?thesis using step by (auto simp: block_step_def returned_def split: if_splits)
    next
      case go: False
      then consider "in_flow u = F_Normal" | "in_flow u = F_Goto" using sig clean pc nth_mem by (cases "in_flow u") fastforce+
      then show ?thesis
      proof cases
        case 1
        then show ?thesis using step go loop [OF leads_next [OF run(1) d]] by (simp add: block_step_def)
      next
        case 2
        show ?thesis
        proof (cases "label_index ss (in_goto_target u)")
          case None
          then show ?thesis using 2 step go by (auto simp: block_step_def intro: returned_failed)
        next
          case (Some k)
          then show ?thesis using 2 step go loop [OF leads_jump [OF run(1) Some], of "u\<lparr>in_goto_transfers :=
              Suc (in_goto_transfers u), in_flow := F_Normal, in_goto_target := []\<rparr>" t]
            by (auto simp: block_step_def Let_def intro: returned_failed split: if_splits)
        qed
      qed
    qed
  qed
qed (use run in \<open>auto simp: block_step_def returned_def\<close>)

lemma definite_returns:
  "(\<forall>st s t. definitelyReturns st \<and> F_Break \<notin> signals st \<and> F_Continue \<notin> signals st \<and> in_flow s = F_Normal \<and>
     accept_stmt h n st s = Some t \<longrightarrow> returned t) \<and>
   (\<forall>b s t. definitelyReturns_block b \<and> F_Break \<notin> signals_block b \<and> F_Continue \<notin> signals_block b \<and>
     in_flow s = F_Normal \<and> accept_block h n b s = Some t \<longrightarrow> returned t) \<and>
   (\<forall>ss pc s t. leads ss pc \<and> F_Break \<notin> (\<Union>st \<in> set ss. signals st) \<and> F_Continue \<notin> (\<Union>st \<in> set ss. signals st) \<and>
     in_flow s = F_Normal \<and> block_loop h n ss pc s = Some t \<longrightarrow> returned t)"
proof (induction n)
  case (Suc n)
  note IHs = Suc.IH [THEN conjunct1, rule_format]
  note IHb = Suc.IH [THEN conjunct2, THEN conjunct1, rule_format]
  note IHl = Suc.IH [THEN conjunct2, THEN conjunct2, rule_format]
  have stmt: "returned t" if "definitelyReturns st" "F_Break \<notin> signals st" "F_Continue \<notin> signals st"
    "in_flow s = F_Normal" "accept_stmt h (Suc n) st s = Some t" for st s t
  proof (cases st)
    case (S_Block b)
    then show ?thesis using that IHb [of b s t] by simp
  next
    case (S_IfElse c b1 b2)
    then show ?thesis using that IHb [of b1] IHb [of b2]
      by (auto simp: visit_if_else_def returned_failed split: bind_splits if_splits
          dest!: evaluate_flow [OF accept_expr_flow])
  next
    case (S_Return e)
    then show ?thesis using that
      by (auto simp: visit_return_def returned_def split: bind_splits if_splits)
  qed (use that in auto)
  have block: "returned t" if "definitelyReturns_block b" "F_Break \<notin> signals_block b" "F_Continue \<notin> signals_block b"
    "in_flow s = F_Normal" "accept_block h (Suc n) b s = Some t" for b s t
  proof (cases b)
    case (Block l ss)
    have "returned u" if "block_loop h n ss 0 r = Some u" "in_flow r = F_Normal" for r u
      using IHl [of ss 0 r u] that returns_leads \<open>definitelyReturns_block b\<close> \<open>F_Break \<notin> signals_block b\<close>
        \<open>F_Continue \<notin> signals_block b\<close> unfolding Block by auto
    then show ?thesis using that Block by (auto split: if_splits bind_splits)
  qed
  have loop: "returned t" if "leads ss pc" "F_Break \<notin> (\<Union>st \<in> set ss. signals st)" "F_Continue \<notin> (\<Union>st \<in> set ss. signals st)"
    "in_flow s = F_Normal" "block_loop h (Suc n) ss pc s = Some t" for ss pc s t
  proof (rule block_loop_returned [OF _ _ that(2,3,1,4,5)])
    show "returned t" if "st \<in> set ss" "definitelyReturns st" "in_flow s = F_Normal" "accept_stmt h n st s = Some t" for st s t
      using IHs [of st s t] that \<open>F_Break \<notin> (\<Union>st \<in> set ss. signals st)\<close> \<open>F_Continue \<notin> (\<Union>st \<in> set ss. signals st)\<close> by auto
    show "returned t" if "leads ss pc" "in_flow s = F_Normal" "block_loop h n ss pc s = Some t" for pc s t
      using IHl [of ss pc s t] that \<open>F_Break \<notin> (\<Union>st \<in> set ss. signals st)\<close> \<open>F_Continue \<notin> (\<Union>st \<in> set ss. signals st)\<close> by auto
  qed
  show ?case by (intro conjI allI impI; elim conjE) (rule stmt block loop; assumption)+
qed simp


subsection \<open>Gotos of accepted blocks\<close>

fun blocks_of :: "AST_STATEMENT \<Rightarrow> AST_STATEMENT list set" and blocks_of_block :: "AST_BLOCK \<Rightarrow> AST_STATEMENT list set" where
  "blocks_of (S_Block b) = blocks_of_block b"
| "blocks_of (S_If c b) = blocks_of_block b"
| "blocks_of (S_IfElse c b1 b2) = blocks_of_block b1 \<union> blocks_of_block b2"
| "blocks_of (S_For v f st t b) = blocks_of_block b"
| "blocks_of (S_While c b) = blocks_of_block b"
| "blocks_of _ = {}"
| "blocks_of_block (Block l ss) = insert ss (\<Union>st \<in> set ss. blocks_of st)"

definition goto_ok :: "AST_STATEMENT list \<Rightarrow> nat \<Rightarrow> AST_STATEMENT \<Rightarrow> bool" where
  "goto_ok ss i st \<longleftrightarrow> (\<forall>c l. st = S_Goto c l \<longrightarrow>
     (\<exists>j. label_index ss l = Some j \<and> \<not> crosses_declaration ss i j))"

definition gotos_ok :: "AST_STATEMENT list \<Rightarrow> bool" where
  "gotos_ok ss \<longleftrightarrow> (\<forall>i < length ss. goto_ok ss i (ss ! i))"

lemma label_position_index: "label_position ss l = label_index ss l"
  by (induction ss l rule: label_position.induct) auto

lemma label_reports_labels: "snd (label_reports ss ls) = ls \<union> {l. label_index ss l \<noteq> None}"
proof (induction ss ls rule: label_reports.induct)
  case (2 l ss ls)
  then show ?case by (cases "l \<in> ls") (auto split: prod.splits)
qed auto

lemma enter_block_labels:
  "an_block_label_scopes (enter_block l ss s) = {l. label_index ss l \<noteq> None} # an_block_label_scopes s"
  using label_reports_labels [of ss "{}"] by (auto simp: enter_block_def Let_def split: prod.splits)

lemma goto_accepted:
  assumes "\<not> errs (sem_statement st (emit (jump_reports ss i st) s))"
    and "hd (an_block_label_scopes s) = {l. label_index ss l \<noteq> None}" and "an_block_label_scopes s \<noteq> []"
  shows "goto_ok ss i st"
  using assms errs_statement
  by (cases "an_block_label_scopes s")
    (auto simp: goto_ok_def jump_reports_def goto_reports_def label_position_index split: if_splits)

lemma gotos_statement: "\<not> errs (sem_statement st s) \<Longrightarrow> \<forall>bs \<in> blocks_of st. gotos_ok bs"
  and gotos_block: "\<not> errs (sem_block b s) \<Longrightarrow> \<forall>bs \<in> blocks_of_block b. gotos_ok bs"
  and gotos_statements: "\<not> errs (sem_statements all i ss s) \<Longrightarrow> an_block_label_scopes s \<noteq> [] \<Longrightarrow>
     hd (an_block_label_scopes s) = {l. label_index all l \<noteq> None} \<Longrightarrow>
     (\<forall>k < length ss. goto_ok all (i + k) (ss ! k)) \<and> (\<forall>st \<in> set ss. \<forall>bs \<in> blocks_of st. gotos_ok bs)"
proof (induction st s and b s and all i ss s rule: sem_statement_sem_block_sem_statements.induct)
  case (7 c b1 b2 s)
  then show ?case using errs_block by auto
next
  case (25 lexical ss s)
  then have "(\<forall>k < length ss. goto_ok ss k (ss ! k)) \<and> (\<forall>st \<in> set ss. \<forall>bs \<in> blocks_of st. gotos_ok bs)"
    by (simp add: enter_block_labels)
  then show ?case by (auto simp: gotos_ok_def)
next
  case (27 all i st sts s)
  let ?s = "emit (jump_reports all i st) s"
  have ok: "\<not> errs (sem_statement st ?s)" using 27 errs_statements by auto
  have "an_block_label_scopes (sem_statement st ?s) = an_block_label_scopes s"
    using context_statement [of ?s st] by (simp add: context_kept_def)
  then have rest: "\<forall>k < length sts. goto_ok all (i + 1 + k) (sts ! k)" "\<forall>st \<in> set sts. \<forall>bs \<in> blocks_of st. gotos_ok bs"
    using 27 by simp_all
  have "goto_ok all i st" using goto_accepted ok 27 by simp
  then have "\<forall>k < Suc (length sts). goto_ok all (i + k) ((st # sts) ! k)"
    using rest(1) by (auto simp: less_Suc_eq_0_disj)
  then show ?case using rest(2) 27(1) [OF ok] by auto
qed (auto simp: deeper_def shallower_def)

subsection \<open>Accepted functions and programs\<close>

lemma accepted_function_block:
  assumes "\<not> errs (sem_function f s)"
  shows "F_Break \<notin> signals_block (fn_block f)" "F_Continue \<notin> signals_block (fn_block f)"
    "fn_type f \<noteq> T_Void \<Longrightarrow> definitelyReturns_block (fn_block f)"
    "\<forall>bs \<in> blocks_of_block (fn_block f). gotos_ok bs"
proof -
  have ok: "\<not> errs (sem_block (fn_block f) (enter_function_scope f s))"
    using assms by (auto simp: sem_function_def Let_def)
  have "an_loopDepth (enter_function_scope f s) = 0" by (simp add: enter_function_scope_def Let_def)
  then show "F_Break \<notin> signals_block (fn_block f)" "F_Continue \<notin> signals_block (fn_block f)"
    using allowed_block [OF ok] by (simp_all add: signals_allowed_def)
  show "fn_type f \<noteq> T_Void \<Longrightarrow> definitelyReturns_block (fn_block f)"
    using assms by (auto simp: sem_function_def Let_def)
  show "\<forall>bs \<in> blocks_of_block (fn_block f). gotos_ok bs" by (rule gotos_block [OF ok])
qed

lemma function_context:
  "(errs s \<longrightarrow> errs (sem_function f s)) \<and> an_loopDepth (sem_function f s) = an_loopDepth s \<and>
   an_return_types (sem_function f s) = an_return_types s"
proof -
  have "context_kept (enter_function_scope f s) (sem_block (fn_block f) (enter_function_scope f s))"
    by (rule context_block)
  moreover have "context_kept s (sem_declarations (fn_parameters f) s)" by (rule context_declarations)
  ultimately show ?thesis
    by (auto simp: context_kept_def sem_function_def enter_function_scope_def Let_def)
qed

lemma functions_context:
  "(errs s \<longrightarrow> errs (fold sem_function fs s)) \<and> an_loopDepth (fold sem_function fs s) = an_loopDepth s \<and>
   an_return_types (fold sem_function fs s) = an_return_types s"
  using function_context by (induction fs arbitrary: s) auto

lemma functions_accepted: "\<not> errs (fold sem_function fs s) \<Longrightarrow> f \<in> set fs \<Longrightarrow> \<exists>s'. \<not> errs (sem_function f s')"
  using functions_context by (induction fs arbitrary: s) auto

lemma register_context:
  "an_loopDepth (register_functions fs ns s) = an_loopDepth s \<and> an_return_types (register_functions fs ns s) = an_return_types s"
  by (induction fs ns s rule: register_functions.induct) (simp_all add: Let_def)

lemma accepted_program:
  assumes "accepts_program p (setImportedFunctions sigs allow SemanticAnalyzer_init)"
  shows "f \<in> set (pg_functions p) \<Longrightarrow> \<exists>s. \<not> errs (sem_function f s)"
    "\<exists>s. \<not> errs (sem_block (pg_code_block p) s) \<and> an_loopDepth s = 0 \<and> an_return_types s = []"
proof -
  define a where "a = sem_declarations (pg_decl_block p) (load_globals p (setImportedFunctions sigs allow SemanticAnalyzer_init))"
  define b where "b = fold sem_function (pg_functions p) (register_functions (pg_functions p) {} a)"
  have "an_loopDepth a = 0" "an_return_types a = []"
    using context_declarations [of "load_globals p (setImportedFunctions sigs allow SemanticAnalyzer_init)" "pg_decl_block p"]
    by (simp_all add: a_def context_kept_def load_globals_def setImportedFunctions_def SemanticAnalyzer_init_def)
  then have ctx: "an_loopDepth b = 0" "an_return_types b = []"
    using functions_context register_context by (simp_all add: b_def)
  have "\<not> errs (sem_logic_block (pg_code_block p) b)"
    using assms by (simp add: accepts_program_def sem_program_def sem_functions_def Let_def a_def b_def errs_def [symmetric])
  then have ok: "\<not> errs (sem_block (pg_code_block p) (b\<lparr>an_local_scopes := Map.empty # an_local_scopes b\<rparr>))"
    by (simp add: sem_logic_block_def Let_def)
  then have "\<not> errs b" using errs_block by auto
  then show "f \<in> set (pg_functions p) \<Longrightarrow> \<exists>s. \<not> errs (sem_function f s)"
    unfolding b_def by (rule functions_accepted)
  show "\<exists>s. \<not> errs (sem_block (pg_code_block p) s) \<and> an_loopDepth s = 0 \<and> an_return_types s = []"
    using ok ctx by (intro exI [of _ "b\<lparr>an_local_scopes := Map.empty # an_local_scopes b\<rparr>"]) simp
qed


lemma accepted_function_quiet:
  assumes "\<not> errs (sem_function f a)" and "accept_block h n (fn_block f) (enter_function f src fr s) = Some t"
    and "\<not> in_failed t"
  shows "check_function_end f name t = t \<and> (fn_type f \<noteq> T_Void \<longrightarrow> in_flow t = F_Return)"
proof -
  have normal: "in_flow (enter_function f src fr s) = F_Normal" by (simp add: enter_function_def)
  have "in_flow t = F_Normal \<or> in_flow t \<in> signals_block (fn_block f)"
    using all_end [THEN conjunct2, THEN conjunct1, rule_format, OF normal] assms(2,3) unfolding ends_def by blast
  then have quiet: "in_flow t = F_Normal \<or> in_flow t = F_Return"
    using accepted_function_block [OF assms(1)] no_goto_signal by (cases "in_flow t") auto
  have "in_flow t = F_Return" if "fn_type f \<noteq> T_Void"
    using definite_returns [THEN conjunct2, THEN conjunct1, rule_format, of "fn_block f"]
      accepted_function_block [OF assms(1)] that normal assms(2,3) unfolding returned_def by blast
  then show ?thesis using quiet assms(3) by (auto simp: check_function_end_def Let_def)
qed

text \<open>
  C6: In a program the analyzer accepts, the checks the interpreter makes when a call ends
  never fail. However the body of a function runs, if it ends without a failure then no
  break, continue or goto is pending, a non-void function has executed a return, and the
  final check of the call leaves the state as it is.
\<close>

theorem accepted_function_ends:
  assumes "accepts_program p (setImportedFunctions sigs allow SemanticAnalyzer_init)" and "f \<in> set (pg_functions p)"
    and "accept_block h n (fn_block f) (enter_function f src fr s) = Some t" and "\<not> in_failed t"
  shows "check_function_end f name t = t \<and> (fn_type f \<noteq> T_Void \<longrightarrow> in_flow t = F_Return)"
  using accepted_program(1) [OF assms(1,2)] accepted_function_quiet assms(3,4) by blast

definition demo_function :: AST_FUNCTION where
  "demo_function = \<lparr>fn_name = ''one'', fn_type = T_Int, fn_parameters = empty_decl_block,
     fn_block = Block False [S_If (E_Bool True) (Block True [S_Return (Some (E_Literal 2))]), S_Return (Some (E_Literal 1))]\<rparr>"

definition demo_calls :: AST_PROGRAM where
  "demo_calls = \<lparr>pg_decl_block = decl_push_scalar ''x'' empty_decl_block, pg_functions = [demo_function],
     pg_code_block = Block False [S_Label ''top'', S_Assign (V_Simple ''x'') (E_Call ''one'' []),
       S_Goto (Some (E_Bool False)) ''top'']\<rparr>"

lemmas analysis_simps = sem_program_def sem_functions_def load_globals_def
  setImportedFunctions_def SemanticAnalyzer_init_def sem_declarations_def sem_function_def sem_logic_block_def
  enter_function_scope_def parameter_scope_def declared_def declareInCurrentScope_def
  empty_decl_block_def decl_push_scalar_def globalNames_def executable_report_def isExecutableScalarType_def
  duplicate_report_def descriptor_report_def validate_def isScalar_def td_scalar_def default_descriptor_def
  enter_block_def leave_block_def jump_reports_def crosses_declaration_def goto_reports_def
  requireConditionType_def assignment_reports_def lookupType_def validateCall_def arity_of_def
  parameter_types_of_def return_reports_def report_if_def validateC3EcoProfiles_def hasErrors_def dg_add_def
  no_diagnostics_def Let_def

lemma demo_calls_accepted: "accepts_program demo_calls (setImportedFunctions Map.empty True SemanticAnalyzer_init)"
  by (simp add: accepts_program_def demo_calls_def demo_function_def analysis_simps)

theorem accepted_function_ends_witness:
  "\<exists>t. accept_block no_ai 9 (fn_block demo_function)
      (enter_function demo_function ''m'' empty_frame (Interpreter_init ''m'' [])) = Some t \<and> in_flow t = F_Return"
proof -
  have "\<exists>t. accept_block no_ai 9 (fn_block demo_function)
      (enter_function demo_function ''m'' empty_frame (Interpreter_init ''m'' [])) = Some t \<and> \<not> in_failed t"
    by (simp add: demo_function_def enter_function_def visit_if_def visit_return_def truthy_def run_simps)
  moreover have "demo_function \<in> set (pg_functions demo_calls)" "fn_type demo_function \<noteq> T_Void"
    by (simp_all add: demo_calls_def demo_function_def)
  ultimately show ?thesis
    using accepted_function_ends [OF demo_calls_accepted] by blast
qed

lemma accepted_code_quiet:
  assumes "\<not> errs (sem_block b a)" and "an_loopDepth a = 0" and "an_return_types a = []"
    and "accept_block h n b s = Some t" and "in_flow s = F_Normal"
  shows "in_failed t \<or> in_flow t = F_Normal"
proof -
  have "signals_block b \<subseteq> {F_Normal}"
    using allowed_block [OF assms(1)] assms(2,3) no_goto_signal [of b]
    by (auto simp: signals_allowed_def) (metis FlowSignal.exhaust)
  then show ?thesis
    using all_end [THEN conjunct2, THEN conjunct1, rule_format, OF assms(5)] assms(4) unfolding ends_def by blast
qed

text \<open>
  C16: In a program the analyzer accepts, no control-flow signal escapes the main code: however
  it runs from normal flow, if it ends without a failure the flow is normal again. So the
  interpreter's last check, for a signal that escaped the program, never reports.
\<close>

theorem accepted_program_ends_normally:
  assumes "accepts_program p (setImportedFunctions sigs allow SemanticAnalyzer_init)"
    and "accept_block h n (pg_code_block p) s = Some t" and "in_flow s = F_Normal"
  shows "in_failed t \<or> in_flow t = F_Normal"
  using accepted_program(2) [OF assms(1)] accepted_code_quiet assms(2,3) by blast

theorem accepted_program_ends_normally_witness:
  "\<exists>t. accept_block no_ai 9 (Block False [S_Print [P_Expr (E_Literal 5)]]) (Interpreter_init ''m'' []) = Some t \<and>
     (in_failed t \<or> in_flow t = F_Normal)"
proof -
  let ?p = "demo_program [] [S_Print [P_Expr (E_Literal 5)]]"
  have "accepts_program ?p (setImportedFunctions Map.empty True SemanticAnalyzer_init)"
    by (simp add: accepts_program_def demo_program_def demo_decls_def analysis_simps)
  moreover have "\<exists>t. accept_block no_ai 9 (pg_code_block ?p) (Interpreter_init ''m'' []) = Some t"
    by (simp add: run_simps print_def printed_def)
  ultimately show ?thesis
    using accepted_program_ends_normally [of ?p Map.empty True no_ai 9 "Interpreter_init ''m'' []"]
    by (auto simp: demo_program_def Interpreter_init_def)
qed

text \<open>
  C19: In every block of a program the analyzer accepts, at any depth, each goto has its label
  among the statements of the same block, and no declaration lies between the goto and the
  label; so the interpreter's jump finds the label and neither skips nor repeats a declaration.
\<close>

theorem accepted_gotos_resolve:
  assumes "accepts_program p (setImportedFunctions sigs allow SemanticAnalyzer_init)"
    and "ss \<in> blocks_of_block (pg_code_block p) \<or> (\<exists>f \<in> set (pg_functions p). ss \<in> blocks_of_block (fn_block f))"
    and "i < length ss" and "ss ! i = S_Goto c l"
  shows "\<exists>j. label_index ss l = Some j \<and> ss ! j = S_Label l \<and>
    (\<forall>k. min i j < k \<and> k < max i j \<longrightarrow> \<not> is_declaration (ss ! k))"
proof -
  have "gotos_ok ss"
    using assms(2) accepted_program [OF assms(1)] gotos_block accepted_function_block(4) by blast
  then obtain j where j: "label_index ss l = Some j" "\<not> crosses_declaration ss i j"
    using assms(3,4) unfolding gotos_ok_def goto_ok_def by blast
  have lab: "ss ! j = S_Label l \<and> j < length ss"
    using j(1) by (induction ss l arbitrary: j rule: label_index.induct) (auto split: if_splits)
  have "\<not> is_declaration (ss ! k)" if "min i j < k" "k < max i j" for k
  proof -
    have "ss ! k \<in> set (drop (min i j + 1) (take (max i j) ss))"
      using that lab assms(3) by (auto simp: in_set_conv_nth intro!: exI [of _ "k - (min i j + 1)"])
    then show ?thesis using j(2) by (auto simp: crosses_declaration_def list_ex_iff)
  qed
  then show ?thesis using j(1) lab by blast
qed

theorem accepted_gotos_resolve_witness:
  "\<exists>j. label_index [S_Label ''top'', S_Assign (V_Simple ''x'') (E_Call ''one'' []), S_Goto (Some (E_Bool False)) ''top''] ''top'' = Some j"
proof -
  let ?ss = "[S_Label ''top'', S_Assign (V_Simple ''x'') (E_Call ''one'' []), S_Goto (Some (E_Bool False)) ''top'']"
  have "?ss \<in> blocks_of_block (pg_code_block demo_calls)" by (simp add: demo_calls_def)
  then show ?thesis using accepted_gotos_resolve [OF demo_calls_accepted, of ?ss 2 "Some (E_Bool False)" "''top''"] by auto
qed

end
