(* ===== verification/Soundness.thy ===== *)
theory Soundness
  imports AnalyzerFlow
begin

section \<open>Accepted programs are type safe\<close>

text \<open>
  The analyzer checks names and types against lexical scopes; the interpreter resolves names
  at run time through the stack of frames, which also holds the frames of the callers. For a
  program in which no parameter and no local declaration has the name of a global, both
  resolve names alike, and an accepted program never reports an undeclared name, a type
  mismatch, a wrong arity or an escaped control-flow signal. Without that condition it can;
  the last theorem of this theory is an example.
\<close>

subsection \<open>Scopes and frames\<close>

definition global_scope :: "analyzer \<Rightarrow> string \<rightharpoonup> VariableInfo" where
  "global_scope a n = (case an_global_types a n of
       Some ty \<Rightarrow> Some \<lparr>vi_type = ty, vi_is_array = False\<rparr>
     | None \<Rightarrow> map_option (\<lambda>ty. \<lparr>vi_type = ty, vi_is_array = True\<rparr>) (an_global_array_types a n))"

definition frame_matches :: "(string \<rightharpoonup> VariableInfo) \<Rightarrow> Frame \<Rightarrow> bool" where
  "frame_matches sc f \<longleftrightarrow> (\<forall>n. case sc n of
       None \<Rightarrow> scalar_types f n = None \<and> array_types f n = None
     | Some v \<Rightarrow> if vi_is_array v then (\<exists>ts. array_types f n = Some ts \<and> set ts \<subseteq> {vi_type v})
         else scalar_types f n = Some (vi_type v))"

lemma frame_matches_None:
  "frame_matches sc f \<Longrightarrow> sc n = None \<Longrightarrow> scalar_types f n = None \<and> array_types f n = None"
  unfolding frame_matches_def by (drule spec [of _ n]) simp

lemma frame_matches_Some:
  "frame_matches sc f \<Longrightarrow> sc n = Some v \<Longrightarrow>
   if vi_is_array v then (\<exists>ts. array_types f n = Some ts \<and> set ts \<subseteq> {vi_type v})
   else scalar_types f n = Some (vi_type v)"
  unfolding frame_matches_def by (drule spec [of _ n]) simp

definition hides_nothing :: "(string \<rightharpoonup> VariableInfo) \<Rightarrow> Frame \<Rightarrow> bool" where
  "hides_nothing g f \<longleftrightarrow> (\<forall>n \<in> dom g. scalar_types f n = None \<and> array_types f n = None)"

text \<open>
  The frames are those of the local scopes, then those of the callers, which hide no global,
  then the global frame. The scope that the analyzer opens for the main code, outside every
  function, has no frame.
\<close>

definition unframed :: "analyzer \<Rightarrow> (string \<rightharpoonup> VariableInfo) list" where
  "unframed a = (if an_return_types a = [] then [Map.empty] else [])"

definition env_ok :: "analyzer \<Rightarrow> Frame list \<Rightarrow> bool" where
  "env_ok a fs \<longleftrightarrow> (\<exists>scs lf mid gf. fs = lf @ mid @ [gf] \<and>
     an_local_scopes a = scs @ unframed a \<and> list_all2 frame_matches scs lf \<and>
     list_all (hides_nothing (global_scope a)) mid \<and> frame_matches (global_scope a) gf)"

lemma lookupType_scopes:
  "lookupType n a = map_option (\<lambda>v. (vi_type v, vi_is_array v)) (lookup_scopes (an_local_scopes a @ [global_scope a]) n)"
proof -
  have "lookup_scopes (scs @ [g]) n = (case lookup_scopes scs n of Some v \<Rightarrow> Some v | None \<Rightarrow> g n)" for scs g
    by (induction scs) (auto split: option.splits)
  then show ?thesis
    by (auto simp: lookupType_def global_scope_def option.map_comp comp_def split: option.splits)
qed

lemma lookup_blank: "lookup_scopes (scs @ [Map.empty, g]) n = lookup_scopes (scs @ [g]) n"
  by (induction scs) (auto split: option.splits)

definition read_type :: "Frame list \<Rightarrow> string \<Rightarrow> ShortType option" where
  "read_type fs n = map_option rv_type (readScalar fs n)"

lemma read_type_simps [simp]:
  "read_type [] n = None"
  "read_type (f # fs) n = (case scalar_types f n of Some ty \<Rightarrow> Some ty | None \<Rightarrow> read_type fs n)"
  by (auto simp: read_type_def scalar_types_def split: option.split)

lemma hidesD: "hides_nothing g f \<Longrightarrow> g n = Some v \<Longrightarrow> scalar_types f n = None \<and> array_types f n = None"
  by (auto simp: hides_nothing_def)

fun array_of :: "Frame list \<Rightarrow> string \<Rightarrow> ShortType list option" where
  "array_of [] n = None"
| "array_of (f # fs) n = (case array_types f n of Some ts \<Rightarrow> Some ts | None \<Rightarrow> array_of fs n)"

lemma readArray_array_of:
  "readArray fs n i = Some v \<Longrightarrow> \<exists>ts. array_of fs n = Some ts \<and> rv_type v \<in> set ts"
  by (induction fs) (auto simp: array_types_def in_bounds_def split: option.splits if_splits)

lemma lookup_match:
  assumes "list_all2 frame_matches scs lf" and "list_all (hides_nothing g) mid" and "frame_matches g gf"
    and "lookup_scopes (scs @ [g]) n = Some v"
  shows "if vi_is_array v then (\<exists>ts. array_of (lf @ mid @ [gf]) n = Some ts \<and> set ts \<subseteq> {vi_type v})
    else read_type (lf @ mid @ [gf]) n = Some (vi_type v)"
  using assms(1,4)
proof (induction scs lf rule: list_all2_induct)
  case Nil
  then have g: "g n = Some v" by (auto split: option.splits)
  then have "array_of (mid @ [gf]) n = array_types gf n \<and> read_type (mid @ [gf]) n = scalar_types gf n"
    using assms(2)
    by (induction mid) (auto dest!: hidesD [of g _ n v] split: option.splits)
  moreover have "if vi_is_array v then \<exists>ts. array_types gf n = Some ts \<and> set ts \<subseteq> {vi_type v}
      else scalar_types gf n = Some (vi_type v)"
    by (rule frame_matches_Some [OF assms(3) g])
  ultimately show ?case by simp
next
  case (Cons sc scs f fs)
  show ?case
  proof (cases "sc n")
    case None
    then show ?thesis using Cons frame_matches_None [OF Cons(1) None] by simp
  next
    case (Some w)
    then show ?thesis using Cons(4) frame_matches_Some [OF Cons(1) Some] by auto
  qed
qed

text \<open>What the analyzer finds under a name is what the frames hold under it.\<close>

lemma env_lookup:
  assumes "env_ok a fs" and "lookupType n a = Some (ty, arr)"
  shows "if arr then (\<exists>ts. array_of fs n = Some ts \<and> set ts \<subseteq> {ty}) else read_type fs n = Some ty"
proof -
  obtain scs lf mid gf where e: "fs = lf @ mid @ [gf]"
    "an_local_scopes a = scs @ unframed a" "list_all2 frame_matches scs lf"
    "list_all (hides_nothing (global_scope a)) mid" "frame_matches (global_scope a) gf"
    using assms(1) by (auto simp: env_ok_def)
  obtain v where v: "lookup_scopes (an_local_scopes a @ [global_scope a]) n = Some v" "ty = vi_type v" "arr = vi_is_array v"
    using assms(2) by (auto simp: lookupType_scopes)
  then have "lookup_scopes (scs @ [global_scope a]) n = Some v"
    using e(2) lookup_blank [of scs "global_scope a" n] by (auto simp: unframed_def split: if_splits)
  then show ?thesis using lookup_match [OF e(3,4,5)] v(2,3) unfolding e(1) by blast
qed


subsection \<open>Only the shape of the frames matters\<close>

lemma shape_types: "frame_shape f = frame_shape g \<Longrightarrow> scalar_types f = scalar_types g \<and> array_types f = array_types g"
  by (simp add: frame_shape_def)

lemma frame_matches_shape: "frame_shape f = frame_shape g \<Longrightarrow> frame_matches sc f = frame_matches sc g"
  by (drule shape_types) (simp add: frame_matches_def cong: option.case_cong)

lemma hides_nothing_shape: "frame_shape f = frame_shape g \<Longrightarrow> hides_nothing sc f = hides_nothing sc g"
  by (auto simp: hides_nothing_def dest!: shape_types)

lemma list_all2_shape:
  "map frame_shape fs = map frame_shape gs \<Longrightarrow> list_all2 frame_matches scs fs = list_all2 frame_matches scs gs"
proof (induction fs arbitrary: gs scs)
  case (Cons f fs)
  then obtain g gs' where g: "gs = g # gs'" "frame_shape f = frame_shape g" "map frame_shape fs = map frame_shape gs'"
    by (cases gs) auto
  then show ?case using Cons.IH by (cases scs) (auto simp: frame_matches_shape [OF g(2)])
qed simp

lemma list_all_shape:
  "map frame_shape fs = map frame_shape gs \<Longrightarrow> list_all (hides_nothing sc) fs = list_all (hides_nothing sc) gs"
proof (induction fs arbitrary: gs)
  case (Cons f fs)
  then obtain g gs' where g: "gs = g # gs'" "frame_shape f = frame_shape g" "map frame_shape fs = map frame_shape gs'"
    by (cases gs) auto
  then show ?case using Cons.IH by (auto simp: hides_nothing_shape [OF g(2)])
qed simp

lemma env_ok_shape:
  assumes "env_ok a fs" and "map frame_shape gs = map frame_shape fs"
  shows "env_ok a gs"
proof -
  obtain scs lf mid gf where e: "fs = lf @ mid @ [gf]"
    "an_local_scopes a = scs @ unframed a" "list_all2 frame_matches scs lf"
    "list_all (hides_nothing (global_scope a)) mid" "frame_matches (global_scope a) gf"
    using assms(1) by (auto simp: env_ok_def)
  obtain lf' mid' gf' where g: "gs = lf' @ mid' @ [gf']" "map frame_shape lf' = map frame_shape lf"
    "map frame_shape mid' = map frame_shape mid" "frame_shape gf' = frame_shape gf"
    using assms(2) unfolding e(1) by (auto simp: map_eq_append_conv map_eq_Cons_conv append_eq_map_conv Cons_eq_map_conv)
  show ?thesis unfolding env_ok_def g(1)
    using e(2-5) list_all2_shape [OF g(2)] list_all_shape [OF g(3)] frame_matches_shape [OF g(4)] by blast
qed

lemma env_ok_nonempty: "env_ok a fs \<Longrightarrow> fs \<noteq> []"
  by (auto simp: env_ok_def)

definition shape_kept :: "visitor \<Rightarrow> bool" where
  "shape_kept f \<longleftrightarrow> (\<forall>s t. f s = Some t \<longrightarrow> map frame_shape (in_frames t) = map frame_shape (in_frames s))"

lemma frames_updates [simp]:
  "in_frames (set_value v s) = in_frames s" "in_frames (print xs s) = in_frames s" "in_frames (line x s) = in_frames s"
  by (simp_all add: set_value_def print_def line_def)

lemma evaluate_shape:
  "shape_kept (ev e) \<Longrightarrow> evaluate ev e s = Some (v, t) \<Longrightarrow> map frame_shape (in_frames t) = map frame_shape (in_frames s)"
  by (auto simp: shape_kept_def evaluate_def split: bind_splits)

lemma evaluate_arguments_shape:
  assumes ev: "\<And>e. shape_kept (ev e)"
  shows "evaluate_arguments ev es vs s = Some (ws, t) \<Longrightarrow> map frame_shape (in_frames t) = map frame_shape (in_frames s)"
  by (induction es arbitrary: vs s) (auto split: bind_splits if_splits dest!: evaluate_shape [OF ev])

lemma check_function_end_frames [simp]: "in_frames (check_function_end f n s) = in_frames s"
  by (simp add: check_function_end_def Let_def)

lemma invokeFunction_shape:
  assumes bl: "\<And>b s t. bl b s = Some t \<Longrightarrow> store_grows s t"
    and "invokeFunction bl name args s = Some (ok, r, t)"
  shows "map frame_shape (in_frames t) = map frame_shape (in_frames s)"
  using assms(2)
  by (auto simp: invokeFunction_def Let_def leave_function_def enter_function_def store_grows_def
      split: option.splits if_splits bind_splits dest!: bl)

lemma visit_variable_shape: "(\<And>e. shape_kept (ev e)) \<Longrightarrow> shape_kept (visit_variable ev v)"
  unfolding shape_kept_def
  by (cases v) (auto simp: visit_simple_variable_def visit_array_variable_def Let_def
      split: option.splits bind_splits if_splits dest!: evaluate_shape [unfolded shape_kept_def, rotated])

lemma binary_frames [simp]:
  "in_frames (binary_float op x y s) = in_frames s" "in_frames (binary_string op a b s) = in_frames s"
  "in_frames (binary_int op l r s) = in_frames s"
  by (auto simp: binary_float_def binary_string_def binary_int_def split: binop.split option.split)

lemma visit_call_shape:
  assumes ev: "\<And>e. shape_kept (ev e)" and bl: "\<And>b s t. bl b s = Some t \<Longrightarrow> store_grows s t"
  shows "shape_kept (visit_call ev bl f args)"
  unfolding shape_kept_def
proof (intro allI impI)
  fix s t
  assume "visit_call ev bl f args s = Some t"
  then show "map frame_shape (in_frames t) = map frame_shape (in_frames s)"
    using invokeFunction_shape [OF bl]
    by (fastforce simp: visit_call_def split: bind_splits if_splits dest!: evaluate_arguments_shape [OF ev])
qed

lemma visit_expression_shape:
  assumes ev: "\<And>e. shape_kept (ev e)" and bl: "\<And>b s t. bl b s = Some t \<Longrightarrow> store_grows s t"
  shows "shape_kept (visit_expression ev bl e)"
proof (cases e)
  case (E_Var v)
  then show ?thesis using visit_variable_shape [where v = v, OF ev] by (simp add: shape_kept_def)
next
  case (E_Call f args)
  then show ?thesis using visit_call_shape [where f = f and args = args, OF ev bl] by (simp add: shape_kept_def)
qed (auto simp: shape_kept_def visit_binary_def visit_unary_def Let_def
    split: bind_splits if_splits dest!: evaluate_shape [OF ev])

lemma accept_expr_shape: "shape_kept (accept_expr h n e)"
proof (induction n arbitrary: e)
  case (Suc n)
  then show ?case using store.block_related by (auto intro: visit_expression_shape)
qed (simp add: shape_kept_def)

subsection \<open>Which reports a run may make\<close>

text \<open>
  Arithmetic, bounds, loop steps, exhausted budgets and unreadable input are reports a correct
  program can run into; so is a unary operator other than minus, which the analyzer does not
  look at and the parser never builds. All others say that the analyzer let something through.
\<close>

definition permitted :: "string \<Rightarrow> string \<Rightarrow> bool" where
  "permitted code text \<longleftrightarrow> code \<in> {''SHD7001'', ''SHD7002'', ''SHD7003''} \<or> code = ''SHD7004'' \<and>
     text \<in> {''maximum deterministic function call depth exceeded'', ''maximum deterministic goto transfer budget exceeded'',
       ''read failed to parse typed input'', ''unsupported unary operator reached runtime''}"

text \<open>
  The first report of a run decides: once a run has failed, the calls it unwinds may report
  more. A trapped run has no meaning after the trap.
\<close>

definition clean :: "interp \<Rightarrow> bool" where
  "clean s \<longleftrightarrow> in_trapped s \<or> (if in_errors s = [] then \<not> in_failed s
     else permitted (fst (snd (hd (in_errors s)))) (snd (snd (hd (in_errors s)))))"

lemma clean_updates [simp]:
  "clean (set_value v s) = clean s" "clean (print xs s) = clean s" "clean (line x s) = clean s" "clean (trap s)"
  "clean (s\<lparr>in_frames := fs\<rparr>) = clean s" "clean (s\<lparr>in_current_value := w\<rparr>) = clean s" "clean (s\<lparr>in_str := n\<rparr>) = clean s"
  "clean (s\<lparr>in_num := i\<rparr>) = clean s" "clean (s\<lparr>in_flow := fl\<rparr>) = clean s" "clean (s\<lparr>in_goto_target := n\<rparr>) = clean s"
  "clean (s\<lparr>in_return_value := w\<rparr>) = clean s" "clean (s\<lparr>in_stdin := ins\<rparr>) = clean s"
  "clean (s\<lparr>in_goto_transfers := k\<rparr>) = clean s" "clean (leave_function s t) = clean t" "clean (enter_function f src fr s) = clean s"
  "clean (s\<lparr>in_aiModels := mm\<rparr>) = clean s" "clean (s\<lparr>in_aiTensors := tt\<rparr>) = clean s"
  by (simp_all add: clean_def set_value_def print_def line_def trap_def leave_function_def enter_function_def)

lemma clean_report [simp]: "clean s \<Longrightarrow> in_failed s \<or> permitted c m \<Longrightarrow> clean (runtimeError c m s)"
  by (cases "in_errors s") (auto simp: clean_def runtimeError_def)

lemma permitted_simps [simp]:
  "permitted ''SHD7001'' m" "permitted ''SHD7002'' m" "permitted ''SHD7003'' m"
  "permitted ''SHD7004'' ''maximum deterministic function call depth exceeded''"
  "permitted ''SHD7004'' ''maximum deterministic goto transfer budget exceeded''"
  "permitted ''SHD7004'' ''read failed to parse typed input''"
  "permitted ''SHD7004'' ''unsupported unary operator reached runtime''"
  by (simp_all add: permitted_def)

subsection \<open>Declarations that shadow no global\<close>

fun declares :: "AST_STATEMENT \<Rightarrow> string set" and declares_block :: "AST_BLOCK \<Rightarrow> string set" where
  "declares (S_Decl b) = fst ` set (declared b)"
| "declares (S_Block b) = declares_block b"
| "declares (S_If c b) = declares_block b"
| "declares (S_IfElse c b1 b2) = declares_block b1 \<union> declares_block b2"
| "declares (S_For v f st t b) = declares_block b"
| "declares (S_While c b) = declares_block b"
| "declares _ = {}"
| "declares_block (Block l ss) = (\<Union>st \<in> set ss. declares st)"

text \<open>The grammar makes every nested block a lexical one.\<close>

fun nested_lexical :: "AST_STATEMENT \<Rightarrow> bool" and braced :: "AST_BLOCK \<Rightarrow> bool" where
  "nested_lexical (S_Block b) = braced b"
| "nested_lexical (S_If c b) = braced b"
| "nested_lexical (S_IfElse c b1 b2) = (braced b1 \<and> braced b2)"
| "nested_lexical (S_For v f st t b) = braced b"
| "nested_lexical (S_While c b) = braced b"
| "nested_lexical _ = True"
| "braced (Block l ss) = (l \<and> (\<forall>st \<in> set ss. nested_lexical st))"

text \<open>The two parallel views of a declaration block that \<open>push_back\<close> builds.\<close>

definition decl_wf :: "AST_DATA_DECLARATION_BLOCK \<Rightarrow> bool" where
  "decl_wf b \<longleftrightarrow> db_single_ints b = map sd_name (db_typed_scalars b) \<and>
     map fst (db_array_ints b) = map ad_name (db_typed_arrays b)"

lemma decl_wf_built:
  "decl_wf empty_decl_block" "decl_wf b \<Longrightarrow> decl_wf (decl_push_scalar n b)" "decl_wf b \<Longrightarrow> decl_wf (decl_push_array n k b)"
  "decl_wf b \<Longrightarrow> decl_wf c \<Longrightarrow> decl_wf (decl_push_block c b)" "decl_wf b \<Longrightarrow> decl_wf (decl_setType ty b)"
  by (simp_all add: decl_wf_def empty_decl_block_def decl_push_scalar_def decl_push_array_def decl_push_block_def
      decl_setType_def comp_def)

subsection \<open>Functions and states\<close>

text \<open>Two analyzer states that know the same globals and functions.\<close>

definition same_signatures :: "analyzer \<Rightarrow> analyzer \<Rightarrow> bool" where
  "same_signatures a b \<longleftrightarrow> an_global_types b = an_global_types a \<and>
     an_global_array_types b = an_global_array_types a \<and> an_function_arity b = an_function_arity a \<and>
     an_function_return_types b = an_function_return_types a \<and>
     an_function_parameter_types b = an_function_parameter_types a"

lemma same_signatures_trans: "same_signatures a b \<Longrightarrow> same_signatures b c \<Longrightarrow> same_signatures a c"
  by (simp add: same_signatures_def)

lemma context_signatures: "context_kept a b \<Longrightarrow> same_signatures a b"
  by (simp add: context_kept_def same_signatures_def)

lemma same_global_scope: "same_signatures a b \<Longrightarrow> global_scope b = global_scope a"
  by (auto simp: same_signatures_def global_scope_def fun_eq_iff split: option.splits)

text \<open>What calls rely on: every known function is registered, and was accepted with its signature.\<close>

definition function_ok :: "analyzer \<Rightarrow> AST_FUNCTION \<Rightarrow> bool" where
  "function_ok a f \<longleftrightarrow> an_function_arity a (fn_name f) = Some (arity_of f) \<and>
     an_function_return_types a (fn_name f) = Some (fn_type f) \<and>
     an_function_parameter_types a (fn_name f) = Some (parameter_types_of f) \<and> decl_wf (fn_parameters f) \<and>
     (\<exists>ss. fn_block f = Block False ss \<and> (\<forall>st \<in> set ss. nested_lexical st)) \<and>
     (fst ` set (declared (fn_parameters f)) \<union> declares_block (fn_block f)) \<inter> dom (global_scope a) = {} \<and>
     (\<exists>b. same_signatures a b \<and> an_local_scopes b = [] \<and> \<not> errs (sem_function f b))"

definition registry_ok :: "analyzer \<Rightarrow> (string \<rightharpoonup> AST_FUNCTION \<times> string) \<Rightarrow> bool" where
  "registry_ok a F \<longleftrightarrow> (\<forall>name f src. F name = Some (f, src) \<longrightarrow> fn_name f = name \<and> function_ok a f) \<and>
     (\<forall>name. an_function_arity a name \<noteq> None \<longrightarrow> F name \<noteq> None)"

lemma registry_ok_same:
  assumes "same_signatures a b"
  shows "registry_ok b F = registry_ok a F"
proof -
  have e: "an_function_arity b = an_function_arity a" "an_function_return_types b = an_function_return_types a"
    "an_function_parameter_types b = an_function_parameter_types a" "same_signatures b = same_signatures a"
    using assms by (auto simp: same_signatures_def fun_eq_iff)
  show ?thesis unfolding registry_ok_def function_ok_def e same_global_scope [OF assms] ..
qed

text \<open>Scopes hide no global and hold no variable of type void.\<close>

definition scopes_ok :: "analyzer \<Rightarrow> bool" where
  "scopes_ok a \<longleftrightarrow> (\<forall>sc \<in> set (an_local_scopes a). dom sc \<inter> dom (global_scope a) = {}) \<and>
     (\<forall>sc \<in> insert (global_scope a) (set (an_local_scopes a)). \<forall>n v. sc n = Some v \<longrightarrow> vi_type v \<noteq> T_Void)"

definition return_ok :: "analyzer \<Rightarrow> interp \<Rightarrow> bool" where
  "return_ok a s \<longleftrightarrow> (an_return_types a \<noteq> [] \<longrightarrow>
     in_call_depth s > 0 \<and> rv_type (in_return_value s) = hd (an_return_types a))"

definition sound :: "analyzer \<Rightarrow> interp \<Rightarrow> bool" where
  "sound a s \<longleftrightarrow> env_ok a (in_frames s) \<and> scopes_ok a \<and> registry_ok a (in_functions s) \<and> return_ok a s \<and> clean s"

text \<open>A run ends soundly: its reports are permitted, and unless it failed the state is sound.\<close>

definition safe :: "analyzer \<Rightarrow> interp \<Rightarrow> bool" where
  "safe a t \<longleftrightarrow> clean t \<and> (in_failed t \<or> sound a t)"

lemma sound_clean: "sound a s \<Longrightarrow> clean s"
  by (simp add: sound_def)

lemma sound_safe: "sound a s \<Longrightarrow> safe a s"
  by (simp add: safe_def sound_clean)

lemma safe_failed: "clean t \<Longrightarrow> in_failed t \<Longrightarrow> safe a t"
  by (simp add: safe_def)

lemma safe_sound: "safe a t \<Longrightarrow> \<not> in_failed t \<Longrightarrow> sound a t"
  by (simp add: safe_def)

lemma sound_same:
  assumes "same_signatures a b" and "an_local_scopes b = an_local_scopes a" and "an_return_types b = an_return_types a"
  shows "sound b s = sound a s"
  using assms(2,3) registry_ok_same [OF assms(1)] same_global_scope [OF assms(1)]
  by (simp add: sound_def env_ok_def unframed_def scopes_ok_def return_ok_def)

lemma sound_analyzer [simp]:
  "sound (emit rs a) s = sound a s" "sound (deeper a) s = sound a s"
  "safe (emit rs a) s = safe a s" "safe (deeper a) s = safe a s"
  using sound_same [of a "emit rs a" s] sound_same [of a "deeper a" s]
  by (simp_all add: safe_def same_signatures_def) (simp_all add: deeper_def)

text \<open>Updates of the interpreter that soundness does not look at.\<close>

lemma sound_updates [simp]:
  "sound a (set_value v s) = sound a s" "sound a (print xs s) = sound a s" "sound a (line x s) = sound a s"
  "sound a (s\<lparr>in_current_value := w\<rparr>) = sound a s" "sound a (s\<lparr>in_str := n\<rparr>) = sound a s"
  "sound a (s\<lparr>in_num := i\<rparr>) = sound a s" "sound a (s\<lparr>in_flow := fl\<rparr>) = sound a s"
  "sound a (s\<lparr>in_goto_target := n\<rparr>) = sound a s" "sound a (s\<lparr>in_stdin := ins\<rparr>) = sound a s"
  "sound a (s\<lparr>in_goto_transfers := k\<rparr>) = sound a s" "sound a (s\<lparr>in_aiModels := mm\<rparr>) = sound a s"
  "sound a (s\<lparr>in_aiTensors := tt\<rparr>) = sound a s"
  by (simp_all add: sound_def return_ok_def) (simp_all add: set_value_def print_def line_def)

lemma sound_report [simp]: "sound a s \<Longrightarrow> in_failed s \<or> permitted c m \<Longrightarrow> sound a (runtimeError c m s)"
  by (simp add: sound_def return_ok_def) (simp add: runtimeError_def)

lemma sound_trap [simp]: "sound a s \<Longrightarrow> sound a (trap s)"
  by (simp add: sound_def return_ok_def) (simp add: trap_def)

lemma sound_frames:
  "sound a s \<Longrightarrow> map frame_shape fs = map frame_shape (in_frames s) \<Longrightarrow> sound a (s\<lparr>in_frames := fs\<rparr>)"
  using env_ok_shape [of a "in_frames s" fs] by (simp add: sound_def return_ok_def)

end
