(* ===== verification/TypeSafety.thy ===== *)
theory TypeSafety
  imports Soundness
begin

section \<open>Runs of accepted programs\<close>

text \<open>
  Type safety of the interpreter for accepted programs. The expression visitor is correct in
  an analyzer state if from every sound state it ends in a sound state with a value of the
  type the analyzer computed, or with a permitted failure; statements, blocks and loops are
  treated alike, and the recursion of the visitors is closed by induction on the fuel.
\<close>

subsection \<open>Expressions\<close>

definition typed_expr :: "analyzer \<Rightarrow> (AST_EXPRESSION \<Rightarrow> visitor) \<Rightarrow> bool" where
  "typed_expr a ev \<longleftrightarrow> (\<forall>e s t. sound a s \<longrightarrow> \<not> error_in (snd (expressionType a e)) \<longrightarrow> ev e s = Some t \<longrightarrow>
     sound a t \<and> (in_failed t \<or> rv_type (in_current_value t) = fst (expressionType a e)))"

lemma typed_exprD:
  "typed_expr a ev \<Longrightarrow> sound a s \<Longrightarrow> \<not> error_in (snd (expressionType a e)) \<Longrightarrow> ev e s = Some t \<Longrightarrow>
   sound a t \<and> (in_failed t \<or> rv_type (in_current_value t) = fst (expressionType a e))"
  unfolding typed_expr_def by blast

lemma typed_evaluate:
  assumes "typed_expr a ev" and "sound a s" and "\<not> error_in (snd (expressionType a e))"
    and "evaluate ev e s = Some (v, t)"
  shows "sound a t \<and> (in_failed t \<or> rv_type v = fst (expressionType a e))"
proof -
  have "ev e (s\<lparr>in_current_value := defaultValue T_Int\<rparr>) = Some t" "v = in_current_value t"
    using assms(4) by (auto simp: evaluate_def split: bind_splits)
  then show ?thesis
    using typed_exprD [OF assms(1) _ assms(3), of "s\<lparr>in_current_value := defaultValue T_Int\<rparr>" t] assms(2) by simp
qed

lemma value_types [simp]:
  "rv_type (int_value i) = T_Int" "rv_type (bool_value b) = T_Boolean" "rv_type (float_value x) = T_Float"
  "rv_type (defaultValue ty) = ty" "in_current_value (set_value v s) = v"
  by (simp_all add: int_value_def bool_value_def float_value_def defaultValue_def set_value_def)

lemma failed_updates [simp]:
  "in_failed (set_value v s) = in_failed s" "in_failed (print xs s) = in_failed s" "in_failed (trap s)"
  by (simp_all add: set_value_def print_def trap_def)

lemma binary_typed:
  assumes "sound a s" and "\<not> error_in (snd (binary_type op (rv_type l) (rv_type r)))"
  defines "t \<equiv> if rv_type l = T_Float then binary_float op (rv_float l) (rv_float r) s
    else if rv_type l = T_String then binary_string op (rv_string l) (rv_string r) s
    else binary_int op (rv_int l) (rv_int r) s"
  shows "sound a t \<and> (in_failed t \<or> rv_type (in_current_value t) = fst (binary_type op (rv_type l) (rv_type r)))"
  using assms(1,2) unfolding t_def
  by (cases op; cases "rv_type l"; cases "rv_type r")
    (auto simp: binary_type_def binary_float_def binary_string_def binary_int_def is_arithmetic_def is_equality_def
      is_ordering_def is_logical_def split: option.splits)

lemma visit_binary_typed:
  assumes ev: "typed_expr a ev" and "sound a s" and ok: "\<not> error_in (snd (expressionType a (E_Binary l r op)))"
    and "visit_binary ev l r op s = Some t"
  shows "sound a t \<and> (in_failed t \<or> rv_type (in_current_value t) = fst (expressionType a (E_Binary l r op)))"
proof -
  have oks: "\<not> error_in (snd (expressionType a l))" "\<not> error_in (snd (expressionType a r))"
    "\<not> error_in (snd (binary_type op (fst (expressionType a l)) (fst (expressionType a r))))"
    "fst (expressionType a (E_Binary l r op)) = fst (binary_type op (fst (expressionType a l)) (fst (expressionType a r)))"
    using ok by (auto split: prod.splits)
  obtain lv s1 where l: "evaluate ev l s = Some (lv, s1)"
    using assms(4) by (auto simp: visit_binary_def split: bind_splits)
  note l' = typed_evaluate [OF ev assms(2) oks(1) l]
  show ?thesis
  proof (cases "in_failed s1")
    case False
    then obtain rv s2 where r: "evaluate ev r s1 = Some (rv, s2)"
      using assms(4) l by (auto simp: visit_binary_def split: bind_splits)
    note r' = typed_evaluate [OF ev conjunct1 [OF l'] oks(2) r]
    show ?thesis
    proof (cases "in_failed s2")
      case f2: False
      have "sound a (set_value (defaultValue T_Boolean) s2)" using r' by simp
      from binary_typed [OF this, of op lv rv] show ?thesis
        using assms(4) l r l' r' False f2 oks(3) unfolding oks(4) by (simp add: visit_binary_def Let_def)
    qed (use assms(4) l r r' False in \<open>simp add: visit_binary_def\<close>)
  qed (use assms(4) l l' in \<open>simp add: visit_binary_def\<close>)
qed

lemma visit_unary_typed:
  assumes ev: "typed_expr a ev" and "sound a s" and ok: "\<not> error_in (snd (expressionType a (E_Unary e op)))"
    and "visit_unary ev e op s = Some t"
  shows "sound a t \<and> (in_failed t \<or> rv_type (in_current_value t) = fst (expressionType a (E_Unary e op)))"
proof -
  have oks: "\<not> error_in (snd (expressionType a e))" "fst (expressionType a (E_Unary e op)) = fst (expressionType a e)"
    using ok by (auto split: prod.splits if_splits)
  obtain v s1 where v: "evaluate ev e s = Some (v, s1)"
    using assms(4) by (auto simp: visit_unary_def split: bind_splits)
  from typed_evaluate [OF ev assms(2) oks(1) v] show ?thesis
    using assms(4) v oks(2) by (auto simp: visit_unary_def split: if_splits)
qed

lemma visit_variable_typed:
  assumes ev: "typed_expr a ev" and "sound a s" and ok: "\<not> error_in (snd (expressionType a (E_Var v)))"
    and "visit_variable ev v s = Some t"
  shows "sound a t \<and> (in_failed t \<or> rv_type (in_current_value t) = fst (expressionType a (E_Var v)))"
proof (cases v)
  case (V_Simple n)
  then obtain ty where ty: "lookupType n a = Some (ty, False)" "fst (expressionType a (E_Var v)) = ty"
    using ok by (auto split: option.splits if_splits)
  have "read_type (in_frames s) n = Some ty"
    using env_lookup [OF _ ty(1)] assms(2) by (simp add: sound_def)
  then show ?thesis using assms(2,4) V_Simple ty(2)
    by (auto simp: read_type_def visit_simple_variable_def Let_def split: option.splits)
next
  case (V_Array n i)
  then obtain ty where ty: "lookupType n a = Some (ty, True)" "fst (expressionType a (E_Var v)) = ty"
    "\<not> error_in (snd (expressionType a i))"
    using ok by (auto split: option.splits if_splits prod.splits)
  obtain iv s1 where iv: "evaluate ev i s = Some (iv, s1)"
    using assms(4) V_Array by (auto simp: visit_array_variable_def split: bind_splits)
  note s1 = typed_evaluate [OF ev assms(2) ty(3) iv]
  obtain ts where ts: "array_of (in_frames s1) n = Some ts" "set ts \<subseteq> {ty}"
    using env_lookup [OF _ ty(1)] s1 by (auto simp: sound_def)
  show ?thesis using assms(4) V_Array iv s1 ts ty(2)
    by (auto simp: visit_array_variable_def Let_def split: if_splits option.splits dest!: readArray_array_of)
qed


subsection \<open>Declarations\<close>

lemma scalar_reports_ok:
  "\<not> error_in (fst (scalar_reports top_level ds names)) \<Longrightarrow> (\<forall>d \<in> set ds. isExecutableScalarType (sd_type d)) \<and>
   (top_level \<longrightarrow> distinct (map sd_name ds) \<and> sd_name ` set ds \<inter> names = {} \<and>
     snd (scalar_reports top_level ds names) = names \<union> sd_name ` set ds)"
proof (induction ds arbitrary: names)
  case (Cons d ds)
  let ?names = "if top_level then insert (sd_name d) names else names"
  have "\<not> error_in (fst (scalar_reports top_level ds ?names))" "isExecutableScalarType (sd_type d)"
    "top_level \<Longrightarrow> sd_name d \<notin> names"
    using Cons.prems by (auto simp: duplicate_report_def executable_report_def split: prod.splits if_splits)
  with Cons.IH [of ?names] show ?case by (auto split: prod.splits)
qed simp

lemma array_reports_ok:
  "\<not> error_in (array_reports top_level ds names) \<Longrightarrow> (\<forall>d \<in> set ds. isExecutableScalarType (ad_type d)) \<and>
   (top_level \<longrightarrow> distinct (map ad_name ds) \<and> ad_name ` set ds \<inter> names = {})"
proof (induction ds arbitrary: names)
  case (Cons d ds)
  let ?names = "if top_level then insert (ad_name d) names else names"
  have "\<not> error_in (array_reports top_level ds ?names)" "isExecutableScalarType (ad_type d)"
    "top_level \<Longrightarrow> ad_name d \<notin> names"
    using Cons.prems by (auto simp: duplicate_report_def executable_report_def split: if_splits)
  with Cons.IH [of ?names] show ?case by auto
qed simp

lemma map_add_left:
  "n \<notin> dom g \<Longrightarrow> (\<lambda>k. if k = n then Some v else f k) ++ g = f ++ (\<lambda>k. if k = n then Some v else g k)"
  by (auto simp: map_add_def fun_eq_iff split: option.splits)

lemma declare_names_clean:
  "\<not> error_in (snd (declare_names ds sc)) \<Longrightarrow> distinct (map fst ds) \<and> fst ` set ds \<inter> dom sc = {}"
proof (induction ds arbitrary: sc)
  case (Cons d ds)
  obtain n v where d: "d = (n, v)" by (cases d)
  show ?case
  proof (cases "sc n = None")
    case True
    then have "\<not> error_in (snd (declare_names ds (sc(n \<mapsto> v))))" using Cons.prems d by simp
    from Cons.IH [OF this] show ?thesis using d True by auto
  qed (use Cons.prems d in \<open>auto split: prod.splits\<close>)
qed simp

lemma declare_names_distinct:
  "distinct (map fst ds) \<Longrightarrow> fst ` set ds \<inter> dom sc = {} \<Longrightarrow> declare_names ds sc = (sc ++ map_of ds, [])"
proof (induction ds arbitrary: sc)
  case (Cons d ds)
  obtain n v where d: "d = (n, v)" by (cases d)
  have "fst ` set ds \<inter> dom (sc(n \<mapsto> v)) = {}" "distinct (map fst ds)" "sc n = None"
    using Cons.prems d by auto
  note IH = Cons.IH [OF this(2,1)] this(3)
  have "n \<notin> dom (map_of ds)" using Cons.prems d by (simp add: dom_map_of_conv_image_fst)
  from map_add_left [OF this, of v sc] show ?case using IH unfolding d by (simp add: fun_upd_def)
qed simp

lemma executable_not_void: "isExecutableScalarType ty \<Longrightarrow> ty \<noteq> T_Void"
  by (auto simp: isExecutableScalarType_def)

lemma declarations_accepted:
  assumes "\<not> errs (sem_declarations b a)"
  shows "\<not> errs a" "\<forall>(n, v) \<in> set (declared b). vi_type v \<noteq> T_Void" "distinct (map fst (declared b))"
    "an_local_scopes a = sc # scs \<Longrightarrow> fst ` set (declared b) \<inter> dom sc = {}"
proof -
  let ?o = "an_local_scopes a = []"
  obtain r names where r: "scalar_reports ?o (db_typed_scalars b) {} = (r, names)" by force
  have ok: "\<not> errs a" "\<not> error_in r" "\<not> error_in (array_reports ?o (db_typed_arrays b) names)"
    using assms r by (auto simp: sem_declarations_def declareInCurrentScope_def Let_def split: list.splits prod.splits)
  then show "\<not> errs a" by simp
  note sr = scalar_reports_ok [of ?o "db_typed_scalars b" "{}", unfolded r fst_conv snd_conv, OF ok(2)]
  note ar = array_reports_ok [OF ok(3)]
  show "\<forall>(n, v) \<in> set (declared b). vi_type v \<noteq> T_Void"
    using sr ar by (auto simp: declared_def executable_not_void)
  have dn: "\<not> error_in (snd (declare_names (declared b) sc))" if "an_local_scopes a = sc # scs" for sc scs
    using assms that r by (auto simp: sem_declarations_def declareInCurrentScope_def Let_def split: prod.splits)
  show "an_local_scopes a = sc # scs \<Longrightarrow> fst ` set (declared b) \<inter> dom sc = {}"
    using declare_names_clean dn by blast
  show "distinct (map fst (declared b))"
  proof (cases "an_local_scopes a")
    case Nil
    then have "distinct (map sd_name (db_typed_scalars b))" "distinct (map ad_name (db_typed_arrays b))"
      "sd_name ` set (db_typed_scalars b) \<inter> ad_name ` set (db_typed_arrays b) = {}"
      using sr ar by auto
    then show ?thesis by (auto simp: declared_def comp_def)
  qed (use declare_names_clean dn in blast)
qed

lemma types_update:
  "scalar_types (f\<lparr>fr_scalars := (fr_scalars f)(n \<mapsto> v)\<rparr>) = (scalar_types f)(n \<mapsto> rv_type v)"
  "array_types (f\<lparr>fr_arrays := (fr_arrays f)(n \<mapsto> vs)\<rparr>) = (array_types f)(n \<mapsto> map rv_type vs)"
  by (auto simp: scalar_types_def array_types_def)

lemma types_cong:
  "fr_scalars f = fr_scalars g \<Longrightarrow> scalar_types f = scalar_types g" "fr_arrays f = fr_arrays g \<Longrightarrow> array_types f = array_types g"
  by (simp_all add: scalar_types_def array_types_def fun_eq_iff)

lemma declare_scalars_fresh:
  "distinct (map sd_name ds) \<Longrightarrow> \<forall>d \<in> set ds. fr_scalars f (sd_name d) = None \<Longrightarrow> declare_scalars ds f = (g, r) \<Longrightarrow>
   r = None \<and> fr_arrays g = fr_arrays f \<and>
     scalar_types g = scalar_types f ++ map_of (map (\<lambda>d. (sd_name d, sd_type d)) ds)"
proof (induction ds arbitrary: f)
  case (Cons d ds)
  let ?f = "f\<lparr>fr_scalars := (fr_scalars f)(sd_name d \<mapsto> defaultValue (sd_type d))\<rparr>"
  have "\<forall>d' \<in> set ds. fr_scalars ?f (sd_name d') = None" "declare_scalars ds ?f = (g, r)" "distinct (map sd_name ds)"
    using Cons.prems by (auto simp: image_iff)
  note IH = Cons.IH [OF this(3,1,2)]
  have "sd_name d \<notin> dom (map_of (map (\<lambda>d. (sd_name d, sd_type d)) ds))"
    using Cons.prems by (simp add: dom_map_of_conv_image_fst image_image)
  from map_add_left [OF this, of "sd_type d" "scalar_types f"] show ?case
    using IH unfolding types_update by (simp add: fun_upd_def)
qed simp

lemma declare_arrays_fresh:
  "distinct (map ad_name ds) \<Longrightarrow> \<forall>d \<in> set ds. fr_arrays f (ad_name d) = None \<Longrightarrow> declare_arrays ds f = (g, r) \<Longrightarrow>
   r = AD_BadSize \<or> r = AD_Ok \<and> fr_scalars g = fr_scalars f \<and>
     array_types g = array_types f ++ map_of (map (\<lambda>d. (ad_name d, replicate (nat (ad_size d)) (ad_type d))) ds)"
proof (induction ds arbitrary: f)
  case (Cons d ds)
  show ?case
  proof (cases "ad_size d < 0")
    case False
    let ?f = "f\<lparr>fr_arrays := (fr_arrays f)(ad_name d \<mapsto> replicate (nat (ad_size d)) (defaultValue (ad_type d)))\<rparr>"
    have "\<forall>d' \<in> set ds. fr_arrays ?f (ad_name d') = None" "declare_arrays ds ?f = (g, r)" "distinct (map ad_name ds)"
      using Cons.prems False by (auto simp: image_iff)
    note IH = Cons.IH [OF this(3,1,2)]
    have "ad_name d \<notin> dom (map_of (map (\<lambda>d. (ad_name d, replicate (nat (ad_size d)) (ad_type d))) ds))"
      using Cons.prems by (simp add: dom_map_of_conv_image_fst image_image)
    from map_add_left [OF this, of "replicate (nat (ad_size d)) (ad_type d)" "array_types f"] show ?thesis
      using IH unfolding types_update by (simp add: fun_upd_def)
  qed (use Cons.prems in simp)
qed simp

lemma map_of_declared:
  "map_of (declared b) n = (case map_of (map (\<lambda>d. (sd_name d, sd_type d)) (db_typed_scalars b)) n of
      Some ty \<Rightarrow> Some \<lparr>vi_type = ty, vi_is_array = False\<rparr>
    | None \<Rightarrow> map_option (\<lambda>ty. \<lparr>vi_type = ty, vi_is_array = True\<rparr>)
        (map_of (map (\<lambda>d. (ad_name d, ad_type d)) (db_typed_arrays b)) n))"
proof -
  have a: "map_of (map (\<lambda>d. (ad_name d, \<lparr>vi_type = ad_type d, vi_is_array = True\<rparr>)) ds) n =
      map_option (\<lambda>ty. \<lparr>vi_type = ty, vi_is_array = True\<rparr>) (map_of (map (\<lambda>d. (ad_name d, ad_type d)) ds) n)" for ds
    by (induction ds) auto
  have s: "map_of (map (\<lambda>d. (sd_name d, \<lparr>vi_type = sd_type d, vi_is_array = False\<rparr>)) ds) n =
      map_option (\<lambda>ty. \<lparr>vi_type = ty, vi_is_array = False\<rparr>) (map_of (map (\<lambda>d. (sd_name d, sd_type d)) ds) n)" for ds
    by (induction ds) auto
  show ?thesis unfolding declared_def map_of_append map_add_def a s by (auto split: option.splits)
qed

lemma map_of_replicated:
  "map_of (map (\<lambda>d. (ad_name d, replicate (k d) (ad_type d))) ds) n = None \<and> map_of (map (\<lambda>d. (ad_name d, ad_type d)) ds) n = None \<or>
   (\<exists>ty j. map_of (map (\<lambda>d. (ad_name d, replicate (k d) (ad_type d))) ds) n = Some (replicate j ty) \<and>
     map_of (map (\<lambda>d. (ad_name d, ad_type d)) ds) n = Some ty)"
  by (induction ds) auto

lemma frame_matches_declared:
  assumes "frame_matches sc f"
    and "scalar_types g = scalar_types f ++ map_of (map (\<lambda>d. (sd_name d, sd_type d)) (db_typed_scalars b))"
    and "array_types g = array_types f ++ map_of (map (\<lambda>d. (ad_name d, replicate (k d) (ad_type d))) (db_typed_arrays b))"
    and "fst ` set (declared b) \<inter> dom sc = {}"
  shows "frame_matches (sc ++ map_of (declared b)) g"
  unfolding frame_matches_def
proof (rule allI)
  fix n
  have fresh: "sc n = None" if "map_of (declared b) n \<noteq> None"
    using that assms(4) map_of_SomeD by (fastforce simp: dom_def)
  show "case (sc ++ map_of (declared b)) n of None \<Rightarrow> scalar_types g n = None \<and> array_types g n = None
    | Some v \<Rightarrow> if vi_is_array v then \<exists>ts. array_types g n = Some ts \<and> set ts \<subseteq> {vi_type v}
        else scalar_types g n = Some (vi_type v)"
  proof (cases "map_of (declared b) n")
    case None
    then have "map_of (map (\<lambda>d. (sd_name d, sd_type d)) (db_typed_scalars b)) n = None"
      "map_of (map (\<lambda>d. (ad_name d, ad_type d)) (db_typed_arrays b)) n = None"
      by (auto simp: map_of_declared split: option.splits)
    then have g: "scalar_types g n = scalar_types f n" "array_types g n = array_types f n"
      using map_of_replicated [of k "db_typed_arrays b" n] assms(2,3) by (auto simp: map_add_def)
    show ?thesis using assms(1) [unfolded frame_matches_def, THEN spec, of n] None
      unfolding map_add_def g by (cases "sc n") auto
  next
    case (Some v)
    then show ?thesis using map_of_replicated [of k "db_typed_arrays b" n] assms(2,3)
      by (auto simp: map_of_declared map_add_def split: option.splits)
  qed
qed

lemma initializeDeclarations_typed:
  assumes "in_frames s = f # fs" and "frame_matches sc f" and "distinct (map fst (declared b))"
    and "fst ` set (declared b) \<inter> dom sc = {}"
  shows "\<exists>g. (initializeDeclarations b s = trap (s\<lparr>in_frames := g # fs\<rparr>) \<or>
    initializeDeclarations b s = s\<lparr>in_frames := g # fs\<rparr> \<and> frame_matches (sc ++ map_of (declared b)) g)"
proof -
  obtain g1 r1 where g1: "declare_scalars (db_typed_scalars b) f = (g1, r1)" by force
  obtain g2 r2 where g2: "declare_arrays (db_typed_arrays b) g1 = (g2, r2)" by force
  have names: "distinct (map sd_name (db_typed_scalars b))" "distinct (map ad_name (db_typed_arrays b))"
    using assms(3) by (simp_all add: declared_def comp_def)
  have none: "scalar_types f n = None \<and> array_types f n = None" if "n \<in> fst ` set (declared b)" for n
    using frame_matches_None [OF assms(2), of n] assms(4) that by auto
  then have fresh: "\<forall>d \<in> set (db_typed_scalars b). fr_scalars f (sd_name d) = None"
    "\<forall>d \<in> set (db_typed_arrays b). fr_arrays f (ad_name d) = None"
    by (auto simp: declared_def scalar_types_def array_types_def image_Un image_image)
  note s1 = declare_scalars_fresh [OF names(1) fresh(1) g1]
  have "\<forall>d \<in> set (db_typed_arrays b). fr_arrays g1 (ad_name d) = None" using fresh(2) s1 by simp
  note s2 = declare_arrays_fresh [OF names(2) this g2]
  have same: "r2 = AD_Ok \<Longrightarrow> scalar_types g2 = scalar_types g1" "array_types g1 = array_types f"
    using types_cong(1) [of g2 g1] types_cong(2) [of g1 f] s2 conjunct1 [OF conjunct2 [OF s1]] by simp_all
  have "frame_matches (sc ++ map_of (declared b)) g2" if "r2 = AD_Ok"
  proof (rule frame_matches_declared [OF assms(2) _ _ assms(4)])
    show "scalar_types g2 = scalar_types f ++ map_of (map (\<lambda>d. (sd_name d, sd_type d)) (db_typed_scalars b))"
      using s1 s2 that same(1) by auto
    show "array_types g2 = array_types f ++ map_of (map (\<lambda>d. (ad_name d, replicate (nat (ad_size d)) (ad_type d))) (db_typed_arrays b))"
      using s1 s2 that same(2) by auto
  qed
  then show ?thesis using s1 s2 g1 g2 assms(1)
    by (auto simp: initializeDeclarations_def initializeDeclarationsInto_def ensure_frame_def)
qed

subsection \<open>Calls\<close>

text \<open>What a call relies on: the body of an accepted function runs safely.\<close>

definition body_safe :: "(AST_BLOCK \<Rightarrow> visitor) \<Rightarrow> bool" where
  "body_safe bl \<longleftrightarrow> (\<forall>b s t. bl b s = Some t \<longrightarrow> store_grows s t \<and> calls_balanced s t) \<and> (\<forall>f b src fr s t ss. \<not> errs (sem_function f b) \<longrightarrow>
     sound (enter_function_scope f b) (enter_function f src fr s) \<longrightarrow> an_local_scopes b = [] \<longrightarrow>
     fn_block f = Block False ss \<longrightarrow> (\<forall>st \<in> set ss. nested_lexical st) \<longrightarrow>
     declares_block (fn_block f) \<inter> dom (global_scope b) = {} \<longrightarrow> bl (fn_block f) (enter_function f src fr s) = Some t \<longrightarrow>
     clean t \<and> (in_failed t \<or> (\<forall>name. check_function_end f name t = t) \<and> rv_type (in_return_value t) = fn_type f))"

lemma body_safeD:
  assumes "body_safe bl" and "\<not> errs (sem_function f b)" and "sound (enter_function_scope f b) (enter_function f src fr s)"
    and "an_local_scopes b = []" and "fn_block f = Block False ss" and "\<forall>st \<in> set ss. nested_lexical st"
    and "declares_block (fn_block f) \<inter> dom (global_scope b) = {}" and "bl (fn_block f) (enter_function f src fr s) = Some t"
  shows "clean t \<and> (in_failed t \<or> (\<forall>name. check_function_end f name t = t) \<and> rv_type (in_return_value t) = fn_type f)"
  using assms unfolding body_safe_def by blast

lemma bind_arguments_frame:
  assumes "map sd_type ps = map rv_type vs"
  shows "\<exists>g. bind_arguments ps vs f = Some g \<and> fr_arrays g = fr_arrays f \<and>
    scalar_types g = scalar_types f ++ map_of (rev (map (\<lambda>d. (sd_name d, sd_type d)) ps))"
  using assms
proof (induction ps vs f rule: bind_arguments.induct)
  case (3 p ps v vs f)
  then obtain g where g: "bind_arguments ps vs (f\<lparr>fr_scalars := (fr_scalars f)(sd_name p \<mapsto> v)\<rparr>) = Some g"
    "fr_arrays g = fr_arrays f" "scalar_types g = scalar_types (f\<lparr>fr_scalars := (fr_scalars f)(sd_name p \<mapsto> v)\<rparr>) ++
       map_of (rev (map (\<lambda>d. (sd_name d, sd_type d)) ps))"
    by auto
  moreover have "scalar_types (f\<lparr>fr_scalars := (fr_scalars f)(sd_name p \<mapsto> v)\<rparr>) = (scalar_types f)(sd_name p \<mapsto> sd_type p)"
    using 3 by (auto simp: scalar_types_def)
  ultimately show ?case using 3 by (auto simp: map_add_def fun_eq_iff split: option.splits)
qed (auto simp: map_add_def)


lemma empty_types [simp]: "scalar_types empty_frame = Map.empty" "array_types empty_frame = Map.empty"
  by (simp_all add: scalar_types_def array_types_def empty_frame_def fun_eq_iff)

lemma empty_matches: "frame_matches Map.empty empty_frame"
  by (simp add: frame_matches_def)

lemma distinct_map_of_rev: "distinct (map fst xs) \<Longrightarrow> map_of (rev xs) = map_of xs"
  by (rule map_of_inject_set [THEN iffD2]) (simp_all add: rev_map [symmetric])

lemma enter_function_simps [simp]:
  "in_functions (enter_function f src fr s) = in_functions s" "in_call_depth (enter_function f src fr s) = in_call_depth s + 1"
  "in_return_value (enter_function f src fr s) = defaultValue (fn_type f)"
  "in_flow (enter_function f src fr s) = F_Normal" "in_frames (enter_function f src fr s) = fr # in_frames s"
  by (simp_all add: enter_function_def)

text \<open>Entering an accepted function with arguments of the parameter types.\<close>

lemma enter_scope_simps [simp]:
  "an_return_types (enter_function_scope f b) = fn_type f # an_return_types b"
  "an_local_scopes b = [] \<Longrightarrow> an_local_scopes (enter_function_scope f b) = [parameter_scope f]"
  using context_declarations [of b "fn_parameters f"]
  by (simp_all add: enter_function_scope_def Let_def context_kept_def)

lemma enter_scope_signatures: "same_signatures b (enter_function_scope f b)"
  using context_signatures [OF context_declarations [of b "fn_parameters f"]]
  by (simp add: enter_function_scope_def Let_def same_signatures_def)

lemma function_accepted:
  assumes "\<not> errs (sem_function f b)"
  shows "\<not> errs (sem_declarations (fn_parameters f) b)" "db_array_ints (fn_parameters f) = []"
    "\<not> errs (sem_block (fn_block f) (enter_function_scope f b))"
proof -
  show 1: "\<not> errs (sem_block (fn_block f) (enter_function_scope f b))"
    using assms by (auto simp: sem_function_def Let_def)
  then have "\<not> errs (enter_function_scope f b)" using errs_block by blast
  then show "\<not> errs (sem_declarations (fn_parameters f) b)" "db_array_ints (fn_parameters f) = []"
    by (auto simp: enter_function_scope_def Let_def)
qed

lemma env_hides:
  assumes "env_ok a fs" and "scopes_ok a"
  shows "\<exists>mid gf. fs = mid @ [gf] \<and> list_all (hides_nothing (global_scope a)) mid \<and> frame_matches (global_scope a) gf"
proof -
  obtain scs lf mid gf where e: "fs = lf @ mid @ [gf]" "an_local_scopes a = scs @ unframed a"
    "list_all2 frame_matches scs lf" "list_all (hides_nothing (global_scope a)) mid" "frame_matches (global_scope a) gf"
    using assms(1) by (auto simp: env_ok_def)
  have "hides_nothing (global_scope a) f" if "frame_matches sc f" "sc \<in> set scs" for sc f
  proof -
    have "dom sc \<inter> dom (global_scope a) = {}" using assms(2) e(2) that(2) by (auto simp: scopes_ok_def)
    then have "n \<in> dom (global_scope a) \<Longrightarrow> sc n = None" for n by auto
    then show ?thesis using frame_matches_None [OF that(1)] by (simp add: hides_nothing_def)
  qed
  then have "list_all (hides_nothing (global_scope a)) lf"
    using e(3) by (auto simp: list_all2_conv_all_nth list_all_length)
  then show ?thesis using e(1,4,5) by (intro exI [of _ "lf @ mid"] exI [of _ gf]) simp
qed

lemma enter_function_sound:
  assumes "sound a s" and "function_ok a f" and "same_signatures a b" and "an_local_scopes b = []"
    and "\<not> errs (sem_function f b)" and "bind_arguments (db_typed_scalars (fn_parameters f)) vs empty_frame = Some fr"
    and "map sd_type (db_typed_scalars (fn_parameters f)) = map rv_type vs"
  shows "sound (enter_function_scope f b) (enter_function f src fr s)"
proof -
  let ?b = "enter_function_scope f b" and ?ps = "fn_parameters f"
  have sig: "same_signatures a ?b" using same_signatures_trans [OF assms(3) enter_scope_signatures] .
  note acc = declarations_accepted [OF function_accepted(1) [OF assms(5)]]
  have arrays: "db_typed_arrays ?ps = []"
    using function_accepted(2) [OF assms(5)] assms(2) by (simp add: function_ok_def decl_wf_def)
  have scope: "parameter_scope f = map_of (declared ?ps)"
    using declare_names_distinct [of "declared ?ps" Map.empty] acc(3) by (simp add: parameter_scope_def)
  have "distinct (map fst (map (\<lambda>d. (sd_name d, sd_type d)) (db_typed_scalars ?ps)))"
    using acc(3) by (simp add: declared_def comp_def)
  then have "scalar_types fr = map_of (map (\<lambda>d. (sd_name d, sd_type d)) (db_typed_scalars ?ps))" "fr_arrays fr = fr_arrays empty_frame"
    using bind_arguments_frame [OF assms(7), of empty_frame] assms(6) by (auto simp: distinct_map_of_rev)
  then have fr: "frame_matches (parameter_scope f) fr"
    using frame_matches_declared [OF empty_matches, of fr ?ps "\<lambda>d. 0"] types_cong(2) [of fr empty_frame] arrays
    unfolding scope by simp
  obtain mid gf where mid: "in_frames s = mid @ [gf]" "list_all (hides_nothing (global_scope a)) mid" "frame_matches (global_scope a) gf"
    using env_hides assms(1) unfolding sound_def by blast
  have env: "env_ok ?b (in_frames (enter_function f src fr s))"
    unfolding env_ok_def using fr mid assms(4)
    by (intro exI [of _ "[parameter_scope f]"] exI [of _ "[fr]"] exI [of _ mid] exI [of _ gf])
      (simp add: enter_function_def unframed_def same_global_scope [OF sig])
  have "dom (parameter_scope f) \<inter> dom (global_scope a) = {}"
    using assms(2) by (auto simp: function_ok_def scope dom_map_of_conv_image_fst)
  moreover have "\<forall>n v. parameter_scope f n = Some v \<longrightarrow> vi_type v \<noteq> T_Void"
    using acc(2) unfolding scope by (auto dest!: map_of_SomeD)
  moreover have "scopes_ok a" using assms(1) by (simp add: sound_def)
  ultimately have "scopes_ok ?b"
    using assms(4) unfolding scopes_ok_def same_global_scope [OF sig] by simp
  moreover have "clean (enter_function f src fr s)" using sound_clean [OF assms(1)] by simp
  moreover have "registry_ok a (in_functions s)" using assms(1) by (simp add: sound_def)
  ultimately show ?thesis using env registry_ok_same [OF sig] by (simp add: sound_def return_ok_def)
qed


lemma check_end_clean: "clean t \<Longrightarrow> in_failed t \<Longrightarrow> clean (check_function_end f name t) \<and> in_failed (check_function_end f name t)"
  by (simp add: check_function_end_def Let_def)

lemma sound_leave:
  assumes "sound a s" and "map frame_shape (in_frames (leave_function s u)) = map frame_shape (in_frames s)"
    and "in_functions u = in_functions s" and "in_call_depth u = in_call_depth s + 1" and "clean u"
  shows "sound a (leave_function s u)"
proof -
  have "clean (leave_function s u)" using assms(5) by simp
  moreover have "env_ok a (in_frames (leave_function s u))"
    using assms(1,2) env_ok_shape unfolding sound_def by blast
  ultimately show ?thesis using assms(1,3,4) by (simp add: sound_def return_ok_def leave_function_def)
qed


lemma check_end_calls [simp]:
  "in_functions (check_function_end f name t) = in_functions t" "in_call_depth (check_function_end f name t) = in_call_depth t"
  by (simp_all add: check_function_end_def Let_def runtimeError_def)

lemma invokeFunction_typed:
  assumes bl: "body_safe bl" and s: "sound a s" and f: "in_functions s name = Some (f, src)" and types: "map rv_type vs = parameter_types_of f"
    and run: "invokeFunction bl name vs s = Some (ok, r, t)"
  shows "sound a t \<and> (in_failed t \<or> ok \<and> rv_type r = fn_type f)"
proof -
  have grows: "store_grows s t" and calls: "calls_balanced s t" if "bl b s = Some t" for b s t
    using bl that unfolding body_safe_def by blast+
  have fok: "function_ok a f" using s f by (auto simp: sound_def registry_ok_def)
  then obtain b ss where b: "same_signatures a b" "an_local_scopes b = []" "\<not> errs (sem_function f b)"
    "fn_block f = Block False ss" "\<forall>st \<in> set ss. nested_lexical st" "declares_block (fn_block f) \<inter> dom (global_scope b) = {}"
    using same_global_scope unfolding function_ok_def by (metis Int_Un_distrib2 Un_empty)
  have ints: "db_array_ints (fn_parameters f) = []" using function_accepted(2) [OF b(3)] .
  with fok have params: "parameter_types_of f = map sd_type (db_typed_scalars (fn_parameters f))"
    "length (db_single_ints (fn_parameters f)) = length vs"
    using arg_cong [OF types, of length] by (auto simp: function_ok_def decl_wf_def parameter_types_of_def)
  obtain fr where fr: "bind_arguments (db_typed_scalars (fn_parameters f)) vs empty_frame = Some fr"
    using bind_arguments_frame [of "db_typed_scalars (fn_parameters f)" vs empty_frame] types params(1) by auto
  show ?thesis
  proof (cases "in_call_depth s \<ge> kMaxCallDepth")
    case True
    then show ?thesis using run f ints params(2) s by (auto simp: invokeFunction_def)
  next
    case False
    then obtain u where u: "bl (fn_block f) (enter_function f src fr s) = Some u"
      and t: "t = leave_function s (check_function_end f name u)" "ok = (\<not> in_failed t)"
        "r = (if in_flow (check_function_end f name u) = F_Return then in_return_value (check_function_end f name u)
              else defaultValue (fn_type f))"
      using run f ints params(2) fr by (auto simp: invokeFunction_def Let_def split: bind_splits)
    have body: "clean u \<and> (in_failed u \<or> (\<forall>name. check_function_end f name u = u) \<and> rv_type (in_return_value u) = fn_type f)"
      using body_safeD [OF bl b(3) enter_function_sound [OF s fok b(1-3) fr] b(2,4,5,6) u] types params(1) by simp
    have "calls_balanced (enter_function f src fr s) u" by (rule calls [OF u])
    then have cd: "in_functions u = in_functions s" "in_call_depth u = in_call_depth s + 1" by (simp_all add: calls_balanced_def)
    have "map frame_shape (in_frames (leave_function s (check_function_end f name u))) = map frame_shape (in_frames s)"
      using grows [OF u] by (simp add: store_grows_def leave_function_def)
    moreover have "clean (check_function_end f name u)" using body check_end_clean [of u f name] by auto
    ultimately have "sound a t" unfolding t(1) using sound_leave [OF s] cd by simp
    moreover have "in_failed t \<or> rv_type r = fn_type f"
      using body check_end_clean [of u f name] unfolding t(1,3) by (auto simp: leave_function_def)
    ultimately show ?thesis using t(2) by blast
  qed
qed


lemma evaluate_arguments_typed:
  assumes ev: "typed_expr a ev"
  shows "sound a s \<Longrightarrow> \<not> error_in (argument_types a name i es ts) \<Longrightarrow> length ts = length es \<Longrightarrow>
    evaluate_arguments ev es vs s = Some (ws, t) \<Longrightarrow>
    sound a t \<and> (in_failed t \<or> (\<exists>us. ws = vs @ us \<and> map rv_type us = ts))"
proof (induction es arbitrary: vs s i ts)
  case (Cons e es)
  obtain ty ts' where ts: "ts = ty # ts'" "length ts' = length es" using Cons.prems(3) by (cases ts) auto
  have ok: "\<not> error_in (snd (expressionType a e))" "fst (expressionType a e) = ty" "\<not> error_in (argument_types a name (i + 1) es ts')"
    using Cons.prems(2) ts by (auto simp: argument_report_def split: prod.splits if_splits)
  obtain v u where v: "evaluate ev e s = Some (v, u)"
    using Cons.prems(4) by (auto split: bind_splits)
  note u = typed_evaluate [OF ev Cons.prems(1) ok(1) v]
  show ?case
  proof (cases "in_failed u")
    case False
    then have "evaluate_arguments ev es (vs @ [v]) u = Some (ws, t)" using Cons.prems(4) v by simp
    from Cons.IH [OF conjunct1 [OF u] ok(3) ts(2) this] show ?thesis using u False ok(2) ts(1) by auto
  qed (use Cons.prems(4) v u in auto)
qed simp

lemma registry_lookup:
  assumes "registry_ok a F" and "an_function_arity a name = Some n"
  shows "\<exists>f src. F name = Some (f, src) \<and> an_function_return_types a name = Some (fn_type f) \<and>
    an_function_parameter_types a name = Some (parameter_types_of f) \<and> length (parameter_types_of f) = n"
proof -
  obtain f src where f: "F name = Some (f, src)" "fn_name f = name" "function_ok a f"
    using assms unfolding registry_ok_def by (metis not_None_eq surj_pair)
  then have "length (parameter_types_of f) = arity_of f"
    using length_map [of sd_name] length_map [of fst "db_array_ints (fn_parameters f)"] length_map [of ad_name]
    by (simp add: function_ok_def decl_wf_def arity_of_def parameter_types_of_def)
  then show ?thesis using f assms(2) unfolding function_ok_def by auto
qed

lemma call_arguments_typed:
  assumes ev: "typed_expr a ev" and bl: "body_safe bl" and s: "sound a s"
    and ok: "\<not> error_in (snd (expressionType a (E_Call name args)))"
    and args: "evaluate_arguments ev args [] s = Some (vs, u)"
  shows "sound a u \<and> (in_failed u \<or> (\<forall>b r t. invokeFunction bl name vs u = Some (b, r, t) \<longrightarrow>
    sound a t \<and> (in_failed t \<or> b \<and> rv_type r = fst (expressionType a (E_Call name args)))))"
proof -
  obtain n where n: "an_function_arity a name = Some n" "n = length args"
    using ok by (auto simp: validateCall_def split: option.splits if_splits)
  obtain f src where f: "an_function_parameter_types a name = Some (parameter_types_of f)" "length (parameter_types_of f) = n"
    using registry_lookup [OF _ n(1)] s unfolding sound_def by blast
  have "\<not> error_in (argument_types a name 0 args (parameter_types_of f))" using ok f n(2) by simp
  note u = evaluate_arguments_typed [OF ev s this f(2) [unfolded n(2)] args]
  then obtain g src' where g: "in_functions u name = Some (g, src')" "an_function_return_types a name = Some (fn_type g)"
    "an_function_parameter_types a name = Some (parameter_types_of g)"
    using registry_lookup [OF _ n(1)] unfolding sound_def by blast
  have "sound a t \<and> (in_failed t \<or> b \<and> rv_type r = fn_type g)"
    if "invokeFunction bl name vs u = Some (b, r, t)" "map rv_type vs = parameter_types_of g" for b r t
    by (rule invokeFunction_typed [OF bl conjunct1 [OF u] g(1) that(2,1)])
  then show ?thesis using u f g(2,3) by auto
qed

lemma visit_call_typed:
  assumes "typed_expr a ev" and "body_safe bl" and "sound a s"
    and "\<not> error_in (snd (expressionType a (E_Call name args)))" and "visit_call ev bl name args s = Some t"
  shows "sound a t \<and> (in_failed t \<or> rv_type (in_current_value t) = fst (expressionType a (E_Call name args)))"
proof -
  obtain vs u where u: "evaluate_arguments ev args [] s = Some (vs, u)"
    using assms(5) by (auto simp: visit_call_def split: bind_splits)
  note typed = call_arguments_typed [OF assms(1-4) u]
  show ?thesis
  proof (cases "in_failed u")
    case False
    then obtain b r t' where "invokeFunction bl name vs u = Some (b, r, t')" "t = (if b then set_value r t' else t')"
      using assms(5) u by (auto simp: visit_call_def split: bind_splits)
    then show ?thesis using typed False by fastforce
  qed (use assms(5) u typed in \<open>simp add: visit_call_def\<close>)
qed

lemma visit_expression_typed:
  assumes ev: "typed_expr a ev" and bl: "body_safe bl"
  shows "typed_expr a (visit_expression ev bl)"
  unfolding typed_expr_def
proof (intro allI impI)
  fix e s t
  assume s: "sound a s" and ok: "\<not> error_in (snd (expressionType a e))" and run: "visit_expression ev bl e s = Some t"
  show "sound a t \<and> (in_failed t \<or> rv_type (in_current_value t) = fst (expressionType a e))"
  proof (cases e)
    case (E_Binary l r op)
    then show ?thesis using visit_binary_typed [OF ev s] ok run by simp
  next
    case (E_Unary x op)
    then show ?thesis using visit_unary_typed [OF ev s] ok run by simp
  next
    case (E_Var v)
    then show ?thesis using visit_variable_typed [OF ev s] ok run by simp
  next
    case (E_Call name args)
    then show ?thesis using visit_call_typed [OF ev bl s] ok run by simp
  qed (use s run in auto)
qed

end
