(* ===== verification/SafeRuns.thy ===== *)
theory SafeRuns
  imports TypeSafety
begin

section \<open>Accepted statements run safely\<close>

text \<open>
  The statements of an accepted program, from soundness of the expressions they evaluate: each
  keeps the frames in step with the scopes of the analyzer, or fails with a permitted report.
\<close>

subsection \<open>What a statement may rely on\<close>

definition declarable :: "analyzer \<Rightarrow> bool" where
  "declarable a \<longleftrightarrow> length (unframed a) < length (an_local_scopes a)"

definition stmt_ready :: "analyzer \<Rightarrow> AST_STATEMENT \<Rightarrow> bool" where
  "stmt_ready a st \<longleftrightarrow> nested_lexical st \<and> declares st \<inter> dom (global_scope a) = {} \<and> (is_declaration st \<longrightarrow> declarable a)"

definition stmt_safe :: "(AST_STATEMENT \<Rightarrow> visitor) \<Rightarrow> bool" where
  "stmt_safe ex \<longleftrightarrow> (\<forall>st a s t. sound a s \<longrightarrow> in_flow s = F_Normal \<longrightarrow> stmt_ready a st \<longrightarrow> \<not> errs (sem_statement st a) \<longrightarrow>
     ex st s = Some t \<longrightarrow> safe (sem_statement st a) t)"

definition block_safe :: "(AST_BLOCK \<Rightarrow> visitor) \<Rightarrow> bool" where
  "block_safe bl \<longleftrightarrow> (\<forall>b a s t. sound a s \<longrightarrow> in_flow s = F_Normal \<longrightarrow> braced b \<longrightarrow> declares_block b \<inter> dom (global_scope a) = {} \<longrightarrow>
     \<not> errs (sem_block b a) \<longrightarrow> bl b s = Some t \<longrightarrow> safe a t)"

lemma block_safeD:
  "block_safe bl \<Longrightarrow> sound a s \<Longrightarrow> in_flow s = F_Normal \<Longrightarrow> braced b \<Longrightarrow> declares_block b \<inter> dom (global_scope a) = {} \<Longrightarrow>
   \<not> errs (sem_block b a) \<Longrightarrow> bl b s = Some t \<Longrightarrow> safe a t"
  unfolding block_safe_def by blast

lemma global_scope_updates [simp]:
  "global_scope (emit rs a) = global_scope a" "global_scope (deeper a) = global_scope a"
  by (rule same_global_scope; simp add: same_signatures_def deeper_def)+

lemma braced_scopes: "braced b \<Longrightarrow> an_local_scopes (sem_block b a) = an_local_scopes a"
proof (cases b)
  case (Block l ss)
  assume "braced b"
  then show ?thesis
    using Block context_statements [of "enter_block True ss a" ss 0 ss]
    by (auto simp: context_kept_def leave_block_def enter_block_def Let_def split: prod.splits)
qed

lemma statement_scopes:
  "nested_lexical st \<Longrightarrow> \<not> is_declaration st \<Longrightarrow> an_local_scopes (sem_statement st a) = an_local_scopes a"
  by (cases st) (simp_all add: braced_scopes deeper_def shallower_def sem_model_def sem_tensor_def sem_contract_def
      sem_measurement_def sem_c3eco_def sem_infer_def)

lemma sound_statement:
  assumes "nested_lexical st" and "\<not> is_declaration st"
  shows "sound (sem_statement st a) s = sound a s" "safe (sem_statement st a) s = safe a s"
proof -
  have "an_return_types (sem_statement st a) = an_return_types a"
    using context_statement [of a st] by (simp add: context_kept_def)
  then show "sound (sem_statement st a) s = sound a s"
    using sound_same [OF context_signatures [OF context_statement]] statement_scopes [OF assms] by blast
  then show "safe (sem_statement st a) s = safe a s" by (simp add: safe_def)
qed

subsection \<open>Declarations and stores\<close>

lemma sem_declarations_scope:
  assumes "\<not> errs (sem_declarations b a)" and "an_local_scopes a = sc # scs"
  shows "an_local_scopes (sem_declarations b a) = (sc ++ map_of (declared b)) # scs"
  using declare_names_distinct [OF declarations_accepted(3,4) [OF assms(1)], of sc scs] assms(2)
  by (auto simp: sem_declarations_def declareInCurrentScope_def Let_def split: prod.splits)

lemma declaration_safe:
  assumes s: "sound a s" and ready: "stmt_ready a (S_Decl b)" and ok: "\<not> errs (sem_declarations b a)"
  shows "safe (sem_declarations b a) (initializeDeclarations b s)"
proof -
  let ?a = "sem_declarations b a"
  have sig: "same_signatures a ?a" and rt: "an_return_types ?a = an_return_types a"
    using context_signatures [OF context_declarations] context_declarations [of a b] by (auto simp: context_kept_def)
  obtain scs lf mid gf where e: "in_frames s = lf @ mid @ [gf]" "an_local_scopes a = scs @ unframed a"
    "list_all2 frame_matches scs lf" "list_all (hides_nothing (global_scope a)) mid" "frame_matches (global_scope a) gf"
    using s by (auto simp: sound_def env_ok_def)
  obtain sc scs' where sc: "scs = sc # scs'"
    using ready e(2) by (cases scs) (auto simp: stmt_ready_def declarable_def)
  then obtain f lf' where f: "lf = f # lf'" "frame_matches sc f" "list_all2 frame_matches scs' lf'"
    using e(3) by (cases lf) auto
  have scopes: "an_local_scopes ?a = (sc ++ map_of (declared b)) # scs' @ unframed a"
    using sem_declarations_scope [OF ok] e(2) sc by simp
  have fresh: "fst ` set (declared b) \<inter> dom sc = {}"
    using declarations_accepted(4) [OF ok] e(2) sc by simp
  obtain g where g: "initializeDeclarations b s = trap (s\<lparr>in_frames := g # lf' @ mid @ [gf]\<rparr>) \<or>
    initializeDeclarations b s = s\<lparr>in_frames := g # lf' @ mid @ [gf]\<rparr> \<and> frame_matches (sc ++ map_of (declared b)) g"
    using initializeDeclarations_typed [OF _ f(2) declarations_accepted(3) [OF ok] fresh, of s "lf' @ mid @ [gf]"] e(1) f(1) by auto
  show ?thesis
  proof (cases "frame_matches (sc ++ map_of (declared b)) g")
    case True
    have "env_ok ?a (g # lf' @ mid @ [gf])"
      unfolding env_ok_def
      by (intro exI [of _ "(sc ++ map_of (declared b)) # scs'"] exI [of _ "g # lf'"] exI [of _ mid] exI [of _ gf])
        (use scopes f(3) e(4,5) True rt in \<open>simp add: unframed_def same_global_scope [OF sig]\<close>)
    moreover have "scopes_ok ?a"
    proof -
      have old: "scopes_ok a" using s by (simp add: sound_def)
      have "dom (map_of (declared b)) \<inter> dom (global_scope a) = {}"
        using ready by (simp add: stmt_ready_def dom_map_of_conv_image_fst)
      then have "dom (sc ++ map_of (declared b)) \<inter> dom (global_scope a) = {}"
        using old e(2) sc by (auto simp: scopes_ok_def)
      moreover have "vi_type v \<noteq> T_Void" if "(sc ++ map_of (declared b)) n = Some v" for n v
        using declarations_accepted(2) [OF ok] that old e(2) sc
        by (auto simp: map_add_Some_iff scopes_ok_def dest!: map_of_SomeD)
      ultimately show ?thesis
        using scopes e(2) sc old unfolding scopes_ok_def same_global_scope [OF sig] by auto
    qed
    moreover have "registry_ok ?a (in_functions s)" "return_ok ?a s" "clean s"
      using s registry_ok_same [OF sig] rt by (auto simp: sound_def return_ok_def)
    ultimately have "sound ?a (s\<lparr>in_frames := g # lf' @ mid @ [gf]\<rparr>)" by (simp add: sound_def return_ok_def)
    then show ?thesis using g sound_clean [OF s] by (auto simp: safe_def)
  qed (use g in \<open>auto simp: safe_def\<close>)
qed

lemma variable_not_void:
  assumes "sound a s" and "\<not> error_in (snd (expressionType a (E_Var v)))"
  shows "fst (expressionType a (E_Var v)) \<noteq> T_Void"
proof -
  have void: "ty \<noteq> T_Void" if "lookupType n a = Some (ty, arr)" for n ty arr
  proof -
    obtain x where "lookup_scopes (an_local_scopes a @ [global_scope a]) n = Some x" "vi_type x = ty"
      using \<open>lookupType n a = Some (ty, arr)\<close> by (auto simp: lookupType_scopes)
    moreover have "\<forall>sc \<in> set (an_local_scopes a @ [global_scope a]). \<forall>n v. sc n = Some v \<longrightarrow> vi_type v \<noteq> T_Void"
      using assms(1) by (auto simp: sound_def scopes_ok_def)
    moreover have "lookup_scopes scs n = Some x \<Longrightarrow> \<exists>sc \<in> set scs. sc n = Some x" for scs
      by (induction scs) (auto split: option.splits)
    ultimately show ?thesis by metis
  qed
  show ?thesis
  proof (cases v)
    case (V_Simple n)
    then show ?thesis using assms(2) void by (auto split: option.splits if_splits)
  next
    case (V_Array n i)
    then show ?thesis using assms(2) void by (auto split: option.splits if_splits prod.splits)
  qed
qed

lemma writeScalar_typed: "read_type fs n = Some (rv_type v) \<Longrightarrow> \<exists>gs. writeScalar fs n v = Some gs"
  by (induction fs) (auto simp: scalar_types_def split: option.splits)

lemma store_safe:
  assumes s: "sound a s" and ok: "\<not> error_in (snd (expressionType a (E_Var v)))"
    and ty: "rv_type x = fst (expressionType a (E_Var v))" and str: "\<And>n. v = V_Simple n \<Longrightarrow> in_str s = n"
  shows "safe a (store_target v x m1 m2 s)"
proof (cases v)
  case (V_Simple n)
  then have "lookupType n a = Some (rv_type x, False)" using ok ty by (auto split: option.splits if_splits)
  then have "read_type (in_frames s) n = Some (rv_type x)"
    using env_lookup [of a "in_frames s" n "rv_type x" False] s by (simp add: sound_def)
  then obtain gs where "writeScalar (in_frames s) (in_str s) x = Some gs"
    using writeScalar_typed str [OF V_Simple] by blast
  then show ?thesis using V_Simple sound_frames [OF s writeScalar_shape] by (simp add: store_target_def sound_safe)
next
  case (V_Array n i)
  then show ?thesis using s sound_frames [OF s writeArray_shape]
    by (auto simp: store_target_def safe_def sound_clean split: option.splits)
qed


subsection \<open>Statements\<close>

definition ensures :: "('b \<Rightarrow> bool) \<Rightarrow> 'b option \<Rightarrow> bool" where
  "ensures P m \<longleftrightarrow> (\<forall>x. m = Some x \<longrightarrow> P x)"

lemma ensures_Some: "P x \<Longrightarrow> ensures P (Some x)" and ensures_None: "ensures P None"
  by (simp_all add: ensures_def)

lemma ensures_if: "(c \<Longrightarrow> ensures P m) \<Longrightarrow> (\<not> c \<Longrightarrow> ensures P m') \<Longrightarrow> ensures P (if c then m else m')"
  by simp

lemma ensures_bind: "ensures Q m \<Longrightarrow> (\<And>x. Q x \<Longrightarrow> ensures P (f x)) \<Longrightarrow> ensures P (m \<bind> f)"
  by (cases m) (auto simp: ensures_def)

lemma ensures_evaluate:
  assumes "typed_expr a ev" and "flow_kept (ev e)" and "sound a s" and "in_flow s = F_Normal"
    and "\<not> error_in (snd (expressionType a e))"
    and "\<And>v t. sound a t \<Longrightarrow> in_flow t = F_Normal \<Longrightarrow> in_failed t \<or> rv_type v = fst (expressionType a e) \<Longrightarrow> ensures P (f (v, t))"
  shows "ensures P (evaluate ev e s \<bind> f)"
proof (cases "evaluate ev e s")
  case (Some vt)
  obtain v t where vt: "vt = (v, t)" by (cases vt)
  then have "ensures P (f (v, t))"
    using typed_evaluate [OF assms(1,3,5)] evaluate_flow [where ev = ev and e = e, OF assms(2)] Some assms(4)
    by (intro assms(6)) simp_all
  then show ?thesis using Some vt by simp
qed (simp add: ensures_None)

lemma ensures_variable:
  assumes "typed_expr a ev" and "\<And>e. flow_kept (ev e)" and "sound a s" and "in_flow s = F_Normal"
    and "\<not> error_in (snd (expressionType a (E_Var v)))"
    and "\<And>t. sound a t \<Longrightarrow> in_flow t = F_Normal \<Longrightarrow> (\<And>n. v = V_Simple n \<Longrightarrow> in_str t = n) \<Longrightarrow>
      in_failed t \<or> rv_type (in_current_value t) = fst (expressionType a (E_Var v)) \<Longrightarrow> ensures P (f t)"
  shows "ensures P (visit_variable ev v s \<bind> f)"
proof (cases "visit_variable ev v s")
  case (Some t)
  have str: "in_str t = n" if "v = V_Simple n" for n
    using Some that by (auto simp: visit_simple_variable_def Let_def set_value_def runtimeError_def split: option.splits)
  have "in_flow t = F_Normal"
  proof -
    have "flow_kept (visit_variable ev v)" by (rule visit_variable_flow) (rule assms(2))
    then show ?thesis using Some assms(4) by (simp add: flow_kept_def)
  qed
  then have "ensures P (f t)"
    using visit_variable_typed [OF assms(1,3,5) Some] by (intro assms(6) str) blast+
  then show ?thesis using Some by simp
qed (simp add: ensures_None)

lemma ensures_block:
  "block_safe bl \<Longrightarrow> sound a s \<Longrightarrow> in_flow s = F_Normal \<Longrightarrow> braced b \<Longrightarrow> declares_block b \<inter> dom (global_scope a) = {} \<Longrightarrow>
   \<not> errs (sem_block b a) \<Longrightarrow> ensures (safe a) (bl b s)"
  using block_safeD by (auto simp: ensures_def)

lemma assignment_safe:
  assumes "typed_expr a ev" and "\<And>e. flow_kept (ev e)" and s: "sound a s" "in_flow s = F_Normal"
    and "\<not> error_in (assignment_reports a v e)"
  shows "ensures (safe a) (visit_assignment ev v e s)"
proof -
  have ok: "\<not> error_in (snd (expressionType a (E_Var v)))" "\<not> error_in (snd (expressionType a e))"
    using assms(5) by (auto simp: assignment_reports_def split: prod.splits)
  have "fst (expressionType a (E_Var v)) \<noteq> T_Void"
    using variable_not_void [OF s(1) ok(1)] .
  then have eq: "fst (expressionType a e) = fst (expressionType a (E_Var v))"
    using assms(5) by (auto simp: assignment_reports_def split: prod.splits if_splits)
  show ?thesis
    unfolding visit_assignment_def
    by (auto simp: eq sound_safe intro!: ensures_evaluate [OF assms(1,2)] ensures_variable [OF assms(1,2)] ensures_Some
        store_safe s ok)
qed


lemma condition_ok: "\<not> error_in (requireConditionType a c) \<Longrightarrow> \<not> error_in (snd (expressionType a c))"
  by (auto simp: requireConditionType_def split: prod.splits)

lemma ensures_block_emit:
  "block_safe bl \<Longrightarrow> braced b \<Longrightarrow> declares_block b \<inter> dom (global_scope a) = {} \<Longrightarrow> \<not> errs (sem_block b (emit rs a)) \<Longrightarrow>
   sound a s \<Longrightarrow> in_flow s = F_Normal \<Longrightarrow> ensures (safe a) (bl b s)"
  using ensures_block [of bl "emit rs a" s b] by (simp add: ensures_def)

lemma if_safe:
  assumes "typed_expr a ev" and "\<And>e. flow_kept (ev e)" and "block_safe bl" and "sound a s" "in_flow s = F_Normal"
    and "braced b" and "declares_block b \<inter> dom (global_scope a) = {}" and ok: "\<not> errs (sem_block b (emit (requireConditionType a c) a))"
  shows "ensures (safe a) (visit_if ev bl c b s)"
proof -
  have "\<not> errs (emit (requireConditionType a c) a)" using ok errs_block by blast
  then have "\<not> error_in (snd (expressionType a c))" using condition_ok by simp
  then show ?thesis
    unfolding visit_if_def using ensures_block_emit [OF assms(3,6,7) ok]
    by (auto simp: sound_safe intro!: ensures_evaluate [OF assms(1,2,4,5)] ensures_Some)
qed

lemma if_else_safe:
  assumes "typed_expr a ev" and "\<And>e. flow_kept (ev e)" and "block_safe bl" and "sound a s" "in_flow s = F_Normal"
    and "braced b1" and "braced b2" and "(declares_block b1 \<union> declares_block b2) \<inter> dom (global_scope a) = {}"
    and ok: "\<not> errs (sem_block b2 (sem_block b1 (emit (requireConditionType a c) a)))"
  shows "ensures (safe a) (visit_if_else ev bl c b1 b2 s)"
proof -
  let ?a = "emit (requireConditionType a c) a" and ?b = "sem_block b1 (emit (requireConditionType a c) a)"
  have ok1: "\<not> errs ?b" using ok errs_block by blast
  then have "\<not> errs ?a" using errs_block by blast
  then have c: "\<not> error_in (snd (expressionType a c))" using condition_ok by simp
  have sig: "same_signatures ?a ?b" "an_return_types ?b = an_return_types ?a" "an_local_scopes ?b = an_local_scopes ?a"
    using context_signatures [OF context_block] context_block [of ?a b1] braced_scopes [OF assms(6)] by (auto simp: context_kept_def)
  then have same: "sound ?b t = sound a t" "global_scope ?b = global_scope a" for t
    using sound_same [OF sig(1,3,2)] same_global_scope [OF sig(1)] by simp_all
  have "declares_block b2 \<inter> dom (global_scope ?b) = {}" using assms(8) same(2) by auto
  then have 2: "ensures (safe a) (bl b2 t)" if "sound a t" "in_flow t = F_Normal" for t
    using ensures_block [OF assms(3) _ that(2) assms(7) _ ok] that(1) same(1) by (simp add: ensures_def safe_def)
  have 1: "ensures (safe a) (bl b1 t)" if "sound a t" "in_flow t = F_Normal" for t
    using ensures_block_emit [OF assms(3,6) _ ok1 that] assms(8) by blast
  show ?thesis
    unfolding visit_if_else_def using c 1 2
    by (auto simp: sound_safe intro!: ensures_evaluate [OF assms(1,2,4,5)] ensures_Some)
qed

lemma goto_safe:
  assumes "typed_expr a ev" and "\<And>e. flow_kept (ev e)" and "sound a s" "in_flow s = F_Normal"
    and "\<not> error_in (goto_reports a c l)"
  shows "ensures (safe a) (visit_goto ev c l s)"
  using assms(3,5) condition_ok
  by (cases c) (auto simp: visit_goto_def goto_reports_def sound_safe intro!: ensures_evaluate [OF assms(1,2,3,4)] ensures_Some)

lemma return_safe:
  assumes "typed_expr a ev" and "\<And>e. flow_kept (ev e)" and s: "sound a s" "in_flow s = F_Normal"
    and "\<not> error_in (return_reports a e)"
  shows "ensures (safe a) (visit_return ev e s)"
proof -
  obtain ty rts where ty: "an_return_types a = ty # rts" using assms(5) by (auto simp: return_reports_def split: list.splits)
  then have depth: "0 < in_call_depth s" using s(1) by (simp add: sound_def return_ok_def)
  show ?thesis
  proof (cases e)
    case None
    then show ?thesis using depth s by (auto simp: visit_return_def sound_safe intro!: ensures_Some)
  next
    case (Some x)
    then have ok: "\<not> error_in (snd (expressionType a x))" "fst (expressionType a x) = ty"
      using assms(5) ty by (auto simp: return_reports_def split: if_splits prod.splits)
    have "safe a (t\<lparr>in_return_value := v\<rparr>)" if "sound a t" "in_failed t" for t v
      using sound_clean [OF that(1)] that(2) by (simp add: safe_failed)
    moreover have "safe a (t\<lparr>in_return_value := v, in_flow := F_Return\<rparr>)" if "sound a t" "rv_type v = ty" for t v
    proof -
      have "sound a (t\<lparr>in_return_value := v\<rparr>)" using that ty by (auto simp: sound_def return_ok_def)
      then show ?thesis by (simp add: sound_safe)
    qed
    ultimately show ?thesis unfolding visit_return_def Some using depth ok
      by (auto intro!: ensures_evaluate [OF assms(1,2) s] ensures_Some)
  qed
qed

lemma read_safe:
  assumes ev: "typed_expr a ev" "\<And>e. flow_kept (ev e)" and "\<forall>v \<in> set vs. \<not> error_in (read_reports a v)"
  shows "sound a s \<Longrightarrow> in_flow s = F_Normal \<Longrightarrow> ensures (safe a) (visit_read ev vs s)"
  using assms(3)
proof (induction vs arbitrary: s)
  case (Cons v vs)
  have ok: "\<not> error_in (snd (expressionType a (E_Var v)))"
    using Cons.prems(3) by (auto simp: read_reports_def split: prod.splits)
  have typed: "rv_type x = rv_type w" if "cin_extract w ins = Some x" for w ins x
    using that by (auto simp: cin_extract_def split: if_splits list.splits stdin_answer.splits)
  have IH: "ensures (safe a) (visit_read ev vs t)" if "sound a t" "in_flow t = F_Normal" for t
    using Cons.IH [OF that] Cons.prems(3) by simp
  have store: "safe a (store_target v x m1 m2 (t\<lparr>in_stdin := ins\<rparr>))"
    if "sound a t" "\<And>n. v = V_Simple n \<Longrightarrow> in_str t = n" "rv_type x = fst (expressionType a (E_Var v))" for t x m1 m2 ins
    using that by (intro store_safe ok) simp_all
  show ?case
    by (auto simp: sound_safe Let_def intro!: ensures_variable [OF ev Cons.prems(1,2) ok] ensures_Some IH store
        safe_sound [OF store] split: option.split dest!: typed)
qed (simp add: sound_safe ensures_Some)


lemma print_safe:
  assumes ev: "typed_expr a ev" "\<And>e. flow_kept (ev e)" and "\<forall>p \<in> set ps. \<not> error_in (print_reports a p)"
  shows "sound a s \<Longrightarrow> in_flow s = F_Normal \<Longrightarrow> ensures (safe a) (visit_print_items ev first ps s)"
  using assms(3)
proof (induction ps arbitrary: s first)
  case (Cons p ps)
  have IH: "ensures (safe a) (visit_print_items ev False ps t)" if "sound a t" "in_flow t = F_Normal" for t
    using Cons.IH [OF that] Cons.prems(3) by simp
  show ?case
  proof (cases p)
    case (P_Expr e)
    then have "\<not> error_in (snd (expressionType a e))" using Cons.prems(3) by (auto split: prod.splits)
    then show ?thesis unfolding P_Expr visit_print_items.simps Let_def AST_PRINTABLE_ITEM.case
      using Cons.prems(1,2) by (auto simp: sound_safe intro!: ensures_evaluate [OF ev] ensures_Some IH)
  next
    case (P_String t)
    then show ?thesis unfolding P_String visit_print_items.simps Let_def AST_PRINTABLE_ITEM.case
      using Cons.prems(1,2) by (auto intro!: ensures_evaluate [OF ev] IH)
  qed
qed (simp add: sound_safe ensures_Some)

lemma report_safe:
  assumes ev: "typed_expr a ev" "\<And>e. flow_kept (ev e)" and "sound a s" "in_flow s = F_Normal"
    and "\<not> error_in (all_int a [i, w, t] r)"
  shows "ensures (safe a) (visit_greenai_report ev wl i w t s)"
proof -
  have ok: "\<not> error_in (snd (expressionType a i))" "\<not> error_in (snd (expressionType a w))" "\<not> error_in (snd (expressionType a t))"
    using assms(5) by (simp_all add: all_int_def)
  show ?thesis
    unfolding visit_greenai_report_def
    by (auto simp: sound_safe Let_def ok intro!: ensures_evaluate [OF ev] assms(3,4) ensures_Some split: option.split)
qed

lemma call_statement_safe:
  assumes ev: "typed_expr a ev" "\<And>e. flow_kept (ev e)" and bl: "body_safe bl" and s: "sound a s" and ok: "\<not> error_in (validateCallTypes a f (map E_Var ps))"
  shows "ensures (safe a) (visit_call_statement ev bl f ps s)"
  unfolding ensures_def
proof (intro allI impI)
  fix t
  assume run: "visit_call_statement ev bl f ps s = Some t"
  obtain vs u where u: "evaluate_arguments ev (map E_Var ps) [] s = Some (vs, u)"
    using run by (auto simp: visit_call_statement_def split: bind_splits)
  note typed = call_arguments_typed [OF ev(1) bl s ok [unfolded validateCallTypes_def] u]
  show "safe a t"
  proof (cases "in_failed u")
    case False
    then obtain b r where "invokeFunction bl f vs u = Some (b, r, t)"
      using run u by (auto simp: visit_call_statement_def split: bind_splits)
    then show ?thesis using typed False by (auto simp: safe_def sound_clean)
  qed (use run u typed in \<open>simp add: visit_call_statement_def sound_safe\<close>)
qed


subsection \<open>Loops\<close>

text \<open>What loops need beyond that: visiting a variable leaves its name, and no goto leaves a block.\<close>

definition names_target :: "(AST_EXPRESSION \<Rightarrow> visitor) \<Rightarrow> bool" where
  "names_target ev \<longleftrightarrow> (\<forall>n s t. ev (E_Var (V_Simple n)) s = Some t \<longrightarrow> in_str t = n)"

definition no_goto :: "(AST_BLOCK \<Rightarrow> visitor) \<Rightarrow> bool" where
  "no_goto bl \<longleftrightarrow> (\<forall>b s t. in_flow s = F_Normal \<longrightarrow> bl b s = Some t \<longrightarrow> in_failed t \<or> in_flow t \<noteq> F_Goto)"

definition round_ok :: "analyzer \<Rightarrow> bool \<times> interp \<Rightarrow> bool" where
  "round_ok a r \<longleftrightarrow> (if fst r then sound a (snd r) \<and> in_flow (snd r) = F_Normal else safe a (snd r))"

lemma round_ok_simps [simp]:
  "round_ok a (True, t) \<longleftrightarrow> sound a t \<and> in_flow t = F_Normal" "round_ok a (False, t) \<longleftrightarrow> safe a t"
  by (simp_all add: round_ok_def)

lemma ensures_target:
  assumes "typed_expr a ev" and "flow_kept (ev (E_Var v))" and "names_target ev" and "sound a s" and "in_flow s = F_Normal"
    and "\<not> error_in (snd (expressionType a (E_Var v)))"
    and "\<And>x t. sound a t \<Longrightarrow> in_flow t = F_Normal \<Longrightarrow> (\<And>n. v = V_Simple n \<Longrightarrow> in_str t = n) \<Longrightarrow>
      in_failed t \<or> rv_type x = fst (expressionType a (E_Var v)) \<Longrightarrow> ensures P (f (x, t))"
  shows "ensures P (evaluate ev (E_Var v) s \<bind> f)"
proof (cases "evaluate ev (E_Var v) s")
  case (Some xt)
  obtain x t where xt: "xt = (x, t)" by (cases xt)
  have str: "in_str t = n" if "v = V_Simple n" for n
    using Some xt that assms(3) by (auto simp: evaluate_def names_target_def split: bind_splits)
  have "in_flow t = F_Normal" using evaluate_flow [where ev = ev and e = "E_Var v", OF assms(2)] Some xt assms(5) by simp
  then have "ensures P (f (x, t))"
    using typed_evaluate [OF assms(1,4,6), of x t] Some xt by (intro assms(7) str) blast+
  then show ?thesis using Some xt by simp
qed (simp add: ensures_None)

lemma ensures_loop_body:
  assumes "block_safe bl" and "no_goto bl" and "braced b" and "declares_block b \<inter> dom (global_scope a) = {}"
    and "\<not> errs (sem_block b (deeper (emit rs a)))" and "sound a s" and "in_flow s = F_Normal"
    and "\<And>t. safe a t \<Longrightarrow> in_failed t \<or> in_flow t \<noteq> F_Goto \<Longrightarrow> ensures P (f t)"
  shows "ensures P (bl b s \<bind> f)"
proof (rule ensures_bind)
  show "ensures (\<lambda>t. safe a t \<and> (in_failed t \<or> in_flow t \<noteq> F_Goto)) (bl b s)"
    using ensures_block [of bl "deeper (emit rs a)" s b] assms(1-7) by (auto simp: ensures_def no_goto_def)
qed (use assms(8) in blast)

lemma while_round_safe:
  assumes "typed_expr a ev" and "\<And>e. flow_kept (ev e)" and "block_safe bl" "no_goto bl" and "sound a s" "in_flow s = F_Normal"
    and "braced b" "declares_block b \<inter> dom (global_scope a) = {}"
    and ok: "\<not> errs (sem_block b (deeper (emit (requireConditionType a c) a)))"
  shows "ensures (round_ok a) (while_round ev bl c b s)"
proof -
  have "\<not> errs (deeper (emit (requireConditionType a c) a))" using ok errs_block by blast
  then have c: "\<not> error_in (snd (expressionType a c))" using condition_ok by (simp add: deeper_def)
  have "in_flow t = F_Normal" if "in_flow t \<noteq> F_Return" "in_flow t \<noteq> F_Break" "in_flow t \<noteq> F_Continue" "in_flow t \<noteq> F_Goto" for t
    using that by (cases "in_flow t") auto
  then show ?thesis
    unfolding while_round_def using assms(5)
    by (auto simp: sound_safe safe_sound intro!: ensures_evaluate [OF assms(1,2,5,6) c] ensures_Some
        ensures_loop_body [OF assms(3,4,7,8) ok])
qed


lemma loop_store_safe:
  assumes "sound a s" and "\<not> error_in (snd (expressionType a (E_Var v)))" and "fst (expressionType a (E_Var v)) = T_Int"
    and "\<And>n. v = V_Simple n \<Longrightarrow> in_str s = n"
  shows "safe a (loop_store v i s)"
  unfolding loop_store_def using assms by (intro store_safe) simp_all

lemma loop_store_flow [simp]: "in_flow (loop_store v i s) = in_flow s"
  by (simp add: loop_store_def)

definition for_reports :: "analyzer \<Rightarrow> AST_VARIABLE \<Rightarrow> AST_EXPRESSION list \<Rightarrow> bool" where
  "for_reports a v es \<longleftrightarrow> (\<forall>e \<in> insert (E_Var v) (set es). \<not> error_in (snd (expressionType a e)) \<and> fst (expressionType a e) = T_Int)"

lemma for_round_safe:
  assumes ev: "typed_expr a ev" "\<And>e. flow_kept (ev e)" "names_target ev" and "block_safe bl" "no_goto bl"
    and s: "sound a s" "in_flow s = F_Normal" and "braced b" "declares_block b \<inter> dom (global_scope a) = {}"
    and ints: "for_reports a v [from, step, to]" and ok: "\<not> errs (sem_block b (deeper (emit rs a)))"
  shows "ensures (round_ok a) (for_round ev bl v step to b s)"
proof -
  have v: "\<not> error_in (snd (expressionType a (E_Var v)))" "fst (expressionType a (E_Var v)) = T_Int"
    and st: "\<not> error_in (snd (expressionType a step))" and lim: "\<not> error_in (snd (expressionType a to))"
    using ints by (simp_all add: for_reports_def)
  have normal: "in_flow t = F_Normal" if "in_flow t \<noteq> F_Return" "in_flow t \<noteq> F_Break" "in_flow t \<noteq> F_Continue" "in_flow t \<noteq> F_Goto" for t
    using that by (cases "in_flow t") auto
  have after: "ensures (round_ok a) (do {
      (x, u) \<leftarrow> evaluate ev (E_Var v) t;
      if in_failed u then Some (False, u)
      else let w = loop_store v (wrapAdd (rv_int x) k) u in Some (\<not> in_failed w, w)})"
    if "sound a t" "in_flow t = F_Normal" for t k
  proof (rule ensures_target [OF ev(1,2,3) that v(1)])
    fix x u
    assume u: "sound a u" "in_flow u = F_Normal" "\<And>n. v = V_Simple n \<Longrightarrow> in_str u = n"
    have "safe a (loop_store v i u)" for i by (rule loop_store_safe [OF u(1) v u(3)])
    then show "ensures (round_ok a) (case (x, u) of (x, u) \<Rightarrow> if in_failed u then Some (False, u)
        else let w = loop_store v (wrapAdd (rv_int x) k) u in Some (\<not> in_failed w, w))"
      using u(1,2) by (auto simp: Let_def round_ok_def sound_safe safe_sound intro!: ensures_Some)
  qed
  have body: "ensures (round_ok a) (bl b t \<bind> (\<lambda>s4.
      if in_failed s4 \<or> in_flow s4 = F_Return then Some (False, s4)
      else if in_flow s4 = F_Break then Some (False, s4\<lparr>in_flow := F_Normal\<rparr>)
      else let s5 = (if in_flow s4 = F_Continue then s4\<lparr>in_flow := F_Normal\<rparr> else s4) in do {
        (x, u) \<leftarrow> evaluate ev (E_Var v) s5;
        if in_failed u then Some (False, u)
        else let w = loop_store v (wrapAdd (rv_int x) k) u in Some (\<not> in_failed w, w)}))"
    if "sound a t" "in_flow t = F_Normal" for t k
    using normal by (auto simp: Let_def [of "if _ then _ else _"] sound_safe safe_sound
        intro!: ensures_loop_body [OF assms(4,5,8,9) ok that] ensures_Some after)
  show ?thesis
    unfolding for_round_def using s(1)
    by (auto simp: sound_safe safe_failed intro!: ensures_evaluate [OF ev(1,2) s v(1)] ensures_evaluate [OF ev(1,2) _ _ st]
        ensures_evaluate [OF ev(1,2) _ _ lim] ensures_Some body)
qed

lemma visit_for_safe:
  assumes ev: "typed_expr a ev" "\<And>e. flow_kept (ev e)" and s: "sound a s" "in_flow s = F_Normal"
    and ints: "for_reports a v [from, step, to]" and rounds: "\<And>t. sound a t \<Longrightarrow> in_flow t = F_Normal \<Longrightarrow> ensures (safe a) (rounds t)"
  shows "ensures (safe a) (visit_for ev rounds v from s)"
proof -
  have v: "\<not> error_in (snd (expressionType a (E_Var v)))" "fst (expressionType a (E_Var v)) = T_Int"
    and fr: "\<not> error_in (snd (expressionType a from))"
    using ints by (simp_all add: for_reports_def)
  have store: "safe a (loop_store v i u)" if "sound a u" "\<And>n. v = V_Simple n \<Longrightarrow> in_str u = n" for u i
    by (rule loop_store_safe [OF that(1) v that(2)])
  show ?thesis
    unfolding visit_for_def
    by (auto simp: sound_safe Let_def intro!: ensures_evaluate [OF ev s fr] ensures_variable [OF ev _ _ v(1)] ensures_Some
        store safe_sound [OF store] rounds)
qed


subsection \<open>All statements\<close>

text \<open>The loops the statements call, by what they need of their syntax.\<close>

definition for_safe :: "for_loop \<Rightarrow> bool" where
  "for_safe fl \<longleftrightarrow> (\<forall>a v from step to b rs s. sound a s \<longrightarrow> in_flow s = F_Normal \<longrightarrow> for_reports a v [from, step, to] \<longrightarrow> braced b \<longrightarrow>
     declares_block b \<inter> dom (global_scope a) = {} \<longrightarrow> \<not> errs (sem_block b (deeper (emit rs a))) \<longrightarrow>
     ensures (safe a) (fl v step to b s))"

lemma for_safeD:
  "for_safe fl \<Longrightarrow> sound a s \<Longrightarrow> in_flow s = F_Normal \<Longrightarrow> for_reports a v [start, step, to] \<Longrightarrow> braced b \<Longrightarrow>
   declares_block b \<inter> dom (global_scope a) = {} \<Longrightarrow> \<not> errs (sem_block b (deeper (emit rs a))) \<Longrightarrow>
   ensures (safe a) (fl v step to b s)"
  unfolding for_safe_def by blast

definition while_safe :: "while_loop \<Rightarrow> bool" where
  "while_safe wl \<longleftrightarrow> (\<forall>a c b s. sound a s \<longrightarrow> in_flow s = F_Normal \<longrightarrow> braced b \<longrightarrow>
     declares_block b \<inter> dom (global_scope a) = {} \<longrightarrow> \<not> errs (sem_block b (deeper (emit (requireConditionType a c) a))) \<longrightarrow>
     ensures (safe a) (wl c b s))"

definition expr_safe :: "(AST_EXPRESSION \<Rightarrow> visitor) \<Rightarrow> bool" where
  "expr_safe ev \<longleftrightarrow> (\<forall>a. typed_expr a ev) \<and> (\<forall>e. flow_kept (ev e))"

lemma expr_safeD: "expr_safe ev \<Longrightarrow> typed_expr a ev" "expr_safe ev \<Longrightarrow> flow_kept (ev e)"
  by (simp_all add: expr_safe_def)

lemma shallower_errs [simp]: "errs (shallower a) = errs a"
  by (simp add: shallower_def)

lemma expression_statement_ok:
  "\<not> error_in (expression_statement_reports a e) \<Longrightarrow> \<not> error_in (snd (expressionType a e))"
  by (cases e) (simp_all add: validateCallTypes_def)

lemma for_reports_ok:
  assumes "\<not> errs (sem_block b (deeper (emit (all_int a [E_Var v, from, step, to] (err c m)) a)))"
  shows "for_reports a v [from, step, to]"
proof -
  have "\<not> errs (deeper (emit (all_int a [E_Var v, from, step, to] (err c m)) a))" using assms errs_block by blast
  then show ?thesis by (simp add: deeper_def all_int_def for_reports_def)
qed

lemma ensures_statement:
  assumes ev: "expr_safe ev" and bl: "body_safe bl" "block_safe bl" and fl: "for_safe fl" and wl: "while_safe wl"
    and s: "sound a s" "in_flow s = F_Normal" and ready: "stmt_ready a st" "\<not> is_declaration st" and ok: "\<not> errs (sem_statement st a)"
  shows "ensures (safe a) (visit_statement h ev bl fl wl st s)"
proof -
  note ev' = expr_safeD [OF ev]
  note r = ready [unfolded stmt_ready_def]
  show ?thesis
  proof (cases st)
    case (S_Expr e)
    then show ?thesis using ok expression_statement_ok by (auto simp: sound_safe intro!: ensures_evaluate [OF ev' s] ensures_Some)
  next
    case (S_Call f ps)
    then show ?thesis using ok call_statement_safe [OF ev' bl(1) s(1)] by simp
  next
    case (S_Assign v e)
    then show ?thesis using ok assignment_safe [OF ev' s] by simp
  next
    case (S_Block b)
    then show ?thesis using r ok ensures_block [OF bl(2) s] by simp
  next
    case (S_If c b)
    then show ?thesis using r ok if_safe [OF ev' bl(2) s] by simp
  next
    case (S_IfElse c b1 b2)
    then show ?thesis using r ok if_else_safe [OF ev' bl(2) s] by simp
  next
    case (S_For v start step to b)
    then have ok': "\<not> errs (sem_block b (deeper (emit (all_int a [E_Var v, start, step, to] (err ''SHD3013''
      ''counted loop variable, start, step and bound must all have type int'')) a)))"
      using ok by simp
    note ints = for_reports_ok [OF ok']
    have "ensures (safe a) (fl v step to b t)" if "sound a t" "in_flow t = F_Normal" for t
      by (rule for_safeD [OF fl that ints _ _ ok']) (use r S_For in simp_all)
    then show ?thesis using S_For visit_for_safe [OF ev' s ints] by simp
  next
    case (S_While c b)
    then show ?thesis using r ok s wl [unfolded while_safe_def] by simp
  next
    case (S_Goto c l)
    then show ?thesis using ok goto_safe [OF ev' s] by simp
  next
    case (S_Read vs)
    then show ?thesis using ok read_safe [OF ev' _ s] by simp
  next
    case (S_Print ps)
    then show ?thesis using ok print_safe [OF ev' _ s] by simp
  next
    case (S_GreenReport w i p t)
    then show ?thesis using ok by (auto intro!: report_safe [OF ev' s])
  next
    case (S_Return e)
    then show ?thesis using ok return_safe [OF ev' s] by simp
  next
    case (S_Infer m i out)
    then show ?thesis using s(1) by (auto simp: visit_infer_def Let_def sound_safe intro!: ensures_Some split: option.split)
  qed (use s(1) ready(2) in \<open>auto simp: sound_safe visit_ai_infer_def visit_model_def visit_tensor_def visit_contract_def
      visit_measurement_def intro!: ensures_Some\<close>)
qed

lemma visit_statement_safe:
  assumes "expr_safe ev" and "body_safe bl" and "block_safe bl" and "for_safe fl" and "while_safe wl"
  shows "stmt_safe (visit_statement h ev bl fl wl)"
  unfolding stmt_safe_def
proof (intro allI impI)
  fix st a s t
  assume s: "sound a s" "in_flow s = F_Normal" and ready: "stmt_ready a st" and ok: "\<not> errs (sem_statement st a)"
    and run: "visit_statement h ev bl fl wl st s = Some t"
  show "safe (sem_statement st a) t"
  proof (cases "is_declaration st")
    case True
    then obtain b where "st = S_Decl b" by (cases st) auto
    then show ?thesis using declaration_safe s(1) ready ok run by auto
  next
    case False
    then have "safe a t" using ensures_statement [OF assms s ready False ok, of h] run by (simp add: ensures_def)
    then show ?thesis using sound_statement(2) False ready by (simp add: stmt_ready_def)
  qed
qed


subsection \<open>Blocks\<close>

text \<open>The analyzer state before each statement of a block.\<close>

fun before :: "AST_STATEMENT list \<Rightarrow> nat \<Rightarrow> analyzer \<Rightarrow> analyzer" where
  "before ss 0 a = a"
| "before ss (Suc k) a = sem_statement (ss ! k) (emit (jump_reports ss k (ss ! k)) (before ss k a))"

lemma sem_statements_before:
  "k \<le> length ss \<Longrightarrow> sem_statements ss k (drop k ss) (before ss k a) = before ss (length ss) a"
proof (induction "length ss - k" arbitrary: k)
  case (Suc d)
  then have "drop k ss = ss ! k # drop (Suc k) ss" by (simp add: Cons_nth_drop_Suc)
  then show ?case using Suc(1) [of "Suc k"] Suc(2,3) by simp
qed simp

lemma before_context: "context_kept a (before ss k a)"
proof (induction k)
  case (Suc k)
  then show ?case by (simp add: context_trans [OF context_trans [OF Suc context_emit] context_statement])
qed (simp add: context_refl)

lemma before_errs: "j \<le> k \<Longrightarrow> errs (before ss j a) \<Longrightarrow> errs (before ss k a)"
  by (induction k) (auto simp: le_Suc_eq errs_statement)

lemma before_scopes:
  assumes "\<forall>st \<in> set ss. nested_lexical st"
  shows "i \<le> j \<Longrightarrow> j \<le> length ss \<Longrightarrow> (\<forall>k. i \<le> k \<and> k < j \<longrightarrow> \<not> is_declaration (ss ! k)) \<Longrightarrow>
    an_local_scopes (before ss j a) = an_local_scopes (before ss i a)"
  by (induction j) (auto simp: le_Suc_eq statement_scopes assms)

lemma ready_context: "context_kept a b \<Longrightarrow> stmt_ready b st = stmt_ready a st"
proof -
  assume k: "context_kept a b"
  then have "length (an_local_scopes b) = length (an_local_scopes a)"
    by (cases "an_local_scopes a"; cases "an_local_scopes b") (auto simp: context_kept_def)
  then show ?thesis using k same_global_scope [OF context_signatures [OF k]]
    by (simp add: stmt_ready_def declarable_def unframed_def context_kept_def)
qed

lemma return_ok_context: "context_kept a b \<Longrightarrow> return_ok b t = return_ok a t"
  by (simp add: return_ok_def context_kept_def)

lemma sound_jump:
  assumes "\<forall>st \<in> set ss. nested_lexical st" and "goto_ok ss i (ss ! i)" and "ss ! i = S_Goto c l" and "i < length ss"
    and "label_index ss l = Some j" and "sound (before ss (Suc i) a) t"
  shows "sound (before ss (Suc j) a) t" "j < length ss"
proof -
  have lab: "ss ! j = S_Label l \<and> j < length ss"
    using assms(5) by (induction ss l arbitrary: j rule: label_index.induct) (auto split: if_splits)
  then show "j < length ss" by simp
  have "\<not> crosses_declaration ss i j" using assms(2,3,5) by (auto simp: goto_ok_def)
  then have inner: "\<not> is_declaration (ss ! k)" if "min i j < k" "k < max i j" for k
  proof -
    have "ss ! k \<in> set (drop (min i j + 1) (take (max i j) ss))"
      using that lab assms(4) by (auto simp: in_set_conv_nth intro!: exI [of _ "k - (min i j + 1)"])
    then show ?thesis using \<open>\<not> crosses_declaration ss i j\<close> by (auto simp: crosses_declaration_def list_ex_iff)
  qed
  have none: "\<not> is_declaration (ss ! k)" if "min i j \<le> k" "k \<le> max i j" for k
  proof (cases "k = i \<or> k = j")
    case False
    then show ?thesis using inner [of k] that by (auto simp: min_def max_def split: if_splits)
  qed (use lab assms(3) in auto)
  have same: "an_local_scopes (before ss (Suc k) a) = an_local_scopes (before ss (min i j) a)" if "min i j \<le> k" "k \<le> max i j" for k
    by (rule before_scopes [OF assms(1)]) (use that none lab assms(4) in auto)
  have sig: "same_signatures (before ss (Suc i) a) (before ss (Suc j) a)"
    using before_context [of a ss "Suc i"] before_context [of a ss "Suc j"] by (simp add: context_kept_def same_signatures_def)
  have "an_return_types (before ss (Suc j) a) = an_return_types (before ss (Suc i) a)"
    using before_context [of a ss "Suc i"] before_context [of a ss "Suc j"] by (simp add: context_kept_def)
  then show "sound (before ss (Suc j) a) t"
    using sound_same [OF sig] same [of i] same [of j] assms(6) by simp
qed


definition goto_from :: "(AST_STATEMENT \<Rightarrow> visitor) \<Rightarrow> bool" where
  "goto_from ex \<longleftrightarrow> (\<forall>st s t. in_flow s = F_Normal \<longrightarrow> ex st s = Some t \<longrightarrow> \<not> in_failed t \<longrightarrow> in_flow t = F_Goto \<longrightarrow>
     (\<exists>c. st = S_Goto c (in_goto_target t)))"

definition loop_safe :: "(AST_STATEMENT list \<Rightarrow> nat \<Rightarrow> visitor) \<Rightarrow> bool" where
  "loop_safe lp \<longleftrightarrow> (\<forall>ss pc a s. sound (before ss pc a) s \<longrightarrow> in_flow s = F_Normal \<longrightarrow> pc \<le> length ss \<longrightarrow>
     \<not> errs (before ss (length ss) a) \<longrightarrow> (\<forall>st \<in> set ss. stmt_ready a st) \<longrightarrow> gotos_ok ss \<longrightarrow>
     ensures (\<lambda>t. clean t \<and> (in_failed t \<or> return_ok a t)) (lp ss pc s))"

lemma loop_safeD:
  "loop_safe lp \<Longrightarrow> sound (before ss pc a) s \<Longrightarrow> in_flow s = F_Normal \<Longrightarrow> pc \<le> length ss \<Longrightarrow>
   \<not> errs (before ss (length ss) a) \<Longrightarrow> \<forall>st \<in> set ss. stmt_ready a st \<Longrightarrow> gotos_ok ss \<Longrightarrow>
   ensures (\<lambda>t. clean t \<and> (in_failed t \<or> return_ok a t)) (lp ss pc s)"
  unfolding loop_safe_def by blast

lemma block_step_safe:
  assumes ex: "stmt_safe ex" "goto_from ex" and lp: "loop_safe lp"
  shows "loop_safe (block_step ex lp)"
  unfolding loop_safe_def
proof (intro allI impI)
  fix ss pc a s
  assume s: "sound (before ss pc a) s" "in_flow s = F_Normal" "pc \<le> length ss" and ok: "\<not> errs (before ss (length ss) a)"
    and ready: "\<forall>st \<in> set ss. stmt_ready a st" and gotos: "gotos_ok ss"
  let ?P = "\<lambda>t. clean t \<and> (in_failed t \<or> return_ok a t)"
  have fin: "?P t" if "sound (before ss k a) t" for k t
    using that return_ok_context [OF before_context] by (simp add: sound_def)
  show "ensures ?P (block_step ex lp ss pc s)"
  proof (cases "pc < length ss \<and> \<not> in_failed s")
    case True
    show ?thesis
      unfolding ensures_def
    proof (intro allI impI)
      fix t
      assume run: "block_step ex lp ss pc s = Some t"
      obtain u where u: "ex (ss ! pc) s = Some u"
        using run True s(2) by (auto simp: block_step_def split: bind_splits)
      let ?b = "emit (jump_reports ss pc (ss ! pc)) (before ss pc a)"
      have "\<not> errs (sem_statement (ss ! pc) ?b)"
        using before_errs [of "Suc pc" "length ss" ss a] ok True by auto
      moreover have "stmt_ready ?b (ss ! pc)"
        using ready_context [OF context_trans [OF before_context context_emit]] True ready by auto
      ultimately have safe: "safe (before ss (Suc pc) a) u"
        using ex(1) s(1,2) u unfolding stmt_safe_def by simp
      note step = run True s(2) u
      consider "in_failed u" | "\<not> in_failed u" "in_flow u = F_Normal" | "\<not> in_failed u" "in_flow u = F_Goto"
        | "\<not> in_failed u" "in_flow u \<noteq> F_Normal" "in_flow u \<noteq> F_Goto" by blast
      then show "?P t"
      proof cases
        case 1
        then show ?thesis using step safe by (simp add: block_step_def safe_def)
      next
        case 2
        then show ?thesis using step loop_safeD [OF lp safe_sound [OF safe] 2(2) _ ok ready gotos]
          by (simp add: block_step_def ensures_def)
      next
        case 3
        obtain c where c: "ss ! pc = S_Goto c (in_goto_target u)" using ex(2) s(2) u 3 unfolding goto_from_def by blast
        have go: "goto_ok ss pc (ss ! pc)" using gotos True by (simp add: gotos_ok_def)
        then obtain k where k: "label_index ss (in_goto_target u) = Some k" using c unfolding goto_ok_def by blast
        note j = sound_jump [OF _ go c _ k safe_sound [OF safe 3(1)]]
        have "\<forall>st \<in> set ss. nested_lexical st" using ready by (simp add: stmt_ready_def)
        then have to: "sound (before ss (Suc k) a) u" "k < length ss" using j True by blast+
        show ?thesis using step 3 k to fin [OF to(1)] loop_safeD [OF lp _ _ _ ok ready gotos, of "Suc k" "u\<lparr>in_goto_transfers :=
            Suc (in_goto_transfers u), in_flow := F_Normal, in_goto_target := []\<rparr>"]
          by (auto simp: block_step_def Let_def ensures_def split: if_splits)
      next
        case 4
        then show ?thesis using step fin [OF safe_sound [OF safe]] by (simp add: block_step_def)
      qed
    qed
  qed (use fin [OF s(1)] in \<open>auto simp: block_step_def intro!: ensures_Some\<close>)
qed

end
