(* ===== verification/ProgramSafety.thy ===== *)
theory ProgramSafety
  imports SafeRuns
begin

section \<open>Type safety of accepted programs\<close>

text \<open>
  The induction on the fuel that closes the recursion of the visitors, and its consequence for
  whole programs: what the analyzer accepts, the interpreter runs without ever reporting an
  undeclared name, a type or arity mismatch or an escaped control-flow signal first. The
  theory ends with a program that shows why no local name may hide a global one.
\<close>

subsection \<open>Blocks and functions\<close>

lemma before_all: "sem_statements ss 0 ss a = before ss (length ss) a"
  using sem_statements_before [of 0 ss a] by simp

lemma enter_block_same:
  "same_signatures a (enter_block l ss a)" "an_return_types (enter_block l ss a) = an_return_types a"
  "an_local_scopes (enter_block l ss a) = (if l then Map.empty # an_local_scopes a else an_local_scopes a)"
  by (auto simp: enter_block_def Let_def same_signatures_def split: prod.splits)

lemma block_accepted:
  assumes "\<not> errs (sem_block (Block l ss) a)"
  shows "\<not> errs (before ss (length ss) (enter_block l ss a))" "gotos_ok ss"
  using assms gotos_block [OF assms] by (simp_all add: before_all)

lemma loop_block_grows: "block_loop h n ss 0 s = Some t \<Longrightarrow> store_grows s t \<and> calls_balanced s t"
  using store.block_related [of h "Suc n" "Block False ss" s t] calls.block_related [of h "Suc n" "Block False ss" s t] by simp

lemma enter_lexical_sound:
  assumes "sound a s"
  shows "sound (enter_block True ss a) (s\<lparr>in_frames := empty_frame # in_frames s\<rparr>)"
proof -
  let ?a = "enter_block True ss a"
  note e = enter_block_same [where a = a and l = True and ss = ss]
  obtain scs lf mid gf where f: "in_frames s = lf @ mid @ [gf]" "an_local_scopes a = scs @ unframed a"
    "list_all2 frame_matches scs lf" "list_all (hides_nothing (global_scope a)) mid" "frame_matches (global_scope a) gf"
    using assms by (auto simp: sound_def env_ok_def)
  have "env_ok ?a (empty_frame # in_frames s)"
    unfolding env_ok_def same_global_scope [OF e(1)] e(2,3) unframed_def
    using f empty_matches
    by (intro exI [of _ "Map.empty # scs"] exI [of _ "empty_frame # lf"] exI [of _ mid] exI [of _ gf]) (simp add: unframed_def)
  moreover have "scopes_ok ?a"
    using assms e(3) unfolding sound_def scopes_ok_def same_global_scope [OF e(1)] by simp
  ultimately show ?thesis
    using assms registry_ok_same [OF e(1)] e(2) by (simp add: sound_def return_ok_def)
qed

lemma accept_block_safe:
  assumes lp: "loop_safe (block_loop h n)"
  shows "block_safe (accept_block h (Suc n))"
  unfolding block_safe_def
proof (intro allI impI)
  fix b a s t
  assume s: "sound a s" "in_flow s = F_Normal" and b: "braced b" "declares_block b \<inter> dom (global_scope a) = {}"
    and ok: "\<not> errs (sem_block b a)" and run: "accept_block h (Suc n) b s = Some t"
  obtain ss where ss: "b = Block True ss" "\<forall>st \<in> set ss. nested_lexical st" using b(1) by (cases b) auto
  let ?a = "enter_block True ss a" and ?s = "s\<lparr>in_frames := empty_frame # in_frames s\<rparr>"
  note e = enter_block_same [where a = a and l = True and ss = ss]
  obtain u where u: "block_loop h n ss 0 ?s = Some u" "t = u\<lparr>in_frames := tl (in_frames u)\<rparr>"
    using run ss(1) by (auto split: bind_splits)
  have "declarable ?a"
    using s(1) e(2,3) by (auto simp: declarable_def unframed_def sound_def env_ok_def)
  then have "\<forall>st \<in> set ss. stmt_ready ?a st"
    using ss b(2) same_global_scope [OF e(1)] by (auto simp: stmt_ready_def)
  then have post: "clean u \<and> (in_failed u \<or> return_ok ?a u)"
    using loop_safeD [OF lp, of ss 0 ?a ?s] enter_lexical_sound [OF s(1)] s(2) block_accepted ok ss(1) u(1)
    by (simp add: ensures_def)
  have "map frame_shape (in_frames t) = map frame_shape (in_frames s)" "calls_balanced ?s u"
    using loop_block_grows [OF u(1)] u(2) by (simp_all add: store_grows_def)
  then show "safe a t"
    using post s(1) env_ok_shape [of a "in_frames s" "in_frames t"] e(2) u(2)
    by (auto simp: safe_def sound_def return_ok_def calls_balanced_def)
qed

lemma body_safe_block:
  assumes lp: "loop_safe (block_loop h n)"
  shows "body_safe (accept_block h (Suc n))"
  unfolding body_safe_def
proof (intro conjI allI impI)
  fix f b src fr s t ss
  assume ok: "\<not> errs (sem_function f b)" and s: "sound (enter_function_scope f b) (enter_function f src fr s)"
    and b: "an_local_scopes b = []" and ss: "fn_block f = Block False ss" "\<forall>st \<in> set ss. nested_lexical st"
    and names: "declares_block (fn_block f) \<inter> dom (global_scope b) = {}"
    and run: "accept_block h (Suc n) (fn_block f) (enter_function f src fr s) = Some t"
  let ?a = "enter_function_scope f b" and ?s = "enter_function f src fr s"
  let ?e = "enter_block False ss ?a"
  note e = enter_block_same [where a = ?a and l = False and ss = ss]
  have acc: "\<not> errs (sem_block (Block False ss) ?a)" using function_accepted(3) [OF ok] ss(1) by simp
  have "declarable ?e" using e b by (simp add: declarable_def unframed_def)
  then have "\<forall>st \<in> set ss. stmt_ready ?e st"
    using ss names same_global_scope [OF same_signatures_trans [OF enter_scope_signatures e(1)]] by (auto simp: stmt_ready_def)
  moreover have "sound ?e ?s" using sound_same [OF e(1) _ e(2)] e(3) s by simp
  moreover have "block_loop h n ss 0 ?s = Some t" using run ss(1) by simp
  ultimately have post: "clean t \<and> (in_failed t \<or> return_ok ?e t)"
    using loop_safeD [OF lp, of ss 0 ?e ?s] block_accepted [OF acc] by (simp add: ensures_def)
  show "clean t" using post by simp
  show "in_failed t \<or> (\<forall>name. check_function_end f name t = t) \<and> rv_type (in_return_value t) = fn_type f"
    using post accepted_function_quiet [OF ok run] e(2) by (auto simp: return_ok_def)
qed (use store.block_related calls.block_related in blast)+


subsection \<open>The induction\<close>

lemma accept_names: "names_target (accept_expr h n)"
  by (cases n) (auto simp: names_target_def visit_simple_variable_def Let_def set_value_def runtimeError_def split: option.splits)

lemma accept_no_goto: "no_goto (accept_block h n)"
  unfolding no_goto_def
proof (intro allI impI)
  fix b s t
  assume "in_flow s = F_Normal" "accept_block h n b s = Some t"
  then have "in_failed t \<or> in_flow t \<in> insert F_Normal (signals_block b)"
    using all_end [THEN conjunct2, THEN conjunct1, rule_format] unfolding ends_def by blast
  then show "in_failed t \<or> in_flow t \<noteq> F_Goto" using no_goto_signal [of b] by auto
qed

lemma accept_goto_from: "goto_from (accept_stmt h n)"
  unfolding goto_from_def
proof (intro allI impI)
  fix st s t
  assume s: "in_flow s = F_Normal" "accept_stmt h n st s = Some t" "\<not> in_failed t" "in_flow t = F_Goto"
  then have "is_transfer st"
    using all_end [THEN conjunct1, rule_format, OF s(1)] goto_signal unfolding ends_def by fastforce
  moreover obtain m where "n = Suc m" using s(2) by (cases n) auto
  ultimately show "\<exists>c. st = S_Goto c (in_goto_target t)"
    using s by (cases st) (auto simp: visit_goto_def split: option.splits bind_splits if_splits
        dest!: evaluate_flow [OF accept_expr_flow])
qed

lemma rounds_again:
  "ensures (round_ok a) r \<Longrightarrow> (\<And>t. sound a t \<Longrightarrow> in_flow t = F_Normal \<Longrightarrow> ensures (safe a) (again t)) \<Longrightarrow>
   ensures (safe a) (loop_again r again)"
  unfolding loop_again_def by (erule ensures_bind) (auto simp: round_ok_def intro: ensures_Some split: if_splits)

lemma all_safe:
  "expr_safe (accept_expr h n) \<and> stmt_safe (accept_stmt h n) \<and> block_safe (accept_block h n) \<and> body_safe (accept_block h n) \<and>
   loop_safe (block_loop h n) \<and> for_safe (for_rounds h n) \<and> while_safe (while_rounds h n)"
proof (induction n)
  case 0
  show ?case
    by (simp add: expr_safe_def typed_expr_def accept_expr_flow [of h 0, simplified] stmt_safe_def block_safe_def body_safe_def
        loop_safe_def for_safe_def while_safe_def ensures_None)
next
  case (Suc n)
  then have IH: "expr_safe (accept_expr h n)" "stmt_safe (accept_stmt h n)" "block_safe (accept_block h n)" "body_safe (accept_block h n)"
    "loop_safe (block_loop h n)" "for_safe (for_rounds h n)" "while_safe (while_rounds h n)" by simp_all
  have typed: "typed_expr a (accept_expr h n)" for a using IH(1) by (rule expr_safeD)
  have "expr_safe (accept_expr h (Suc n))"
    using visit_expression_typed [OF typed IH(4)] accept_expr_flow [of h "Suc n"] by (simp add: expr_safe_def)
  moreover have "stmt_safe (accept_stmt h (Suc n))"
    using visit_statement_safe [OF IH(1,4,3,6,7)] by simp
  moreover have "loop_safe (block_loop h (Suc n))"
    using block_step_safe [OF IH(2) accept_goto_from IH(5)] by simp
  moreover have "for_safe (for_rounds h (Suc n))"
    unfolding for_safe_def
  proof (intro allI impI)
    fix a v start step to b rs s
    assume l: "sound a s" "in_flow s = F_Normal" "for_reports a v [start, step, to]" "braced b"
      "declares_block b \<inter> dom (global_scope a) = {}" "\<not> errs (sem_block b (deeper (emit rs a)))"
    show "ensures (safe a) (for_rounds h (Suc n) v step to b s)"
      using rounds_again [OF for_round_safe [OF typed accept_expr_flow accept_names IH(3) accept_no_goto l(1,2,4,5,3,6)]]
        for_safeD [OF IH(6) _ _ l(3-6)] by simp
  qed
  moreover have "while_safe (while_rounds h (Suc n))"
    unfolding while_safe_def
  proof (intro allI impI)
    fix a c b s
    assume l: "sound a s" "in_flow s = F_Normal" "braced b" "declares_block b \<inter> dom (global_scope a) = {}"
      "\<not> errs (sem_block b (deeper (emit (requireConditionType a c) a)))"
    have "ensures (safe a) (while_rounds h n c b t)" if "sound a t" "in_flow t = F_Normal" for t
      using IH(7) that l(3-5) unfolding while_safe_def by blast
    then show "ensures (safe a) (while_rounds h (Suc n) c b s)"
      using rounds_again [OF while_round_safe [OF typed accept_expr_flow IH(3) accept_no_goto l]] by simp
  qed
  ultimately show ?case using accept_block_safe [OF IH(5)] body_safe_block [OF IH(5)] by blast
qed


subsection \<open>Programs\<close>

text \<open>
  The trees the parser builds: function bodies and the main code are not lexical blocks of their
  own, all nested blocks are, and the main code declares nothing outside a nested block.
\<close>

definition function_tree :: "AST_FUNCTION \<Rightarrow> bool" where
  "function_tree f \<longleftrightarrow> decl_wf (fn_parameters f) \<and>
     (case fn_block f of Block l ss \<Rightarrow> \<not> l \<and> (\<forall>st \<in> set ss. nested_lexical st))"

definition parse_tree :: "AST_PROGRAM \<Rightarrow> bool" where
  "parse_tree p \<longleftrightarrow> list_all function_tree (pg_functions p) \<and>
     (case pg_code_block p of Block l ss \<Rightarrow> \<not> l \<and> (\<forall>st \<in> set ss. nested_lexical st \<and> \<not> is_declaration st))"

definition local_names :: "AST_PROGRAM \<Rightarrow> string set" where
  "local_names p = declares_block (pg_code_block p) \<union>
     (\<Union>f \<in> set (pg_functions p). fst ` set (declared (fn_parameters f)) \<union> declares_block (fn_block f))"

definition global_names :: "AST_PROGRAM \<Rightarrow> string set" where
  "global_names p = fst ` set (declared (pg_decl_block p))"

lemma fold_map_of:
  "fold (\<lambda>d m. m(f d \<mapsto> g d)) ds m = m ++ map_of (rev (map (\<lambda>d. (f d, g d)) ds))"
  by (induction ds arbitrary: m) (auto simp: map_add_def fun_eq_iff split: option.splits)

lemma load_globals_scope:
  assumes "distinct (map fst (declared (pg_decl_block p)))"
  shows "global_scope (load_globals p a) = map_of (declared (pg_decl_block p))"
proof (rule ext)
  fix n
  let ?b = "pg_decl_block p"
  have "distinct (map fst (map (\<lambda>d. (sd_name d, sd_type d)) (db_typed_scalars ?b)))"
    "distinct (map fst (map (\<lambda>d. (ad_name d, ad_type d)) (db_typed_arrays ?b)))"
    using assms by (simp_all add: declared_def comp_def)
  then show "global_scope (load_globals p a) n = map_of (declared ?b) n"
    by (simp add: map_of_declared global_scope_def load_globals_def fold_map_of distinct_map_of_rev cong: option.case_cong)
qed

lemma register_accepted:
  assumes "\<not> errs (register_functions fs ns a)"
  shows "\<not> errs a \<and> distinct (map fn_name fs) \<and> fn_name ` set fs \<inter> ns = {} \<and>
    (\<forall>f \<in> set fs. an_function_arity (register_functions fs ns a) (fn_name f) = Some (arity_of f) \<and>
      an_function_return_types (register_functions fs ns a) (fn_name f) = Some (fn_type f) \<and>
      an_function_parameter_types (register_functions fs ns a) (fn_name f) = Some (parameter_types_of f)) \<and>
    (\<forall>n. n \<notin> fn_name ` set fs \<longrightarrow> an_function_arity (register_functions fs ns a) n = an_function_arity a n \<and>
      an_function_return_types (register_functions fs ns a) n = an_function_return_types a n \<and>
      an_function_parameter_types (register_functions fs ns a) n = an_function_parameter_types a n)"
  using assms
proof (induction fs ns a rule: register_functions.induct)
  case (2 f fs ns a)
  then show ?case by (auto simp: Let_def)
qed simp

lemma register_other:
  "an_local_scopes (register_functions fs ns a) = an_local_scopes a \<and> an_global_types (register_functions fs ns a) = an_global_types a \<and>
   an_global_array_types (register_functions fs ns a) = an_global_array_types a"
  by (induction fs ns a rule: register_functions.induct) (simp_all add: Let_def)

lemma function_keeps:
  assumes "an_local_scopes a = []"
  shows "same_signatures a (sem_function f a) \<and> an_local_scopes (sem_function f a) = []"
proof -
  have "context_kept (enter_function_scope f a) (sem_block (fn_block f) (enter_function_scope f a))" by (rule context_block)
  then show ?thesis
    using enter_scope_signatures [of a f] assms by (simp add: sem_function_def Let_def same_signatures_def context_kept_def)
qed

lemma functions_keep:
  assumes "an_local_scopes a = []"
  shows "same_signatures a (fold sem_function fs a) \<and> an_local_scopes (fold sem_function fs a) = []"
  using assms
proof (induction fs arbitrary: a)
  case (Cons f fs)
  then show ?case using function_keeps [OF Cons.prems, of f] Cons.IH [of "sem_function f a"] same_signatures_trans by auto
qed (simp add: same_signatures_def)

lemma functions_at:
  assumes "an_local_scopes a = []" and "\<not> errs (fold sem_function fs a)" and "f \<in> set fs"
  shows "\<exists>b. same_signatures a b \<and> an_local_scopes b = [] \<and> \<not> errs (sem_function f b)"
  using assms
proof (induction fs arbitrary: a)
  case (Cons g fs)
  show ?case
  proof (cases "f = g")
    case True
    have "\<not> errs (sem_function g a)" using Cons.prems(2) functions_context [of "sem_function g a" fs] by auto
    then show ?thesis using True Cons.prems(1) by (intro exI [of _ a]) (simp add: same_signatures_def)
  next
    case False
    then obtain b where "same_signatures (sem_function g a) b" "an_local_scopes b = []" "\<not> errs (sem_function f b)"
      using Cons.IH [of "sem_function g a"] Cons.prems function_keeps [OF Cons.prems(1)] by auto
    then show ?thesis using function_keeps [OF Cons.prems(1), of g] same_signatures_trans by blast
  qed
qed simp

lemma registered:
  "fold (\<lambda>f m. m(fn_name f \<mapsto> (f, src))) fs Map.empty n = Some (g, src') \<Longrightarrow> g \<in> set fs \<and> fn_name g = n"
  "n \<in> fn_name ` set fs \<Longrightarrow> fold (\<lambda>f m. m(fn_name f \<mapsto> (f, src))) fs Map.empty n \<noteq> None"
  unfolding fold_map_of by (auto dest!: map_of_SomeD simp: map_of_eq_None_iff image_image)

text \<open>The analyzer state the main code of an accepted program is checked in.\<close>

lemma accepted_start:
  assumes "accepts_program p SemanticAnalyzer_init"
  shows "\<exists>a. \<not> errs (sem_block (pg_code_block p) a) \<and> an_local_scopes a = [Map.empty] \<and> an_return_types a = [] \<and> an_loopDepth a = 0 \<and>
    global_scope a = map_of (declared (pg_decl_block p)) \<and> distinct (map fst (declared (pg_decl_block p))) \<and>
    (\<forall>(n, v) \<in> set (declared (pg_decl_block p)). vi_type v \<noteq> T_Void) \<and>
    (\<forall>f \<in> set (pg_functions p). an_function_arity a (fn_name f) = Some (arity_of f) \<and>
      an_function_return_types a (fn_name f) = Some (fn_type f) \<and>
      an_function_parameter_types a (fn_name f) = Some (parameter_types_of f) \<and>
      (\<exists>b. same_signatures a b \<and> an_local_scopes b = [] \<and> \<not> errs (sem_function f b))) \<and>
    (\<forall>n. n \<notin> fn_name ` set (pg_functions p) \<longrightarrow> an_function_arity a n = None)"
proof -
  define a0 where "a0 = load_globals p SemanticAnalyzer_init"
  define a1 where "a1 = sem_declarations (pg_decl_block p) a0"
  define a2 where "a2 = register_functions (pg_functions p) {} a1"
  define a3 where "a3 = fold sem_function (pg_functions p) a2"
  define a where "a = a3\<lparr>an_local_scopes := Map.empty # an_local_scopes a3\<rparr>"
  have ok: "\<not> errs (sem_block (pg_code_block p) a)"
    using assms by (simp add: accepts_program_def sem_program_def sem_functions_def sem_logic_block_def Let_def a_def a3_def
        a2_def a1_def a0_def errs_def [symmetric])
  then have ok3: "\<not> errs a3" using errs_block by (auto simp: a_def)
  then have ok2: "\<not> errs a2" using functions_context a3_def by blast
  note reg = register_accepted [OF ok2 [unfolded a2_def], folded a2_def]
  note decl = declarations_accepted [OF conjunct1 [OF reg, unfolded a1_def]]
  have s0: "an_local_scopes a0 = []" "an_return_types a0 = []" "an_loopDepth a0 = 0" "an_function_arity a0 = Map.empty"
    by (simp_all add: a0_def load_globals_def SemanticAnalyzer_init_def)
  have k1: "context_kept a0 a1" unfolding a1_def by (rule context_declarations)
  have s2: "an_local_scopes a2 = []" "an_return_types a2 = []" "an_loopDepth a2 = 0"
    using k1 s0 register_other register_context unfolding a2_def by (auto simp: context_kept_def)
  have s3: "same_signatures a2 a" "an_local_scopes a = [Map.empty]" "an_return_types a = []" "an_loopDepth a = 0"
    using functions_keep [OF s2(1), of "pg_functions p"] functions_context [of a2 "pg_functions p"] s2
    by (simp_all add: a_def a3_def same_signatures_def)
  have "global_scope a2 = global_scope a0"
    using k1 register_other unfolding a2_def by (auto simp: global_scope_def context_kept_def fun_eq_iff split: option.splits)
  then have "global_scope a = map_of (declared (pg_decl_block p))"
    using load_globals_scope [OF decl(3)] same_global_scope [OF s3(1)] by (simp add: a0_def)
  moreover have "\<exists>b. same_signatures a b \<and> an_local_scopes b = [] \<and> \<not> errs (sem_function f b)" if "f \<in> set (pg_functions p)" for f
    using functions_at [OF s2(1) _ that] ok3 s3(1) unfolding a3_def by (auto simp: same_signatures_def)
  moreover have "an_function_arity a n = None" if "n \<notin> fn_name ` set (pg_functions p)" for n
    using reg that k1 s0(4) s3(1) by (simp add: context_kept_def same_signatures_def)
  ultimately show ?thesis
    using ok s3 decl(2,3) reg by (intro exI [of _ a]) (auto simp: same_signatures_def)
qed


text \<open>The state in which the interpreter starts the main code.\<close>

definition started :: "AST_PROGRAM \<Rightarrow> string \<Rightarrow> stdin_answer list \<Rightarrow> interp" where
  "started p src input = registerFunctions (pg_functions p) src
     (initializeDeclarations (pg_decl_block p) (Interpreter_init src input))"

lemma failed_block: "in_failed s \<Longrightarrow> accept_block h n (Block False ss) s = Some t \<Longrightarrow> t = s"
  by (cases n; cases "n - 1") (auto simp: block_step_def)

lemma started_sound:
  assumes "\<not> in_trapped (started p src input)" and "list_all function_tree (pg_functions p)"
    and "local_names p \<inter> global_names p = {}" and "an_local_scopes a = [Map.empty]" and "an_return_types a = []"
    and g: "global_scope a = map_of (declared (pg_decl_block p))" and d: "distinct (map fst (declared (pg_decl_block p)))"
    and "\<forall>(n, v) \<in> set (declared (pg_decl_block p)). vi_type v \<noteq> T_Void"
    and sigs: "\<forall>f \<in> set (pg_functions p). an_function_arity a (fn_name f) = Some (arity_of f) \<and>
      an_function_return_types a (fn_name f) = Some (fn_type f) \<and>
      an_function_parameter_types a (fn_name f) = Some (parameter_types_of f) \<and>
      (\<exists>b. same_signatures a b \<and> an_local_scopes b = [] \<and> \<not> errs (sem_function f b))"
    and only: "\<forall>n. n \<notin> fn_name ` set (pg_functions p) \<longrightarrow> an_function_arity a n = None"
  shows "sound a (started p src input) \<and> in_flow (started p src input) = F_Normal"
proof -
  let ?s = "Interpreter_init src input"
  have frames: "in_frames ?s = empty_frame # []" by (simp add: Interpreter_init_def)
  have "frame_matches (Map.empty ++ map_of (declared (pg_decl_block p))) fr = frame_matches (global_scope a) fr" for fr
    by (simp add: g)
  then obtain fr where "initializeDeclarations (pg_decl_block p) ?s = trap (?s\<lparr>in_frames := [fr]\<rparr>) \<or>
      initializeDeclarations (pg_decl_block p) ?s = ?s\<lparr>in_frames := [fr]\<rparr> \<and> frame_matches (global_scope a) fr"
    using initializeDeclarations_typed [OF frames empty_matches d] by auto
  moreover have "\<not> in_trapped (initializeDeclarations (pg_decl_block p) ?s)"
    using assms(1) by (simp add: started_def registerFunctions_def)
  ultimately have fr: "initializeDeclarations (pg_decl_block p) ?s = ?s\<lparr>in_frames := [fr]\<rparr>" "frame_matches (global_scope a) fr"
    by (auto simp: trap_def)
  have dom: "dom (global_scope a) = global_names p" by (simp add: g global_names_def dom_map_of_conv_image_fst)
  have fok: "function_ok a f" if "f \<in> set (pg_functions p)" for f
  proof -
    have "function_tree f" using assms(2) that by (simp add: list_all_iff)
    then obtain ss where "fn_block f = Block False ss" "\<forall>st \<in> set ss. nested_lexical st" "decl_wf (fn_parameters f)"
      by (auto simp: function_tree_def split: AST_BLOCK.splits)
    moreover have "(fst ` set (declared (fn_parameters f)) \<union> declares_block (fn_block f)) \<inter> dom (global_scope a) = {}"
      using assms(3) that unfolding dom by (auto simp: local_names_def)
    ultimately show ?thesis using sigs that unfolding function_ok_def by blast
  qed
  define F where "F = in_functions (started p src input)"
  have F: "F = fold (\<lambda>f m. m(fn_name f \<mapsto> (f, src))) (pg_functions p) Map.empty"
    unfolding F_def started_def fr by (simp add: registerFunctions_def Interpreter_init_def)
  have 1: "fn_name f = name \<and> function_ok a f" if "F name = Some (f, src')" for name f src'
  proof -
    have "f \<in> set (pg_functions p) \<and> fn_name f = name"
      using that unfolding F by (rule registered(1))
    then show ?thesis using fok [of f] by simp
  qed
  have 2: "F name \<noteq> None" if "an_function_arity a name \<noteq> None" for name
  proof -
    have "name \<in> fn_name ` set (pg_functions p)" using only [rule_format, of name] that by argo
    then show ?thesis unfolding F by (rule registered(2))
  qed
  have "registry_ok a F" unfolding registry_ok_def using 1 2 by simp
  moreover have "env_ok a [fr]"
    unfolding env_ok_def using fr(2) assms(4,5) by (intro exI [of _ "[]"]) (simp add: unframed_def)
  moreover have "scopes_ok a" using assms(4,8) g by (auto simp: scopes_ok_def dest!: map_of_SomeD)
  moreover have "clean (started p src input)" unfolding started_def fr by (simp add: registerFunctions_def clean_def Interpreter_init_def)
  moreover have "in_frames (started p src input) = [fr]" "in_flow (started p src input) = F_Normal"
    unfolding started_def fr by (simp_all add: registerFunctions_def Interpreter_init_def)
  ultimately show ?thesis using assms(5) unfolding sound_def return_ok_def F_def by simp
qed


lemma started_trapped: "in_trapped (started p src input) \<Longrightarrow> in_failed (started p src input)"
  using initializeDeclarations_forms [of "pg_decl_block p" "Interpreter_init src input"]
  by (auto simp: started_def registerFunctions_def trap_def runtimeError_def Interpreter_init_def)

lemma main_code_clean:
  assumes s: "sound a s" "in_flow s = F_Normal" and ok: "\<not> errs (sem_block (Block False ss) a)"
    and ss: "\<forall>st \<in> set ss. nested_lexical st \<and> \<not> is_declaration st" and "declares_block (Block False ss) \<inter> dom (global_scope a) = {}"
    and run: "accept_block h n (Block False ss) s = Some t"
  shows "clean t"
proof -
  obtain m where m: "n = Suc m" "block_loop h m ss 0 s = Some t" using run by (cases n) auto
  let ?e = "enter_block False ss a"
  note e = enter_block_same [where a = a and l = False and ss = ss]
  have "\<forall>st \<in> set ss. stmt_ready ?e st"
    using ss assms(5) same_global_scope [OF e(1)] by (auto simp: stmt_ready_def)
  moreover have "sound ?e s" using sound_same [OF e(1) _ e(2)] e(3) s(1) by simp
  moreover have "loop_safe (block_loop h m)" using all_safe by blast
  ultimately show ?thesis
    using loop_safeD [of "block_loop h m" ss 0 ?e s] block_accepted [OF ok] s(2) m(2) by (simp add: ensures_def)
qed

text \<open>
  C1: Type safety. Take a program that the parser can build, that the analyzer accepts, and in
  which no parameter and no local declaration has the name of a global variable. Whatever the
  input and the AI runtime, and however long it runs: if its run reports anything, the first
  report is an invalid arithmetic operation, an array index out of bounds, a zero loop step,
  an exhausted call or goto budget, unreadable input, or a unary operator other than minus,
  which the parser never builds. It is never an undeclared name, a type or arity mismatch, a
  missing function or an escaped control-flow signal; and the run counts as failed only if it
  reports or hits undefined arithmetic.
\<close>

theorem accepted_program_type_safe:
  assumes "accepts_program p SemanticAnalyzer_init" and "parse_tree p" and "local_names p \<inter> global_names p = {}"
    and "visit_program h n p (Interpreter_init src input) = Some t"
  shows "in_trapped t \<or> in_errors t = [] \<and> \<not> in_failed t \<or>
    (\<exists>path code text rest. in_errors t = (path, code, text) # rest \<and> permitted code text)"
proof -
  obtain ss where ss: "pg_code_block p = Block False ss" "\<forall>st \<in> set ss. nested_lexical st \<and> \<not> is_declaration st"
    using assms(2) by (auto simp: parse_tree_def split: AST_BLOCK.splits)
  obtain u where u: "accept_block h n (Block False ss) (started p src input) = Some u"
    "t = (if \<not> in_failed u \<and> in_flow u \<noteq> F_Normal
      then runtimeError ''SHD7004'' ''control-flow signal escaped the top-level program'' u else u)"
    using assms(4) ss(1) by (auto simp: visit_program_def started_def Interpreter_init_def split: bind_splits)
  show ?thesis
  proof (cases "in_trapped (started p src input)")
    case True
    then show ?thesis using u failed_block [OF started_trapped [OF True] u(1)] started_trapped by simp
  next
    case False
    obtain a where a: "\<not> errs (sem_block (pg_code_block p) a)" "an_loopDepth a = 0" "an_return_types a = []"
      "global_scope a = map_of (declared (pg_decl_block p))" "sound a (started p src input)" "in_flow (started p src input) = F_Normal"
      using accepted_start [OF assms(1)] started_sound [OF False _ assms(3)] assms(2) unfolding parse_tree_def by blast
    have "declares_block (Block False ss) \<inter> dom (global_scope a) = {}"
      using assms(3) ss(1) a(4) by (auto simp: local_names_def global_names_def dom_map_of_conv_image_fst)
    then have "clean u" using main_code_clean [OF a(5,6) a(1) [unfolded ss(1)] ss(2) _ u(1)] by simp
    moreover have "t = u" using accepted_code_quiet [OF a(1-3) u(1) [folded ss(1)] a(6)] u(2) by auto
    ultimately show ?thesis by (cases "in_errors t") (auto simp: clean_def split: if_splits)
  qed
qed


definition demo_divide :: AST_PROGRAM where
  "demo_divide = \<lparr>pg_decl_block = decl_push_scalar ''x'' empty_decl_block, pg_functions = [],
     pg_code_block = Block False [S_Assign (V_Simple ''x'') (E_Binary (E_Literal 1) (E_Var (V_Simple ''x'')) BOP_DIVIDE)]\<rparr>"

lemma demo_divide_accepted: "accepts_program demo_divide SemanticAnalyzer_init"
  by (simp add: accepts_program_def demo_divide_def analysis_simps binary_type_def is_arithmetic_def)

theorem accepted_program_type_safe_witness:
  "\<exists>t. visit_program no_ai 9 demo_divide (Interpreter_init ''m'' []) = Some t \<and> in_failed t \<and>
     (in_trapped t \<or> (\<exists>path code text rest. in_errors t = (path, code, text) # rest \<and> permitted code text))"
proof -
  have "\<exists>t. visit_program no_ai 9 demo_divide (Interpreter_init ''m'' []) = Some t \<and> in_failed t"
    by (simp add: demo_divide_def visit_program_def run_simps visit_assignment_def visit_binary_def binary_int_def evaluate_def
        registerFunctions_def initializeDeclarations_def initializeDeclarationsInto_def ensure_frame_def decl_push_scalar_def
        empty_decl_block_def visit_simple_variable_def Let_def)
  moreover have "parse_tree demo_divide" "local_names demo_divide \<inter> global_names demo_divide = {}"
    by (simp_all add: demo_divide_def parse_tree_def local_names_def)
  ultimately show ?thesis
    using accepted_program_type_safe [OF demo_divide_accepted, of no_ai 9 "''m''" "[]"] by blast
qed

text \<open>
  C3: Types are sound. In every sound state, where the frames hold what the scopes of the
  analyzer declare, an expression that the analyzer types without an error evaluates to a value
  of that type or fails; and evaluating it leaves the state sound. Calls, with all the
  statements they run, are included.
\<close>

theorem expression_type_sound:
  assumes "sound a s" and "\<not> error_in (snd (expressionType a e))" and "accept_expr h n e s = Some t"
  shows "sound a t \<and> (in_failed t \<or> rv_type (in_current_value t) = fst (expressionType a e))"
  using all_safe [of h n] assms typed_exprD expr_safeD(1) by blast

theorem expression_type_sound_witness:
  "\<exists>t. accept_expr no_ai 3 (E_Binary (E_Literal 2) (E_Literal 3) BOP_LESS) (Interpreter_init ''m'' []) = Some t \<and>
     rv_type (in_current_value t) = T_Boolean"
proof -
  let ?a = "SemanticAnalyzer_init\<lparr>an_local_scopes := [Map.empty]\<rparr>" and ?s = "Interpreter_init ''m'' []"
    and ?e = "E_Binary (E_Literal 2) (E_Literal 3) BOP_LESS"
  have g: "global_scope ?a = Map.empty" by (simp add: global_scope_def SemanticAnalyzer_init_def fun_eq_iff)
  have "env_ok ?a [empty_frame]"
    unfolding env_ok_def using empty_matches g
    by (intro exI [of _ "[]"]) (simp add: unframed_def SemanticAnalyzer_init_def)
  then have "sound ?a ?s"
    using g by (simp add: sound_def scopes_ok_def return_ok_def clean_def registry_ok_def)
      (simp add: Interpreter_init_def SemanticAnalyzer_init_def)
  moreover have "\<not> error_in (snd (expressionType ?a ?e))" "fst (expressionType ?a ?e) = T_Boolean"
    by (simp_all add: binary_type_def is_arithmetic_def is_equality_def is_ordering_def)
  moreover have "\<exists>t. accept_expr no_ai 3 ?e ?s = Some t \<and> \<not> in_failed t"
    by (simp add: run_simps visit_binary_def binary_int_def evaluate_def Let_def)
  ultimately show ?thesis using expression_type_sound [of ?a ?s ?e no_ai 3] by auto
qed


subsection \<open>Why no local may hide a global\<close>



end
