(* ===== verification/ProfileTheorems.thy ===== *)
theory ProfileTheorems
  imports Profiles
begin

section \<open>What the certification checks mean\<close>

text \<open>
  The dates the checks accept are exactly the calendar dates from the year 2000 on, and comparing them as
  strings compares them as dates; the versions are three numbers; and a set of declarations
  without reports has every link of every profile resolved to a declaration that passes its
  own typed checks.
\<close>

subsection \<open>Dates\<close>

text \<open>The Gregorian calendar, as a reference.\<close>

definition days_in_month :: "nat \<Rightarrow> nat \<Rightarrow> nat" where
  "days_in_month y m =
     (if m = 2 then (if y mod 400 = 0 \<or> y mod 4 = 0 \<and> y mod 100 \<noteq> 0 then 29 else 28)
      else if m \<in> {4, 6, 9, 11} then 30 else 31)"

definition calendar_date :: "nat \<Rightarrow> nat \<Rightarrow> nat \<Rightarrow> bool" where
  "calendar_date y m d \<longleftrightarrow> 2000 \<le> y \<and> y \<le> 9999 \<and> 1 \<le> m \<and> m \<le> 12 \<and> 1 \<le> d \<and> d \<le> days_in_month y m"

fun padded :: "nat \<Rightarrow> nat \<Rightarrow> string" where
  "padded 0 n = []"
| "padded (Suc k) n = padded k (n div 10) @ [digit_char (n mod 10)]"

definition iso_text :: "nat \<Rightarrow> nat \<Rightarrow> nat \<Rightarrow> string" where
  "iso_text y m d = padded 4 y @ ''-'' @ padded 2 m @ ''-'' @ padded 2 d"

lemma padded_length [simp]: "length (padded k n) = k"
  by (induction k arbitrary: n) auto

lemma digits_value_append: "digits_value (ds @ [c]) = 10 * digits_value ds + (of_char c - 48)"
  by (simp add: digits_value_def)

lemma padded_value: "n < 10 ^ k \<Longrightarrow> digits_value (padded k n) = n"
proof (induction k arbitrary: n)
  case (Suc k)
  then have "n div 10 < 10 ^ k" by (simp add: less_mult_imp_div_less)
  then show ?case using Suc by (simp add: digits_value_append digit_char_def of_char_of)
qed (simp add: digits_value_def)

lemma padded_digits: "list_all is_digit (padded k n)"
  by (induction k arbitrary: n) (auto simp: is_digit_def digit_char_def of_char_of)

lemma padded_read: "list_all is_digit ds \<Longrightarrow> padded (length ds) (digits_value ds) = ds \<and> digits_value ds < 10 ^ length ds"
proof (induction ds rule: rev_induct)
  case (snoc c ds)
  define k where "k = of_char c - (48 :: nat)"
  have k: "of_char c = 48 + k" "k < 10" using snoc.prems by (auto simp: is_digit_def k_def)
  then have "digit_char k = c" by (simp add: digit_char_def flip: k(1))
  then show ?case using snoc k by (auto simp: digits_value_append)
qed (simp add: digits_value_def)

lemma string_less_append:
  "length as = length bs \<Longrightarrow> string_less (as @ xs) (bs @ ys) \<longleftrightarrow> string_less as bs \<or> as = bs \<and> string_less xs ys"
proof (induction as bs rule: list_induct2)
  case (Cons a as b bs)
  then show ?case by auto
qed (cases xs; cases ys; simp)

lemma string_less_irrefl: "\<not> string_less as as"
  by (induction as) auto

lemma string_less_digits:
  "length as = length bs \<Longrightarrow> list_all is_digit as \<Longrightarrow> list_all is_digit bs \<Longrightarrow>
   string_less as bs \<longleftrightarrow> digits_value as < digits_value bs"
proof (induction as arbitrary: bs rule: rev_induct)
  case (snoc a as)
  then obtain b bs' where bs: "bs = bs' @ [b]" by (cases bs rule: rev_cases) auto
  have len: "length as = length bs'" and digs: "list_all is_digit as" "list_all is_digit bs'" using snoc.prems bs by auto
  have ab: "48 \<le> (of_char a :: nat)" "(of_char a :: nat) \<le> 57" "48 \<le> (of_char b :: nat)" "(of_char b :: nat) \<le> 57"
    using snoc.prems bs by (auto simp: is_digit_def)
  have eq: "as = bs' \<longleftrightarrow> digits_value as = digits_value bs'"
    using padded_read [OF digs(1)] padded_read [OF digs(2)] len by metis
  show ?case
    using snoc.IH [OF len digs] ab eq unfolding bs by (auto simp: string_less_append [OF len] digits_value_append)
qed (simp add: digits_value_def)


lemma split_ten:
  assumes "length t = 10" and "t ! 4 = CHR ''-''" and "t ! 7 = CHR ''-''"
  shows "t = take 4 t @ ''-'' @ take 2 (drop 5 t) @ ''-'' @ drop 8 t"
proof -
  have "t = take 4 t @ t ! 4 # drop 5 t" using id_take_nth_drop [of 4 t] assms(1) by simp
  moreover have "drop 5 t = take 2 (drop 5 t) @ drop 5 t ! 2 # drop 3 (drop 5 t)"
    using id_take_nth_drop [of 2 "drop 5 t"] assms(1) by simp
  moreover have "drop 5 t ! 2 = t ! 7" "drop 3 (drop 5 t) = drop 8 t" using assms(1) by simp_all
  ultimately show ?thesis using assms(2,3) by (metis append_Cons append_Nil)
qed

lemma days_agree:
  assumes "1 \<le> m" and "m \<le> 12"
  shows "(if int m = 2 \<and> c3EcoLeapYear (int y) then 29 else month_days ! nat (int m - 1)) = int (days_in_month y m)"
proof -
  have "m = 1 \<or> m = 2 \<or> m = 3 \<or> m = 4 \<or> m = 5 \<or> m = 6 \<or> m = 7 \<or> m = 8 \<or> m = 9 \<or> m = 10 \<or> m = 11 \<or> m = 12"
    using assms by arith
  moreover have "c3EcoLeapYear (int y) \<longleftrightarrow> y mod 400 = 0 \<or> y mod 4 = 0 \<and> y mod 100 \<noteq> 0"
  proof -
    have "(int y mod 4 = 0) = (y mod 4 = 0)" "(int y mod 100 = 0) = (y mod 100 = 0)" "(int y mod 400 = 0) = (y mod 400 = 0)"
      by (metis of_nat_eq_0_iff of_nat_mod of_nat_numeral)+
    moreover have "y mod 400 = 0 \<Longrightarrow> y mod 4 = 0" using dvd_trans [of 4 400 y] by (simp add: mod_eq_0_iff_dvd)
    ultimately show ?thesis unfolding c3EcoLeapYear_def by metis
  qed
  ultimately show ?thesis by (auto simp: days_in_month_def month_days_def)
qed

lemma iso_text_parts:
  assumes "calendar_date y m d"
  shows "take 4 (iso_text y m d) = padded 4 y" "take 2 (drop 5 (iso_text y m d)) = padded 2 m" "drop 8 (iso_text y m d) = padded 2 d"
    "length (iso_text y m d) = 10" "iso_text y m d ! 4 = CHR ''-''" "iso_text y m d ! 7 = CHR ''-''"
    "digits_value (padded 4 y) = y" "digits_value (padded 2 m) = m" "digits_value (padded 2 d) = d"
proof -
  have "days_in_month y m \<le> 31" by (simp add: days_in_month_def)
  then show "digits_value (padded 4 y) = y" "digits_value (padded 2 m) = m" "digits_value (padded 2 d) = d"
    using assms by (auto simp: calendar_date_def intro!: padded_value)
qed (auto simp: iso_text_def nth_append)

lemma iso_date_iff:
  "c3EcoIsoDate t \<longleftrightarrow> (\<exists>y m d. calendar_date y m d \<and> t = iso_text y m d)"
proof
  assume ok: "c3EcoIsoDate t"
  let ?y = "digits_value (take 4 t)" and ?m = "digits_value (take 2 (drop 5 t))" and ?d = "digits_value (drop 8 t)"
  have len: "length t = 10" "t ! 4 = CHR ''-''" "t ! 7 = CHR ''-''"
    and digs: "list_all is_digit (take 4 t)" "list_all is_digit (take 2 (drop 5 t))" "list_all is_digit (drop 8 t)"
    using ok by (auto simp: c3EcoIsoDate_def split: if_splits)
  have pads: "padded 4 ?y = take 4 t" "padded 2 ?m = take 2 (drop 5 t)" "padded 2 ?d = drop 8 t" "?y < 10 ^ 4"
    using padded_read [OF digs(1)] padded_read [OF digs(2)] padded_read [OF digs(3)] len(1) by simp_all
  have "1 \<le> ?m" "?m \<le> 12" "2000 \<le> ?y" "1 \<le> ?d" using ok by (auto simp: c3EcoIsoDate_def Let_def split: if_splits)
  moreover from days_agree [OF this(1,2), of ?y] have "?d \<le> days_in_month ?y ?m"
    using ok by (auto simp: c3EcoIsoDate_def Let_def split: if_splits)
  ultimately have "calendar_date ?y ?m ?d" using pads(4) by (simp add: calendar_date_def)
  moreover have "t = iso_text ?y ?m ?d" unfolding iso_text_def pads(1-3) by (rule split_ten [OF len])
  ultimately show "\<exists>y m d. calendar_date y m d \<and> t = iso_text y m d" by blast
next
  assume "\<exists>y m d. calendar_date y m d \<and> t = iso_text y m d"
  then obtain y m d where c: "calendar_date y m d" and t: "t = iso_text y m d" by blast
  have "1 \<le> m" "m \<le> 12" using c by (auto simp: calendar_date_def)
  from days_agree [OF this, of y] show "c3EcoIsoDate t"
    using c unfolding t c3EcoIsoDate_def iso_text_parts [OF c] Let_def
    by (auto simp: padded_digits calendar_date_def)
qed


text \<open>
  C34: The texts that the date check accepts are exactly the dates of the Gregorian calendar from
  the year 2000 to the year 9999, written with four, two and two digits.
\<close>

theorem iso_dates_are_calendar_dates:
  "c3EcoIsoDate t \<longleftrightarrow> (\<exists>y m d. calendar_date y m d \<and> t = iso_text y m d)"
  by (rule iso_date_iff)

text \<open>Chronological order of two dates.\<close>

definition earlier :: "nat \<Rightarrow> nat \<Rightarrow> nat \<Rightarrow> nat \<Rightarrow> nat \<Rightarrow> nat \<Rightarrow> bool" where
  "earlier y m d y' m' d' \<longleftrightarrow> y < y' \<or> y = y' \<and> (m < m' \<or> m = m' \<and> d < d')"

lemma padded_less:
  assumes "digits_value (padded k a) = a" and "digits_value (padded k b) = b"
  shows "string_less (padded k a @ xs) (padded k b @ ys) \<longleftrightarrow> a < b \<or> a = b \<and> string_less xs ys"
proof -
  have "padded k a = padded k b \<longleftrightarrow> a = b" using assms by metis
  then show ?thesis using assms string_less_digits [of "padded k a" "padded k b"]
    by (simp add: string_less_append padded_digits)
qed

lemma iso_text_less:
  assumes "calendar_date y m d" and "calendar_date y' m' d'"
  shows "string_less (iso_text y m d) (iso_text y' m' d') \<longleftrightarrow> earlier y m d y' m' d'"
proof -
  note v = iso_text_parts(7-9) [OF assms(1)] and v' = iso_text_parts(7-9) [OF assms(2)]
  have "string_less (padded 2 d) (padded 2 d') \<longleftrightarrow> d < d'" using padded_less [OF v(3) v'(3), of "[]" "[]"] by simp
  then show ?thesis
    by (simp add: iso_text_def earlier_def padded_less [OF v(1) v'(1)] padded_less [OF v(2) v'(2)])
qed

subsection \<open>Profiles\<close>

text \<open>
  A profile whose two validity dates are given and that gets no report on them is valid from
  one calendar date to a later one; a profile with a date that does not exist, or with an empty
  window, is reported.
\<close>

theorem validity_window_is_chronological:
  assumes "string_literal p ''valid_from'' = Some a" and "string_literal p ''valid_until'' = Some b"
  shows "validity_reports p = [] \<longleftrightarrow>
    (\<exists>y m d y' m' d'. calendar_date y m d \<and> calendar_date y' m' d' \<and> a = iso_text y m d \<and> b = iso_text y' m' d' \<and>
       earlier y m d y' m' d')"
proof -
  have "validity_reports p = [] \<longleftrightarrow> c3EcoIsoDate a \<and> c3EcoIsoDate b \<and> string_less a b"
    using assms by (simp add: validity_reports_def)
  then show ?thesis unfolding iso_date_iff by (auto simp: iso_text_less) (metis iso_text_less)+
qed

text \<open>A reference field of a profile, when it is there, names one declaration, and that one passes its typed checks.\<close>

definition link_resolved :: "C3EcoDeclarationData list \<Rightarrow> C3EcoDeclarationData \<Rightarrow> string \<times> C3EcoDeclarationKind \<Rightarrow> bool" where
  "link_resolved nodes p ref = (case c3EcoField p (fst ref) of
       None \<Rightarrow> True
     | Some f \<Rightarrow> (case cf_values f of
         [v] \<Rightarrow> cv_kind v = C3_Identifier \<and>
           list_ex (\<lambda>d. cd_kind d = snd ref \<and> cd_name d = cv_text v \<and> validateC3EcoTypedDeclaration d = []) nodes
       | _ \<Rightarrow> False))"

definition all_checked :: "C3EcoDeclarationData list \<Rightarrow> nat set \<Rightarrow> bool" where
  "all_checked nodes validated \<longleftrightarrow> (\<forall>i\<in>validated. i < length nodes \<and> validateC3EcoTypedDeclaration (nodes ! i) = [])"

lemma find_declaration_nth:
  "find_declaration kind name k nodes = Some (i, d) \<Longrightarrow>
   k \<le> i \<and> i < k + length nodes \<and> nodes ! (i - k) = d \<and> cd_kind d = kind \<and> cd_name d = name"
proof (induction nodes arbitrary: k)
  case (Cons e nodes)
  show ?case
  proof (cases "cd_kind e = kind \<and> cd_name e = name")
    case False
    then show ?thesis using Cons.IH [of "k + 1"] Cons.prems by (auto simp: nth_Cons' split: if_splits)
  qed (use Cons.prems in auto)
qed simp

lemma check_reference_resolves:
  assumes "check_reference nodes p ref validated = ([], validated')" and "all_checked nodes validated"
  shows "link_resolved nodes p ref \<and> all_checked nodes validated'"
proof (cases "c3EcoField p (fst ref)")
  case (Some f)
  then obtain v i d where v: "cf_values f = [v]" "cv_kind v = C3_Identifier"
    and found: "find_declaration (snd ref) (cv_text v) 0 nodes = Some (i, d)"
    using assms(1) by (auto simp: check_reference_def split: list.splits if_splits option.splits)
  note at = find_declaration_nth [OF found]
  have "all_checked nodes validated' \<and> i \<in> validated'"
    using assms at Some v found by (auto simp: check_reference_def all_checked_def split: if_splits)
  then show ?thesis using at v Some by (auto simp: link_resolved_def all_checked_def list_ex_iff)
qed (use assms in \<open>simp add: check_reference_def link_resolved_def\<close>)

lemma check_references_resolve:
  "check_references nodes p refs validated = ([], validated') \<Longrightarrow> all_checked nodes validated \<Longrightarrow>
   list_all (link_resolved nodes p) refs \<and> all_checked nodes validated'"
proof (induction refs arbitrary: validated)
  case (Cons ref refs)
  then obtain w where "check_reference nodes p ref validated = ([], w)" "check_references nodes p refs w = ([], validated')"
    by (auto split: prod.splits)
  then show ?case using Cons check_reference_resolves by fastforce
qed simp

lemma check_profiles_resolve:
  "check_profiles nodes ps validated = [] \<Longrightarrow> all_checked nodes validated \<Longrightarrow>
   list_all (\<lambda>p. validateC3EcoTypedDeclaration p = [] \<and> validity_reports p = [] \<and>
     list_all (link_resolved nodes p) profile_references) ps"
proof (induction ps arbitrary: validated)
  case (Cons p ps)
  then obtain w where "check_references nodes p profile_references validated = ([], w)" "check_profiles nodes ps w = []"
    by (auto split: prod.splits)
  then show ?case using Cons check_references_resolve by fastforce
qed simp

text \<open>
  C25: When the profile checks of a program report nothing, every certification profile of it
  passes its own typed checks, has a proper validity window, and each of the six links it gives
  resolves to a declaration of the right kind and name that passes its typed checks too, also
  when that declaration was skipped because another profile had it checked before.
\<close>

theorem validated_profiles_resolve:
  assumes "validateC3EcoProfiles nodes = []" and "p \<in> set nodes" and "cd_kind p = CertificationProfile"
  shows "validateC3EcoTypedDeclaration p = [] \<and> validity_reports p = [] \<and>
    list_all (link_resolved nodes p) profile_references"
proof -
  have "all_checked nodes {}" by (simp add: all_checked_def)
  then show ?thesis using check_profiles_resolve assms unfolding validateC3EcoProfiles_def by (fastforce simp: list_all_iff)
qed

subsection \<open>A profile with two links\<close>

definition demo_field :: "string \<Rightarrow> C3EcoValueKind \<Rightarrow> string \<Rightarrow> C3EcoFieldData" where
  "demo_field name kind text = \<lparr>cf_name = name, cf_values = [\<lparr>cv_kind = kind, cv_text = text\<rparr>]\<rparr>"

definition demo_workload :: C3EcoDeclarationData where
  "demo_workload = \<lparr>cd_kind = Workload, cd_name = ''Load'', cd_fields =
     [demo_field ''traffic_profile'' C3_Identifier ''steady'', demo_field ''batch_size'' C3_Integer ''8'',
      demo_field ''warmup_runs'' C3_Integer ''0'', demo_field ''cache_state'' C3_Identifier ''warm'']\<rparr>"

definition demo_profile :: "string \<Rightarrow> C3EcoDeclarationData" where
  "demo_profile name = \<lparr>cd_kind = CertificationProfile, cd_name = name, cd_fields =
     [demo_field ''profile_version'' C3_Integer ''2'', demo_field ''workload'' C3_Identifier ''Load'',
      demo_field ''valid_from'' C3_String ''2024-02-29'', demo_field ''valid_until'' C3_String ''2025-02-28'']\<rparr>"

definition demo_nodes :: "C3EcoDeclarationData list" where
  "demo_nodes = [demo_profile ''First'', demo_workload, demo_profile ''Second'']"

theorem validity_window_is_chronological_witness:
  "string_literal (demo_profile ''First'') ''valid_from'' = Some ''2024-02-29'' \<and>
   string_literal (demo_profile ''First'') ''valid_until'' = Some ''2025-02-28'' \<and>
   (\<exists>y m d y' m' d'. calendar_date y m d \<and> calendar_date y' m' d' \<and> ''2024-02-29'' = iso_text y m d \<and>
      ''2025-02-28'' = iso_text y' m' d' \<and> earlier y m d y' m' d')"
proof -
  have "string_literal (demo_profile ''First'') ''valid_from'' = Some ''2024-02-29''"
    "string_literal (demo_profile ''First'') ''valid_until'' = Some ''2025-02-28''" by code_simp+
  moreover have "validity_reports (demo_profile ''First'') = []" by code_simp
  ultimately show ?thesis using validity_window_is_chronological by blast
qed

theorem validated_profiles_resolve_witness:
  "validateC3EcoProfiles demo_nodes = [] \<and> demo_profile ''Second'' \<in> set demo_nodes \<and>
   link_resolved demo_nodes (demo_profile ''Second'') (''workload'', Workload)"
proof -
  have ok: "validateC3EcoProfiles demo_nodes = []" by code_simp
  moreover have mem: "demo_profile ''Second'' \<in> set demo_nodes" by (simp add: demo_nodes_def)
  moreover have "cd_kind (demo_profile ''Second'') = CertificationProfile" by (simp add: demo_profile_def)
  ultimately show ?thesis using validated_profiles_resolve [OF ok mem] by (simp add: profile_references_def)
qed

end
