(* ===== verification/Serving.thy ===== *)
theory Serving
  imports CText "HOL-Library.AList"
begin

section \<open>The serving runtime\<close>

text \<open>
  \<open>serving/ServingRuntime.cpp\<close>: a bounded scheduler. Clients submit requests, cancel them and
  wait for their results; worker threads take requests from a queue, run the handler and record
  one terminal result per request; a bounded number of results is retained.

  Every method takes the one mutex, so the model has one atomic operation per critical
  section, and a run is an interleaving of them: a worker takes a request in one section and
  records the outcome of the handler in another, and a client that waits gives the mutex up
  until it is woken. The handler and the clock are outside the code: what the handler returns
  or throws and what the clock reads are arguments of the operations. A time point is an
  unbounded number of nanoseconds, sizes are natural numbers (the limits keep them far below
  \<open>2 ^ 64\<close>; the one unguarded subtraction is written with its wrap-around), and the counters are
  words of 64 bits. The objects behind the shared pointers are the entries of \<open>sv_states\<close>, and a
  pointer is an index.
\<close>

subsection \<open>Data\<close>

datatype AdmissionStatus = Accepted | RejectedNotReady | RejectedCapacity | RejectedQuota | RejectedIsolation
  | RejectedDeadline | RejectedInvalid | RejectedDuplicate

datatype TerminalStatus = Succeeded | HandlerError | Cancelled | DeadlineExceeded | Shutdown

datatype LookupStatus = Ready | Timeout | NotFound

fun admissionStatusName :: "AdmissionStatus \<Rightarrow> string" where
  "admissionStatusName Accepted = ''accepted''"
| "admissionStatusName RejectedNotReady = ''rejected_not_ready''"
| "admissionStatusName RejectedCapacity = ''rejected_capacity''"
| "admissionStatusName RejectedQuota = ''rejected_quota''"
| "admissionStatusName RejectedIsolation = ''rejected_isolation''"
| "admissionStatusName RejectedDeadline = ''rejected_deadline''"
| "admissionStatusName RejectedInvalid = ''rejected_invalid''"
| "admissionStatusName RejectedDuplicate = ''rejected_duplicate''"

fun terminalStatusName :: "TerminalStatus \<Rightarrow> string" where
  "terminalStatusName Succeeded = ''succeeded''"
| "terminalStatusName HandlerError = ''handler_error''"
| "terminalStatusName Cancelled = ''cancelled''"
| "terminalStatusName DeadlineExceeded = ''deadline_exceeded''"
| "terminalStatusName Shutdown = ''shutdown''"

type_synonym nanos = int
type_synonym millis = int

record RuntimeLimits =
  tenant_scope :: string
  worker_threads :: nat
  queue_capacity :: nat
  max_in_flight :: nat
  completed_result_capacity :: nat
  max_request_bytes :: nat
  max_response_bytes :: nat
  max_in_flight_request_bytes :: nat
  max_retained_result_bytes :: nat
  max_deadline :: millis

record Request =
  request_id :: string
  tenant_id :: string
  payload :: string
  timeout :: millis

record Admission =
  ad_status :: AdmissionStatus
  ad_reason :: string

record RequestResult =
  rr_status :: TerminalStatus
  rr_output :: string
  rr_detail :: string
  queue_time_us :: nat
  service_time_us :: nat

record ResultLookup =
  rl_status :: LookupStatus
  rl_result :: RequestResult

record HandlerResult =
  hr_success :: bool
  hr_output :: string
  hr_detail :: string

definition no_result :: RequestResult where
  "no_result = \<lparr>rr_status = HandlerError, rr_output = [], rr_detail = [], queue_time_us = 0, service_time_us = 0\<rparr>"

definition handler_succeeded :: "string \<Rightarrow> HandlerResult" where
  "handler_succeeded value = \<lparr>hr_success = True, hr_output = value, hr_detail = []\<rparr>"

definition handler_failed :: "string \<Rightarrow> HandlerResult" where
  "handler_failed reason = \<lparr>hr_success = False, hr_output = [], hr_detail = reason\<rparr>"

record RuntimeMetrics =
  mt_submitted :: u64
  mt_accepted :: u64
  mt_rejected_not_ready :: u64
  mt_rejected_capacity :: u64
  mt_rejected_quota :: u64
  mt_rejected_isolation :: u64
  mt_rejected_deadline :: u64
  mt_rejected_invalid :: u64
  mt_rejected_duplicate :: u64
  mt_succeeded :: u64
  mt_handler_error :: u64
  mt_cancelled :: u64
  mt_deadline_exceeded :: u64
  mt_shutdown :: u64
  mt_result_evictions :: u64
  mt_saturation_events :: u64
  mt_active :: nat
  mt_queued :: nat
  mt_in_flight :: nat
  mt_retained_results :: nat
  mt_in_flight_request_bytes :: nat
  mt_retained_result_bytes :: nat

record RuntimeHealth =
  he_live :: bool
  he_ready :: bool
  he_accepting :: bool
  he_draining :: bool
  he_saturated :: bool
  he_active :: nat
  he_queued :: nat
  he_in_flight :: nat

text \<open>A request under way; \<open>rs_stop\<close> is the flag of its cancellation token.\<close>

record RequestState =
  rs_request :: Request
  rs_submitted_at :: nanos
  rs_deadline :: nanos
  rs_started_at :: nanos
  rs_stop :: bool
  rs_started :: bool
  rs_done :: bool
  rs_result :: RequestResult

subsection \<open>Limits\<close>

definition kMaxWorkers :: nat where "kMaxWorkers = 64"
definition kMaxQueueCapacity :: nat where "kMaxQueueCapacity = 65536"
definition kMaxResultCapacity :: nat where "kMaxResultCapacity = 65536"
definition kMaxBodyBytes :: nat where "kMaxBodyBytes = 16 * 1024 * 1024"
definition kMaxAggregateBodyBytes :: nat where "kMaxAggregateBodyBytes = 1024 * 1024 * 1024"
definition kMaxIdentityBytes :: nat where "kMaxIdentityBytes = 64"
definition kMaxSupportedDeadline :: millis where "kMaxSupportedDeadline = 60 * 60 * 1000"

definition is_lower :: "char \<Rightarrow> bool" where
  "is_lower c = (97 \<le> (of_char c :: nat) \<and> (of_char c :: nat) \<le> 122)"

definition validIdentity :: "string \<Rightarrow> bool" where
  "validIdentity value = (if value = [] \<or> length value > kMaxIdentityBytes then False
     else list_all (\<lambda>c. is_lower c \<or> is_upper c \<or> is_digit c \<or> c = CHR ''.'' \<or> c = CHR ''_'' \<or> c = CHR ''-'') value)"

definition elapsedMicros :: "nanos \<Rightarrow> nanos \<Rightarrow> nat" where
  "elapsedMicros start end = (if end \<le> start then 0 else nat ((end - start) div 1000))"

definition exceedsCombinedLimit :: "string \<Rightarrow> string \<Rightarrow> nat \<Rightarrow> bool" where
  "exceedsCombinedLimit first second limit = (length first > limit \<or> length second > limit - length first)"

definition validateLimits :: "RuntimeLimits \<Rightarrow> unit fallible" where
  "validateLimits l =
     (if \<not> validIdentity (tenant_scope l) then Inl ''tenant_scope must be a bounded portable identifier''
      else if worker_threads l = 0 \<or> worker_threads l > kMaxWorkers
      then Inl ''worker_threads must be in the range 1..64''
      else if queue_capacity l = 0 \<or> queue_capacity l > kMaxQueueCapacity
      then Inl ''queue_capacity must be in the range 1..65536''
      else if max_in_flight l = 0 \<or> max_in_flight l > queue_capacity l + worker_threads l
      then Inl ''max_in_flight must fit the configured workers and queue''
      else if completed_result_capacity l = 0 \<or> completed_result_capacity l > kMaxResultCapacity
      then Inl ''completed_result_capacity must be in the range 1..65536''
      else if max_request_bytes l = 0 \<or> max_request_bytes l > kMaxBodyBytes \<or>
        max_response_bytes l = 0 \<or> max_response_bytes l > kMaxBodyBytes
      then Inl ''request and response limits must be in the range 1..16 MiB''
      else if max_in_flight_request_bytes l < max_request_bytes l \<or>
        max_in_flight_request_bytes l > kMaxAggregateBodyBytes \<or>
        max_retained_result_bytes l < max_response_bytes l \<or> max_retained_result_bytes l > kMaxAggregateBodyBytes
      then Inl ''aggregate request and result limits must contain one body and not exceed 1 GiB''
      else if max_deadline l \<le> 0 \<or> max_deadline l > kMaxSupportedDeadline
      then Inl ''max_deadline must be in the range 1ms..1h''
      else Inr ())"

subsection \<open>The state\<close>

text \<open>
  What each thread is doing between two critical sections: a worker waits for work, runs the
  handler on a request, or has returned; a client waits for a request it looked up under an
  identity; and whoever holds the lifecycle mutex waits out the grace period or joins the workers.
\<close>

datatype worker = W_Idle | W_Running nat | W_Returned

datatype closer = C_None | C_Grace | C_Joining

text \<open>\<open>sv_trapped\<close> is set where the program would do something undefined.\<close>

record serving =
  sv_states :: "RequestState list"
  sv_queue :: "nat list"
  sv_requests :: "(string \<times> nat) list"
  sv_completed_order :: "string list"
  sv_workers :: "worker list"
  sv_waiters :: "(string \<times> nat) list"
  sv_counters :: RuntimeMetrics
  sv_live :: bool
  sv_accepting :: bool
  sv_draining :: bool
  sv_stopping :: bool
  sv_joined :: bool
  sv_active :: nat
  sv_in_flight :: nat
  sv_in_flight_request_bytes :: nat
  sv_retained_result_bytes :: nat
  sv_closer :: closer
  sv_trapped :: bool

definition no_metrics :: RuntimeMetrics where
  "no_metrics = \<lparr>mt_submitted = 0, mt_accepted = 0, mt_rejected_not_ready = 0, mt_rejected_capacity = 0,
     mt_rejected_quota = 0, mt_rejected_isolation = 0, mt_rejected_deadline = 0, mt_rejected_invalid = 0,
     mt_rejected_duplicate = 0, mt_succeeded = 0, mt_handler_error = 0, mt_cancelled = 0, mt_deadline_exceeded = 0,
     mt_shutdown = 0, mt_result_evictions = 0, mt_saturation_events = 0, mt_active = 0, mt_queued = 0,
     mt_in_flight = 0, mt_retained_results = 0, mt_in_flight_request_bytes = 0, mt_retained_result_bytes = 0\<rparr>"

definition ServingRuntime_init :: "RuntimeLimits \<Rightarrow> serving fallible" where
  "ServingRuntime_init l = (case validateLimits l of Inl e \<Rightarrow> Inl e | Inr _ \<Rightarrow> Inr
     \<lparr>sv_states = [], sv_queue = [], sv_requests = [], sv_completed_order = [],
      sv_workers = replicate (worker_threads l) W_Idle, sv_waiters = [], sv_counters = no_metrics,
      sv_live = True, sv_accepting = True, sv_draining = False, sv_stopping = False, sv_joined = False,
      sv_active = 0, sv_in_flight = 0, sv_in_flight_request_bytes = 0, sv_retained_result_bytes = 0,
      sv_closer = C_None, sv_trapped = False\<rparr>)"

definition serve_trap :: "serving \<Rightarrow> serving" where
  "serve_trap s = s\<lparr>sv_trapped := True\<rparr>"

abbreviation state_of :: "serving \<Rightarrow> nat \<Rightarrow> RequestState" where
  "state_of s r \<equiv> sv_states s ! r"

abbreviation id_of :: "serving \<Rightarrow> nat \<Rightarrow> string" where
  "id_of s r \<equiv> request_id (rs_request (state_of s r))"

subsection \<open>Completing a request\<close>

fun recordTerminalLocked :: "TerminalStatus \<Rightarrow> RuntimeMetrics \<Rightarrow> RuntimeMetrics" where
  "recordTerminalLocked Succeeded c = c\<lparr>mt_succeeded := mt_succeeded c + 1\<rparr>"
| "recordTerminalLocked HandlerError c = c\<lparr>mt_handler_error := mt_handler_error c + 1\<rparr>"
| "recordTerminalLocked Cancelled c = c\<lparr>mt_cancelled := mt_cancelled c + 1\<rparr>"
| "recordTerminalLocked DeadlineExceeded c = c\<lparr>mt_deadline_exceeded := mt_deadline_exceeded c + 1\<rparr>"
| "recordTerminalLocked Shutdown c = c\<lparr>mt_shutdown := mt_shutdown c + 1\<rparr>"

definition resultBytes :: "RequestResult \<Rightarrow> nat" where
  "resultBytes r = length (rr_output r) + length (rr_detail r)"

text \<open>The clamped subtraction the byte accounts use.\<close>

definition take_off :: "nat \<Rightarrow> nat \<Rightarrow> nat" where
  "take_off bytes part = (if bytes \<ge> part then bytes - part else 0)"

text \<open>The eviction loop, over what \<open>completed_order\<close> holds; the front of an empty deque is undefined.\<close>

fun evict_loop :: "RuntimeLimits \<Rightarrow> string list \<Rightarrow> serving \<Rightarrow> serving" where
  "evict_loop l order s =
     (if length order > completed_result_capacity l \<or> sv_retained_result_bytes s > max_retained_result_bytes l
      then (case order of
          [] \<Rightarrow> serve_trap s
        | oldest # rest \<Rightarrow> evict_loop l rest
            (case map_of (sv_requests s) oldest of
               None \<Rightarrow> s
             | Some r \<Rightarrow>
                 if rs_done (state_of s r)
                 then s\<lparr>sv_retained_result_bytes := take_off (sv_retained_result_bytes s) (resultBytes (rs_result (state_of s r))),
                        sv_requests := AList.delete oldest (sv_requests s),
                        sv_counters := (sv_counters s)\<lparr>mt_result_evictions := mt_result_evictions (sv_counters s) + 1\<rparr>\<rparr>
                 else s))
      else s\<lparr>sv_completed_order := order\<rparr>)"

declare evict_loop.simps [simp del]

definition retainCompletedLocked :: "RuntimeLimits \<Rightarrow> nat \<Rightarrow> serving \<Rightarrow> serving" where
  "retainCompletedLocked l r s = evict_loop l (sv_completed_order s @ [id_of s r])
     (s\<lparr>sv_retained_result_bytes := sv_retained_result_bytes s + resultBytes (rs_result (state_of s r))\<rparr>)"

text \<open>The state of a completed request.\<close>

definition completed_state :: "TerminalStatus \<Rightarrow> string \<Rightarrow> string \<Rightarrow> nanos \<Rightarrow> RequestState \<Rightarrow> RequestState" where
  "completed_state status output detail completed_at st = (let
     service_start = (if rs_started st then rs_started_at st else completed_at)
     in st\<lparr>rs_done := True,
       rs_result := \<lparr>rr_status = status, rr_output = output, rr_detail = detail,
         queue_time_us = elapsedMicros (rs_submitted_at st) service_start,
         service_time_us = elapsedMicros service_start completed_at\<rparr>,
       rs_request := (rs_request st)\<lparr>payload := []\<rparr>\<rparr>)"

definition completeLocked :: "RuntimeLimits \<Rightarrow> nat \<Rightarrow> TerminalStatus \<Rightarrow> string \<Rightarrow> string \<Rightarrow> nanos \<Rightarrow> serving \<Rightarrow> serving" where
  "completeLocked l r status output detail completed_at s = (let st = state_of s r in
     if rs_done st then s
     else retainCompletedLocked l r (s\<lparr>
       sv_states := (sv_states s)[r := completed_state status output detail completed_at st],
       sv_active := (if rs_started st \<and> sv_active s > 0 then sv_active s - 1 else sv_active s),
       sv_in_flight := (if sv_in_flight s > 0 then sv_in_flight s - 1 else sv_in_flight s),
       sv_in_flight_request_bytes := take_off (sv_in_flight_request_bytes s) (length (payload (rs_request st))),
       sv_counters := recordTerminalLocked status (sv_counters s)\<rparr>))"

text \<open>
  The sweep over the queue holds a reference to the element it erases and completes the request
  through that reference. What the slot of an erased element holds is up to the library:
  \<open>slot q i\<close> is the pointer it reads there after the element at position \<open>i\<close> of \<open>q\<close> was erased,
  and \<open>None\<close> that the read is undefined, which is what the C++ standard says of it.
\<close>

type_synonym deque_slot = "nat list \<Rightarrow> nat \<Rightarrow> nat option"

fun expire_loop :: "deque_slot \<Rightarrow> RuntimeLimits \<Rightarrow> nanos \<Rightarrow> nat list \<Rightarrow> nat list \<Rightarrow> serving \<Rightarrow> serving" where
  "expire_loop slot l now seen [] s = s"
| "expire_loop slot l now seen (r # rest) s =
     (if rs_deadline (state_of s r) \<le> now then
        (case slot (seen @ r # rest) (length seen) of
           None \<Rightarrow> serve_trap s
         | Some r' \<Rightarrow> expire_loop slot l now seen rest
             (completeLocked l r' DeadlineExceeded [] ''deadline_exceeded_while_queued'' now (s\<lparr>sv_queue := seen @ rest\<rparr>)))
      else if rs_stop (state_of s r) then
        (case slot (seen @ r # rest) (length seen) of
           None \<Rightarrow> serve_trap s
         | Some r' \<Rightarrow> expire_loop slot l now seen rest
             (completeLocked l r' Cancelled [] ''cancelled_while_queued'' now (s\<lparr>sv_queue := seen @ rest\<rparr>)))
      else expire_loop slot l now (seen @ [r]) rest s)"

definition expireQueuedLocked :: "deque_slot \<Rightarrow> RuntimeLimits \<Rightarrow> nanos \<Rightarrow> serving \<Rightarrow> serving" where
  "expireQueuedLocked slot l now s = expire_loop slot l now [] (sv_queue s) s"

subsection \<open>Clients\<close>

fun reject_count :: "AdmissionStatus \<Rightarrow> RuntimeMetrics \<Rightarrow> RuntimeMetrics" where
  "reject_count RejectedNotReady c = c\<lparr>mt_rejected_not_ready := mt_rejected_not_ready c + 1\<rparr>"
| "reject_count RejectedCapacity c = c\<lparr>mt_rejected_capacity := mt_rejected_capacity c + 1,
     mt_saturation_events := mt_saturation_events c + 1\<rparr>"
| "reject_count RejectedQuota c = c\<lparr>mt_rejected_quota := mt_rejected_quota c + 1,
     mt_saturation_events := mt_saturation_events c + 1\<rparr>"
| "reject_count RejectedIsolation c = c\<lparr>mt_rejected_isolation := mt_rejected_isolation c + 1\<rparr>"
| "reject_count RejectedDeadline c = c\<lparr>mt_rejected_deadline := mt_rejected_deadline c + 1\<rparr>"
| "reject_count RejectedInvalid c = c\<lparr>mt_rejected_invalid := mt_rejected_invalid c + 1\<rparr>"
| "reject_count RejectedDuplicate c = c\<lparr>mt_rejected_duplicate := mt_rejected_duplicate c + 1\<rparr>"
| "reject_count Accepted c = c"

definition reject :: "AdmissionStatus \<Rightarrow> string \<Rightarrow> serving \<Rightarrow> Admission \<times> serving" where
  "reject status reason s =
     (\<lparr>ad_status = status, ad_reason = reason\<rparr>, s\<lparr>sv_counters := reject_count status (sv_counters s)\<rparr>)"

text \<open>Subtraction of sizes, which wraps.\<close>

definition size_sub :: "nat \<Rightarrow> nat \<Rightarrow> nat" where
  "size_sub a b = (a + 2 ^ 64 - b) mod 2 ^ 64"

text \<open>The guards of \<open>submit\<close>, in its order; \<open>None\<close> when all pass.\<close>

definition refusal :: "RuntimeLimits \<Rightarrow> Request \<Rightarrow> serving \<Rightarrow> (AdmissionStatus \<times> string) option" where
  "refusal l q s =
     (if \<not> sv_accepting s \<or> sv_stopping s then Some (RejectedNotReady, ''runtime_not_accepting'')
      else if \<not> validIdentity (request_id q) \<or> \<not> validIdentity (tenant_id q)
      then Some (RejectedInvalid, ''invalid_request_identity'')
      else if tenant_id q \<noteq> tenant_scope l then Some (RejectedIsolation, ''tenant_scope_mismatch'')
      else if length (payload q) > max_request_bytes l then Some (RejectedQuota, ''request_byte_quota_exceeded'')
      else if timeout q \<le> 0 \<or> timeout q > max_deadline l then Some (RejectedDeadline, ''invalid_request_deadline'')
      else if map_of (sv_requests s) (request_id q) \<noteq> None then Some (RejectedDuplicate, ''duplicate_request_id'')
      else if length (sv_queue s) \<ge> queue_capacity l then Some (RejectedCapacity, ''queue_capacity_exceeded'')
      else if sv_in_flight s \<ge> max_in_flight l then Some (RejectedQuota, ''in_flight_quota_exceeded'')
      else if length (payload q) > size_sub (max_in_flight_request_bytes l) (sv_in_flight_request_bytes s)
      then Some (RejectedQuota, ''in_flight_request_byte_quota_exceeded'')
      else None)"

definition new_request_state :: "Request \<Rightarrow> nanos \<Rightarrow> RequestState" where
  "new_request_state q now = \<lparr>rs_request = q, rs_submitted_at = now, rs_deadline = now + timeout q * 1000000,
     rs_started_at = 0, rs_stop = False, rs_started = False, rs_done = False, rs_result = no_result\<rparr>"

definition admit :: "Request \<Rightarrow> nanos \<Rightarrow> serving \<Rightarrow> serving" where
  "admit q now s = (let r = length (sv_states s) in s\<lparr>
     sv_states := sv_states s @ [new_request_state q now],
     sv_requests := (request_id q, r) # sv_requests s,
     sv_queue := sv_queue s @ [r],
     sv_in_flight := sv_in_flight s + 1,
     sv_in_flight_request_bytes := sv_in_flight_request_bytes s + length (payload q),
     sv_counters := (sv_counters s)\<lparr>mt_accepted := mt_accepted (sv_counters s) + 1\<rparr>\<rparr>)"

definition submit :: "deque_slot \<Rightarrow> RuntimeLimits \<Rightarrow> Request \<Rightarrow> nanos \<Rightarrow> serving \<Rightarrow> Admission \<times> serving" where
  "submit slot l q now s = (let
     s1 = s\<lparr>sv_counters := (sv_counters s)\<lparr>mt_submitted := mt_submitted (sv_counters s) + 1\<rparr>\<rparr>;
     s2 = expireQueuedLocked slot l now s1
     in case refusal l q s2 of
          Some (status, reason) \<Rightarrow> reject status reason s2
        | None \<Rightarrow> (\<lparr>ad_status = Accepted, ad_reason = ''accepted''\<rparr>, admit q now s2))"

definition request_stop :: "nat \<Rightarrow> serving \<Rightarrow> serving" where
  "request_stop r s = s\<lparr>sv_states := (sv_states s)[r := (state_of s r)\<lparr>rs_stop := True\<rparr>]\<rparr>"

definition cancel :: "RuntimeLimits \<Rightarrow> string \<Rightarrow> string \<Rightarrow> nanos \<Rightarrow> serving \<Rightarrow> bool \<times> serving" where
  "cancel l tenant i now s =
     (if tenant \<noteq> tenant_scope l then (False, s)
      else (case map_of (sv_requests s) i of
          None \<Rightarrow> (False, s)
        | Some r \<Rightarrow>
            if rs_done (state_of s r) then (False, s)
            else let s1 = request_stop r s in
              (True, if r \<in> set (sv_queue s1)
                 then completeLocked l r Cancelled [] ''cancelled_while_queued'' now
                   (s1\<lparr>sv_queue := remove1 r (sv_queue s1)\<rparr>)
                 else s1)))"

text \<open>\<open>wait\<close> up to the point where it blocks: an answer, or the pointer it waits on.\<close>

definition no_lookup :: "LookupStatus \<Rightarrow> ResultLookup" where
  "no_lookup status = \<lparr>rl_status = status, rl_result = no_result\<rparr>"

definition wait_enter :: "RuntimeLimits \<Rightarrow> string \<Rightarrow> string \<Rightarrow> millis \<Rightarrow> serving \<Rightarrow> ResultLookup + nat" where
  "wait_enter l tenant i max_wait s =
     (if max_wait < 0 then Inl (no_lookup Timeout)
      else if tenant \<noteq> tenant_scope l then Inl (no_lookup NotFound)
      else (case map_of (sv_requests s) i of None \<Rightarrow> Inl (no_lookup NotFound) | Some r \<Rightarrow> Inr r))"

text \<open>The rest of \<open>wait\<close>, once the request it waits on is done.\<close>

definition wait_leave :: "string \<Rightarrow> nat \<Rightarrow> serving \<Rightarrow> ResultLookup \<times> serving" where
  "wait_leave i r s = (let
     result = rs_result (state_of s r);
     s1 = (if map_of (sv_requests s) i = Some r then s\<lparr>sv_requests := AList.delete i (sv_requests s)\<rparr> else s);
     s2 = (if i \<in> set (sv_completed_order s1)
           then s1\<lparr>sv_retained_result_bytes := take_off (sv_retained_result_bytes s1) (resultBytes result),
                   sv_completed_order := remove1 i (sv_completed_order s1)\<rparr>
           else s1)
     in (\<lparr>rl_status = Ready, rl_result = result\<rparr>, s2))"

subsection \<open>Workers\<close>

definition set_worker :: "nat \<Rightarrow> worker \<Rightarrow> serving \<Rightarrow> serving" where
  "set_worker i w s = s\<lparr>sv_workers := (sv_workers s)[i := w]\<rparr>"

text \<open>
  The first critical section of a round of \<open>workerLoop\<close>, entered when the condition it waits
  for holds; the three times are the readings of the clock in it.
\<close>

definition worker_take :: "deque_slot \<Rightarrow> RuntimeLimits \<Rightarrow> nat \<Rightarrow> nanos \<Rightarrow> nanos \<Rightarrow> nanos \<Rightarrow> serving \<Rightarrow> serving" where
  "worker_take slot l i now checked stamped s =
     (if sv_stopping s \<and> sv_queue s = [] then set_worker i W_Returned s
      else let s1 = expireQueuedLocked slot l now s in
        case sv_queue s1 of
          [] \<Rightarrow> if sv_stopping s1 then set_worker i W_Returned s1 else s1
        | r # rest \<Rightarrow> let s2 = s1\<lparr>sv_queue := rest\<rparr> in
            if rs_stop (state_of s2 r)
            then completeLocked l r Cancelled [] ''cancelled_before_execution'' checked s2
            else if rs_deadline (state_of s2 r) \<le> checked
            then completeLocked l r DeadlineExceeded [] ''deadline_exceeded_before_execution'' stamped s2
            else set_worker i (W_Running r) (s2\<lparr>
              sv_states := (sv_states s2)[r := (state_of s2 r)\<lparr>rs_started := True, rs_started_at := stamped\<rparr>],
              sv_active := sv_active s2 + 1\<rparr>))"

text \<open>What the handler did: it returned, or threw an exception with a text or without one.\<close>

datatype outcome = Returned HandlerResult | Threw "string option"

fun outcome_result :: "outcome \<Rightarrow> HandlerResult" where
  "outcome_result (Returned h) = h"
| "outcome_result (Threw (Some what)) = handler_failed (''handler_exception:'' @ what)"
| "outcome_result (Threw None) = handler_failed ''handler_exception:unknown''"

fun handler_threw :: "outcome \<Rightarrow> bool" where
  "handler_threw (Returned h) = False"
| "handler_threw (Threw what) = True"

text \<open>The second critical section, which records the outcome.\<close>

definition worker_record :: "RuntimeLimits \<Rightarrow> nat \<Rightarrow> nat \<Rightarrow> outcome \<Rightarrow> nanos \<Rightarrow> serving \<Rightarrow> serving" where
  "worker_record l i r res completed_at s = (let h = outcome_result res; s1 = set_worker i W_Idle s in
     if rs_stop (state_of s r)
     then completeLocked l r Cancelled [] ''cancelled_during_execution'' completed_at s1
     else if completed_at \<ge> rs_deadline (state_of s r)
     then completeLocked l r DeadlineExceeded [] ''deadline_exceeded_during_execution'' completed_at s1
     else if exceedsCombinedLimit (hr_output h) (hr_detail h) (max_response_bytes l)
     then completeLocked l r HandlerError [] ''response_quota_exceeded'' completed_at s1
     else if handler_threw res \<or> \<not> hr_success h
     then completeLocked l r HandlerError [] (if hr_detail h = [] then ''handler_error'' else hr_detail h) completed_at s1
     else completeLocked l r Succeeded (hr_output h) (hr_detail h) completed_at s1)"

subsection \<open>Draining and shutting down\<close>

definition beginDrain :: "serving \<Rightarrow> bool \<times> serving" where
  "beginDrain s = (if sv_stopping s \<or> \<not> sv_live s then (False, s)
     else (sv_accepting s, s\<lparr>sv_accepting := False, sv_draining := True\<rparr>))"

text \<open>Every request that is not done is told to stop; then the queue is completed from the front.\<close>

definition stop_all :: "serving \<Rightarrow> serving" where
  "stop_all s = fold (\<lambda>(i, r) s. if rs_done (state_of s r) then s else request_stop r s) (sv_requests s) s"

fun flush_loop :: "RuntimeLimits \<Rightarrow> string \<Rightarrow> nanos \<Rightarrow> nat list \<Rightarrow> serving \<Rightarrow> serving" where
  "flush_loop l detail now [] s = s"
| "flush_loop l detail now (r # rest) s =
     flush_loop l detail now rest (completeLocked l r Shutdown [] detail now (s\<lparr>sv_queue := rest\<rparr>))"

definition flush :: "RuntimeLimits \<Rightarrow> string \<Rightarrow> nanos \<Rightarrow> serving \<Rightarrow> serving" where
  "flush l detail now s = (let s1 = stop_all s in flush_loop l detail now (sv_queue s1) s1)"

text \<open>
  \<open>shutdown\<close> in three sections: it stops admission and waits for the requests under way, then
  ends the grace period, and after the workers have returned it records that they are joined.
\<close>

definition shutdown_enter :: "serving \<Rightarrow> serving" where
  "shutdown_enter s = (if sv_joined s then s
     else s\<lparr>sv_accepting := False, sv_draining := True, sv_closer := C_Grace\<rparr>)"

definition shutdown_end_grace :: "RuntimeLimits \<Rightarrow> nanos \<Rightarrow> serving \<Rightarrow> bool \<times> serving" where
  "shutdown_end_grace l now s = (let graceful = (sv_in_flight s = 0);
     s1 = (if graceful then s else flush l ''grace_period_exhausted'' now s)
     in (graceful, s1\<lparr>sv_stopping := True, sv_closer := C_Joining\<rparr>))"

definition shutdown_joined :: "serving \<Rightarrow> serving" where
  "shutdown_joined s = s\<lparr>sv_joined := True, sv_live := False, sv_closer := C_None\<rparr>"

definition destroy_enter :: "RuntimeLimits \<Rightarrow> nanos \<Rightarrow> serving \<Rightarrow> serving" where
  "destroy_enter l now s = (if sv_joined s then s
     else flush l ''runtime_destructor_shutdown'' now
       (s\<lparr>sv_accepting := False, sv_draining := True, sv_stopping := True, sv_closer := C_Joining\<rparr>))"

subsection \<open>Health and metrics\<close>

definition healthLocked :: "RuntimeLimits \<Rightarrow> serving \<Rightarrow> RuntimeHealth" where
  "healthLocked l s = (let
     accepting = (sv_accepting s \<and> \<not> sv_stopping s);
     saturated = (length (sv_queue s) \<ge> queue_capacity l \<or> sv_in_flight s \<ge> max_in_flight l)
     in \<lparr>he_live = sv_live s, he_ready = (sv_live s \<and> accepting \<and> \<not> saturated), he_accepting = accepting,
         he_draining = sv_draining s, he_saturated = saturated, he_active = sv_active s,
         he_queued = length (sv_queue s), he_in_flight = sv_in_flight s\<rparr>)"

definition metricsLocked :: "serving \<Rightarrow> RuntimeMetrics" where
  "metricsLocked s = (sv_counters s)\<lparr>mt_active := sv_active s, mt_queued := length (sv_queue s),
     mt_in_flight := sv_in_flight s, mt_retained_results := length (sv_completed_order s),
     mt_in_flight_request_bytes := sv_in_flight_request_bytes s,
     mt_retained_result_bytes := sv_retained_result_bytes s\<rparr>"

definition kServingRuntimeContract :: string where
  "kServingRuntimeContract = ''shorthand.serving.runtime.v1''"

definition show_bool :: "bool \<Rightarrow> string" where
  "show_bool b = (if b then ''true'' else ''false'')"

definition quote_mark :: string where "quote_mark = [CHR 0x22]"

definition json_key :: "string \<Rightarrow> string" where
  "json_key k = quote_mark @ k @ quote_mark @ '':''"

definition healthJson :: "RuntimeLimits \<Rightarrow> serving \<Rightarrow> string" where
  "healthJson l s = (let v = healthLocked l s in
     ''{'' @ json_key ''schema'' @ quote_mark @ ''shorthand.serving.health.v1'' @ quote_mark @
     '','' @ json_key ''contract'' @ quote_mark @ kServingRuntimeContract @ quote_mark @
     '','' @ json_key ''live'' @ show_bool (he_live v) @
     '','' @ json_key ''ready'' @ show_bool (he_ready v) @
     '','' @ json_key ''accepting'' @ show_bool (he_accepting v) @
     '','' @ json_key ''draining'' @ show_bool (he_draining v) @
     '','' @ json_key ''saturated'' @ show_bool (he_saturated v) @
     '','' @ json_key ''active'' @ show_nat (he_active v) @
     '','' @ json_key ''queued'' @ show_nat (he_queued v) @
     '','' @ json_key ''in_flight'' @ show_nat (he_in_flight v) @ ''}'')"

definition eol :: string where "eol = [CHR 0x0A]"

definition metric_line :: "string \<Rightarrow> nat \<Rightarrow> string" where
  "metric_line name v = ''shorthand_serving_'' @ name @ '' '' @ show_nat v @ eol"

definition prometheusMetrics :: "serving \<Rightarrow> string" where
  "prometheusMetrics s = (let v = metricsLocked s in
     ''# HELP shorthand_serving_requests_total Submission attempts at the serving runtime.'' @ eol @
     ''# TYPE shorthand_serving_requests_total counter'' @ eol @
     metric_line ''requests_total'' (unat (mt_submitted v)) @
     metric_line ''requests_accepted_total'' (unat (mt_accepted v)) @
     metric_line ''rejected_not_ready_total'' (unat (mt_rejected_not_ready v)) @
     metric_line ''rejected_capacity_total'' (unat (mt_rejected_capacity v)) @
     metric_line ''rejected_quota_total'' (unat (mt_rejected_quota v)) @
     metric_line ''rejected_isolation_total'' (unat (mt_rejected_isolation v)) @
     metric_line ''rejected_deadline_total'' (unat (mt_rejected_deadline v)) @
     metric_line ''rejected_invalid_total'' (unat (mt_rejected_invalid v)) @
     metric_line ''rejected_duplicate_total'' (unat (mt_rejected_duplicate v)) @
     metric_line ''succeeded_total'' (unat (mt_succeeded v)) @
     metric_line ''handler_error_total'' (unat (mt_handler_error v)) @
     metric_line ''cancelled_total'' (unat (mt_cancelled v)) @
     metric_line ''deadline_exceeded_total'' (unat (mt_deadline_exceeded v)) @
     metric_line ''shutdown_total'' (unat (mt_shutdown v)) @
     metric_line ''result_evictions_total'' (unat (mt_result_evictions v)) @
     metric_line ''saturation_events_total'' (unat (mt_saturation_events v)) @
     ''# TYPE shorthand_serving_active gauge'' @ eol @
     metric_line ''active'' (mt_active v) @
     metric_line ''queued'' (mt_queued v) @
     metric_line ''in_flight'' (mt_in_flight v) @
     metric_line ''retained_results'' (mt_retained_results v) @
     metric_line ''in_flight_request_bytes'' (mt_in_flight_request_bytes v) @
     metric_line ''retained_result_bytes'' (mt_retained_result_bytes v))"

subsection \<open>Runs\<close>

text \<open>
  One event per critical section. \<open>serve\<close> is \<open>None\<close> when the thread cannot take its step now: a
  worker whose condition does not hold or that runs no handler, a client that is not waiting or
  whose request is not done, a second caller of the lifecycle mutex, a join before every worker
  has returned. \<open>Give_up\<close> is a wait that times out; \<open>End_grace\<close> is the end of the grace period,
  by the time running out or by the last request completing.
\<close>

datatype event =
    Submit Request nanos
  | Cancel string string nanos
  | Wait string string millis
  | Wake nat
  | Give_up nat
  | Take nat nanos nanos nanos
  | Record nat outcome nanos
  | Drain
  | Close
  | End_grace nanos
  | Destroy nanos
  | Join

definition drop_nth :: "nat \<Rightarrow> 'a list \<Rightarrow> 'a list" where
  "drop_nth n xs = take n xs @ drop (Suc n) xs"

fun serve :: "deque_slot \<Rightarrow> RuntimeLimits \<Rightarrow> event \<Rightarrow> serving \<Rightarrow> serving option" where
  "serve slot l (Submit q now) s = Some (snd (submit slot l q now s))"
| "serve slot l (Cancel tenant i now) s = Some (snd (cancel l tenant i now s))"
| "serve slot l (Wait tenant i max_wait) s = Some (case wait_enter l tenant i max_wait s of
       Inl answer \<Rightarrow> s
     | Inr r \<Rightarrow> if rs_done (state_of s r) then snd (wait_leave i r s)
         else s\<lparr>sv_waiters := sv_waiters s @ [(i, r)]\<rparr>)"
| "serve slot l (Wake n) s = (if n < length (sv_waiters s) \<and> rs_done (state_of s (snd (sv_waiters s ! n)))
     then Some ((snd (wait_leave (fst (sv_waiters s ! n)) (snd (sv_waiters s ! n)) s))\<lparr>sv_waiters := drop_nth n (sv_waiters s)\<rparr>)
     else None)"
| "serve slot l (Give_up n) s = (if n < length (sv_waiters s) \<and> \<not> rs_done (state_of s (snd (sv_waiters s ! n)))
     then Some (s\<lparr>sv_waiters := drop_nth n (sv_waiters s)\<rparr>) else None)"
| "serve slot l (Take i now checked stamped) s =
     (if i < length (sv_workers s) \<and> sv_workers s ! i = W_Idle \<and> (sv_stopping s \<or> sv_queue s \<noteq> [])
      then Some (worker_take slot l i now checked stamped s) else None)"
| "serve slot l (Record i res completed_at) s =
     (if i < length (sv_workers s) then (case sv_workers s ! i of
        W_Running r \<Rightarrow> Some (worker_record l i r res completed_at s) | _ \<Rightarrow> None) else None)"
| "serve slot l Drain s = Some (snd (beginDrain s))"
| "serve slot l Close s = (if sv_closer s = C_None then Some (shutdown_enter s) else None)"
| "serve slot l (End_grace now) s = (if sv_closer s = C_Grace then Some (snd (shutdown_end_grace l now s)) else None)"
| "serve slot l (Destroy now) s = (if sv_closer s = C_None then Some (destroy_enter l now s) else None)"
| "serve slot l Join s =
     (if sv_closer s = C_Joining \<and> list_all (\<lambda>w. w = W_Returned) (sv_workers s) then Some (shutdown_joined s) else None)"

text \<open>The states a runtime can be in, as long as nothing undefined happened before.\<close>

inductive served :: "deque_slot \<Rightarrow> RuntimeLimits \<Rightarrow> serving \<Rightarrow> bool" for slot l where
  served_init: "ServingRuntime_init l = Inr s \<Longrightarrow> served slot l s"
| served_step: "served slot l s \<Longrightarrow> \<not> sv_trapped s \<Longrightarrow> serve slot l e s = Some s' \<Longrightarrow> served slot l s'"

end
