(* ===== verification/ServingInvariant.thy ===== *)
theory ServingInvariant
  imports Serving "HOL-Library.Multiset"
begin

section \<open>The books of the serving runtime\<close>

text \<open>
  The invariant of the scheduler. The requests that are not done are those in the queue and those
  a worker runs, each once; the gauges count them and their bytes; the counters balance; and the
  table finds every one of them under its identity. \<open>accounts\<close> says so for a list of requests
  under way, so that an operation that is in the middle of moving a request keeps it too.
\<close>

subsection \<open>Counters\<close>

definition rejections :: "RuntimeMetrics \<Rightarrow> u64" where
  "rejections c = mt_rejected_not_ready c + mt_rejected_capacity c + mt_rejected_quota c + mt_rejected_isolation c +
     mt_rejected_deadline c + mt_rejected_invalid c + mt_rejected_duplicate c"

definition completions :: "RuntimeMetrics \<Rightarrow> u64" where
  "completions c = mt_succeeded c + mt_handler_error c + mt_cancelled c + mt_deadline_exceeded c + mt_shutdown c"

text \<open>\<open>p\<close> submissions are counted but not yet decided, \<open>n\<close> requests are under way.\<close>

definition balanced :: "nat \<Rightarrow> nat \<Rightarrow> RuntimeMetrics \<Rightarrow> bool" where
  "balanced p n c \<longleftrightarrow> mt_submitted c = mt_accepted c + rejections c + of_nat p \<and>
     mt_accepted c = completions c + of_nat n"

lemma balanced_terminal: "balanced p (Suc n) c \<Longrightarrow> balanced p n (recordTerminalLocked status c)"
  by (cases status) (simp_all add: balanced_def rejections_def completions_def)

lemma balanced_reject: "balanced (Suc 0) n c \<Longrightarrow> status \<noteq> Accepted \<Longrightarrow> balanced 0 n (reject_count status c)"
  by (cases status) (simp_all add: balanced_def rejections_def completions_def)

lemma balanced_accept: "balanced (Suc 0) n c \<Longrightarrow> balanced 0 (Suc n) (c\<lparr>mt_accepted := mt_accepted c + 1\<rparr>)"
  by (simp add: balanced_def rejections_def completions_def)

lemma balanced_submit: "balanced 0 n c \<Longrightarrow> balanced (Suc 0) n (c\<lparr>mt_submitted := mt_submitted c + 1\<rparr>)"
  by (simp add: balanced_def rejections_def completions_def)

lemma balanced_evict [simp]: "balanced p n (c\<lparr>mt_result_evictions := k\<rparr>) = balanced p n c"
  by (simp add: balanced_def rejections_def completions_def)

subsection \<open>What completing a request leaves alone\<close>

lemma serve_trap_simps [simp]:
  "sv_states (serve_trap s) = sv_states s" "sv_queue (serve_trap s) = sv_queue s" "sv_requests (serve_trap s) = sv_requests s"
  "sv_completed_order (serve_trap s) = sv_completed_order s" "sv_workers (serve_trap s) = sv_workers s"
  "sv_waiters (serve_trap s) = sv_waiters s" "sv_counters (serve_trap s) = sv_counters s" "sv_live (serve_trap s) = sv_live s"
  "sv_accepting (serve_trap s) = sv_accepting s" "sv_draining (serve_trap s) = sv_draining s"
  "sv_stopping (serve_trap s) = sv_stopping s" "sv_joined (serve_trap s) = sv_joined s" "sv_active (serve_trap s) = sv_active s"
  "sv_in_flight (serve_trap s) = sv_in_flight s" "sv_in_flight_request_bytes (serve_trap s) = sv_in_flight_request_bytes s"
  "sv_closer (serve_trap s) = sv_closer s" "sv_trapped (serve_trap s)"
  by (simp_all add: serve_trap_def)

lemma evict_frame:
  "sv_states (evict_loop l order s) = sv_states s \<and> sv_queue (evict_loop l order s) = sv_queue s \<and>
   sv_workers (evict_loop l order s) = sv_workers s \<and> sv_waiters (evict_loop l order s) = sv_waiters s \<and>
   sv_live (evict_loop l order s) = sv_live s \<and> sv_accepting (evict_loop l order s) = sv_accepting s \<and>
   sv_draining (evict_loop l order s) = sv_draining s \<and> sv_stopping (evict_loop l order s) = sv_stopping s \<and>
   sv_joined (evict_loop l order s) = sv_joined s \<and> sv_active (evict_loop l order s) = sv_active s \<and>
   sv_in_flight (evict_loop l order s) = sv_in_flight s \<and> sv_closer (evict_loop l order s) = sv_closer s \<and>
   sv_in_flight_request_bytes (evict_loop l order s) = sv_in_flight_request_bytes s \<and>
   balanced p n (sv_counters (evict_loop l order s)) = balanced p n (sv_counters s)"
proof (induction order arbitrary: s)
  case (Cons i order)
  show ?case by (subst (1 2 3 4 5 6 7 8 9 10 11 12 13 14) evict_loop.simps) (simp add: Cons.IH split: option.split)
qed (simp add: evict_loop.simps)

lemma evict_requests:
  "set (sv_requests (evict_loop l order s)) \<subseteq> set (sv_requests s) \<and>
   (map_of (sv_requests s) i = Some r \<longrightarrow> \<not> rs_done (state_of s r) \<longrightarrow> map_of (sv_requests (evict_loop l order s)) i = Some r)"
proof (induction order arbitrary: s)
  case (Cons k order)
  show ?case
  proof (cases "map_of (sv_requests s) k")
    case (Some q)
    let ?t = "s\<lparr>sv_retained_result_bytes := take_off (sv_retained_result_bytes s) (resultBytes (rs_result (state_of s q))),
                sv_requests := AList.delete k (sv_requests s),
                sv_counters := (sv_counters s)\<lparr>mt_result_evictions := mt_result_evictions (sv_counters s) + 1\<rparr>\<rparr>"
    have "set (AList.delete k (sv_requests s)) \<subseteq> set (sv_requests s)" by (auto simp: AList.delete_eq)
    then show ?thesis using Cons.IH [of s] Cons.IH [of ?t] Some
      by (subst (1 2) evict_loop.simps) (auto simp: AList.delete_conv' split: if_splits)
  qed (subst (1 2) evict_loop.simps, simp add: Cons.IH)
qed (simp add: evict_loop.simps)

lemmas evict_subset = evict_requests [THEN conjunct1]

lemmas evict_keeps = evict_requests [THEN conjunct2, rule_format]

lemma evict_simps [simp]:
  "sv_states (evict_loop l order s) = sv_states s" "sv_queue (evict_loop l order s) = sv_queue s"
  "sv_workers (evict_loop l order s) = sv_workers s" "sv_waiters (evict_loop l order s) = sv_waiters s"
  "sv_live (evict_loop l order s) = sv_live s" "sv_accepting (evict_loop l order s) = sv_accepting s"
  "sv_draining (evict_loop l order s) = sv_draining s" "sv_stopping (evict_loop l order s) = sv_stopping s"
  "sv_joined (evict_loop l order s) = sv_joined s" "sv_active (evict_loop l order s) = sv_active s"
  "sv_in_flight (evict_loop l order s) = sv_in_flight s" "sv_closer (evict_loop l order s) = sv_closer s"
  "sv_in_flight_request_bytes (evict_loop l order s) = sv_in_flight_request_bytes s"
  "balanced p n (sv_counters (evict_loop l order s)) = balanced p n (sv_counters s)"
  by (simp_all add: evict_frame)

lemma complete_frame [simp]:
  "sv_queue (completeLocked l r status out detail t s) = sv_queue s"
  "sv_workers (completeLocked l r status out detail t s) = sv_workers s"
  "sv_waiters (completeLocked l r status out detail t s) = sv_waiters s"
  "sv_live (completeLocked l r status out detail t s) = sv_live s"
  "sv_accepting (completeLocked l r status out detail t s) = sv_accepting s"
  "sv_draining (completeLocked l r status out detail t s) = sv_draining s"
  "sv_stopping (completeLocked l r status out detail t s) = sv_stopping s"
  "sv_joined (completeLocked l r status out detail t s) = sv_joined s"
  "sv_closer (completeLocked l r status out detail t s) = sv_closer s"
  "length (sv_states (completeLocked l r status out detail t s)) = length (sv_states s)"
  by (simp_all add: completeLocked_def retainCompletedLocked_def Let_def)

lemma complete_states:
  "sv_states (completeLocked l r status out detail t s) = (if rs_done (state_of s r) then sv_states s
     else (sv_states s)[r := completed_state status out detail t (state_of s r)])"
  by (simp add: completeLocked_def retainCompletedLocked_def Let_def)

lemma completed_state_simps [simp]:
  "rs_done (completed_state status out detail t st)" "rs_stop (completed_state status out detail t st) = rs_stop st"
  "rs_started (completed_state status out detail t st) = rs_started st"
  "rs_deadline (completed_state status out detail t st) = rs_deadline st"
  "request_id (rs_request (completed_state status out detail t st)) = request_id (rs_request st)"
  by (simp_all add: completed_state_def Let_def)

lemma complete_state_of:
  "state_of (completeLocked l r status out detail t s) k =
     (if k = r \<and> r < length (sv_states s) \<and> \<not> rs_done (state_of s r)
      then completed_state status out detail t (state_of s r) else state_of s k)"
  by (cases "r < length (sv_states s)") (auto simp: complete_states list_update_beyond nth_list_update)

lemma complete_other [simp]: "k \<noteq> r \<Longrightarrow> state_of (completeLocked l r status out detail t s) k = state_of s k"
  by (simp add: complete_state_of)

lemma complete_kept [simp]:
  "id_of (completeLocked l r status out detail t s) k = id_of s k"
  "rs_stop (state_of (completeLocked l r status out detail t s) k) = rs_stop (state_of s k)"
  "rs_started (state_of (completeLocked l r status out detail t s) k) = rs_started (state_of s k)"
  "rs_deadline (state_of (completeLocked l r status out detail t s) k) = rs_deadline (state_of s k)"
  by (simp_all add: complete_state_of)

subsection \<open>The accounts\<close>

definition weight :: "serving \<Rightarrow> nat list \<Rightarrow> nat" where
  "weight s ps = sum_list (map (\<lambda>r. length (payload (rs_request (state_of s r)))) ps)"

definition accounts :: "nat \<Rightarrow> nat list \<Rightarrow> serving \<Rightarrow> bool" where
  "accounts p ps s \<longleftrightarrow> distinct ps \<and> set ps = {r. r < length (sv_states s) \<and> \<not> rs_done (state_of s r)} \<and>
     (\<forall>r \<in> set ps. map_of (sv_requests s) (id_of s r) = Some r) \<and>
     (\<forall>(i, r) \<in> set (sv_requests s). r < length (sv_states s) \<and> id_of s r = i) \<and>
     (\<forall>(i, r) \<in> set (sv_waiters s). r < length (sv_states s) \<and> id_of s r = i) \<and>
     sv_in_flight s = length ps \<and> sv_active s = length (filter (\<lambda>r. rs_started (state_of s r)) ps) \<and>
     sv_in_flight_request_bytes s = weight s ps \<and> balanced p (length ps) (sv_counters s)"

lemma accounts_perm: "accounts p ps s \<Longrightarrow> mset ps = mset qs \<Longrightarrow> accounts p qs s"
proof -
  assume a: "accounts p ps s" and m: "mset ps = mset qs"
  have "distinct ps = distinct qs" "set ps = set qs" "length ps = length qs" "weight s ps = weight s qs"
    using m by (auto simp: weight_def dest: mset_eq_setD mset_eq_length mset_eq_imp_distinct_iff) (metis mset_map sum_mset_sum_list)
  moreover have "length (filter f ps) = length (filter f qs)" for f using m by (metis mset_filter size_mset)
  ultimately show ?thesis using a unfolding accounts_def by simp
qed

lemma accounts_updates [simp]:
  "accounts p ps (s\<lparr>sv_queue := q\<rparr>) = accounts p ps s"
  "accounts p ps (s\<lparr>sv_workers := ws\<rparr>) = accounts p ps s"
  "accounts p ps (s\<lparr>sv_accepting := b\<rparr>) = accounts p ps s"
  "accounts p ps (s\<lparr>sv_draining := b\<rparr>) = accounts p ps s"
  "accounts p ps (s\<lparr>sv_stopping := b\<rparr>) = accounts p ps s"
  "accounts p ps (s\<lparr>sv_joined := b\<rparr>) = accounts p ps s"
  "accounts p ps (s\<lparr>sv_live := b\<rparr>) = accounts p ps s"
  "accounts p ps (s\<lparr>sv_closer := c\<rparr>) = accounts p ps s"
  "accounts p ps (s\<lparr>sv_completed_order := o'\<rparr>) = accounts p ps s"
  "accounts p ps (s\<lparr>sv_retained_result_bytes := n\<rparr>) = accounts p ps s"
  "accounts p ps (s\<lparr>sv_trapped := b\<rparr>) = accounts p ps s"
  "accounts p ps (serve_trap s) = accounts p ps s" "accounts p ps (set_worker i w s) = accounts p ps s"
  by (simp_all add: accounts_def weight_def serve_trap_def set_worker_def)

lemma weight_remove:
  assumes "r \<in> set ps"
  shows "weight s ps = length (payload (rs_request (state_of s r))) + weight s (remove1 r ps)"
  using sum_list_map_remove1 [OF assms] by (simp add: weight_def)

lemma weight_cong: "(\<And>r. r \<in> set ps \<Longrightarrow> state_of s r = state_of t r) \<Longrightarrow> weight s ps = weight t ps"
  by (auto simp: weight_def intro!: arg_cong [of _ _ sum_list])

lemma filter_remove_length:
  "r \<in> set ps \<Longrightarrow> length (filter f ps) = (if f r then Suc (length (filter f (remove1 r ps))) else length (filter f (remove1 r ps)))"
  by (induction ps) auto

lemma complete_fields:
  assumes "\<not> rs_done (state_of s r)"
  shows "sv_in_flight (completeLocked l r status out detail t s) = sv_in_flight s - 1"
    "sv_active (completeLocked l r status out detail t s) = (if rs_started (state_of s r) then sv_active s - 1 else sv_active s)"
    "sv_in_flight_request_bytes (completeLocked l r status out detail t s) =
       take_off (sv_in_flight_request_bytes s) (length (payload (rs_request (state_of s r))))"
    "balanced p n (sv_counters (completeLocked l r status out detail t s)) =
       balanced p n (recordTerminalLocked status (sv_counters s))"
  using assms by (simp_all add: completeLocked_def retainCompletedLocked_def Let_def)

lemma complete_requests:
  "set (sv_requests (completeLocked l r status out detail t s)) \<subseteq> set (sv_requests s)"
  by (auto simp: completeLocked_def retainCompletedLocked_def Let_def dest!: subsetD [OF evict_subset])

lemma complete_request_kept:
  assumes "map_of (sv_requests s) i = Some k" and "k \<noteq> r" and "\<not> rs_done (state_of s k)"
  shows "map_of (sv_requests (completeLocked l r status out detail t s)) i = Some k"
proof (cases "rs_done (state_of s r)")
  case False
  show ?thesis unfolding completeLocked_def retainCompletedLocked_def Let_def if_not_P [OF False]
    by (rule evict_keeps) (simp_all add: assms assms(2) [symmetric])
qed (simp add: completeLocked_def assms)

text \<open>Completing a request takes it off the accounts, whatever the result.\<close>

lemma accounts_complete:
  assumes a: "accounts p ps s" and r: "r \<in> set ps"
  shows "accounts p (remove1 r ps) (completeLocked l r status out detail t s)"
proof -
  let ?s = "completeLocked l r status out detail t s"
  have valid: "r < length (sv_states s)" "\<not> rs_done (state_of s r)" and dist: "distinct ps" using a r by (auto simp: accounts_def)
  have len: "length ps = Suc (length (remove1 r ps))" using length_pos_if_in_set [OF r] r by (simp add: length_remove1)
  have rem: "set (remove1 r ps) = set ps - {r}" using dist by simp
  have same: "state_of ?s k = state_of s k" if "k \<in> set (remove1 r ps)" for k using that rem by simp
  have w: "weight ?s (remove1 r ps) = weight s (remove1 r ps)" using same by (rule weight_cong)
  have act: "filter (\<lambda>k. rs_started (state_of ?s k)) (remove1 r ps) = filter (\<lambda>k. rs_started (state_of s k)) (remove1 r ps)" by simp
  have "set (remove1 r ps) = {k. k < length (sv_states ?s) \<and> \<not> rs_done (state_of ?s k)}"
    unfolding rem using a valid by (auto simp: accounts_def complete_state_of)
  moreover have "\<forall>k \<in> set (remove1 r ps). map_of (sv_requests ?s) (id_of ?s k) = Some k"
    unfolding rem using a complete_request_kept by (auto simp: accounts_def)
  moreover have "\<forall>(i, k) \<in> set (sv_requests ?s). k < length (sv_states ?s) \<and> id_of ?s k = i"
    using a complete_requests by (fastforce simp: accounts_def)
  moreover have "sv_active ?s = length (filter (\<lambda>k. rs_started (state_of ?s k)) (remove1 r ps))"
    unfolding act complete_fields(2) [OF valid(2)] using a filter_remove_length [OF r, of "\<lambda>k. rs_started (state_of s k)"]
    by (simp add: accounts_def)
  moreover have "sv_in_flight_request_bytes ?s = weight ?s (remove1 r ps)"
    unfolding w complete_fields(3) [OF valid(2)] using a weight_remove [OF r, of s] by (simp add: accounts_def take_off_def)
  moreover have "balanced p (length (remove1 r ps)) (sv_counters ?s)"
    unfolding complete_fields(4) [OF valid(2)] using a len by (intro balanced_terminal) (simp add: accounts_def)
  ultimately show ?thesis using a len dist complete_fields(1) [OF valid(2)] by (simp add: accounts_def)
qed

subsection \<open>The queue and the workers\<close>

fun running :: "worker list \<Rightarrow> nat list" where
  "running [] = []"
| "running (W_Running r # ws) = r # running ws"
| "running (_ # ws) = running ws"

lemma running_append [simp]: "running (xs @ ys) = running xs @ running ys"
  by (induction xs rule: running.induct) auto

lemma running_update:
  assumes "i < length ws"
  shows "running (ws[i := w]) = running (take i ws) @ running [w] @ running (drop (Suc i) ws)"
    and "running ws = running (take i ws) @ running [ws ! i] @ running (drop (Suc i) ws)"
proof -
  show "running (ws[i := w]) = running (take i ws) @ running [w] @ running (drop (Suc i) ws)"
    using upd_conv_take_nth_drop [OF assms, of w] running_append [of "[w]" "drop (Suc i) ws"] by simp
  show "running ws = running (take i ws) @ running [ws ! i] @ running (drop (Suc i) ws)"
    using arg_cong [OF id_take_nth_drop [OF assms], of running] running_append [of "[ws ! i]" "drop (Suc i) ws"] by simp
qed

text \<open>Requests in the queue wait for their start; requests with a worker have been started.\<close>

definition booked :: "nat \<Rightarrow> serving \<Rightarrow> bool" where
  "booked p s \<longleftrightarrow> accounts p (sv_queue s @ running (sv_workers s)) s \<and>
     (\<forall>r \<in> set (sv_queue s). \<not> rs_started (state_of s r)) \<and>
     (\<forall>r \<in> set (running (sv_workers s)). rs_started (state_of s r))"

text \<open>
  What an operation that only completes requests does to the rest: the queue and the gauges
  shrink, results stay, threads and flags are left alone.
\<close>

definition settles :: "serving \<Rightarrow> serving \<Rightarrow> bool" where
  "settles s s' \<longleftrightarrow> set (sv_queue s') \<subseteq> set (sv_queue s) \<and> length (sv_queue s') \<le> length (sv_queue s) \<and>
     sv_in_flight s' \<le> sv_in_flight s \<and> sv_in_flight_request_bytes s' \<le> sv_in_flight_request_bytes s \<and>
     sv_workers s' = sv_workers s \<and> sv_waiters s' = sv_waiters s \<and> sv_live s' = sv_live s \<and>
     sv_accepting s' = sv_accepting s \<and> sv_stopping s' = sv_stopping s \<and> sv_joined s' = sv_joined s \<and>
     sv_closer s' = sv_closer s \<and> length (sv_states s') = length (sv_states s) \<and>
     (\<forall>k. rs_stop (state_of s' k) = rs_stop (state_of s k) \<and>
       (rs_done (state_of s k) \<longrightarrow> state_of s' k = state_of s k))"

lemma settles_refl [simp]: "settles s s"
  by (simp add: settles_def)

lemma settles_trans: "settles s t \<Longrightarrow> settles t u \<Longrightarrow> settles s u"
  by (auto simp: settles_def)

lemma settles_trap [simp]: "settles s (serve_trap t) = settles s t"
  by (simp add: settles_def)

lemma settles_complete:
  "settles s (completeLocked l r status out detail now (s\<lparr>sv_queue := remove1 r (sv_queue s)\<rparr>))"
proof (cases "rs_done (state_of s r)")
  case True
  then have "completeLocked l r status out detail now (s\<lparr>sv_queue := remove1 r (sv_queue s)\<rparr>) = s\<lparr>sv_queue := remove1 r (sv_queue s)\<rparr>"
    by (simp add: completeLocked_def)
  then show ?thesis using set_remove1_subset by (simp add: settles_def length_remove1)
next
  case False
  have "state_of (completeLocked l r status out detail now (s\<lparr>sv_queue := remove1 r (sv_queue s)\<rparr>)) k = state_of s k"
    if "rs_done (state_of s k)" for k using False that by (auto simp: complete_state_of)
  then show ?thesis using False set_remove1_subset
    by (simp add: settles_def length_remove1 complete_fields take_off_def)
qed

lemma booked_updates [simp]:
  "booked p (s\<lparr>sv_accepting := b\<rparr>) = booked p s" "booked p (s\<lparr>sv_draining := b\<rparr>) = booked p s"
  "booked p (s\<lparr>sv_stopping := b\<rparr>) = booked p s" "booked p (s\<lparr>sv_joined := b\<rparr>) = booked p s"
  "booked p (s\<lparr>sv_live := b\<rparr>) = booked p s" "booked p (s\<lparr>sv_closer := c\<rparr>) = booked p s"
  "booked p (s\<lparr>sv_completed_order := ks\<rparr>) = booked p s" "booked p (s\<lparr>sv_retained_result_bytes := n\<rparr>) = booked p s"
  "booked p (serve_trap s) = booked p s"
  by (simp_all add: booked_def)

lemma booked_queued:
  assumes "booked p s" and "r \<in> set (sv_queue s)"
  shows "r < length (sv_states s)" "\<not> rs_done (state_of s r)" "r \<notin> set (running (sv_workers s))" "distinct (sv_queue s)"
  using assms by (auto simp: booked_def accounts_def)

lemma booked_complete_queued:
  assumes b: "booked p s" and r: "r \<in> set (sv_queue s)"
  shows "booked p (completeLocked l r status out detail now (s\<lparr>sv_queue := remove1 r (sv_queue s)\<rparr>))"
proof -
  have "accounts p (sv_queue s @ running (sv_workers s)) (s\<lparr>sv_queue := remove1 r (sv_queue s)\<rparr>)"
    using b by (simp add: booked_def)
  from accounts_complete [OF this, of r] r show ?thesis
    using b by (auto simp: booked_def remove1_append dest: notin_set_remove1)
qed

lemma booked_complete_running:
  assumes b: "booked p s" and i: "i < length (sv_workers s)" and w: "sv_workers s ! i = W_Running r"
  shows "booked p (completeLocked l r status out detail now (set_worker i W_Idle s))"
proof -
  let ?ws = "sv_workers s"
  have run: "running ?ws = running (take i ?ws) @ r # running (drop (Suc i) ?ws)"
    using running_update(2) [OF i] w by simp
  have idle: "running (?ws[i := W_Idle]) = running (take i ?ws) @ running (drop (Suc i) ?ws)"
    using running_update(1) [OF i, of W_Idle] by simp
  have a: "accounts p (sv_queue s @ running ?ws) s" and dist: "distinct (sv_queue s @ running ?ws)"
    using b by (auto simp: booked_def accounts_def)
  have "remove1 r (sv_queue s @ running ?ws) = sv_queue s @ running (?ws[i := W_Idle])"
    using dist unfolding run idle by (simp add: remove1_append)
  then have "accounts p (sv_queue s @ running (?ws[i := W_Idle])) (completeLocked l r status out detail now (set_worker i W_Idle s))"
    using accounts_complete [of p "sv_queue s @ running ?ws" "set_worker i W_Idle s" r] a run by simp
  then show ?thesis using b unfolding booked_def by (auto simp: set_worker_def idle run)
qed

text \<open>The reference of an erased element is undefined, or still reads the element.\<close>

definition slot_ok :: "deque_slot \<Rightarrow> bool" where
  "slot_ok slot \<longleftrightarrow> (\<forall>q i. i < length q \<longrightarrow> slot q i = None \<or> slot q i = Some (q ! i))"

lemma expire_loop_keeps:
  assumes "slot_ok slot" and "booked p s" and "sv_queue s = seen @ rest"
  shows "booked p (expire_loop slot l now seen rest s) \<and> settles s (expire_loop slot l now seen rest s)"
  using assms(2,3)
proof (induction rest arbitrary: seen s)
  case (Cons r rest)
  have slot: "slot (seen @ r # rest) (length seen) = None \<or> slot (seen @ r # rest) (length seen) = Some r"
    using assms(1) [unfolded slot_ok_def, rule_format, of "length seen" "seen @ r # rest"] by simp
  have "distinct (seen @ r # rest)" using booked_queued(4) [OF Cons.prems(1), of r] Cons.prems(2) by simp
  then have rem: "remove1 r (sv_queue s) = seen @ rest" using Cons.prems(2) by (simp add: remove1_append)
  have mem: "r \<in> set (sv_queue s)" using Cons.prems(2) by simp
  define t where "t status detail = completeLocked l r status [] detail now (s\<lparr>sv_queue := seen @ rest\<rparr>)" for status detail
  have t: "booked p (t status detail)" "settles s (t status detail)" "sv_queue (t status detail) = seen @ rest" for status detail
    using booked_complete_queued [OF Cons.prems(1) mem, of l status "[]" detail now, unfolded rem]
      settles_complete [of s l r status "[]" detail now, unfolded rem] by (simp_all add: t_def)
  have "booked p (expire_loop slot l now seen rest (t status detail)) \<and>
      settles s (expire_loop slot l now seen rest (t status detail))" for status detail
    using Cons.IH [OF t(1) t(3)] settles_trans [OF t(2)] by blast
  then show ?case using slot Cons.IH [OF Cons.prems(1), of "seen @ [r]"] Cons.prems
    by (auto simp flip: t_def)
qed simp

lemma expire_keeps:
  assumes "slot_ok slot" and "booked p s"
  shows "booked p (expireQueuedLocked slot l now s)" "settles s (expireQueuedLocked slot l now s)"
  using expire_loop_keeps [OF assms, of "[]"] by (simp_all add: expireQueuedLocked_def)

lemma flush_loop_keeps:
  assumes "booked p s" and "sv_queue s = rest"
  shows "booked p (flush_loop l detail now rest s) \<and> settles s (flush_loop l detail now rest s) \<and>
    sv_queue (flush_loop l detail now rest s) = []"
  using assms
proof (induction rest arbitrary: s)
  case (Cons r rest)
  have rem: "remove1 r (sv_queue s) = rest" using Cons.prems(2) by simp
  let ?t = "completeLocked l r Shutdown [] detail now (s\<lparr>sv_queue := rest\<rparr>)"
  have t: "booked p ?t" "settles s ?t"
    using booked_complete_queued [OF Cons.prems(1), of r l Shutdown "[]" detail now]
      settles_complete [of s l r Shutdown "[]" detail now] Cons.prems(2) by (simp_all add: rem)
  show ?case using Cons.IH [OF t(1)] settles_trans [OF t(2)] by simp
qed simp

text \<open>Setting stop flags changes nothing else.\<close>

lemma request_stop_simps [simp]:
  "sv_queue (request_stop r s) = sv_queue s" "sv_workers (request_stop r s) = sv_workers s"
  "sv_requests (request_stop r s) = sv_requests s" "sv_waiters (request_stop r s) = sv_waiters s"
  "sv_in_flight (request_stop r s) = sv_in_flight s" "sv_closer (request_stop r s) = sv_closer s"
  "sv_in_flight_request_bytes (request_stop r s) = sv_in_flight_request_bytes s"
  "sv_accepting (request_stop r s) = sv_accepting s" "sv_stopping (request_stop r s) = sv_stopping s"
  "sv_joined (request_stop r s) = sv_joined s" "sv_live (request_stop r s) = sv_live s"
  "sv_completed_order (request_stop r s) = sv_completed_order s" "sv_trapped (request_stop r s) = sv_trapped s"
  "sv_retained_result_bytes (request_stop r s) = sv_retained_result_bytes s"
  "length (sv_states (request_stop r s)) = length (sv_states s)"
  by (simp_all add: request_stop_def)

lemma request_stop_state:
  "state_of (request_stop r s) k = (if k = r \<and> r < length (sv_states s) then (state_of s r)\<lparr>rs_stop := True\<rparr> else state_of s k)"
  by (cases "r < length (sv_states s)") (auto simp: request_stop_def nth_list_update list_update_beyond)

lemma request_stop_kept [simp]:
  "id_of (request_stop r s) k = id_of s k" "rs_done (state_of (request_stop r s) k) = rs_done (state_of s k)"
  "rs_started (state_of (request_stop r s) k) = rs_started (state_of s k)"
  "rs_result (state_of (request_stop r s) k) = rs_result (state_of s k)"
  "rs_request (state_of (request_stop r s) k) = rs_request (state_of s k)"
  by (simp_all add: request_stop_state)

lemma accounts_request_stop [simp]: "accounts p ps (request_stop r s) = accounts p ps s"
  by (simp add: accounts_def weight_def) (simp add: request_stop_def)

lemma booked_request_stop [simp]: "booked p (request_stop r s) = booked p s"
  by (simp add: booked_def)

text \<open>What the loop over the table preserves: anything setting one flag preserves.\<close>

lemma stop_all_induct:
  assumes "P s" and "\<And>r t. P t \<Longrightarrow> \<not> rs_done (state_of t r) \<Longrightarrow> P (request_stop r t)"
  shows "P (stop_all s)"
proof -
  have "P (fold (\<lambda>(i, r) s. if rs_done (state_of s r) then s else request_stop r s) xs t)" if "P t" for xs t
    using that
  proof (induction xs arbitrary: t)
    case (Cons x xs)
    have "P (if rs_done (state_of t (snd x)) then t else request_stop (snd x) t)" using Cons.prems assms(2) by auto
    from Cons.IH [OF this] show ?case by (simp add: case_prod_beta)
  qed simp
  then show ?thesis unfolding stop_all_def using assms(1) by blast
qed

lemma stop_all_keeps:
  "booked p s \<Longrightarrow> booked p (stop_all s)" "sv_queue (stop_all s) = sv_queue s" "sv_workers (stop_all s) = sv_workers s"
  "sv_in_flight (stop_all s) = sv_in_flight s" "sv_in_flight_request_bytes (stop_all s) = sv_in_flight_request_bytes s"
  "sv_accepting (stop_all s) = sv_accepting s" "sv_stopping (stop_all s) = sv_stopping s"
  "sv_joined (stop_all s) = sv_joined s" "sv_live (stop_all s) = sv_live s" "sv_closer (stop_all s) = sv_closer s"
  "sv_waiters (stop_all s) = sv_waiters s" "length (sv_states (stop_all s)) = length (sv_states s)"
  "rs_done (state_of (stop_all s) k) = rs_done (state_of s k)" "rs_result (state_of (stop_all s) k) = rs_result (state_of s k)"
  by (rule stop_all_induct [of _ s]; simp)+

subsection \<open>The invariant\<close>

definition quotas :: "RuntimeLimits \<Rightarrow> serving \<Rightarrow> bool" where
  "quotas l s \<longleftrightarrow> length (sv_queue s) \<le> queue_capacity l \<and> sv_in_flight s \<le> max_in_flight l \<and>
     sv_in_flight_request_bytes s \<le> max_in_flight_request_bytes l"

text \<open>No request in the queue has been told to stop.\<close>

definition quiet :: "serving \<Rightarrow> bool" where
  "quiet s \<longleftrightarrow> (\<forall>r \<in> set (sv_queue s). \<not> rs_stop (state_of s r))"

text \<open>The phases of a runtime: it accepts, drains, stops and is joined, in this order.\<close>

definition modes :: "RuntimeLimits \<Rightarrow> serving \<Rightarrow> bool" where
  "modes l s \<longleftrightarrow> length (sv_workers s) = worker_threads l \<and> (sv_live s \<longleftrightarrow> \<not> sv_joined s) \<and>
     (sv_stopping s \<longrightarrow> \<not> sv_accepting s \<and> sv_queue s = []) \<and>
     (W_Returned \<in> set (sv_workers s) \<longrightarrow> sv_stopping s) \<and>
     (sv_closer s = C_Grace \<longrightarrow> \<not> sv_accepting s) \<and>
     (sv_stopping s \<longleftrightarrow> sv_closer s = C_Joining \<or> sv_joined s) \<and>
     (sv_joined s \<longrightarrow> set (sv_workers s) \<subseteq> {W_Returned} \<and> sv_closer s = C_None)"

definition runtime_inv :: "RuntimeLimits \<Rightarrow> serving \<Rightarrow> bool" where
  "runtime_inv l s \<longleftrightarrow> booked 0 s \<and> quiet s \<and> quotas l s \<and> modes l s"

lemma settles_keeps:
  assumes "settles s t"
  shows "quotas l s \<Longrightarrow> quotas l t" "quiet s \<Longrightarrow> quiet t" "modes l s \<Longrightarrow> modes l t"
  using assms by (auto simp: settles_def quotas_def quiet_def modes_def)

lemma inv_updates [simp]:
  "quotas l (s\<lparr>sv_counters := c\<rparr>) = quotas l s" "quiet (s\<lparr>sv_counters := c\<rparr>) = quiet s" "modes l (s\<lparr>sv_counters := c\<rparr>) = modes l s"
  "quotas l (s\<lparr>sv_waiters := ws\<rparr>) = quotas l s" "quiet (s\<lparr>sv_waiters := ws\<rparr>) = quiet s" "modes l (s\<lparr>sv_waiters := ws\<rparr>) = modes l s"
  "quotas l (s\<lparr>sv_requests := rs\<rparr>) = quotas l s" "quiet (s\<lparr>sv_requests := rs\<rparr>) = quiet s" "modes l (s\<lparr>sv_requests := rs\<rparr>) = modes l s"
  "quotas l (s\<lparr>sv_completed_order := ks\<rparr>) = quotas l s" "quiet (s\<lparr>sv_completed_order := ks\<rparr>) = quiet s"
  "modes l (s\<lparr>sv_completed_order := ks\<rparr>) = modes l s"
  "quotas l (s\<lparr>sv_retained_result_bytes := n\<rparr>) = quotas l s" "quiet (s\<lparr>sv_retained_result_bytes := n\<rparr>) = quiet s"
  "modes l (s\<lparr>sv_retained_result_bytes := n\<rparr>) = modes l s"
  "quotas l (request_stop r s) = quotas l s" "modes l (request_stop r s) = modes l s"
  by (simp_all add: quotas_def quiet_def modes_def)

lemma admit_simps [simp]:
  "sv_states (admit q now s) = sv_states s @ [new_request_state q now]"
  "sv_requests (admit q now s) = (request_id q, length (sv_states s)) # sv_requests s"
  "sv_queue (admit q now s) = sv_queue s @ [length (sv_states s)]"
  "sv_in_flight (admit q now s) = Suc (sv_in_flight s)"
  "sv_in_flight_request_bytes (admit q now s) = sv_in_flight_request_bytes s + length (payload q)"
  "sv_counters (admit q now s) = (sv_counters s)\<lparr>mt_accepted := mt_accepted (sv_counters s) + 1\<rparr>"
  "sv_workers (admit q now s) = sv_workers s" "sv_waiters (admit q now s) = sv_waiters s" "sv_active (admit q now s) = sv_active s"
  "sv_accepting (admit q now s) = sv_accepting s" "sv_stopping (admit q now s) = sv_stopping s"
  "sv_joined (admit q now s) = sv_joined s" "sv_live (admit q now s) = sv_live s" "sv_closer (admit q now s) = sv_closer s"
  "sv_completed_order (admit q now s) = sv_completed_order s" "sv_trapped (admit q now s) = sv_trapped s"
  "sv_retained_result_bytes (admit q now s) = sv_retained_result_bytes s"
  by (simp_all add: admit_def Let_def)

lemma new_request_state_simps [simp]:
  "\<not> rs_done (new_request_state q now)" "\<not> rs_started (new_request_state q now)" "\<not> rs_stop (new_request_state q now)"
  "rs_request (new_request_state q now) = q"
  by (simp_all add: new_request_state_def)

lemma accounts_admit:
  assumes a: "accounts (Suc 0) ps s" and new: "map_of (sv_requests s) (request_id q) = None"
  shows "accounts 0 (length (sv_states s) # ps) (admit q now s)"
proof -
  let ?t = "admit q now s" and ?n = "length (sv_states s)"
  have ps: "r < ?n" "(sv_states s @ [new_request_state q now]) ! r = state_of s r" if "r \<in> set ps" for r
    using a that by (auto simp: accounts_def nth_append)
  have w: "weight ?t ps = weight s ps" using ps(2) by (intro weight_cong) simp
  have f: "filter (\<lambda>r. rs_started (state_of ?t r)) ps = filter (\<lambda>r. rs_started (state_of s r)) ps"
    using ps(2) by (intro filter_cong) simp_all
  have "set (?n # ps) = {r. r < length (sv_states ?t) \<and> \<not> rs_done (state_of ?t r)}"
    using a by (auto simp: accounts_def less_Suc_eq nth_append)
  moreover have "\<forall>r \<in> set (?n # ps). map_of (sv_requests ?t) (id_of ?t r) = Some r"
  proof -
    have "map_of (sv_requests s) (id_of s r) = Some r" if "r \<in> set ps" for r using a that by (simp add: accounts_def)
    then have "id_of s r \<noteq> request_id q" "map_of (sv_requests s) (id_of s r) = Some r" if "r \<in> set ps" for r
      using new that by fastforce+
    then show ?thesis using ps(2) by simp
  qed
  moreover have "\<forall>(i, r) \<in> set (sv_requests ?t). r < length (sv_states ?t) \<and> id_of ?t r = i"
    using a by (auto simp: accounts_def nth_append)
  moreover have "\<forall>(i, r) \<in> set (sv_waiters ?t). r < length (sv_states ?t) \<and> id_of ?t r = i"
    using a by (auto simp: accounts_def nth_append)
  moreover have "sv_in_flight_request_bytes ?t = weight ?t (?n # ps)"
    using a w by (simp add: weight_def accounts_def)
  moreover have "sv_active ?t = length (filter (\<lambda>r. rs_started (state_of ?t r)) (?n # ps))"
    using a f by (simp add: accounts_def)
  moreover have "distinct (?n # ps)" using a ps(1) by (auto simp: accounts_def)
  moreover have "balanced 0 (length (?n # ps)) (sv_counters ?t)" "sv_in_flight ?t = length (?n # ps)"
    using a by (simp_all add: accounts_def balanced_accept)
  ultimately show ?thesis unfolding accounts_def by blast
qed


lemma accounts_counters:
  "accounts p ps s \<Longrightarrow> (balanced p (length ps) (sv_counters s) \<Longrightarrow> balanced p' (length ps) c) \<Longrightarrow> accounts p' ps (s\<lparr>sv_counters := c\<rparr>)"
  by (simp add: accounts_def weight_def)

text \<open>Sizes below the limits do not wrap.\<close>

lemma size_sub_exact: "b \<le> a \<Longrightarrow> a < 2 ^ 64 \<Longrightarrow> size_sub a b = a - b"
proof -
  assume "b \<le> a" and "a < 2 ^ 64"
  then have "a + 2 ^ 64 - b = (a - b) + 2 ^ 64" and "a - b < 2 ^ 64" by simp_all
  then show ?thesis unfolding size_sub_def by (metis mod_add_self2 mod_less)
qed

lemma limits_small:
  assumes "validateLimits l = Inr ()"
  shows "max_in_flight_request_bytes l < 2 ^ 64" "0 < worker_threads l"
  using assms by (auto simp: validateLimits_def kMaxAggregateBodyBytes_def split: if_splits)

lemma refusal_None:
  assumes "refusal l q s = None"
  shows "sv_accepting s" "\<not> sv_stopping s" "map_of (sv_requests s) (request_id q) = None"
    "length (sv_queue s) < queue_capacity l" "sv_in_flight s < max_in_flight l"
    "length (payload q) \<le> size_sub (max_in_flight_request_bytes l) (sv_in_flight_request_bytes s)"
  using assms by (auto simp: refusal_def split: if_splits)

lemma refusal_status: "refusal l q s = Some (status, reason) \<Longrightarrow> status \<noteq> Accepted"
  by (auto simp: refusal_def split: if_splits)

lemma booked_counters:
  "booked p s \<Longrightarrow> (\<And>n. balanced p n (sv_counters s) \<Longrightarrow> balanced p' n c) \<Longrightarrow> booked p' (s\<lparr>sv_counters := c\<rparr>)"
  unfolding booked_def by (auto intro: accounts_counters)

lemma settles_counters [simp]: "settles (s\<lparr>sv_counters := c\<rparr>) t = settles s t"
  by (simp add: settles_def)

lemma inv_submit:
  assumes "slot_ok slot" and lim: "validateLimits l = Inr ()" and inv: "runtime_inv l s"
  shows "runtime_inv l (snd (submit slot l q now s))"
proof -
  define s2 where "s2 = expireQueuedLocked slot l now (s\<lparr>sv_counters := (sv_counters s)\<lparr>mt_submitted := mt_submitted (sv_counters s) + 1\<rparr>\<rparr>)"
  have "booked (Suc 0) (s\<lparr>sv_counters := (sv_counters s)\<lparr>mt_submitted := mt_submitted (sv_counters s) + 1\<rparr>\<rparr>)"
    using inv by (auto simp: runtime_inv_def intro!: booked_counters balanced_submit)
  from expire_keeps [OF assms(1) this, of l now] have b: "booked (Suc 0) s2" and "settles s s2" by (simp_all add: s2_def)
  then have q: "quotas l s2" "quiet s2" "modes l s2" using inv settles_keeps by (simp_all add: runtime_inv_def)
  show ?thesis
  proof (cases "refusal l q s2")
    case None
    note r = refusal_None [OF None]
    have "accounts 0 (length (sv_states s2) # sv_queue s2 @ running (sv_workers s2)) (admit q now s2)"
      using b r(3) accounts_admit unfolding booked_def by blast
    then have a: "accounts 0 (sv_queue (admit q now s2) @ running (sv_workers (admit q now s2))) (admit q now s2)"
      by (rule accounts_perm) simp
    have old: "(sv_states s2 @ [new_request_state q now]) ! k = state_of s2 k" if "k \<in> set (sv_queue s2 @ running (sv_workers s2))" for k
      using b that by (auto simp: booked_def accounts_def nth_append)
    have "booked 0 (admit q now s2)" using a b old by (auto simp: booked_def)
    moreover have "quiet (admit q now s2)" using q(2) old by (auto simp: quiet_def)
    moreover have "quotas l (admit q now s2)"
      using q(1) r(4,5,6) size_sub_exact [OF _ limits_small(1) [OF lim]] by (auto simp: quotas_def)
    moreover have "modes l (admit q now s2)" using q(3) r(2) by (auto simp: modes_def)
    ultimately have "runtime_inv l (admit q now s2)" by (simp add: runtime_inv_def)
    then show ?thesis using None by (simp add: submit_def s2_def Let_def)
  next
    case (Some sr)
    then have "booked 0 (s2\<lparr>sv_counters := reject_count (fst sr) (sv_counters s2)\<rparr>)"
      using b refusal_status [of l q s2 "fst sr" "snd sr"] by (auto intro!: booked_counters balanced_reject)
    then have "runtime_inv l (s2\<lparr>sv_counters := reject_count (fst sr) (sv_counters s2)\<rparr>)"
      using q by (simp add: runtime_inv_def)
    then show ?thesis using Some by (simp add: submit_def s2_def Let_def reject_def case_prod_beta)
  qed
qed


lemma inv_cancel:
  assumes inv: "runtime_inv l s"
  shows "runtime_inv l (snd (cancel l tenant i now s))"
proof (cases "map_of (sv_requests s) i")
  case (Some r)
  let ?s1 = "request_stop r s"
  have b: "booked 0 ?s1" and q: "quotas l ?s1" "modes l ?s1" and quiet: "quiet s"
    using inv by (simp_all add: runtime_inv_def)
  show ?thesis
  proof (cases "r \<in> set (sv_queue s)")
    case True
    let ?s2 = "completeLocked l r Cancelled [] ''cancelled_while_queued'' now (?s1\<lparr>sv_queue := remove1 r (sv_queue ?s1)\<rparr>)"
    have "quiet ?s2" using quiet booked_queued(4) [OF b, of r] True by (auto simp: quiet_def request_stop_state)
    then have "runtime_inv l ?s2"
      using booked_complete_queued [OF b] settles_keeps(1,3) [OF settles_complete [of ?s1]] q True by (simp add: runtime_inv_def)
    then show ?thesis using Some True inv by (simp add: cancel_def Let_def)
  next
    case False
    then have "quiet ?s1" using quiet by (auto simp: quiet_def request_stop_state)
    then show ?thesis using Some False inv b q by (simp add: cancel_def Let_def runtime_inv_def)
  qed
qed (use inv in \<open>simp add: cancel_def\<close>)

text \<open>A request that is done can leave the table.\<close>

lemma booked_wait_leave:
  assumes b: "booked p s" and r: "rs_done (state_of s r)"
  shows "booked p (snd (wait_leave i r s))"
proof -
  have "map_of (AList.delete i (sv_requests s)) (id_of s k) = Some k"
    if "map_of (sv_requests s) i = Some r" "k \<in> set (sv_queue s @ running (sv_workers s))" for k
  proof -
    have "map_of (sv_requests s) (id_of s k) = Some k" "\<not> rs_done (state_of s k)"
      using b that(2) by (auto simp: booked_def accounts_def)
    then show ?thesis using that(1) r by (auto simp: AList.delete_conv')
  qed
  then have "map_of (sv_requests s) i = Some r \<Longrightarrow> booked p (s\<lparr>sv_requests := AList.delete i (sv_requests s)\<rparr>)"
    using b by (auto simp: booked_def accounts_def weight_def AList.delete_eq)
  then show ?thesis using b by (simp add: wait_leave_def Let_def)
qed

lemma wait_leave_simps [simp]:
  "quotas l (snd (wait_leave i r s)) = quotas l s" "quiet (snd (wait_leave i r s)) = quiet s"
  "modes l (snd (wait_leave i r s)) = modes l s" "sv_states (snd (wait_leave i r s)) = sv_states s"
  "sv_waiters (snd (wait_leave i r s)) = sv_waiters s"
  by (simp_all add: wait_leave_def Let_def)

lemma booked_waiters:
  assumes b: "booked p s"
    and ws: "\<And>i r. (i, r) \<in> set ws \<Longrightarrow> (i, r) \<in> set (sv_waiters s) \<or> map_of (sv_requests s) i = Some r"
  shows "booked p (s\<lparr>sv_waiters := ws\<rparr>)"
proof -
  have "r < length (sv_states s) \<and> id_of s r = i" if "(i, r) \<in> set ws" for i r
    using ws [OF that] b map_of_SomeD [of "sv_requests s" i r] unfolding booked_def accounts_def by fast
  then show ?thesis using b by (auto simp: booked_def accounts_def weight_def)
qed

lemma drop_nth_subset: "set (drop_nth n xs) \<subseteq> set xs"
  by (auto simp: drop_nth_def dest: in_set_takeD in_set_dropD)

lemma inv_wait:
  assumes inv: "runtime_inv l s" and step: "serve slot l e s = Some s'"
    and e: "e = Wait tenant i max_wait \<or> e = Wake n \<or> e = Give_up n"
  shows "runtime_inv l s'"
  using e
proof (elim disjE)
  assume "e = Wait tenant i max_wait"
  then show ?thesis using inv step
    by (auto simp: runtime_inv_def wait_enter_def split: option.splits if_splits intro!: booked_wait_leave booked_waiters)
next
  assume e: "e = Wake n"
  let ?w = "sv_waiters s ! n"
  have d: "rs_done (state_of s (snd ?w))" and s': "s' = (snd (wait_leave (fst ?w) (snd ?w) s))\<lparr>sv_waiters := drop_nth n (sv_waiters s)\<rparr>"
    using e step by (auto split: if_splits)
  have "booked 0 (snd (wait_leave (fst ?w) (snd ?w) s))" using inv d by (simp add: runtime_inv_def booked_wait_leave)
  then have "booked 0 s'" unfolding s' using drop_nth_subset [of n "sv_waiters s"] by (intro booked_waiters) auto
  then show ?thesis using inv unfolding s' by (simp add: runtime_inv_def)
next
  assume "e = Give_up n"
  then show ?thesis using inv step drop_nth_subset [of n "sv_waiters s"]
    by (auto simp: runtime_inv_def split: if_splits intro!: booked_waiters)
qed

lemma accounts_start:
  assumes a: "accounts p ps s" and r: "r \<in> set ps" "\<not> rs_started (state_of s r)"
  shows "accounts p ps (s\<lparr>sv_states := (sv_states s)[r := (state_of s r)\<lparr>rs_started := True, rs_started_at := t\<rparr>],
    sv_active := sv_active s + 1\<rparr>)" (is "accounts p ps ?t")
proof -
  let ?st = "(state_of s r)\<lparr>rs_started := True, rs_started_at := t\<rparr>"
  have len: "r < length (sv_states s)" and dist: "distinct ps" using a r by (auto simp: accounts_def)
  have st: "(sv_states s)[r := ?st] ! k = (if k = r then ?st else state_of s k)" for k
    using len by (simp add: nth_list_update)
  have "filter (\<lambda>k. rs_started ((sv_states s)[r := ?st] ! k)) (remove1 r ps) = filter (\<lambda>k. rs_started (state_of s k)) (remove1 r ps)"
    using dist by (intro filter_cong) (simp_all add: st)
  then have act: "length (filter (\<lambda>k. rs_started ((sv_states s)[r := ?st] ! k)) ps) = Suc (length (filter (\<lambda>k. rs_started (state_of s k)) ps))"
    using filter_remove_length [OF r(1), of "\<lambda>k. rs_started ((sv_states s)[r := ?st] ! k)"]
      filter_remove_length [OF r(1), of "\<lambda>k. rs_started (state_of s k)"] r(2) by (simp add: st)
  have kept: "rs_done ((sv_states s)[r := ?st] ! k) = rs_done (state_of s k)"
    "rs_request ((sv_states s)[r := ?st] ! k) = rs_request (state_of s k)" for k by (simp_all add: st)
  show ?thesis using a by (simp add: accounts_def weight_def kept act)
qed

lemma inv_settles: "runtime_inv l s \<Longrightarrow> booked 0 t \<Longrightarrow> settles s t \<Longrightarrow> runtime_inv l t"
  using settles_keeps by (auto simp: runtime_inv_def)

lemma inv_return: "runtime_inv l s \<Longrightarrow> sv_stopping s \<Longrightarrow> i < length (sv_workers s) \<Longrightarrow> sv_workers s ! i = W_Idle \<Longrightarrow>
  runtime_inv l (set_worker i W_Returned s)"
proof -
  assume inv: "runtime_inv l s" and st: "sv_stopping s" and i: "i < length (sv_workers s)" "sv_workers s ! i = W_Idle"
  have same: "running ((sv_workers s)[i := W_Returned]) = running (sv_workers s)"
    using running_update(1) [OF i(1), of W_Returned] running_update(2) [OF i(1)] i(2) by simp
  have "booked 0 (set_worker i W_Returned s)" using inv same by (simp add: runtime_inv_def booked_def) (simp add: set_worker_def same)
  moreover have "modes l (set_worker i W_Returned s)"
    using inv st set_update_subset_insert [of "sv_workers s" i W_Returned] by (auto simp: runtime_inv_def modes_def set_worker_def)
  moreover have "quiet (set_worker i W_Returned s)" "quotas l (set_worker i W_Returned s)"
    using inv by (auto simp: runtime_inv_def quiet_def quotas_def set_worker_def)
  ultimately show ?thesis by (simp add: runtime_inv_def)
qed

lemma inv_start:
  assumes inv: "runtime_inv l s" and q: "sv_queue s = r # rest" and i: "i < length (sv_workers s)" "sv_workers s ! i = W_Idle"
  shows "runtime_inv l (set_worker i (W_Running r) (s\<lparr>sv_queue := rest,
    sv_states := (sv_states s)[r := (state_of s r)\<lparr>rs_started := True, rs_started_at := t\<rparr>], sv_active := sv_active s + 1\<rparr>))"
    (is "runtime_inv l ?t")
proof -
  let ?ws = "sv_workers s"
  have b: "booked 0 s" using inv by (simp add: runtime_inv_def)
  have r: "\<not> rs_started (state_of s r)" "r < length (sv_states s)" "r \<notin> set rest" "r \<notin> set (running ?ws)"
    using b q by (auto simp: booked_def accounts_def)
  have run: "running (?ws[i := W_Running r]) = running (take i ?ws) @ r # running (drop (Suc i) ?ws)"
    "running ?ws = running (take i ?ws) @ running (drop (Suc i) ?ws)"
    using running_update(1) [OF i(1), of "W_Running r"] running_update(2) [OF i(1)] i(2) by simp_all
  have "accounts 0 (r # rest @ running ?ws) ?t"
    using accounts_start [of 0 "r # rest @ running ?ws" "s\<lparr>sv_queue := rest\<rparr>" r t] b r(1) q by (simp add: booked_def)
  then have "accounts 0 (rest @ running (?ws[i := W_Running r])) ?t" by (rule accounts_perm) (simp add: run)
  moreover have st: "state_of ?t k = (if k = r then (state_of s r)\<lparr>rs_started := True, rs_started_at := t\<rparr> else state_of s k)" for k
    using r(2) by (simp add: set_worker_def nth_list_update)
  moreover have "set (running (?ws[i := W_Running r])) = insert r (set (running ?ws))" by (auto simp: run)
  ultimately have "booked 0 ?t" using b q r(3) unfolding booked_def
    by (auto simp: set_worker_def nth_list_update)
  moreover have "quiet ?t" "quotas l ?t" using inv q r(2,3) by (auto simp: runtime_inv_def quiet_def quotas_def set_worker_def nth_list_update)
  moreover have "modes l ?t" using inv q set_update_subset_insert [of ?ws i "W_Running r"] by (auto simp: runtime_inv_def modes_def set_worker_def)
  ultimately show ?thesis by (simp add: runtime_inv_def)
qed


lemma inv_take:
  assumes slot: "slot_ok slot" and inv: "runtime_inv l s" and i: "i < length (sv_workers s)" "sv_workers s ! i = W_Idle"
  shows "runtime_inv l (worker_take slot l i now checked stamped s)"
proof (cases "sv_stopping s \<and> sv_queue s = []")
  case False
  define u where "u = expireQueuedLocked slot l now s"
  have "booked 0 s" using inv by (simp add: runtime_inv_def)
  note st = expire_keeps(2,1) [OF slot this, of l now, folded u_def]
  then have u: "runtime_inv l u" "sv_workers u = sv_workers s" using inv_settles [OF inv] by (auto simp: settles_def)
  show ?thesis
  proof (cases "sv_queue u")
    case Nil
    then show ?thesis using False u inv_return [OF u(1)] i by (auto simp: worker_take_def u_def Let_def)
  next
    case (Cons r rest)
    have rem: "rest = remove1 r (sv_queue u)" "r \<in> set (sv_queue u)" using Cons by simp_all
    have done_: "runtime_inv l (completeLocked l r status out detail t (u\<lparr>sv_queue := rest\<rparr>))" for status out detail t
      unfolding rem(1) using inv_settles [OF u(1) booked_complete_queued settles_complete] st(2) rem(2) by blast
    have "runtime_inv l (set_worker i (W_Running r) (u\<lparr>sv_queue := rest,
        sv_states := (sv_states u)[r := (state_of u r)\<lparr>rs_started := True, rs_started_at := stamped\<rparr>], sv_active := sv_active u + 1\<rparr>))"
      using inv_start [OF u(1) Cons] u(2) i by simp
    then show ?thesis unfolding worker_take_def if_not_P [OF False] Let_def using Cons done_ by (simp flip: u_def)
  qed
qed (use inv inv_return [OF inv] i in \<open>simp add: worker_take_def\<close>)

lemma inv_record:
  assumes inv: "runtime_inv l s" and i: "i < length (sv_workers s)" "sv_workers s ! i = W_Running r"
  shows "runtime_inv l (worker_record l i r res t s)"
proof -
  have "runtime_inv l (completeLocked l r status out detail t (set_worker i W_Idle s))" for status out detail
  proof -
    let ?t = "completeLocked l r status out detail t (set_worker i W_Idle s)"
    have nd: "\<not> rs_done (state_of (set_worker i W_Idle s) r)"
    proof -
      have "r \<in> set (running (sv_workers s))" using running_update(2) [OF i(1)] i(2) by simp
      then show ?thesis using inv by (auto simp: runtime_inv_def booked_def accounts_def set_worker_def)
    qed
    have "W_Returned \<notin> set ((sv_workers s)[i := W_Idle])" if "W_Returned \<notin> set (sv_workers s)"
      using that set_update_subset_insert [of "sv_workers s" i W_Idle] by auto
    moreover have "\<not> sv_joined s" using nth_mem [OF i(1)] i(2) inv by (auto simp: runtime_inv_def modes_def)
    ultimately have "modes l ?t" using inv by (auto simp: runtime_inv_def modes_def set_worker_def)
    moreover have "quiet ?t" using inv by (simp add: runtime_inv_def quiet_def) (simp add: set_worker_def)
    moreover have "sv_in_flight ?t \<le> sv_in_flight s" "sv_in_flight_request_bytes ?t \<le> sv_in_flight_request_bytes s"
      using complete_fields(1,3) [OF nd, of l status out detail t] by (simp_all add: set_worker_def take_off_def)
    then have "quotas l ?t" using inv by (simp add: runtime_inv_def quotas_def) (simp add: set_worker_def)
    ultimately show ?thesis using booked_complete_running [OF _ i] inv by (simp add: runtime_inv_def)
  qed
  then show ?thesis by (simp add: worker_record_def Let_def)
qed

text \<open>Telling every request to stop and emptying the queue.\<close>

lemma flush_keeps:
  assumes b: "booked p s"
  shows "booked p (flush l detail now s)" "sv_queue (flush l detail now s) = []"
    "settles (stop_all s) (flush l detail now s)"
  using flush_loop_keeps [OF stop_all_keeps(1) [OF b] refl, of l detail now] by (simp_all add: flush_def Let_def stop_all_keeps)

lemma inv_flush:
  assumes inv: "runtime_inv l s"
  shows "booked 0 (flush l detail now s) \<and> quiet (flush l detail now s) \<and> quotas l (flush l detail now s)"
proof -
  have b: "booked 0 s" and q: "quotas l s" using inv by (simp_all add: runtime_inv_def)
  have "quotas l (stop_all s)" using q by (simp add: quotas_def stop_all_keeps)
  then show ?thesis using flush_keeps(1,2) [OF b] settles_keeps(1) [OF flush_keeps(3) [OF b]] by (simp add: quiet_def)
qed


lemma inv_lifecycle:
  assumes inv: "runtime_inv l s" and step: "serve slot l e s = Some s'"
    and e: "e = Drain \<or> e = Close \<or> e = End_grace t \<or> e = Destroy t \<or> e = Join"
  shows "runtime_inv l s'"
proof -
  have q: "booked 0 s" "quiet s" "quotas l s" "modes l s" using inv by (simp_all add: runtime_inv_def)
  note defs = runtime_inv_def quotas_def quiet_def modes_def
  from e show ?thesis
  proof (elim disjE)
    assume "e = Drain"
    then show ?thesis using step q by (auto simp: beginDrain_def defs split: if_splits)
  next
    assume "e = Close"
    then show ?thesis using step q by (auto simp: shutdown_enter_def defs split: if_splits)
  next
    assume e: "e = End_grace t"
    show ?thesis
    proof (cases "sv_in_flight s = 0")
      case True
      then have "sv_queue s = []" using q(1) by (simp add: booked_def accounts_def)
      then show ?thesis using True step q e by (auto simp: shutdown_end_grace_def Let_def defs split: if_splits)
    next
      case False
      let ?u = "flush l ''grace_period_exhausted'' t s"
      have u: "booked 0 ?u" "quiet ?u" "quotas l ?u" "sv_queue ?u = []"
        using inv_flush [OF inv] flush_keeps(2) [OF q(1)] by simp_all
      have "settles (stop_all s) ?u" by (rule flush_keeps(3) [OF q(1)])
      then have "sv_workers ?u = sv_workers s \<and> sv_live ?u = sv_live s \<and> sv_joined ?u = sv_joined s \<and> sv_accepting ?u = sv_accepting s"
        by (simp add: settles_def stop_all_keeps)
      then show ?thesis using False step q(4) u e by (auto simp: shutdown_end_grace_def Let_def defs split: if_splits)
    qed
  next
    assume e: "e = Destroy t"
    let ?s = "s\<lparr>sv_accepting := False, sv_draining := True, sv_stopping := True, sv_closer := C_Joining\<rparr>"
    let ?u = "flush l ''runtime_destructor_shutdown'' t ?s"
    have b: "booked 0 ?s" "quotas l ?s" using q(1,3) by (simp_all add: quotas_def)
    have u: "booked 0 ?u" "sv_queue ?u = []" using flush_keeps(1,2) [OF b(1)] by simp_all
    have st: "settles (stop_all ?s) ?u" by (rule flush_keeps(3) [OF b(1)])
    have "quotas l (stop_all ?s)" using b(2) by (simp add: quotas_def stop_all_keeps)
    then have "quotas l ?u" using settles_keeps(1) [OF st] by blast
    moreover have "sv_workers ?u = sv_workers s \<and> sv_live ?u = sv_live s \<and> sv_joined ?u = sv_joined s \<and> \<not> sv_accepting ?u \<and>
        sv_stopping ?u \<and> sv_closer ?u = C_Joining" using st by (simp add: settles_def stop_all_keeps)
    ultimately show ?thesis using step inv q(4) u e
      by (auto simp: destroy_enter_def runtime_inv_def quiet_def modes_def split: if_splits)
  next
    assume "e = Join"
    then show ?thesis using step q by (auto simp: shutdown_joined_def defs list_all_iff split: if_splits)
  qed
qed

lemma inv_init: "ServingRuntime_init l = Inr s \<Longrightarrow> runtime_inv l s"
proof -
  assume "ServingRuntime_init l = Inr s"
  moreover have "running (replicate n W_Idle) = []" for n by (induction n) auto
  ultimately show ?thesis
    by (auto simp: ServingRuntime_init_def runtime_inv_def booked_def accounts_def weight_def quiet_def quotas_def modes_def
      no_metrics_def balanced_def rejections_def completions_def split: sum.splits)
qed

lemma inv_serve:
  assumes "slot_ok slot" and "validateLimits l = Inr ()" and "runtime_inv l s" and "serve slot l e s = Some s'"
  shows "runtime_inv l s'"
  using assms inv_submit [OF assms(1-3)] inv_cancel [OF assms(3)] inv_wait [OF assms(3,4)] inv_lifecycle [OF assms(3,4)]
    inv_take [OF assms(1,3)] inv_record [OF assms(3)]
  by (cases e) (auto split: if_splits worker.splits)

lemma served_limits: "served slot l s \<Longrightarrow> validateLimits l = Inr ()"
  by (induction rule: served.induct) (auto simp: ServingRuntime_init_def split: sum.splits)

lemma served_inv: "served slot l s \<Longrightarrow> slot_ok slot \<Longrightarrow> runtime_inv l s"
  by (induction rule: served.induct) (auto intro: inv_init inv_serve served_limits)

end
