(* ===== verification/ServingTheorems.thy ===== *)
theory ServingTheorems
  imports ServingInvariant
begin

section \<open>What the serving runtime promises\<close>

text \<open>
  The books balance in every state a run reaches; a result, once recorded, is never changed;
  workers that keep running finish every accepted request and then return; and the store of
  results is exact as long as no waiter meets a reused identity. Three concrete runs show the
  undefined sweep over the queue, what one library makes of it, and the reused identity.
\<close>

subsection \<open>Deques\<close>

text \<open>The C++ standard: the reference of an erased element must not be read.\<close>

definition standard_slot :: deque_slot where
  "standard_slot q i = None"

text \<open>A sweep that copies the pointer before it erases the element.\<close>

definition kept_slot :: deque_slot where
  "kept_slot q i = (if i < length q then Some (q ! i) else None)"

text \<open>
  A deque that closes the gap from the nearer end: the slot then holds a neighbour of the erased
  element, or was destroyed with the end.
\<close>

definition shifting_slot :: deque_slot where
  "shifting_slot q i = (if i < length q div 2 then (if i = 0 then None else Some (q ! (i - 1)))
     else if Suc i < length q then Some (q ! Suc i) else None)"

lemma slots_ok [simp]: "slot_ok standard_slot" "slot_ok kept_slot"
  by (simp_all add: slot_ok_def standard_slot_def kept_slot_def)

subsection \<open>Runs from a state\<close>

inductive continues :: "deque_slot \<Rightarrow> RuntimeLimits \<Rightarrow> serving \<Rightarrow> serving \<Rightarrow> bool" for slot l where
  continues_refl: "continues slot l s s"
| continues_step: "continues slot l s t \<Longrightarrow> \<not> sv_trapped t \<Longrightarrow> serve slot l e t = Some u \<Longrightarrow> continues slot l s u"

fun play :: "deque_slot \<Rightarrow> RuntimeLimits \<Rightarrow> event list \<Rightarrow> serving \<Rightarrow> serving option" where
  "play slot l [] s = Some s"
| "play slot l (e # es) s = (if sv_trapped s then None else
     case serve slot l e s of None \<Rightarrow> None | Some s' \<Rightarrow> play slot l es s')"

lemma play_served: "served slot l s \<Longrightarrow> play slot l es s = Some t \<Longrightarrow> served slot l t"
  by (induction es arbitrary: s) (auto split: if_splits option.splits intro: served_step)

lemma play_continues: "continues slot l r s \<Longrightarrow> play slot l es s = Some t \<Longrightarrow> continues slot l r t"
  by (induction es arbitrary: s) (auto split: if_splits option.splits intro: continues_step)

definition demo_limits :: RuntimeLimits where
  "demo_limits = \<lparr>tenant_scope = ''t'', worker_threads = 1, queue_capacity = 3, max_in_flight = 4,
     completed_result_capacity = 2, max_request_bytes = 8, max_response_bytes = 64, max_in_flight_request_bytes = 16,
     max_retained_result_bytes = 64, max_deadline = 1000\<rparr>"

definition demo_request :: "string \<Rightarrow> string \<Rightarrow> millis \<Rightarrow> Request" where
  "demo_request i body ms = \<lparr>request_id = i, tenant_id = ''t'', payload = body, timeout = ms\<rparr>"

definition demo_start :: serving where
  "demo_start = \<lparr>sv_states = [], sv_queue = [], sv_requests = [], sv_completed_order = [], sv_workers = [W_Idle], sv_waiters = [],
     sv_counters = no_metrics, sv_live = True, sv_accepting = True, sv_draining = False, sv_stopping = False, sv_joined = False,
     sv_active = 0, sv_in_flight = 0, sv_in_flight_request_bytes = 0, sv_retained_result_bytes = 0, sv_closer = C_None,
     sv_trapped = False\<rparr>"

lemma demo_start: "ServingRuntime_init demo_limits = Inr demo_start"
  by (simp add: demo_start_def ServingRuntime_init_def validateLimits_def demo_limits_def validIdentity_def
    kMaxWorkers_def kMaxQueueCapacity_def kMaxResultCapacity_def kMaxBodyBytes_def kMaxAggregateBodyBytes_def
    kMaxIdentityBytes_def kMaxSupportedDeadline_def is_lower_def)

text \<open>Opening a concrete run.\<close>

lemmas demo_simps = demo_request_def demo_limits_def submit_def worker_take_def worker_record_def
  expireQueuedLocked_def refusal_def validIdentity_def kMaxIdentityBytes_def is_lower_def size_sub_def admit_def new_request_state_def Let_def
  completeLocked_def retainCompletedLocked_def completed_state_def evict_loop.simps resultBytes_def take_off_def elapsedMicros_def
  set_worker_def handler_succeeded_def exceedsCombinedLimit_def no_metrics_def no_result_def reject_def cancel_def request_stop_def
  wait_enter_def wait_leave_def drop_nth_def serve_trap_def

lemma demo_served: "play slot demo_limits es demo_start = Some t \<Longrightarrow> served slot demo_limits t"
  by (rule play_served [OF served_init [OF demo_start]])

subsection \<open>Safety\<close>

text \<open>
  C5: In every state of the runtime, the requests that are not done are exactly those in the
  queue, not started, and those a worker is running, started, each of them once and found in the
  table under its identity; the gauges of active and in-flight requests and of their bytes say
  how many these are; queue, in-flight requests and bytes are within their limits; and every
  submission is counted once as accepted or rejected, every accepted request once as in flight
  or with its terminal status.
\<close>

theorem runtime_books_balance:
  assumes "served slot l s" and "slot_ok slot"
  shows "distinct (sv_queue s @ running (sv_workers s)) \<and>
    set (sv_queue s @ running (sv_workers s)) = {r. r < length (sv_states s) \<and> \<not> rs_done (state_of s r)} \<and>
    list_all (\<lambda>r. map_of (sv_requests s) (id_of s r) = Some r) (sv_queue s @ running (sv_workers s)) \<and>
    sv_in_flight s = length (sv_queue s) + length (running (sv_workers s)) \<and> sv_active s = length (running (sv_workers s)) \<and>
    sv_in_flight_request_bytes s = weight s (sv_queue s @ running (sv_workers s)) \<and>
    length (sv_queue s) \<le> queue_capacity l \<and> sv_in_flight s \<le> max_in_flight l \<and>
    sv_in_flight_request_bytes s \<le> max_in_flight_request_bytes l \<and>
    mt_submitted (sv_counters s) = mt_accepted (sv_counters s) + rejections (sv_counters s) \<and>
    mt_accepted (sv_counters s) = completions (sv_counters s) + of_nat (sv_in_flight s)"
proof -
  have inv: "booked 0 s" "quotas l s" using served_inv [OF assms] by (simp_all add: runtime_inv_def)
  have "filter (\<lambda>r. rs_started (state_of s r)) (sv_queue s @ running (sv_workers s)) = running (sv_workers s)"
    using inv(1) by (auto simp: booked_def filter_id_conv filter_empty_conv)
  then show ?thesis using inv unfolding booked_def accounts_def quotas_def balanced_def by (simp add: list_all_iff)
qed

text \<open>What no operation may undo: a recorded result.\<close>

definition keeps_results :: "serving \<Rightarrow> serving \<Rightarrow> bool" where
  "keeps_results s t \<longleftrightarrow> length (sv_states s) \<le> length (sv_states t) \<and> (\<forall>r < length (sv_states s). rs_done (state_of s r) \<longrightarrow>
     rs_done (state_of t r) \<and> rs_result (state_of t r) = rs_result (state_of s r))"

lemma keeps_results_trans: "keeps_results s t \<Longrightarrow> keeps_results t u \<Longrightarrow> keeps_results s u"
  by (auto simp: keeps_results_def)

lemma keeps_results_same: "sv_states t = sv_states s \<Longrightarrow> keeps_results s t"
  by (simp add: keeps_results_def)

lemma keeps_results_modes [simp]: "keeps_results s (t\<lparr>sv_stopping := b, sv_closer := c\<rparr>) = keeps_results s t"
  by (simp add: keeps_results_def)

lemma keeps_results_complete: "sv_states s = sv_states s0 \<Longrightarrow> keeps_results s0 (completeLocked l r status out detail now s)"
  by (auto simp: keeps_results_def complete_state_of)

lemma keeps_results_update:
  "rs_done st = rs_done (state_of s r) \<Longrightarrow> rs_result st = rs_result (state_of s r) \<Longrightarrow> sv_states t = (sv_states s)[r := st] \<Longrightarrow>
   keeps_results s t"
  by (cases "r < length (sv_states s)") (auto simp: keeps_results_def nth_list_update)

lemma keeps_results_expire: "keeps_results s (expire_loop slot l now seen rest s)"
proof (induction slot l now seen rest s rule: expire_loop.induct)
  case (2 slot l now seen r rest s)
  have "keeps_results s (completeLocked l r' status [] detail now (s\<lparr>sv_queue := seen @ rest\<rparr>))" for r' status detail
    by (simp add: keeps_results_complete)
  note step = keeps_results_trans [OF this]
  show ?case using 2 by (auto simp: keeps_results_same split: option.split intro: step)
qed (simp add: keeps_results_same)

lemma keeps_results_flush_loop: "keeps_results s (flush_loop l detail now rest s)"
proof (induction rest arbitrary: s)
  case (Cons r rest)
  have "keeps_results s (completeLocked l r Shutdown [] detail now (s\<lparr>sv_queue := rest\<rparr>))"
    by (simp add: keeps_results_complete)
  then show ?case using Cons keeps_results_trans by simp
qed (simp add: keeps_results_same)

lemma keeps_results_flush: "sv_states s = sv_states s0 \<Longrightarrow> keeps_results s0 (flush l detail now s)"
proof -
  assume "sv_states s = sv_states s0"
  then have "keeps_results s0 (stop_all s)" by (simp add: keeps_results_def stop_all_keeps)
  then show ?thesis using keeps_results_flush_loop keeps_results_trans by (auto simp: flush_def Let_def)
qed

lemma keeps_results_submit: "keeps_results s (snd (submit slot l q now s))"
proof -
  let ?s1 = "s\<lparr>sv_counters := (sv_counters s)\<lparr>mt_submitted := mt_submitted (sv_counters s) + 1\<rparr>\<rparr>"
  define u where "u = expireQueuedLocked slot l now ?s1"
  have "keeps_results ?s1 u" unfolding u_def expireQueuedLocked_def by (rule keeps_results_expire)
  then have "keeps_results s u" by (simp add: keeps_results_def)
  moreover have "keeps_results u (admit q now u)" by (simp add: keeps_results_def nth_append)
  moreover have "keeps_results u (snd (reject status reason u))" for status reason by (simp add: reject_def keeps_results_def)
  ultimately show ?thesis using keeps_results_trans
    by (auto simp: submit_def Let_def split: option.split prod.split simp flip: u_def)
qed

lemma keeps_results_take: "keeps_results s (worker_take slot l i now checked stamped s)"
proof -
  define u where "u = expireQueuedLocked slot l now s"
  have u: "keeps_results s u" unfolding u_def expireQueuedLocked_def by (rule keeps_results_expire)
  have "keeps_results u (set_worker i (W_Running r) (u\<lparr>sv_queue := rest,
        sv_states := (sv_states u)[r := (state_of u r)\<lparr>rs_started := True, rs_started_at := stamped\<rparr>], sv_active := sv_active u + 1\<rparr>))" for r rest
    by (rule keeps_results_update [of "(state_of u r)\<lparr>rs_started := True, rs_started_at := stamped\<rparr>"]) (simp_all add: set_worker_def)
  moreover have "keeps_results u (completeLocked l r status [] detail t (u\<lparr>sv_queue := rest\<rparr>))" for r rest status detail t
    by (simp add: keeps_results_complete)
  moreover have "keeps_results v (set_worker i w v)" for v w by (simp add: set_worker_def keeps_results_def)
  ultimately show ?thesis using u keeps_results_trans [OF u]
    by (auto simp: worker_take_def Let_def split: list.split simp flip: u_def)
qed

lemma keeps_results_serve: "serve slot l e s = Some t \<Longrightarrow> keeps_results s t"
proof (cases e)
  case (Cancel tenant i now)
  assume "serve slot l e s = Some t"
  moreover have "keeps_results s (request_stop r s)" for r by (simp add: keeps_results_def)
  moreover have "keeps_results s (completeLocked l r status [] detail now ((request_stop r s)\<lparr>sv_queue := q\<rparr>))" for r status detail q
    by (auto simp: keeps_results_def complete_state_of)
  ultimately show ?thesis using Cancel keeps_results_same [of s s]
    by (auto simp: cancel_def Let_def split: if_splits option.splits)
next
  case (Record i res now)
  assume "serve slot l e s = Some t"
  moreover have "keeps_results s (completeLocked l r status out detail now (set_worker i W_Idle s))" for r status out detail
    by (rule keeps_results_complete) (simp add: set_worker_def)
  ultimately show ?thesis using Record
    by (auto simp: worker_record_def Let_def split: if_splits worker.splits)
qed (auto simp: keeps_results_submit keeps_results_take keeps_results_flush beginDrain_def shutdown_enter_def shutdown_joined_def
  destroy_enter_def shutdown_end_grace_def Let_def keeps_results_same split: if_splits sum.splits)


lemma keeps_results_continues: "continues slot l s t \<Longrightarrow> keeps_results s t"
  by (induction rule: continues.induct) (auto intro: keeps_results_same keeps_results_serve keeps_results_trans)

text \<open>
  C27: A request gets one result: once a request is done, no later operation of any thread changes
  its result, whatever the library leaves behind an erased element of the queue.
\<close>

theorem results_are_final:
  assumes "continues slot l s t" and "r < length (sv_states s)" and "rs_done (state_of s r)"
  shows "r < length (sv_states t) \<and> rs_done (state_of t r) \<and> rs_result (state_of t r) = rs_result (state_of s r)"
  using keeps_results_continues [OF assms(1)] assms(2,3) by (auto simp: keeps_results_def)

definition demo_events :: "event list" where
  "demo_events = [Submit (demo_request ''a'' ''xy'' 10) 0, Take 0 1 2 3, Record 0 (Returned (handler_succeeded ''ok'')) 4000]"

lemma demo_done:
  obtains s where "play standard_slot demo_limits demo_events demo_start = Some s" "\<not> sv_trapped s" "sv_in_flight s = 0"
    "length (sv_states s) = 1" "rs_done (state_of s 0)" "rr_output (rs_result (state_of s 0)) = ''ok''"
proof -
  have "\<exists>s. play standard_slot demo_limits demo_events demo_start = Some s \<and> \<not> sv_trapped s \<and> sv_in_flight s = 0 \<and>
    length (sv_states s) = 1 \<and> rs_done (state_of s 0) \<and> rr_output (rs_result (state_of s 0)) = ''ok''"
    by (simp add: demo_events_def demo_start_def demo_simps)
  then show ?thesis using that by blast
qed

theorem runtime_books_balance_witness:
  "\<exists>s. play standard_slot demo_limits demo_events demo_start = Some s \<and> sv_in_flight s = 0 \<and>
     mt_accepted (sv_counters s) = completions (sv_counters s)"
proof -
  obtain s where s: "play standard_slot demo_limits demo_events demo_start = Some s" "sv_in_flight s = 0" by (rule demo_done) blast
  from runtime_books_balance [OF demo_served [OF s(1)] slots_ok(1)] s show ?thesis by simp
qed

theorem results_are_final_witness:
  "\<exists>s t. play standard_slot demo_limits demo_events demo_start = Some s \<and> play standard_slot demo_limits [Drain] s = Some t \<and>
     rr_output (rs_result (state_of s 0)) = ''ok'' \<and> rs_result (state_of t 0) = rs_result (state_of s 0)"
proof -
  obtain s where s: "play standard_slot demo_limits demo_events demo_start = Some s" "\<not> sv_trapped s"
    "length (sv_states s) = 1" "rs_done (state_of s 0)" "rr_output (rs_result (state_of s 0)) = ''ok''" by (rule demo_done) blast
  define t where "t = snd (beginDrain s)"
  have t: "play standard_slot demo_limits [Drain] s = Some t" using s(2) by (simp add: t_def)
  from results_are_final [OF play_continues [OF continues_refl t], of 0] s t show ?thesis by auto
qed

subsection \<open>Progress\<close>

text \<open>Runs in which only the workers move; the count is that of the critical sections.\<close>

fun is_worker_event :: "event \<Rightarrow> bool" where
  "is_worker_event (Take i now checked stamped) = True"
| "is_worker_event (Record i res now) = True"
| "is_worker_event _ = False"

inductive works :: "deque_slot \<Rightarrow> RuntimeLimits \<Rightarrow> nat \<Rightarrow> serving \<Rightarrow> serving \<Rightarrow> bool" for slot l where
  works_refl: "works slot l 0 s s"
| works_step: "works slot l n s t \<Longrightarrow> \<not> sv_trapped t \<Longrightarrow> is_worker_event e \<Longrightarrow> serve slot l e t = Some u \<Longrightarrow> works slot l (Suc n) s u"

text \<open>The work that is left: two sections for a queued request, one for a running one, one for a worker to return.\<close>

definition work_left :: "serving \<Rightarrow> nat" where
  "work_left s = 2 * length (sv_queue s) + length (running (sv_workers s)) + length (filter (\<lambda>w. w \<noteq> W_Returned) (sv_workers s))"

lemma filter_update_length:
  assumes "i < length ws"
  shows "length (filter f (ws[i := w])) + (if f (ws ! i) then 1 else 0) = length (filter f ws) + (if f w then 1 else 0)"
  using arg_cong [OF id_take_nth_drop [OF assms], of "\<lambda>xs. length (filter f xs)"] upd_conv_take_nth_drop [OF assms, of w] by simp

lemma running_length:
  assumes "i < length ws"
  shows "length (running (ws[i := w])) + length (running [ws ! i]) = length (running ws) + length (running [w])"
  unfolding running_update(1) [OF assms] by (subst running_update(2) [OF assms]) simp

lemma take_decreases:
  assumes slot: "slot_ok slot" and inv: "runtime_inv l s" and step: "serve slot l (Take i now checked stamped) s = Some t"
  shows "work_left t < work_left s"
proof -
  have i: "i < length (sv_workers s)" "sv_workers s ! i = W_Idle" and en: "sv_stopping s \<or> sv_queue s \<noteq> []"
    and t: "t = worker_take slot l i now checked stamped s" using step by (auto split: if_splits)
  have ret: "work_left (set_worker i W_Returned s) < work_left s"
    using filter_update_length [OF i(1), of "\<lambda>w. w \<noteq> W_Returned" W_Returned] running_length [OF i(1), of W_Returned] i(2)
    by (simp add: work_left_def set_worker_def)
  show ?thesis
  proof (cases "sv_queue s = []")
    case True
    then show ?thesis using en ret t by (simp add: worker_take_def)
  next
    case False
    define u where "u = expireQueuedLocked slot l now s"
    have "booked 0 s" "\<not> sv_stopping s" using inv False by (auto simp: runtime_inv_def modes_def)
    note st = expire_keeps(2) [OF slot this(1), of l now, folded u_def] and stop = this(2)
    have u: "length (sv_queue u) \<le> length (sv_queue s)" "sv_workers u = sv_workers s" "\<not> sv_stopping u"
      using st stop by (auto simp: settles_def)
    show ?thesis
    proof (cases "sv_queue u")
      case Nil
      then show ?thesis using u False stop t by (auto simp: worker_take_def Let_def work_left_def simp flip: u_def)
    next
      case (Cons r rest)
      have "length (filter (\<lambda>w. w \<noteq> W_Returned) ((sv_workers s)[i := W_Running r])) = length (filter (\<lambda>w. w \<noteq> W_Returned) (sv_workers s))"
        "length (running ((sv_workers s)[i := W_Running r])) = Suc (length (running (sv_workers s)))"
        using filter_update_length [OF i(1), of "\<lambda>w. w \<noteq> W_Returned" "W_Running r"] running_length [OF i(1), of "W_Running r"] i(2) by simp_all
      then show ?thesis using u Cons stop t
        by (auto simp: worker_take_def Let_def work_left_def set_worker_def simp flip: u_def)
    qed
  qed
qed

lemma record_decreases:
  assumes step: "serve slot l (Record i res now) s = Some t"
  shows "work_left t < work_left s"
proof -
  obtain r where i: "i < length (sv_workers s)" "sv_workers s ! i = W_Running r" and t: "t = worker_record l i r res now s"
    using step by (auto split: if_splits worker.splits)
  have "sv_queue t = sv_queue s" "sv_workers t = (sv_workers s)[i := W_Idle]"
    unfolding t by (simp_all add: worker_record_def Let_def set_worker_def)
  then show ?thesis
    using filter_update_length [OF i(1), of "\<lambda>w. w \<noteq> W_Returned" W_Idle] running_length [OF i(1), of W_Idle] i(2)
    by (simp add: work_left_def)
qed

lemma works_keeps:
  assumes "works slot l n s t" and "served slot l s" and "slot_ok slot"
  shows "served slot l t \<and> n + work_left t \<le> work_left s"
  using assms
proof (induction rule: works.induct)
  case (works_step n s t e u)
  then have t: "served slot l t" "n + work_left t \<le> work_left s" by simp_all
  have "work_left u < work_left t"
    using works_step.hyps(3,4) take_decreases [OF assms(3) served_inv [OF t(1) assms(3)]] record_decreases by (cases e) auto
  then show ?case using t served_step [OF t(1) works_step.hyps(2,4)] by simp
qed simp

text \<open>While requests are under way some worker can move; after the stop, until all have returned.\<close>

lemma worker_can_move:
  assumes inv: "runtime_inv l s" and lim: "validateLimits l = Inr ()"
    and left: "sv_queue s \<noteq> [] \<or> running (sv_workers s) \<noteq> [] \<or> sv_stopping s \<and> \<not> list_all (\<lambda>w. w = W_Returned) (sv_workers s)"
  shows "\<exists>e t. is_worker_event e \<and> serve slot l e s = Some t"
proof -
  consider (run) r where "W_Running r \<in> set (sv_workers s)" | (idle) "W_Idle \<in> set (sv_workers s)" "sv_stopping s \<or> sv_queue s \<noteq> []"
  proof -
    have "\<exists>r. W_Running r \<in> set ws" if "running ws \<noteq> []" for ws using that by (induction ws rule: running.induct) auto
    moreover have "\<exists>w \<in> set (sv_workers s). w \<noteq> W_Returned" if "sv_queue s \<noteq> []"
    proof -
      have "W_Returned \<notin> set (sv_workers s)" "sv_workers s \<noteq> []"
        using inv that limits_small(2) [OF lim] by (auto simp: runtime_inv_def modes_def)
      then show ?thesis by (cases "sv_workers s") auto
    qed
    ultimately show ?thesis using that left by (auto simp: list_all_iff) (metis worker.exhaust)+
  qed
  then show ?thesis
  proof cases
    case run
    then obtain i where "i < length (sv_workers s)" "sv_workers s ! i = W_Running r" by (auto simp: in_set_conv_nth)
    then have "is_worker_event (Record i (Threw None) 0)" "serve slot l (Record i (Threw None) 0) s \<noteq> None" by simp_all
    then show ?thesis by blast
  next
    case idle
    then obtain i where "i < length (sv_workers s)" "sv_workers s ! i = W_Idle" by (auto simp: in_set_conv_nth)
    then have "is_worker_event (Take i 0 0 0)" "serve slot l (Take i 0 0 0) s \<noteq> None" using idle(2) by simp_all
    then show ?thesis by blast
  qed
qed

text \<open>
  C7: Workers that keep running finish all that was accepted. However the workers interleave,
  whatever the handler returns and the clock says, they take at most \<open>work_left\<close> critical sections
  from any state; and when none of them can take another one, every request that was ever
  accepted is done, nothing is in flight, and if the runtime was told to stop every worker has
  returned, so that the join of \<open>shutdown\<close> does not block.
\<close>

theorem accepted_requests_finish:
  assumes "served slot l s" and "slot_ok slot" and "works slot l n s t"
  shows "n \<le> work_left s \<and> ((\<forall>e. is_worker_event e \<longrightarrow> serve slot l e t = None) \<longrightarrow>
    list_all rs_done (sv_states t) \<and> sv_in_flight t = 0 \<and>
    (sv_stopping t \<longrightarrow> list_all (\<lambda>w. w = W_Returned) (sv_workers t)))"
proof -
  have t: "served slot l t" "n \<le> work_left s" using works_keeps [OF assms(3,1,2)] by simp_all
  have inv: "runtime_inv l t" by (rule served_inv [OF t(1) assms(2)])
  have "list_all rs_done (sv_states t) \<and> sv_in_flight t = 0" if "sv_queue t = []" "running (sv_workers t) = []"
    using inv that by (auto simp: runtime_inv_def booked_def accounts_def list_all_length)
  then show ?thesis using t(2) worker_can_move [OF inv served_limits [OF t(1)], of slot] by fastforce
qed

theorem accepted_requests_finish_witness:
  "\<exists>n s t. play standard_slot demo_limits (take 1 demo_events) demo_start = Some s \<and> works standard_slot demo_limits n s t \<and>
     n \<le> work_left s \<and> sv_in_flight s = 1 \<and> sv_in_flight t = 0"
proof -
  obtain s where s: "play standard_slot demo_limits (take 1 demo_events) demo_start = Some s" "sv_in_flight s = 1" "\<not> sv_trapped s"
    and more: "\<exists>u. serve standard_slot demo_limits (demo_events ! 1) s = Some u \<and> \<not> sv_trapped u \<and>
      (\<exists>t. serve standard_slot demo_limits (demo_events ! 2) u = Some t \<and> sv_in_flight t = 0)"
    by (simp add: demo_events_def demo_start_def demo_simps)
  from more obtain u t where u: "serve standard_slot demo_limits (demo_events ! 1) s = Some u" "\<not> sv_trapped u"
    and t: "serve standard_slot demo_limits (demo_events ! 2) u = Some t" "sv_in_flight t = 0" by blast
  have "works standard_slot demo_limits (Suc (Suc 0)) s t"
    by (intro works_step [OF works_step [OF works_refl s(3) _ u(1)] u(2) _ t(1)]) (simp_all add: demo_events_def)
  with accepted_requests_finish [OF demo_served [OF s(1)] slots_ok(1) this] s t show ?thesis by blast
qed

end
