(* ===== verification/ServingResults.thy ===== *)
theory ServingResults
  imports ServingTheorems
begin

section \<open>The store of results\<close>

text \<open>
  Results that nobody has collected are retained up to a number and a total size, the oldest
  leaving first. The account of them is exact as long as no waiter wakes up to find its identity
  reused by a later request that is done as well; a run with such a waiter shows that it is
  wrong afterwards.
\<close>

definition kept_bytes :: "serving \<Rightarrow> string \<Rightarrow> nat" where
  "kept_bytes s i = (case map_of (sv_requests s) i of None \<Rightarrow> 0 | Some r \<Rightarrow> resultBytes (rs_result (state_of s r)))"

definition is_kept :: "serving \<Rightarrow> string \<Rightarrow> bool" where
  "is_kept s i = (case map_of (sv_requests s) i of None \<Rightarrow> False | Some r \<Rightarrow> rs_done (state_of s r))"

definition exact :: "string list \<Rightarrow> serving \<Rightarrow> bool" where
  "exact order s \<longleftrightarrow> distinct order \<and> (\<forall>i. i \<in> set order \<longleftrightarrow> is_kept s i) \<and>
     sv_retained_result_bytes s = sum_list (map (kept_bytes s) order)"

definition retained :: "RuntimeLimits \<Rightarrow> serving \<Rightarrow> bool" where
  "retained l s \<longleftrightarrow> exact (sv_completed_order s) s \<and> length (sv_completed_order s) \<le> completed_result_capacity l \<and>
     sv_retained_result_bytes s \<le> max_retained_result_bytes l"

lemma sum_elsewhere:
  assumes "i \<notin> set xs" and "\<And>k. k \<noteq> i \<Longrightarrow> f k = g k"
  shows "sum_list (map f xs) = sum_list (map g xs)"
proof -
  have "map f xs = map g xs" using assms by (metis (mono_tags, lifting) map_eq_conv)
  then show ?thesis by (rule arg_cong)
qed

lemma exact_cong:
  assumes "sv_requests t = sv_requests s" and "sv_retained_result_bytes t = sv_retained_result_bytes s"
    and "\<And>k i. map_of (sv_requests s) i = Some k \<Longrightarrow>
      rs_done (state_of t k) = rs_done (state_of s k) \<and> rs_result (state_of t k) = rs_result (state_of s k)"
  shows "exact order t = exact order s"
proof -
  have "is_kept t = is_kept s" "kept_bytes t = kept_bytes s"
    using assms by (auto simp: is_kept_def kept_bytes_def fun_eq_iff split: option.split)
  then show ?thesis using assms(2) by (simp add: exact_def)
qed

lemma retained_cong:
  assumes "sv_requests t = sv_requests s" and "sv_retained_result_bytes t = sv_retained_result_bytes s"
    and "\<And>k i. map_of (sv_requests s) i = Some k \<Longrightarrow>
      rs_done (state_of t k) = rs_done (state_of s k) \<and> rs_result (state_of t k) = rs_result (state_of s k)"
    and "sv_completed_order t = sv_completed_order s"
  shows "retained l t = retained l s"
  unfolding retained_def using assms(2,4) exact_cong [OF assms(1-3)] by simp

lemma exact_drop:
  assumes ex: "exact (i # order) s" and found: "map_of (sv_requests s) i = Some r"
    and t: "t = s\<lparr>sv_retained_result_bytes := take_off (sv_retained_result_bytes s) (resultBytes (rs_result (state_of s r))),
      sv_requests := AList.delete i (sv_requests s), sv_counters := c\<rparr>"
  shows "exact order t"
proof -
  have kept: "is_kept t k = (k \<noteq> i \<and> is_kept s k)" "k \<noteq> i \<Longrightarrow> kept_bytes t k = kept_bytes s k" for k
    by (auto simp: t is_kept_def kept_bytes_def AList.delete_conv' split: option.split)
  have "sum_list (map (kept_bytes t) order) = sum_list (map (kept_bytes s) order)"
    using ex by (intro sum_elsewhere [of i] kept(2)) (auto simp: exact_def)
  moreover have "kept_bytes s i = resultBytes (rs_result (state_of s r))" using found by (simp add: kept_bytes_def)
  ultimately show ?thesis using ex kept(1) by (auto simp: exact_def) (simp add: t take_off_def)
qed

lemma evict_exact:
  "exact order s \<Longrightarrow> retained l (evict_loop l order s) \<and> sv_trapped (evict_loop l order s) = sv_trapped s"
proof (induction order arbitrary: s)
  case Nil
  then have "sv_retained_result_bytes s = 0" by (simp add: exact_def)
  then have ev: "evict_loop l [] s = s\<lparr>sv_completed_order := []\<rparr>" by (simp add: evict_loop.simps)
  show ?case unfolding ev using Nil exact_cong [of "s\<lparr>sv_completed_order := []\<rparr>" s "[]"] by (simp add: retained_def exact_def)
next
  case (Cons i order)
  show ?case
  proof (cases "length (i # order) > completed_result_capacity l \<or> sv_retained_result_bytes s > max_retained_result_bytes l")
    case True
    have "is_kept s i" using Cons.prems by (auto simp: exact_def)
    then obtain r where r: "map_of (sv_requests s) i = Some r" "rs_done (state_of s r)"
      by (auto simp: is_kept_def split: option.splits)
    let ?t = "s\<lparr>sv_retained_result_bytes := take_off (sv_retained_result_bytes s) (resultBytes (rs_result (state_of s r))),
      sv_requests := AList.delete i (sv_requests s),
      sv_counters := (sv_counters s)\<lparr>mt_result_evictions := mt_result_evictions (sv_counters s) + 1\<rparr>\<rparr>"
    have "evict_loop l (i # order) s = evict_loop l order ?t" using True r by (subst evict_loop.simps) simp
    moreover have "exact order ?t" by (rule exact_drop [OF Cons.prems r(1) refl])
    ultimately show ?thesis using Cons.IH [of ?t] by simp
  next
    case False
    then have ev: "evict_loop l (i # order) s = s\<lparr>sv_completed_order := i # order\<rparr>" by (subst evict_loop.simps) simp
    show ?thesis unfolding ev using Cons.prems False exact_cong [of "s\<lparr>sv_completed_order := i # order\<rparr>" s "i # order"]
      by (simp add: retained_def)
  qed
qed

text \<open>Completing a request that the table finds adds its result.\<close>

lemma retained_complete:
  assumes ret: "retained l s" and acc: "accounts p ps s" and r: "r \<in> set ps"
  shows "retained l (completeLocked l r status out detail now s) \<and>
    sv_trapped (completeLocked l r status out detail now s) = sv_trapped s"
proof -
  let ?i = "id_of s r" and ?st = "completed_state status out detail now (state_of s r)"
  define u where "u = s\<lparr>sv_states := (sv_states s)[r := ?st],
    sv_active := (if rs_started (state_of s r) \<and> sv_active s > 0 then sv_active s - 1 else sv_active s),
    sv_in_flight := (if sv_in_flight s > 0 then sv_in_flight s - 1 else sv_in_flight s),
    sv_in_flight_request_bytes := take_off (sv_in_flight_request_bytes s) (length (payload (rs_request (state_of s r)))),
    sv_counters := recordTerminalLocked status (sv_counters s)\<rparr>"
  define v where "v = u\<lparr>sv_retained_result_bytes := sv_retained_result_bytes u + resultBytes (rs_result (state_of u r))\<rparr>"
  have live: "r < length (sv_states s)" "\<not> rs_done (state_of s r)" "map_of (sv_requests s) ?i = Some r"
    using acc r by (auto simp: accounts_def)
  have only: "map_of (sv_requests s) k = Some r \<Longrightarrow> k = ?i" for k
    using acc map_of_SomeD [of "sv_requests s" k r] by (auto simp: accounts_def)
  have st: "state_of v k = (if k = r then ?st else state_of s k)" for k using live(1) by (simp add: v_def u_def nth_list_update)
  have req: "sv_requests v = sv_requests s" by (simp add: v_def u_def)
  have kept: "is_kept v k = (k = ?i \<or> is_kept s k)" for k
    using live(2,3) only [of k] by (auto simp: is_kept_def req st split: option.splits)
  have bytes: "kept_bytes v k = kept_bytes s k" if "k \<noteq> ?i" for k
    using only [of k] that by (auto simp: kept_bytes_def req st split: option.splits)
  have new: "?i \<notin> set (sv_completed_order s)" using ret live(2,3) by (auto simp: retained_def exact_def is_kept_def)
  have "sum_list (map (kept_bytes v) (sv_completed_order s)) = sum_list (map (kept_bytes s) (sv_completed_order s))"
    by (rule sum_elsewhere [OF new bytes])
  moreover have "kept_bytes v ?i = resultBytes (rs_result ?st)" using live(3) by (simp add: kept_bytes_def req st)
  moreover have "sv_retained_result_bytes v = sv_retained_result_bytes s + resultBytes (rs_result ?st)"
    using live(1) by (simp add: v_def u_def)
  ultimately have "exact (sv_completed_order s @ [?i]) v" using ret kept new by (auto simp: exact_def retained_def)
  moreover have "completeLocked l r status out detail now s = evict_loop l (sv_completed_order s @ [?i]) v"
    using live(1,2) by (simp add: completeLocked_def retainCompletedLocked_def Let_def v_def u_def)
  moreover have "sv_trapped v = sv_trapped s" by (simp add: v_def u_def)
  ultimately show ?thesis using evict_exact [of "sv_completed_order s @ [?i]" v l] by simp
qed


lemma retained_updates [simp]:
  "retained l (s\<lparr>sv_queue := q\<rparr>) = retained l s" "retained l (s\<lparr>sv_workers := ws\<rparr>) = retained l s"
  "retained l (s\<lparr>sv_counters := c\<rparr>) = retained l s" "retained l (s\<lparr>sv_waiters := w\<rparr>) = retained l s"
  "retained l (s\<lparr>sv_accepting := b\<rparr>) = retained l s" "retained l (s\<lparr>sv_draining := b\<rparr>) = retained l s"
  "retained l (s\<lparr>sv_stopping := b\<rparr>) = retained l s" "retained l (s\<lparr>sv_joined := b\<rparr>) = retained l s"
  "retained l (s\<lparr>sv_live := b\<rparr>) = retained l s" "retained l (s\<lparr>sv_closer := d\<rparr>) = retained l s"
  "retained l (serve_trap s) = retained l s" "retained l (set_worker i w' s) = retained l s"
  "retained l (request_stop r s) = retained l s"
  by (rule retained_cong; simp add: set_worker_def serve_trap_def)+

text \<open>
  The invariant of this theory: the store is exact, and nothing undefined has happened unless the
  library leaves erased elements undefined.
\<close>

definition slot_total :: "deque_slot \<Rightarrow> bool" where
  "slot_total slot \<longleftrightarrow> (\<forall>q i. i < length q \<longrightarrow> slot q i \<noteq> None)"

definition sound_store :: "deque_slot \<Rightarrow> RuntimeLimits \<Rightarrow> serving \<Rightarrow> bool" where
  "sound_store slot l s \<longleftrightarrow> retained l s \<and> (slot_total slot \<longrightarrow> \<not> sv_trapped s)"

lemma store_complete_queued:
  assumes "sound_store slot l s" and "booked p s" and "r \<in> set (sv_queue s)"
  shows "sound_store slot l (completeLocked l r status out detail now (s\<lparr>sv_queue := q\<rparr>))"
  using retained_complete [of l "s\<lparr>sv_queue := q\<rparr>" p "sv_queue s @ running (sv_workers s)" r status out detail now] assms
  by (simp add: sound_store_def booked_def)

lemma store_expire_loop:
  assumes "slot_ok slot" and "sound_store slot l s" and "booked p s" and "sv_queue s = seen @ rest"
  shows "sound_store slot l (expire_loop slot l now seen rest s)"
  using assms(2-4)
proof (induction rest arbitrary: seen s)
  case (Cons r rest)
  have mem: "r \<in> set (sv_queue s)" using Cons.prems(3) by simp
  have rem: "remove1 r (sv_queue s) = seen @ rest"
    using booked_queued(4) [OF Cons.prems(2) mem] Cons.prems(3) by (simp add: remove1_append)
  have slot: "slot (seen @ r # rest) (length seen) = None \<and> \<not> slot_total slot \<or> slot (seen @ r # rest) (length seen) = Some r"
    using assms(1) [unfolded slot_ok_def, rule_format, of "length seen" "seen @ r # rest"]
    by (auto simp: slot_total_def intro!: exI [of _ "seen @ r # rest"] exI [of _ "length seen"])
  define t where "t status detail = completeLocked l r status [] detail now (s\<lparr>sv_queue := seen @ rest\<rparr>)" for status detail
  have "sound_store slot l (expire_loop slot l now seen rest (t status detail))" for status detail
    using Cons.IH [of "t status detail" seen] store_complete_queued [OF Cons.prems(1,2) mem]
      booked_complete_queued [OF Cons.prems(2) mem, unfolded rem] by (simp add: t_def)
  moreover have "\<not> slot_total slot \<Longrightarrow> sound_store slot l (serve_trap s)" using Cons.prems(1) by (simp add: sound_store_def)
  ultimately show ?case using slot Cons.IH [OF Cons.prems(1,2), of "seen @ [r]"] Cons.prems(3) by (auto simp flip: t_def)
qed simp

lemma store_flush:
  assumes "sound_store slot l s" and "booked p s"
  shows "sound_store slot l (flush l detail now s)"
proof -
  have "sound_store slot l (flush_loop l detail now rest t)" if "sound_store slot l t" "booked p t" "sv_queue t = rest" for rest t
    using that
  proof (induction rest arbitrary: t)
    case (Cons r rest)
    have mem: "r \<in> set (sv_queue t)" "remove1 r (sv_queue t) = rest" using Cons.prems(3) by simp_all
    show ?case using Cons.IH store_complete_queued [OF Cons.prems(1,2) mem(1)]
      booked_complete_queued [OF Cons.prems(2) mem(1), unfolded mem(2)] by simp
  qed simp
  moreover have "sound_store slot l (stop_all s)" using assms(1)
    by (rule stop_all_induct) (simp add: sound_store_def)
  ultimately show ?thesis using stop_all_keeps(1) [OF assms(2)] by (simp add: flush_def Let_def)
qed

lemma store_admit:
  assumes "sound_store slot l s" and new: "map_of (sv_requests s) (request_id q) = None"
    and old: "\<forall>(i, r) \<in> set (sv_requests s). r < length (sv_states s) \<and> id_of s r = i"
  shows "sound_store slot l (admit q now s)"
proof -
  have st: "map_of (sv_requests s) i = Some r \<Longrightarrow> (sv_states s @ [new_request_state q now]) ! r = state_of s r" for i r
    using old by (auto dest!: map_of_SomeD simp: nth_append)
  have "is_kept (admit q now s) = is_kept s" "kept_bytes (admit q now s) i = (if i = request_id q then 0 else kept_bytes s i)" for i
    using new by (auto simp: is_kept_def kept_bytes_def fun_eq_iff st resultBytes_def split: option.split)
      (simp_all add: new_request_state_def no_result_def)
  moreover have "kept_bytes s (request_id q) = 0" using new by (simp add: kept_bytes_def)
  ultimately have "is_kept (admit q now s) = is_kept s" "kept_bytes (admit q now s) = kept_bytes s" by (auto simp: fun_eq_iff)
  then show ?thesis using assms(1) by (simp add: sound_store_def retained_def exact_def)
qed

text \<open>A waiter is stale when its identity now belongs to another request that is done.\<close>

fun stale :: "event \<Rightarrow> serving \<Rightarrow> bool" where
  "stale (Wake n) s = (n < length (sv_waiters s) \<and> (case map_of (sv_requests s) (fst (sv_waiters s ! n)) of
     None \<Rightarrow> False | Some r \<Rightarrow> r \<noteq> snd (sv_waiters s ! n) \<and> rs_done (state_of s r)))"
| "stale e s = False"

inductive orderly :: "deque_slot \<Rightarrow> RuntimeLimits \<Rightarrow> serving \<Rightarrow> bool" for slot l where
  orderly_init: "ServingRuntime_init l = Inr s \<Longrightarrow> orderly slot l s"
| orderly_step: "orderly slot l s \<Longrightarrow> \<not> sv_trapped s \<Longrightarrow> \<not> stale e s \<Longrightarrow> serve slot l e s = Some s' \<Longrightarrow> orderly slot l s'"

lemma orderly_served: "orderly slot l s \<Longrightarrow> served slot l s"
  by (induction rule: orderly.induct) (auto intro: served.intros)

lemma exact_front: "exact order s \<Longrightarrow> i \<in> set order \<Longrightarrow> exact (i # remove1 i order) s"
  using sum_list_map_remove1 [of i order "kept_bytes s"] by (auto simp: exact_def)

lemma store_wait_leave:
  assumes st: "sound_store slot l s" and r: "rs_done (state_of s r)"
    and fresh: "map_of (sv_requests s) i = Some r \<or> \<not> is_kept s i"
  shows "sound_store slot l (snd (wait_leave i r s))"
proof (cases "map_of (sv_requests s) i = Some r")
  case True
  then have mem: "i \<in> set (sv_completed_order s)" using st r by (auto simp: sound_store_def retained_def exact_def is_kept_def)
  let ?t = "s\<lparr>sv_retained_result_bytes := take_off (sv_retained_result_bytes s) (resultBytes (rs_result (state_of s r))),
      sv_requests := AList.delete i (sv_requests s), sv_counters := sv_counters s\<rparr>"
  have "exact (remove1 i (sv_completed_order s)) ?t"
    by (rule exact_drop [OF exact_front True refl]) (use st mem in \<open>simp_all add: sound_store_def retained_def\<close>)
  then have "exact (remove1 i (sv_completed_order s)) (snd (wait_leave i r s))"
    by (subst exact_cong [of _ ?t]) (simp_all add: wait_leave_def Let_def True mem)
  then show ?thesis using st True mem
    by (auto simp: wait_leave_def Let_def sound_store_def retained_def take_off_def length_remove1)
next
  case False
  then have "i \<notin> set (sv_completed_order s)" using st fresh by (auto simp: sound_store_def retained_def exact_def)
  then show ?thesis using False st by (simp add: wait_leave_def Let_def)
qed

lemma store_submit:
  assumes slot: "slot_ok slot" and inv: "runtime_inv l s" and st: "sound_store slot l s"
  shows "sound_store slot l (snd (submit slot l q now s))"
proof -
  let ?s1 = "s\<lparr>sv_counters := (sv_counters s)\<lparr>mt_submitted := mt_submitted (sv_counters s) + 1\<rparr>\<rparr>"
  define u where "u = expireQueuedLocked slot l now ?s1"
  have b: "booked (Suc 0) ?s1" using inv by (auto simp: runtime_inv_def intro!: booked_counters balanced_submit)
  have u: "sound_store slot l u" "booked (Suc 0) u"
    using store_expire_loop [OF slot _ b, of l "[]"] expire_keeps(1) [OF slot b] st
    by (simp_all add: u_def expireQueuedLocked_def sound_store_def)
  have "sound_store slot l (admit q now u)" if "refusal l q u = None"
    using store_admit [OF u(1) refusal_None(3) [OF that]] u(2) by (simp add: booked_def accounts_def)
  moreover have "sound_store slot l (snd (reject status reason u))" for status reason
    using u(1) by (simp add: reject_def sound_store_def)
  ultimately show ?thesis by (simp add: submit_def Let_def split: option.split prod.split flip: u_def)
qed

lemma store_take:
  assumes slot: "slot_ok slot" and inv: "runtime_inv l s" and st: "sound_store slot l s"
  shows "sound_store slot l (worker_take slot l i now checked stamped s)"
proof -
  define u where "u = expireQueuedLocked slot l now s"
  have b: "booked 0 s" using inv by (simp add: runtime_inv_def)
  have u: "sound_store slot l u" "booked 0 u"
    using store_expire_loop [OF slot st b, of "[]"] expire_keeps(1) [OF slot b] by (simp_all add: u_def expireQueuedLocked_def)
  have "sound_store slot l (completeLocked l r status [] detail t (u\<lparr>sv_queue := rest\<rparr>))" if "sv_queue u = r # rest" for r rest status detail t
    using store_complete_queued [OF u] that by simp
  moreover have "retained l (u\<lparr>sv_queue := rest, sv_states := (sv_states u)[r := (state_of u r)\<lparr>rs_started := True, rs_started_at := stamped\<rparr>],
      sv_active := sv_active u + 1\<rparr>) = retained l u" for r rest
    by (rule retained_cong; cases "r < length (sv_states u)"; auto simp: nth_list_update list_update_beyond)
  ultimately show ?thesis using st u
    by (auto simp: worker_take_def Let_def sound_store_def set_worker_def split: list.split simp flip: u_def)
qed


lemma store_cancel:
  assumes inv: "runtime_inv l s" and st: "sound_store slot l s"
  shows "sound_store slot l (snd (cancel l tenant i now s))"
proof -
  have "sound_store slot l (request_stop r s)" "booked 0 (request_stop r s)" for r
    using inv st by (simp_all add: sound_store_def runtime_inv_def)
  then show ?thesis using st store_complete_queued [of slot l "request_stop r s" 0 r for r]
    by (simp add: cancel_def Let_def split: option.split)
qed

lemma store_record:
  assumes inv: "runtime_inv l s" and st: "sound_store slot l s" and i: "i < length (sv_workers s)" "sv_workers s ! i = W_Running r"
  shows "sound_store slot l (worker_record l i r res now s)"
proof -
  have "r \<in> set (running (sv_workers s))" using running_update(2) [OF i(1)] i(2) by simp
  then have "sound_store slot l (completeLocked l r status out detail now (set_worker i W_Idle s))" for status out detail
    using retained_complete [of l "set_worker i W_Idle s" 0 "sv_queue s @ running (sv_workers s)" r status out detail now] inv st
    by (simp add: sound_store_def runtime_inv_def booked_def) (simp add: set_worker_def)
  then show ?thesis by (simp add: worker_record_def Let_def)
qed

lemma store_serve:
  assumes slot: "slot_ok slot" and inv: "runtime_inv l s" and st: "sound_store slot l s"
    and ok: "\<not> stale e s" and step: "serve slot l e s = Some t"
  shows "sound_store slot l t"
proof (cases e)
  case (Wait tenant i max_wait)
  then show ?thesis using st step store_wait_leave [OF st]
    by (auto simp: wait_enter_def sound_store_def split: if_splits option.splits)
next
  case (Wake n)
  let ?w = "sv_waiters s ! n"
  have d: "rs_done (state_of s (snd ?w))" "n < length (sv_waiters s)" and t: "t = (snd (wait_leave (fst ?w) (snd ?w) s))\<lparr>sv_waiters := drop_nth n (sv_waiters s)\<rparr>"
    using Wake step by (auto split: if_splits)
  have "map_of (sv_requests s) (fst ?w) = Some (snd ?w) \<or> \<not> is_kept s (fst ?w)"
    using ok d(2) Wake by (auto simp: is_kept_def split: option.splits)
  from store_wait_leave [OF st d(1) this] show ?thesis by (simp add: t sound_store_def)
next
  case (End_grace now)
  have "booked 0 s" using inv by (simp add: runtime_inv_def)
  from store_flush [OF st this] show ?thesis using End_grace step st
    by (auto simp: shutdown_end_grace_def Let_def sound_store_def split: if_splits)
next
  case (Destroy now)
  let ?s = "s\<lparr>sv_accepting := False, sv_draining := True, sv_stopping := True, sv_closer := C_Joining\<rparr>"
  have "booked 0 ?s" "sound_store slot l ?s" using inv st by (simp_all add: runtime_inv_def sound_store_def)
  from store_flush [OF this(2,1)] show ?thesis using Destroy step st by (auto simp: destroy_enter_def split: if_splits)
next
  case (Record i res now)
  then show ?thesis using step store_record [OF inv st] by (auto split: if_splits worker.splits)
qed (use step st store_submit [OF slot inv st] store_take [OF slot inv st] store_cancel [OF inv st] in
  \<open>auto simp: beginDrain_def shutdown_enter_def shutdown_joined_def sound_store_def split: if_splits\<close>)

lemma orderly_store: "orderly slot l s \<Longrightarrow> slot_ok slot \<Longrightarrow> sound_store slot l s"
proof (induction rule: orderly.induct)
  case (orderly_init s)
  then show ?case
    by (auto simp: ServingRuntime_init_def sound_store_def retained_def exact_def is_kept_def split: sum.splits)
next
  case (orderly_step s e s')
  then show ?case using store_serve served_inv orderly_served by blast
qed

text \<open>
  C17: As long as no waiter wakes up to an identity that a later, completed request has taken over,
  the store of results is exact: the order of completion lists, each once, the identities whose
  result is in the table, the account of bytes is the sum of their sizes, number and bytes are
  within their limits, and the loop that evicts results never runs out of results. When moreover
  the sweep over the queue reads the elements it erases, nothing undefined happens at all.
\<close>

theorem retained_results_exact:
  assumes "orderly slot l s" and "slot_ok slot"
  shows "distinct (sv_completed_order s) \<and>
    set (sv_completed_order s) = {i. \<exists>r. map_of (sv_requests s) i = Some r \<and> rs_done (state_of s r)} \<and>
    sv_retained_result_bytes s = sum_list (map (kept_bytes s) (sv_completed_order s)) \<and>
    length (sv_completed_order s) \<le> completed_result_capacity l \<and>
    sv_retained_result_bytes s \<le> max_retained_result_bytes l \<and> (slot = kept_slot \<longrightarrow> \<not> sv_trapped s)"
proof -
  have "is_kept s i \<longleftrightarrow> (\<exists>r. map_of (sv_requests s) i = Some r \<and> rs_done (state_of s r))" for i
    by (simp add: is_kept_def split: option.split)
  moreover have "slot_total kept_slot" by (simp add: slot_total_def kept_slot_def)
  ultimately show ?thesis using orderly_store [OF assms] by (auto simp: sound_store_def retained_def exact_def)
qed

lemma play_orderly:
  "orderly slot l s \<Longrightarrow> play slot l es s = Some t \<Longrightarrow> list_all (\<lambda>e. \<forall>u. \<not> stale e u) es \<Longrightarrow> orderly slot l t"
  by (induction es arbitrary: s) (auto split: if_splits option.splits intro: orderly_step)

theorem retained_results_exact_witness:
  "\<exists>s. play kept_slot demo_limits demo_events demo_start = Some s \<and> sv_completed_order s = [''a''] \<and>
     sv_retained_result_bytes s = 2 \<and> sv_retained_result_bytes s = sum_list (map (kept_bytes s) (sv_completed_order s)) \<and> \<not> sv_trapped s"
proof -
  obtain s where s: "play kept_slot demo_limits demo_events demo_start = Some s" "sv_completed_order s = [''a'']" "sv_retained_result_bytes s = 2"
    by (simp add: demo_events_def demo_start_def demo_simps)
  have "orderly kept_slot demo_limits s"
    by (rule play_orderly [OF orderly_init [OF demo_start] s(1)]) (simp add: demo_events_def)
  from retained_results_exact [OF this slots_ok(2)] s show ?thesis by blast
qed

subsection \<open>Three runs\<close>




subsection \<open>Admission\<close>




end
