(* ===== verification/SemanticIR.thy ===== *)
theory SemanticIR
  imports AST CText
begin

section \<open>The semantic intermediate representation\<close>

text \<open>
  \<open>mlir/include/ShortHand/SemanticIR.h\<close>: the executable program between the parser's tree and the
  back ends, and \<open>mlir/lib/SemanticVerifier.cpp\<close>, which checks it before it is lowered. Source
  ranges are left out: nothing here reads them.
\<close>

subsection \<open>Types and declarations\<close>

datatype sir_ElementType = SE_Unknown | SE_Float32 | SE_Float16 | SE_BFloat16 | SE_Int8 | SE_Int4 | SE_Int32

datatype sir_ModelFormat = SF_Unknown | SF_Onnx | SF_TensorRTEngine | SF_TorchScript | SF_OpenVINOIR | SF_GGUF

datatype sir_BackendKind = SB_Fallback | SB_OnnxRuntimeCPU | SB_OnnxRuntimeCUDA | SB_OnnxRuntimeTensorRT
  | SB_TensorRT | SB_OpenVINO | SB_LibTorch | SB_LlamaCpp

text \<open>The dimensions of a tensor, 64-bit integers.\<close>

type_synonym TensorShape = "int list"

definition int64_max :: int where "int64_max = 2 ^ 63 - 1"

definition isStatic :: "TensorShape \<Rightarrow> bool" where
  "isStatic dims = (if dims = [] then False else list_all (\<lambda>d. \<not> d \<le> 0) dims)"

fun count_loop :: "int \<Rightarrow> TensorShape \<Rightarrow> int" where
  "count_loop n [] = n"
| "count_loop n (d # dims) = (if n > int64_max div d then 0 else count_loop (n * d) dims)"

definition elementCount :: "TensorShape \<Rightarrow> int" where
  "elementCount dims = (if \<not> isStatic dims then 0 else count_loop 1 dims)"

record TensorOp =
  to_name :: string
  to_element_type :: sir_ElementType
  to_shape :: TensorShape
  to_values :: "binary64 list"

record ModelOp =
  mo_name :: string
  mo_format :: sir_ModelFormat
  mo_path :: string
  mo_task :: string
  mo_quality_guardrail :: string
  mo_precision :: sir_ElementType
  mo_input_shape :: TensorShape
  mo_output_shape :: TensorShape
  mo_backend_preference :: "sir_BackendKind list"

record InferOp =
  io_model_name :: string
  io_input_tensor_name :: string
  io_output_tensor_name :: string

record GreenAIContractOp =
  co_name :: string
  co_functional_unit :: string
  co_success_criteria :: string
  co_boundary :: "string list"
  co_measurement_quality :: string
  co_data_quality :: string
  co_carbon_factor :: binary64
  co_claims_mode :: string
  co_quality_guardrail :: string
  co_energy_budget_j :: binary64
  co_carbon_budget_gco2e :: binary64

record GreenAIMeasurementOp =
  me_workload :: string
  me_backend :: string
  me_inferences :: int
  me_watts :: binary64
  me_seconds :: binary64

definition energyJoules :: "GreenAIMeasurementOp \<Rightarrow> binary64" where
  "energyJoules m = b_mul (me_watts m) (me_seconds m)"

datatype ScalarType = ST_Void | ST_Int32 | ST_Bool | ST_Float64 | ST_String | ST_Composite

datatype CompositeKind = CK_Record | CK_Enum | CK_Option | CK_Result | CK_Slice

record Composite =
  cp_kind :: CompositeKind
  cp_name :: string
  cp_fields :: "ScalarType list"
  cp_names :: "string list"

text \<open>An extent of zero denotes a scalar, a positive one an array.\<close>

record Variable =
  va_name :: string
  va_type :: ScalarType
  va_extent :: int
  va_composite :: string

subsection \<open>Expressions, statements and programs\<close>

datatype ExpressionKind = EK_Integer | EK_Boolean | EK_Float | EK_String | EK_Variable | EK_Index | EK_Binary | EK_Unary
  | EK_Call | EK_Construct | EK_Project | EK_Slice | EK_SliceIndex | EK_TensorIndex

datatype Expression = Expression (ex_kind: ExpressionKind) (ex_type: ScalarType) (ex_name: string) (ex_integer: i32)
  (ex_decimal: binary64) (ex_opcode: nat) (ex_operands: "Expression list") (ex_composite: string)

datatype StatementKind = SK_Block | SK_Declare | SK_Assign | SK_Expression | SK_If | SK_While | SK_For
  | SK_Break | SK_Continue | SK_Return | SK_Goto | SK_Label | SK_Read | SK_Print | SK_Model | SK_Tensor
  | SK_Infer | SK_Contract | SK_Measurement | SK_LegacyInfer | SK_GreenReport | SK_Evidence | SK_Update

datatype Statement = Statement (st_kind: StatementKind) (st_name: string) (st_strings: "string list")
  (st_expressions: "Expression list") (st_variables: "Variable list") (st_body: "Statement list")
  (st_alternative: "Statement list") (st_declaration: nat) (st_lexical_scope: bool)

record Function =
  fu_name :: string
  fu_result :: ScalarType
  fu_parameters :: "Variable list"
  fu_body :: Statement
  fu_result_composite :: string

record ProgramIR =
  ir_composites :: "Composite list"
  ir_models :: "ModelOp list"
  ir_tensors :: "TensorOp list"
  ir_inferences :: "InferOp list"
  ir_contracts :: "GreenAIContractOp list"
  ir_measurements :: "GreenAIMeasurementOp list"
  ir_globals :: "Variable list"
  ir_functions :: "Function list"
  ir_body :: Statement

definition empty_statement :: Statement where
  "empty_statement = Statement SK_Block [] [] [] [] [] [] 0 False"

definition empty_program :: ProgramIR where
  "empty_program = \<lparr>ir_composites = [], ir_models = [], ir_tensors = [], ir_inferences = [], ir_contracts = [],
     ir_measurements = [], ir_globals = [], ir_functions = [], ir_body = empty_statement\<rparr>"

definition ir_empty :: "ProgramIR \<Rightarrow> bool" where
  "ir_empty p = (ir_composites p = [] \<and> ir_models p = [] \<and> ir_tensors p = [] \<and> ir_inferences p = [] \<and>
     ir_contracts p = [] \<and> ir_measurements p = [] \<and> ir_globals p = [] \<and> ir_functions p = [] \<and> st_body (ir_body p) = [])"

subsection \<open>The state of the verifier\<close>

text \<open>
  \<open>fail\<close> records the first message and every caller then returns false at once, so a check is
  \<open>Inl\<close> of that message or \<open>Inr\<close> of the state it leaves. The maps from names to pointers into the
  program hold the pointed-to declarations.
\<close>

record verifier =
  vf_program :: ProgramIR
  vf_globals :: "string \<rightharpoonup> Variable"
  vf_functions :: "string \<rightharpoonup> Function"
  vf_scopes :: "(string \<rightharpoonup> Variable) list"
  vf_labels :: "string set list"
  vf_composites :: "string \<rightharpoonup> Composite"
  vf_result :: ScalarType
  vf_result_composite :: string
  vf_loops :: nat
  vf_depth :: nat
  vf_nodes :: nat

definition Verifier_init :: "ProgramIR \<Rightarrow> verifier" where
  "Verifier_init p = \<lparr>vf_program = p, vf_globals = Map.empty, vf_functions = Map.empty, vf_scopes = [], vf_labels = [],
     vf_composites = Map.empty, vf_result = ST_Int32, vf_result_composite = [], vf_loops = 0, vf_depth = 0, vf_nodes = 0\<rparr>"

definition is_prefix :: "string \<Rightarrow> string \<Rightarrow> bool" where
  "is_prefix p s = (take (length p) s = p)"

definition is_letter :: "char \<Rightarrow> bool" where
  "is_letter c = (is_upper c \<or> 97 \<le> (of_char c :: nat) \<and> (of_char c :: nat) \<le> 122)"

definition is_identifier :: "string \<Rightarrow> bool" where
  "is_identifier s = (if s = [] \<or> is_prefix ''__sh_'' s \<or> is_prefix ''short_'' s then False
     else (hd s = CHR ''_'' \<or> is_letter (hd s)) \<and> list_all (\<lambda>c. c = CHR ''_'' \<or> is_letter c \<or> is_digit c) (tl s))"

definition ir_scalar :: "ScalarType \<Rightarrow> bool" where
  "ir_scalar t = (t = ST_Int32 \<or> t = ST_Bool \<or> t = ST_Float64 \<or> t = ST_String)"

definition ir_numeric :: "ScalarType \<Rightarrow> bool" where
  "ir_numeric t = (t = ST_Int32 \<or> t = ST_Float64)"

definition ir_condition :: "ScalarType \<Rightarrow> bool" where
  "ir_condition t = (t = ST_Bool \<or> t = ST_Int32)"

definition valueType :: "(string \<rightharpoonup> Composite) \<Rightarrow> ScalarType \<Rightarrow> string \<Rightarrow> bool" where
  "valueType cs t i = (if t = ST_Composite then cs i \<noteq> None else ir_scalar t \<and> i = [])"

definition ir_same :: "Expression \<Rightarrow> Expression \<Rightarrow> bool" where
  "ir_same a b = (ex_type a = ex_type b \<and> ex_composite a = ex_composite b)"

text \<open>The fields of a value of a composite type: the sum types carry their tag first.\<close>

definition ir_fields :: "Composite \<Rightarrow> ScalarType list" where
  "ir_fields c = (if cp_kind c = CK_Enum \<or> cp_kind c = CK_Option \<or> cp_kind c = CK_Result
     then ST_Int32 # cp_fields c else cp_fields c)"

definition ir_variable :: "(string \<rightharpoonup> Composite) \<Rightarrow> Variable \<Rightarrow> bool" where
  "ir_variable cs v = (is_identifier (va_name v) \<and> valueType cs (va_type v) (va_composite v) \<and> va_extent v \<ge> 0 \<and>
     va_extent v \<le> 65536 \<and> \<not> (va_extent v > 0 \<and> (va_type v = ST_String \<or> va_type v = ST_Composite)))"

definition variable_error :: "Variable \<Rightarrow> string" where
  "variable_error v = ''invalid variable type, name or extent: '' @ va_name v"

fun find_scope :: "(string \<rightharpoonup> Variable) list \<Rightarrow> string \<Rightarrow> Variable option" where
  "find_scope [] n = None"
| "find_scope (sc # scs) n = (case sc n of Some v \<Rightarrow> Some v | None \<Rightarrow> find_scope scs n)"

text \<open>The innermost scope is the first of the list.\<close>

definition ir_lookup :: "verifier \<Rightarrow> string \<Rightarrow> Variable option" where
  "ir_lookup s n = (case find_scope (vf_scopes s) n of Some v \<Rightarrow> Some v | None \<Rightarrow> vf_globals s n)"

definition kMaxNodes :: nat where "kMaxNodes = 100000"
definition kMaxDepth :: nat where "kMaxDepth = 256"

text \<open>The work and depth limits around every expression and statement.\<close>

definition enter_node :: "verifier \<Rightarrow> verifier fallible" where
  "enter_node s = (if vf_nodes s + 1 > kMaxNodes \<or> vf_depth s \<ge> kMaxDepth
     then Inl ''SemanticIR work/depth limit exceeded''
     else Inr (s\<lparr>vf_nodes := vf_nodes s + 1, vf_depth := vf_depth s + 1\<rparr>))"

definition leave_node :: "verifier \<Rightarrow> verifier" where
  "leave_node s = s\<lparr>vf_depth := vf_depth s - 1\<rparr>"

text \<open>A test that fails with a message; \<open>composites.at\<close> of an unknown name throws.\<close>

definition ensure :: "bool \<Rightarrow> string \<Rightarrow> verifier \<Rightarrow> verifier fallible" where
  "ensure b message s = (if b then Inr s else Inl message)"

definition with_composite :: "verifier \<Rightarrow> string \<Rightarrow> (Composite \<Rightarrow> verifier fallible) \<Rightarrow> verifier fallible" where
  "with_composite s i f = (case vf_composites s i of None \<Rightarrow> Inl ''std::out_of_range'' | Some c \<Rightarrow> f c)"

subsection \<open>Expressions\<close>

definition binary_ok :: "nat \<Rightarrow> ScalarType \<Rightarrow> ScalarType \<Rightarrow> bool" where
  "binary_ok opcode a t =
     (if opcode \<ge> 1 \<and> opcode \<le> 4 then ir_numeric a \<and> t = a
      else if opcode = 5 then a = ST_Int32 \<and> t = a
      else if opcode \<ge> 6 \<and> opcode \<le> 9 then ir_numeric a \<and> t = ST_Bool
      else if opcode = 10 \<or> opcode = 11 then ir_scalar a \<and> t = ST_Bool
      else if opcode = 12 \<or> opcode = 13 then ir_condition a \<and> t = ST_Bool
      else False)"

text \<open>The part of \<open>exprImpl\<close> after the operands have been checked.\<close>

definition check_binary :: "Expression \<Rightarrow> verifier \<Rightarrow> verifier fallible" where
  "check_binary e s = (case ex_operands e of
       [l, r] \<Rightarrow> if ex_type l \<noteq> ex_type r then Inl ''binary operands require exact types''
         else ensure (binary_ok (ex_opcode e) (ex_type l) (ex_type e)) ''unsupported binary operation/type'' s
     | _ \<Rightarrow> Inl ''binary expression requires two operands'')"

definition check_call :: "Expression \<Rightarrow> verifier \<Rightarrow> verifier fallible" where
  "check_call e s = (case vf_functions s (ex_name e) of
       None \<Rightarrow> Inl (''unresolved/mistyped call: '' @ ex_name e)
     | Some f \<Rightarrow>
         if fu_result f \<noteq> ex_type e \<or> fu_result_composite f \<noteq> ex_composite e \<or> length (fu_parameters f) \<noteq> length (ex_operands e)
         then Inl (''unresolved/mistyped call: '' @ ex_name e)
         else ensure (list_all2 (\<lambda>a p. ex_type a = va_type p \<and> ex_composite a = va_composite p) (ex_operands e) (fu_parameters f))
           ''call argument type mismatch'' s)"

definition check_construct :: "Expression \<Rightarrow> verifier \<Rightarrow> verifier fallible" where
  "check_construct e s =
     (if ex_type e \<noteq> ST_Composite then Inl ''constructor requires composite type''
      else with_composite s (ex_composite e) (\<lambda>c.
        if cp_kind c = CK_Slice then Inl ''slice requires an array owner''
        else if length (ir_fields c) \<noteq> length (ex_operands e) then Inl ''constructor arity mismatch''
        else ensure (list_all2 (\<lambda>t a. t = ex_type a) (ir_fields c) (ex_operands e)) ''constructor field type mismatch'' s))"

definition check_project :: "Expression \<Rightarrow> verifier \<Rightarrow> verifier fallible" where
  "check_project e s = (case ex_operands e of
       [a] \<Rightarrow> if ex_type a \<noteq> ST_Composite then Inl ''projection requires a composite value''
         else with_composite s (ex_composite a) (\<lambda>c. ensure
           (cp_kind c \<noteq> CK_Slice \<and> sint (ex_integer e) \<ge> 0 \<and> nat (sint (ex_integer e)) < length (ir_fields c) \<and>
            ex_type e = ir_fields c ! nat (sint (ex_integer e))) ''projection index/type mismatch'' s)
     | _ \<Rightarrow> Inl ''projection requires a composite value'')"

definition slice_error :: string where
  "slice_error = ''slice requires an unshadowed global array with program lifetime''"

definition check_slice :: "Expression \<Rightarrow> verifier \<Rightarrow> verifier fallible" where
  "check_slice e s =
     (if ex_type e \<noteq> ST_Composite then Inl slice_error
      else with_composite s (ex_composite e) (\<lambda>c.
        if cp_kind c \<noteq> CK_Slice then Inl slice_error
        else case vf_globals s (ex_name e) of
            None \<Rightarrow> Inl slice_error
          | Some v \<Rightarrow>
              if va_extent v \<le> 0 \<or> find_scope (vf_scopes s) (ex_name e) \<noteq> None then Inl slice_error
              else (case ex_operands e of
                  [l, u] \<Rightarrow> ensure (va_type v = hd (cp_fields c) \<and> ex_type l = ST_Int32 \<and> ex_type u = ST_Int32)
                    ''slice element/range type mismatch'' s
                | _ \<Rightarrow> Inl slice_error)))"

definition check_slice_index :: "Expression \<Rightarrow> verifier \<Rightarrow> verifier fallible" where
  "check_slice_index e s = (case ir_lookup s (ex_name e) of
       None \<Rightarrow> Inl ''slice indexing requires a slice variable''
     | Some v \<Rightarrow>
         if va_type v \<noteq> ST_Composite then Inl ''slice indexing requires a slice variable''
         else with_composite s (va_composite v) (\<lambda>c. ensure (cp_kind c = CK_Slice \<and> ex_type e = hd (cp_fields c) \<and>
           length (ex_operands e) = 1 \<and> ex_type (hd (ex_operands e)) = ST_Int32) ''slice index type mismatch'' s))"

definition check_tensor_index :: "Expression \<Rightarrow> verifier \<Rightarrow> verifier fallible" where
  "check_tensor_index e s = (case List.find (\<lambda>t. to_name t = ex_name e) (ir_tensors (vf_program s)) of
       None \<Rightarrow> Inl ''unknown tensor''
     | Some t \<Rightarrow> ensure (to_element_type t = SE_Float32 \<and> ex_type e = ST_Float64 \<and> length (ex_operands e) = 1 \<and>
         ex_type (hd (ex_operands e)) = ST_Int32) ''tensor access requires f32 tensor, int32 index and float64 result'' s)"

definition check_variable :: "Expression \<Rightarrow> verifier \<Rightarrow> verifier fallible" where
  "check_variable e s = (let index = (ex_kind e = EK_Index); message = ''unresolved or mistyped variable: '' @ ex_name e in
     case ir_lookup s (ex_name e) of
       None \<Rightarrow> Inl message
     | Some v \<Rightarrow> ensure (va_type v = ex_type e \<and> va_composite v = ex_composite e \<and> (va_extent v > 0) = index \<and>
         length (ex_operands e) = (if index then 1 else 0) \<and> (index \<longrightarrow> ex_type (hd (ex_operands e)) = ST_Int32)) message s)"

definition check_kind :: "Expression \<Rightarrow> verifier \<Rightarrow> verifier fallible" where
  "check_kind e s = (case ex_kind e of
       EK_Integer \<Rightarrow> ensure (ex_type e = ST_Int32 \<and> ex_operands e = []) ''invalid integer expression'' s
     | EK_Boolean \<Rightarrow> ensure (ex_type e = ST_Bool \<and> (ex_integer e = 0 \<or> ex_integer e = 1) \<and> ex_operands e = []) ''invalid bool expression'' s
     | EK_Float \<Rightarrow> ensure (ex_type e = ST_Float64 \<and> b_finite (ex_decimal e) \<and> ex_operands e = []) ''invalid float expression'' s
     | EK_String \<Rightarrow> ensure (ex_type e = ST_String \<and> ex_operands e = [] \<and> CHR 0x00 \<notin> set (ex_name e)) ''invalid string expression'' s
     | EK_Variable \<Rightarrow> check_variable e s
     | EK_Index \<Rightarrow> check_variable e s
     | EK_Unary \<Rightarrow> ensure (length (ex_operands e) = 1 \<and> ex_opcode e = 1 \<and> ex_type e = ex_type (hd (ex_operands e)) \<and> ir_numeric (ex_type e))
         ''invalid unary expression'' s
     | EK_Binary \<Rightarrow> check_binary e s
     | EK_Call \<Rightarrow> check_call e s
     | EK_Construct \<Rightarrow> check_construct e s
     | EK_Project \<Rightarrow> check_project e s
     | EK_Slice \<Rightarrow> check_slice e s
     | EK_SliceIndex \<Rightarrow> check_slice_index e s
     | EK_TensorIndex \<Rightarrow> check_tensor_index e s)"

fun vexpr :: "Expression \<Rightarrow> bool \<Rightarrow> verifier \<Rightarrow> verifier fallible"
  and vexprs :: "Expression list \<Rightarrow> verifier \<Rightarrow> verifier fallible" where
  "vexpr (Expression k t n i d opc args c) lvalue s = (let e = Expression k t n i d opc args c in
     and_then (enter_node s) (\<lambda>s1.
       if t \<noteq> ST_Void \<and> \<not> valueType (vf_composites s1) t c then Inl ''invalid expression type identity''
       else if lvalue \<and> k \<noteq> EK_Variable \<and> k \<noteq> EK_Index then Inl ''assignment/input requires a variable''
       else and_then (vexprs args s1) (\<lambda>s2. and_then (check_kind e s2) (\<lambda>s3. Inr (leave_node s3)))))"
| "vexprs [] s = Inr s"
| "vexprs (e # es) s = and_then (vexpr e False s) (\<lambda>s1. vexprs es s1)"

subsection \<open>Statements\<close>

fun collect_labels :: "Statement list \<Rightarrow> string set \<Rightarrow> string set fallible" where
  "collect_labels [] ls = Inr ls"
| "collect_labels (c # cs) ls =
     (if st_kind c = SK_Label
      then (if \<not> is_identifier (st_name c) \<or> st_name c \<in> ls then Inl ''invalid or duplicate label''
            else collect_labels cs (insert (st_name c) ls))
      else collect_labels cs ls)"

fun declare_all :: "Variable list \<Rightarrow> verifier \<Rightarrow> verifier fallible" where
  "declare_all [] s = Inr s"
| "declare_all (v # vs) s =
     (if \<not> ir_variable (vf_composites s) v then Inl (variable_error v)
      else if hd (vf_scopes s) (va_name v) \<noteq> None then Inl ''duplicate/invalid local variable''
      else declare_all vs (s\<lparr>vf_scopes := (hd (vf_scopes s))(va_name v \<mapsto> v) # tl (vf_scopes s)\<rparr>))"

text \<open>The message of \<open>count\<close>.\<close>

definition count_is :: "nat \<Rightarrow> Statement \<Rightarrow> verifier \<Rightarrow> verifier fallible" where
  "count_is n st s = ensure (length (st_expressions st) = n) ''statement operand count mismatch'' s"

fun read_targets :: "Expression list \<Rightarrow> verifier \<Rightarrow> verifier fallible" where
  "read_targets [] s = Inr s"
| "read_targets (e # es) s = and_then (vexpr e True s) (\<lambda>s1.
     if \<not> ir_numeric (ex_type e) then Inl ''unsupported read target'' else read_targets es s1)"

text \<open>The statements without a body, after their expressions have been checked.\<close>

definition check_assign :: "Statement \<Rightarrow> verifier \<Rightarrow> verifier fallible" where
  "check_assign st s = and_then (count_is 2 st s) (\<lambda>s1. and_then (vexpr (st_expressions st ! 0) True s1) (\<lambda>s2.
     ensure (ir_same (st_expressions st ! 0) (st_expressions st ! 1)) ''assignment type mismatch'' s2))"

definition check_update :: "Statement \<Rightarrow> verifier \<Rightarrow> verifier fallible" where
  "check_update st s = and_then (count_is 2 st s) (\<lambda>s1.
     if ex_type (st_expressions st ! 0) \<noteq> ST_Composite then Inl ''update requires a record variable''
     else and_then (vexpr (st_expressions st ! 0) True s1) (\<lambda>s2.
       with_composite s2 (ex_composite (st_expressions st ! 0)) (\<lambda>c. ensure
         (cp_kind c = CK_Record \<and> st_declaration st < length (cp_fields c) \<and>
          cp_fields c ! st_declaration st = ex_type (st_expressions st ! 1)) ''record update type mismatch'' s2)))"

definition check_return :: "Statement \<Rightarrow> verifier \<Rightarrow> verifier fallible" where
  "check_return st s = and_then (count_is (if vf_result s = ST_Void then 0 else 1) st s) (\<lambda>s1.
     ensure (vf_result s = ST_Void \<or> ex_type (st_expressions st ! 0) = vf_result s \<and>
       ex_composite (st_expressions st ! 0) = vf_result_composite s) ''return type mismatch'' s1)"

definition check_goto :: "Statement \<Rightarrow> verifier \<Rightarrow> verifier fallible" where
  "check_goto st s = ensure (length (st_expressions st) \<le> 1 \<and>
     (st_expressions st = [] \<or> ir_condition (ex_type (hd (st_expressions st)))) \<and>
     vf_labels s \<noteq> [] \<and> st_name st \<in> hd (vf_labels s)) ''unresolved goto'' s"

definition check_indexed :: "nat \<Rightarrow> string \<Rightarrow> Statement \<Rightarrow> verifier \<Rightarrow> verifier fallible" where
  "check_indexed n message st s = and_then (count_is 0 st s) (\<lambda>s1. ensure (st_declaration st < n) message s1)"

definition check_simple :: "Statement \<Rightarrow> verifier \<Rightarrow> verifier fallible" where
  "check_simple st s = (case st_kind st of
       SK_Declare \<Rightarrow> and_then (count_is 0 st s) (declare_all (st_variables st))
     | SK_Assign \<Rightarrow> check_assign st s
     | SK_Update \<Rightarrow> check_update st s
     | SK_Expression \<Rightarrow> count_is 1 st s
     | SK_Read \<Rightarrow> and_then (read_targets (st_expressions st) s) (ensure (st_expressions st \<noteq> []) ''empty read'')
     | SK_Print \<Rightarrow> if \<not> list_all (\<lambda>e. ir_scalar (ex_type e)) (st_expressions st) then Inl ''cannot print void''
         else ensure (st_expressions st \<noteq> []) ''empty print'' s
     | SK_Break \<Rightarrow> and_then (count_is 0 st s) (\<lambda>s1. ensure (vf_loops s1 > 0) ''loop control outside loop'' s1)
     | SK_Continue \<Rightarrow> and_then (count_is 0 st s) (\<lambda>s1. ensure (vf_loops s1 > 0) ''loop control outside loop'' s1)
     | SK_Return \<Rightarrow> check_return st s
     | SK_Goto \<Rightarrow> check_goto st s
     | SK_Label \<Rightarrow> and_then (count_is 0 st s) (\<lambda>s1.
         ensure (vf_labels s1 \<noteq> [] \<and> st_name st \<in> hd (vf_labels s1)) ''unresolved label'' s1)
     | SK_Model \<Rightarrow> check_indexed (length (ir_models (vf_program s))) ''invalid model declaration index'' st s
     | SK_Tensor \<Rightarrow> check_indexed (length (ir_tensors (vf_program s))) ''invalid tensor declaration index'' st s
     | SK_Infer \<Rightarrow> check_indexed (length (ir_inferences (vf_program s))) ''invalid inference index'' st s
     | SK_Contract \<Rightarrow> check_indexed (length (ir_contracts (vf_program s))) ''invalid contract index'' st s
     | SK_Measurement \<Rightarrow> check_indexed (length (ir_measurements (vf_program s))) ''invalid measurement index'' st s
     | SK_LegacyInfer \<Rightarrow> and_then (count_is 0 st s) (ensure (length (st_strings st) = 3) ''invalid legacy inference'')
     | SK_GreenReport \<Rightarrow> and_then (count_is 3 st s) (ensure (list_all (\<lambda>e. ex_type e = ST_Int32) (st_expressions st))
         ''legacy GreenAI quantities require int32'')
     | SK_Evidence \<Rightarrow> count_is 0 st s
     | _ \<Rightarrow> Inr s)"

text \<open>What is checked of a conditional or a loop before its body.\<close>

definition check_control :: "Statement \<Rightarrow> verifier \<Rightarrow> verifier fallible" where
  "check_control st s =
     (if st_kind st = SK_For
      then and_then (count_is 4 st s) (\<lambda>s1. and_then (vexpr (st_expressions st ! 0) True s1) (\<lambda>s2.
        ensure (list_all (\<lambda>e. ex_type e = ST_Int32) (st_expressions st)) ''for operands require int32'' s2))
      else and_then (count_is 1 st s) (\<lambda>s1.
        ensure (ir_condition (ex_type (st_expressions st ! 0))) ''invalid control condition'' s1))"

definition push_scope :: "bool \<Rightarrow> verifier \<Rightarrow> verifier" where
  "push_scope lexical s = (if lexical then s\<lparr>vf_scopes := Map.empty # vf_scopes s\<rparr> else s)"

definition pop_scope :: "bool \<Rightarrow> verifier \<Rightarrow> verifier" where
  "pop_scope lexical s = (if lexical then s\<lparr>vf_scopes := tl (vf_scopes s)\<rparr> else s)"

definition is_loop :: "StatementKind \<Rightarrow> bool" where
  "is_loop k = (k = SK_For \<or> k = SK_While)"

fun vstmt :: "Statement \<Rightarrow> verifier \<Rightarrow> verifier fallible"
  and vstmts :: "Statement list \<Rightarrow> verifier \<Rightarrow> verifier fallible" where
  "vstmt (Statement k n strs es vs body alt d lexical) s = (let st = Statement k n strs es vs body alt d lexical in
     and_then (enter_node s) (\<lambda>s1. and_then (vexprs es s1) (\<lambda>s2. and_then (
       if k = SK_Block then
         and_then (count_is 0 st s2) (\<lambda>s3. and_then (collect_labels body {}) (\<lambda>ls.
           and_then (vstmts body ((push_scope lexical s3)\<lparr>vf_labels := ls # vf_labels s3\<rparr>)) (\<lambda>s4.
             Inr (pop_scope lexical (s4\<lparr>vf_labels := tl (vf_labels s4)\<rparr>)))))
       else if k = SK_If \<or> k = SK_While \<or> k = SK_For then
         and_then (check_control st s2) (\<lambda>s3.
           and_then (vstmts body (if is_loop k then s3\<lparr>vf_loops := vf_loops s3 + 1\<rparr> else s3)) (\<lambda>s4.
             vstmts alt (if is_loop k then s4\<lparr>vf_loops := vf_loops s4 - 1\<rparr> else s4)))
       else check_simple st s2) (\<lambda>s5. Inr (leave_node s5)))))"
| "vstmts [] s = Inr s"
| "vstmts (c # cs) s = and_then (vstmt c s) (\<lambda>s1. vstmts cs s1)"

subsection \<open>Programs\<close>

definition composite_error :: "Composite \<Rightarrow> string option" where
  "composite_error c =
     (if length (cp_fields c) > 256 \<or> length (cp_names c) > 256 then Some ''composite size limit exceeded''
      else if cp_kind c = CK_Record \<and> cp_fields c = [] then Some ''empty record''
      else if cp_kind c = CK_Enum \<and> (cp_fields c \<noteq> [] \<or> cp_names c = []) then Some ''invalid enum''
      else if (cp_kind c = CK_Option \<or> cp_kind c = CK_Slice) \<and> length (cp_fields c) \<noteq> 1 then Some ''invalid payload arity''
      else if cp_kind c = CK_Result \<and> length (cp_fields c) \<noteq> 2 then Some ''invalid result arity''
      else if cp_kind c \<noteq> CK_Enum \<and> length (cp_fields c) \<noteq> length (cp_names c) then Some ''field names/types differ''
      else if \<not> list_all (\<lambda>t. ir_scalar t \<and> (cp_kind c = CK_Slice \<longrightarrow> ir_numeric t)) (cp_fields c)
      then Some ''unsupported composite payload type''
      else if \<not> list_all is_identifier (cp_names c) \<or> \<not> distinct (cp_names c)
      then Some ''invalid/duplicate composite field or variant''
      else None)"

fun load_composites :: "Composite list \<Rightarrow> verifier \<Rightarrow> verifier fallible" where
  "load_composites [] s = Inr s"
| "load_composites (c # cs) s =
     (if \<not> is_identifier (cp_name c) \<or> vf_composites s (cp_name c) \<noteq> None then Inl ''invalid/duplicate composite identity''
      else (case composite_error c of
          Some message \<Rightarrow> Inl message
        | None \<Rightarrow> load_composites cs (s\<lparr>vf_composites := (vf_composites s)(cp_name c \<mapsto> c)\<rparr>)))"

definition ir_reserved :: "string set" where
  "ir_reserved = {''main'', ''printf'', ''scanf'', ''strcmp'', ''write'', ''exit'', ''malloc'', ''free''}"

fun load_ir_globals :: "Variable list \<Rightarrow> verifier \<Rightarrow> verifier fallible" where
  "load_ir_globals [] s = Inr s"
| "load_ir_globals (v # vs) s =
     (if \<not> ir_variable (vf_composites s) v then Inl (variable_error v)
      else if va_name v \<in> ir_reserved \<or> vf_globals s (va_name v) \<noteq> None then Inl ''invalid/duplicate/reserved global''
      else load_ir_globals vs (s\<lparr>vf_globals := (vf_globals s)(va_name v \<mapsto> v)\<rparr>))"

fun load_functions :: "Function list \<Rightarrow> verifier \<Rightarrow> verifier fallible" where
  "load_functions [] s = Inr s"
| "load_functions (f # fs) s =
     (if \<not> is_identifier (fu_name f) \<or> fu_name f \<in> ir_reserved \<or> vf_globals s (fu_name f) \<noteq> None \<or>
         vf_functions s (fu_name f) \<noteq> None \<or>
         \<not> valueType (vf_composites s) (fu_result f) (fu_result_composite f) \<and>
         \<not> (fu_result f = ST_Void \<and> fu_result_composite f = [])
      then Inl ''invalid/duplicate/reserved function''
      else load_functions fs (s\<lparr>vf_functions := (vf_functions s)(fu_name f \<mapsto> f)\<rparr>))"

definition tensorShape_ok :: "TensorShape \<Rightarrow> bool" where
  "tensorShape_ok dims = (isStatic dims \<and> elementCount dims > 0 \<and> elementCount dims \<le> 65536)"

definition model_ok :: "ModelOp \<Rightarrow> bool" where
  "model_ok m = (is_identifier (mo_name m) \<and> tensorShape_ok (mo_input_shape m) \<and> tensorShape_ok (mo_output_shape m) \<and>
     mo_precision m \<noteq> SE_Unknown \<and> mo_format m \<noteq> SF_Unknown \<and> mo_backend_preference m \<noteq> [])"

fun element_limit :: "sir_ElementType \<Rightarrow> rat option" where
  "element_limit SE_Float32 = Some (2 ^ 128 - 2 ^ 104)"
| "element_limit SE_Float16 = Some 65504"
| "element_limit SE_BFloat16 = Some (255 * 2 ^ 120)"
| "element_limit SE_Int4 = Some 8"
| "element_limit SE_Int8 = Some 128"
| "element_limit SE_Int32 = Some 2147483648"
| "element_limit SE_Unknown = None"

definition is_integer_element :: "sir_ElementType \<Rightarrow> bool" where
  "is_integer_element t = (t = SE_Int4 \<or> t = SE_Int8 \<or> t = SE_Int32)"

definition value_error :: "sir_ElementType \<Rightarrow> binary64 \<Rightarrow> string option" where
  "value_error t v =
     (if \<not> b_finite v then Some ''non-finite tensor initializer''
      else case element_limit t of
          None \<Rightarrow> Some ''unknown tensor element type''
        | Some limit \<Rightarrow>
            if b_val v < - limit \<or> b_val v > limit \<or> is_integer_element t \<and> (b_val v \<ge> limit \<or> of_int (b_trunc v) \<noteq> b_val v)
            then Some ''tensor initializer is outside its exact element domain'' else None)"

definition tensor_error :: "TensorOp \<Rightarrow> string option" where
  "tensor_error t =
     (if \<not> is_identifier (to_name t) \<or> \<not> tensorShape_ok (to_shape t) \<or> to_element_type t = SE_Unknown \<or>
         to_values t \<noteq> [] \<and> int (length (to_values t)) \<noteq> elementCount (to_shape t)
      then Some ''invalid tensor shape/initializer or duplicate tensor (maximum 65536 elements)''
      else (case List.map_filter (value_error (to_element_type t)) (to_values t) of [] \<Rightarrow> None | m # _ \<Rightarrow> Some m))"

text \<open>A list of named declarations: each is valid and its name is new.\<close>

fun first_error :: "('a \<Rightarrow> string) \<Rightarrow> ('a \<Rightarrow> string option) \<Rightarrow> string \<Rightarrow> 'a list \<Rightarrow> string set \<Rightarrow> string set fallible" where
  "first_error name_of err_of message [] seen = Inr seen"
| "first_error name_of err_of message (x # xs) seen =
     (case err_of x of
        Some m \<Rightarrow> Inl (if name_of x \<in> seen then message else m)
      | None \<Rightarrow> if name_of x \<in> seen then Inl message else first_error name_of err_of message xs (insert (name_of x) seen))"

definition model_message :: string where
  "model_message = ''invalid model signature or duplicate model (maximum 65536 tensor elements)''"

definition tensor_message :: string where
  "tensor_message = ''invalid tensor shape/initializer or duplicate tensor (maximum 65536 elements)''"

definition load_models :: "ModelOp list \<Rightarrow> string set fallible" where
  "load_models ms = first_error mo_name (\<lambda>m. if model_ok m then None else Some model_message) model_message ms {}"

definition load_tensors :: "TensorOp list \<Rightarrow> string set fallible" where
  "load_tensors ts = first_error to_name tensor_error tensor_message ts {}"

definition load_contracts :: "GreenAIContractOp list \<Rightarrow> string set fallible" where
  "load_contracts cs = first_error co_name
     (\<lambda>c. if is_identifier (co_name c) then None else Some ''duplicate/invalid contract'') ''duplicate/invalid contract'' cs {}"

fun declare_parameters :: "Variable list \<Rightarrow> verifier \<Rightarrow> verifier fallible" where
  "declare_parameters [] s = Inr s"
| "declare_parameters (v # vs) s =
     (if \<not> ir_variable (vf_composites s) v then Inl (variable_error v)
      else if va_extent v \<noteq> 0 \<or> hd (vf_scopes s) (va_name v) \<noteq> None then Inl ''invalid parameter''
      else declare_parameters vs (s\<lparr>vf_scopes := (hd (vf_scopes s))(va_name v \<mapsto> v) # tl (vf_scopes s)\<rparr>))"

definition vfunction :: "Function \<Rightarrow> verifier \<Rightarrow> verifier fallible" where
  "vfunction f s =
     and_then (declare_parameters (fu_parameters f) (s\<lparr>vf_scopes := Map.empty # vf_scopes s, vf_result := fu_result f,
       vf_result_composite := fu_result_composite f\<rparr>)) (\<lambda>s1.
     and_then (vstmt (fu_body f) s1) (\<lambda>s2. Inr (s2\<lparr>vf_scopes := tl (vf_scopes s2)\<rparr>)))"

fun vfunctions :: "Function list \<Rightarrow> verifier \<Rightarrow> verifier fallible" where
  "vfunctions [] s = Inr s"
| "vfunctions (f # fs) s = and_then (vfunction f s) (vfunctions fs)"

definition vrun :: "ProgramIR \<Rightarrow> verifier \<Rightarrow> verifier fallible" where
  "vrun p s =
     and_then (load_composites (ir_composites p) s) (\<lambda>s1.
     and_then (load_ir_globals (ir_globals p) s1) (\<lambda>s2.
     and_then (load_functions (ir_functions p) s2) (\<lambda>s3.
     and_then (load_models (ir_models p)) (\<lambda>models.
     and_then (load_tensors (ir_tensors p)) (\<lambda>tensors.
     and_then (load_contracts (ir_contracts p)) (\<lambda>contracts.
     if \<not> list_all (\<lambda>i. io_model_name i \<in> models \<and> io_input_tensor_name i \<in> tensors \<and> io_output_tensor_name i \<in> tensors)
         (ir_inferences p)
     then Inl ''unresolved inference reference''
     else if \<not> list_all (\<lambda>m. me_workload m \<in> contracts) (ir_measurements p) then Inl ''unresolved measurement contract''
     else and_then (vfunctions (ir_functions p) s3) (\<lambda>s4.
       vstmt (ir_body p) (s4\<lparr>vf_scopes := Map.empty # vf_scopes s4, vf_result := ST_Int32, vf_result_composite := []\<rparr>))))))))"

definition verifySemanticIR :: "ProgramIR \<Rightarrow> bool \<times> string" where
  "verifySemanticIR p = (case vrun p (Verifier_init p) of Inl message \<Rightarrow> (False, message) | Inr s \<Rightarrow> (True, []))"

end
