(* ===== verification/IRBuilder.thy ===== *)
theory IRBuilder
  imports SemanticIR Decimal
begin

section \<open>From the syntax tree to the semantic representation\<close>

text \<open>
  \<open>semantic_ir/SemanticIRBuilder.cpp\<close>: the program that passed the semantic checks is translated
  into the representation the back ends read. The builder keeps the types of the names in scope
  and records an error where a name is unknown; the file names and positions that it attaches are
  left out, as the tree carries none.
\<close>

subsection \<open>Texts\<close>

fun scalar_of :: "ShortType \<Rightarrow> ScalarType" where
  "scalar_of T_Int = ST_Int32"
| "scalar_of T_Boolean = ST_Bool"
| "scalar_of T_Float = ST_Float64"
| "scalar_of T_String = ST_String"
| "scalar_of T_Void = ST_Void"

definition sir_unquote :: "string \<Rightarrow> string" where
  "sir_unquote s = (if length s \<ge> 2 \<and> hd s = CHR 0x22 \<and> last s = CHR 0x22 then butlast (tl s) else s)"

text \<open>\<open>std::from_chars\<close> on the whole item: an optional minus sign and digits, within 64 bits.\<close>

definition from_chars64 :: "string \<Rightarrow> int option" where
  "from_chars64 item = (let neg = (item \<noteq> [] \<and> hd item = CHR ''-''); ds = (if neg then tl item else item);
     n = (if neg then - int (digits_value ds) else int (digits_value ds))
     in if ds \<noteq> [] \<and> list_all is_digit ds \<and> - (2 ^ 63) \<le> n \<and> n < 2 ^ 63 then Some n else None)"

fun shape_items :: "string list \<Rightarrow> int list \<Rightarrow> TensorShape" where
  "shape_items [] dims = dims"
| "shape_items (item # items) dims = (case from_chars64 item of
       None \<Rightarrow> []
     | Some n \<Rightarrow> if n \<le> 0 then [] else shape_items items (dims @ [n]))"

definition sir_shape :: "string \<Rightarrow> TensorShape" where
  "sir_shape text = shape_items (getlines (CHR '','') text) []"

definition sir_element :: "string \<Rightarrow> sir_ElementType" where
  "sir_element s =
     (if s \<in> {''float'', ''float32'', ''f32'', ''fp32''} then SE_Float32
      else if s \<in> {''float16'', ''f16'', ''fp16''} then SE_Float16
      else if s \<in> {''bfloat16'', ''bf16''} then SE_BFloat16
      else if s \<in> {''int8'', ''i8''} then SE_Int8
      else if s \<in> {''int4'', ''i4''} then SE_Int4
      else if s \<in> {''int32'', ''i32''} then SE_Int32
      else SE_Unknown)"

definition sir_format :: "string \<Rightarrow> sir_ModelFormat" where
  "sir_format s =
     (if s = ''onnx'' then SF_Onnx
      else if s \<in> {''tensorrt'', ''tensorrt_engine''} then SF_TensorRTEngine
      else if s = ''torchscript'' then SF_TorchScript
      else if s \<in> {''openvino'', ''openvino_ir''} then SF_OpenVINOIR
      else if s = ''gguf'' then SF_GGUF
      else SF_Unknown)"

definition sir_backend :: "string \<Rightarrow> sir_BackendKind option" where
  "sir_backend s = map_of [(''fallback'', SB_Fallback), (''onnxruntime_cpu'', SB_OnnxRuntimeCPU),
     (''onnxruntime_cuda'', SB_OnnxRuntimeCUDA), (''onnxruntime_tensorrt'', SB_OnnxRuntimeTensorRT),
     (''tensorrt'', SB_TensorRT), (''openvino'', SB_OpenVINO), (''libtorch'', SB_LibTorch), (''llamacpp'', SB_LlamaCpp)] s"

text \<open>
  Printing a double with \<open>std::setprecision(17)\<close>: seventeen significant digits, rounded to nearest,
  in fixed or exponent form by the decimal exponent, without trailing zeros.
\<close>

definition decimal_exponent :: "rat \<Rightarrow> int" where
  "decimal_exponent q = (case quotient_of q of (n, d) \<Rightarrow>
     let k = int (floorlog 10 (nat n)) - int (floorlog 10 (nat d)) in if rat_power 10 k \<le> q then k else k - 1)"

definition significant :: "rat \<Rightarrow> nat \<times> int" where
  "significant q = (let e = decimal_exponent q; m = nat (round_half_even (q / rat_power 10 (e - 16))) in
     if m = 10 ^ 17 then (10 ^ 16, e + 1) else (m, e))"

definition strip_zeros :: "string \<Rightarrow> string" where
  "strip_zeros ds = rev (dropWhile (\<lambda>c. c = CHR ''0'') (rev ds))"

definition with_fraction :: "string \<Rightarrow> string \<Rightarrow> string" where
  "with_fraction ip fp = (if strip_zeros fp = [] then ip else ip @ ''.'' @ strip_zeros fp)"

definition show_positive17 :: "rat \<Rightarrow> string" where
  "show_positive17 q = (case significant q of (m, e) \<Rightarrow> let ds = show_nat m in
     if e < -4 \<or> e \<ge> 17 then
       with_fraction (take 1 ds) (drop 1 ds) @ ''e'' @ (if e < 0 then ''-'' else ''+'') @
         (if \<bar>e\<bar> < 10 then ''0'' else []) @ show_nat (nat \<bar>e\<bar>)
     else if e < 0 then with_fraction ''0'' (replicate (nat (- e - 1)) (CHR ''0'') @ ds)
     else with_fraction (take (nat e + 1) ds) (drop (nat e + 1) ds))"

fun show_double17 :: "binary64 \<Rightarrow> string" where
  "show_double17 B_NaN = ''nan''"
| "show_double17 (B_Inf neg) = (if neg then ''-inf'' else ''inf'')"
| "show_double17 (B_Zero neg) = (if neg then ''-0'' else ''0'')"
| "show_double17 (B_Num q) = (if q < 0 then ''-'' @ show_positive17 (- q) else show_positive17 q)"

definition sir_guardrail :: "QualityGuardrail \<Rightarrow> string" where
  "sir_guardrail g = sir_unquote (qg_metric g) @ '' '' @ qg_op g @ '' '' @ show_double17 (qg_threshold g)"

subsection \<open>The builder\<close>

text \<open>The innermost scope is the first of the list; a later error replaces an earlier one.\<close>

record builder =
  bu_result :: ProgramIR
  bu_error :: string
  bu_globals :: "string \<rightharpoonup> ScalarType"
  bu_returns :: "string \<rightharpoonup> ScalarType"
  bu_scopes :: "(string \<rightharpoonup> ScalarType) list"

definition builder_init :: builder where
  "builder_init = \<lparr>bu_result = empty_program, bu_error = [], bu_globals = Map.empty, bu_returns = Map.empty, bu_scopes = []\<rparr>"

definition declarations :: "AST_DATA_DECLARATION_BLOCK \<Rightarrow> Variable list" where
  "declarations b =
     map (\<lambda>v. \<lparr>va_name = sd_name v, va_type = scalar_of (sd_type v), va_extent = 0, va_composite = []\<rparr>) (db_typed_scalars b) @
     map (\<lambda>v. \<lparr>va_name = ad_name v, va_type = scalar_of (ad_type v), va_extent = ad_size v, va_composite = []\<rparr>) (db_typed_arrays b)"

definition signatures :: "AST_PROGRAM \<Rightarrow> builder \<Rightarrow> builder" where
  "signatures p s = s\<lparr>
     bu_globals := fold (\<lambda>v m. m(va_name v \<mapsto> va_type v)) (declarations (pg_decl_block p)) (bu_globals s),
     bu_returns := fold (\<lambda>f m. m(fn_name f \<mapsto> scalar_of (fn_type f))) (pg_functions p) (bu_returns s)\<rparr>"

fun scope_type :: "(string \<rightharpoonup> ScalarType) list \<Rightarrow> string \<Rightarrow> ScalarType option" where
  "scope_type [] n = None"
| "scope_type (sc # scs) n = (case sc n of Some t \<Rightarrow> Some t | None \<Rightarrow> scope_type scs n)"

definition variableType :: "string \<Rightarrow> builder \<Rightarrow> ScalarType \<times> builder" where
  "variableType n s = (case scope_type (bu_scopes s) n of
       Some t \<Rightarrow> (t, s)
     | None \<Rightarrow> (case bu_globals s n of
           Some t \<Rightarrow> (t, s)
         | None \<Rightarrow> (ST_Void, s\<lparr>bu_error := ''unresolved variable in SemanticIR: '' @ n\<rparr>)))"

fun binop_code :: "binop \<Rightarrow> nat" where
  "binop_code BOP_ERROR = 0"
| "binop_code BOP_PLUS = 1"
| "binop_code BOP_MINUS = 2"
| "binop_code BOP_MULTIPLY = 3"
| "binop_code BOP_DIVIDE = 4"
| "binop_code BOP_MODULO = 5"
| "binop_code BOP_LESS = 6"
| "binop_code BOP_GREATER = 7"
| "binop_code BOP_LESS_OR_EQUAL = 8"
| "binop_code BOP_GREATER_OR_EQUAL = 9"
| "binop_code BOP_EQUAL = 10"
| "binop_code BOP_NOT_EQUAL = 11"
| "binop_code BOP_OR = 12"
| "binop_code BOP_AND = 13"

fun unop_code :: "unop \<Rightarrow> nat" where
  "unop_code UOP_ERROR = 0"
| "unop_code UOP_UMINUS = 1"

definition call_type :: "string \<Rightarrow> builder \<Rightarrow> ScalarType \<times> builder" where
  "call_type n s = (case bu_returns s n of
       Some t \<Rightarrow> (t, s)
     | None \<Rightarrow> (ST_Int32, s\<lparr>bu_error := ''unresolved function in SemanticIR: '' @ n\<rparr>))"

fun build_expr :: "AST_EXPRESSION \<Rightarrow> builder \<Rightarrow> Expression \<times> builder"
  and build_var :: "AST_VARIABLE \<Rightarrow> builder \<Rightarrow> Expression \<times> builder"
  and build_exprs :: "AST_EXPRESSION list \<Rightarrow> builder \<Rightarrow> Expression list \<times> builder" where
  "build_expr (E_Literal i) s = (Expression EK_Integer ST_Int32 [] i (B_Zero False) 0 [] [], s)"
| "build_expr (E_Bool b) s = (Expression EK_Boolean ST_Bool [] (if b then 1 else 0) (B_Zero False) 0 [] [], s)"
| "build_expr (E_Float x) s = (Expression EK_Float ST_Float64 [] 0 x 0 [] [], s)"
| "build_expr (E_String t) s = (Expression EK_String ST_String (sir_unquote t) 0 (B_Zero False) 0 [] [], s)"
| "build_expr (E_Var v) s = build_var v s"
| "build_expr (E_Binary l r op) s = (case build_expr l s of (a, s1) \<Rightarrow> (case build_expr r s1 of (b, s2) \<Rightarrow>
     (Expression EK_Binary (if binop_code op \<ge> binop_code BOP_LESS then ST_Bool else ex_type a) [] 0 (B_Zero False)
        (binop_code op) [a, b] [], s2)))"
| "build_expr (E_Unary e op) s = (case build_expr e s of (a, s1) \<Rightarrow>
     (Expression EK_Unary (ex_type a) [] 0 (B_Zero False) (unop_code op) [a] [], s1))"
| "build_expr (E_Call n args) s = (case call_type n s of (t, s1) \<Rightarrow> (case build_exprs args s1 of (es, s2) \<Rightarrow>
     (Expression EK_Call t n 0 (B_Zero False) 0 es [], s2)))"
| "build_var (V_Simple n) s = (case variableType n s of (t, s1) \<Rightarrow>
     (Expression EK_Variable t n 0 (B_Zero False) 0 [] [], s1))"
| "build_var (V_Array n i) s = (case variableType n s of (t, s1) \<Rightarrow> (case build_expr i s1 of (e, s2) \<Rightarrow>
     (Expression EK_Index t n 0 (B_Zero False) 0 [e] [], s2)))"
| "build_exprs [] s = ([], s)"
| "build_exprs (e # es) s = (case build_expr e s of (x, s1) \<Rightarrow> (case build_exprs es s1 of (xs, s2) \<Rightarrow> (x # xs, s2)))"

fun build_vars :: "AST_VARIABLE list \<Rightarrow> builder \<Rightarrow> Expression list \<times> builder" where
  "build_vars [] s = ([], s)"
| "build_vars (v # vs) s = (case build_var v s of (x, s1) \<Rightarrow> (case build_vars vs s1 of (xs, s2) \<Rightarrow> (x # xs, s2)))"

fun printable :: "AST_PRINTABLE_ITEM \<Rightarrow> AST_EXPRESSION" where
  "printable (P_String t) = E_String t"
| "printable (P_Expr e) = e"

subsection \<open>Declarations of the AI statements\<close>

fun build_backends :: "string list \<Rightarrow> builder \<Rightarrow> sir_BackendKind list \<times> builder" where
  "build_backends [] s = ([], s)"
| "build_backends (b # bs) s = (case sir_backend b of
       None \<Rightarrow> build_backends bs (s\<lparr>bu_error := ''unknown SemanticIR backend: '' @ b\<rparr>)
     | Some k \<Rightarrow> (case build_backends bs s of (ks, s1) \<Rightarrow> (k # ks, s1)))"

definition build_model :: "ModelDeclarationData \<Rightarrow> sir_BackendKind list \<Rightarrow> ModelOp" where
  "build_model d ks = \<lparr>mo_name = md_name d, mo_format = sir_format (md_format d), mo_path = sir_unquote (md_path d),
     mo_task = sir_unquote (md_task d),
     mo_quality_guardrail = (if md_has_quality_guardrail d then sir_guardrail (md_quality_guardrail d) else []),
     mo_precision = sir_element (md_precision d), mo_input_shape = sir_shape (md_input_shape d),
     mo_output_shape = sir_shape (md_output_shape d), mo_backend_preference = ks\<rparr>"

definition build_tensor :: "TensorDeclarationData \<Rightarrow> TensorOp" where
  "build_tensor d = \<lparr>to_name = tn_name d, to_element_type = sir_element (tn_element_type d),
     to_shape = sir_shape (tn_shape_csv d), to_values = []\<rparr>"

definition build_contract :: "GreenAIContractData \<Rightarrow> GreenAIContractOp" where
  "build_contract d = \<lparr>co_name = gc_name d, co_functional_unit = sir_unquote (gc_functional_unit d),
     co_success_criteria = sir_unquote (gc_success_criteria d), co_boundary = gc_boundary d,
     co_measurement_quality = gc_measurement_quality d, co_data_quality = gc_data_quality d,
     co_carbon_factor = gc_carbon_factor d, co_claims_mode = gc_claims_mode d,
     co_quality_guardrail = (if gc_has_quality_guardrail d then sir_guardrail (gc_quality_guardrail d) else []),
     co_energy_budget_j = gc_energy_budget_j d, co_carbon_budget_gco2e = gc_carbon_budget_gco2e d\<rparr>"

definition build_measurement :: "GreenAIMeasurementData \<Rightarrow> GreenAIMeasurementOp" where
  "build_measurement d = \<lparr>me_workload = gm_workload d, me_backend = gm_backend d, me_inferences = sint (gm_inferences d),
     me_watts = gm_watts d, me_seconds = gm_seconds d\<rparr>"

definition evidence_strings :: "C3EcoDeclarationData \<Rightarrow> string list" where
  "evidence_strings d = c3EcoDeclarationKindName (cd_kind d) #
     concat (map (\<lambda>f. cf_name f # map (\<lambda>v. c3EcoValueKindName (cv_kind v) @ '':'' @ cv_text v) (cf_values f)) (cd_fields d))"

subsection \<open>Statements\<close>

text \<open>A statement of a kind, with its expressions and its other members at their defaults.\<close>

definition plain :: "StatementKind \<Rightarrow> string \<Rightarrow> Expression list \<Rightarrow> Statement" where
  "plain k n es = Statement k n [] es [] [] [] 0 False"

definition nested :: "StatementKind \<Rightarrow> Expression list \<Rightarrow> Statement list \<Rightarrow> Statement list \<Rightarrow> Statement" where
  "nested k es body alternative = Statement k [] [] es [] body alternative 0 False"

definition indexed :: "StatementKind \<Rightarrow> nat \<Rightarrow> Statement" where
  "indexed k n = Statement k [] [] [] [] [] [] n False"

definition declare_scope :: "Variable list \<Rightarrow> builder \<Rightarrow> builder" where
  "declare_scope vs s = s\<lparr>bu_scopes := (case bu_scopes s of [] \<Rightarrow> []
     | sc # scs \<Rightarrow> fold (\<lambda>v m. m(va_name v \<mapsto> va_type v)) vs sc # scs)\<rparr>"

definition builder_push :: "builder \<Rightarrow> builder" where
  "builder_push s = s\<lparr>bu_scopes := Map.empty # bu_scopes s\<rparr>"

definition builder_pop :: "builder \<Rightarrow> builder" where
  "builder_pop s = s\<lparr>bu_scopes := tl (bu_scopes s)\<rparr>"

definition add_model :: "ModelDeclarationData \<Rightarrow> builder \<Rightarrow> Statement \<times> builder" where
  "add_model d s = (case build_backends (md_backend_preference d) s of (ks, s1) \<Rightarrow>
     (indexed SK_Model (length (ir_models (bu_result s))),
      s1\<lparr>bu_result := (bu_result s1)\<lparr>ir_models := ir_models (bu_result s1) @ [build_model d ks]\<rparr>\<rparr>))"

definition add_tensor :: "TensorDeclarationData \<Rightarrow> builder \<Rightarrow> Statement \<times> builder" where
  "add_tensor d s = (indexed SK_Tensor (length (ir_tensors (bu_result s))),
     s\<lparr>bu_result := (bu_result s)\<lparr>ir_tensors := ir_tensors (bu_result s) @ [build_tensor d]\<rparr>\<rparr>)"

definition add_inference :: "string \<Rightarrow> string \<Rightarrow> string \<Rightarrow> builder \<Rightarrow> Statement \<times> builder" where
  "add_inference model input output s = (indexed SK_Infer (length (ir_inferences (bu_result s))),
     s\<lparr>bu_result := (bu_result s)\<lparr>ir_inferences := ir_inferences (bu_result s) @
       [\<lparr>io_model_name = model, io_input_tensor_name = input, io_output_tensor_name = output\<rparr>]\<rparr>\<rparr>)"

definition add_contract :: "GreenAIContractData \<Rightarrow> builder \<Rightarrow> Statement \<times> builder" where
  "add_contract d s = (indexed SK_Contract (length (ir_contracts (bu_result s))),
     s\<lparr>bu_result := (bu_result s)\<lparr>ir_contracts := ir_contracts (bu_result s) @ [build_contract d]\<rparr>\<rparr>)"

definition add_measurement :: "GreenAIMeasurementData \<Rightarrow> builder \<Rightarrow> Statement \<times> builder" where
  "add_measurement d s = (indexed SK_Measurement (length (ir_measurements (bu_result s))),
     s\<lparr>bu_result := (bu_result s)\<lparr>ir_measurements := ir_measurements (bu_result s) @ [build_measurement d]\<rparr>\<rparr>)"

definition build_option :: "AST_EXPRESSION option \<Rightarrow> builder \<Rightarrow> Expression list \<times> builder" where
  "build_option e s = (case e of None \<Rightarrow> ([], s) | Some x \<Rightarrow> build_exprs [x] s)"

fun build_stmt :: "AST_STATEMENT \<Rightarrow> builder \<Rightarrow> Statement \<times> builder"
  and build_block :: "AST_BLOCK \<Rightarrow> builder \<Rightarrow> Statement \<times> builder"
  and build_stmts :: "AST_STATEMENT list \<Rightarrow> builder \<Rightarrow> Statement list \<times> builder" where
  "build_stmt (S_Decl b) s = (Statement SK_Declare [] [] [] (declarations b) [] [] 0 False, declare_scope (declarations b) s)"
| "build_stmt (S_Expr e) s = (case build_expr e s of (x, s1) \<Rightarrow> (plain SK_Expression [] [x], s1))"
| "build_stmt (S_Call n args) s = (case call_type n s of (t, s1) \<Rightarrow> (case build_vars args s1 of (es, s2) \<Rightarrow>
     (plain SK_Expression [] [Expression EK_Call t n 0 (B_Zero False) 0 es []], s2)))"
| "build_stmt (S_Assign v e) s = (case build_exprs [E_Var v, e] s of (es, s1) \<Rightarrow> (plain SK_Assign [] es, s1))"
| "build_stmt (S_Block b) s = build_block b s"
| "build_stmt (S_If c b) s = (case build_exprs [c] s of (es, s1) \<Rightarrow> (case build_block b s1 of (x, s2) \<Rightarrow>
     (nested SK_If es [x] [], s2)))"
| "build_stmt (S_IfElse c b1 b2) s = (case build_exprs [c] s of (es, s1) \<Rightarrow> (case build_block b1 s1 of (x, s2) \<Rightarrow>
     (case build_block b2 s2 of (y, s3) \<Rightarrow> (nested SK_If es [x] [y], s3))))"
| "build_stmt (S_For v b st e body) s = (case build_exprs [E_Var v, b, st, e] s of (es, s1) \<Rightarrow>
     (case build_block body s1 of (x, s2) \<Rightarrow> (nested SK_For es [x] [], s2)))"
| "build_stmt (S_While c body) s = (case build_exprs [c] s of (es, s1) \<Rightarrow> (case build_block body s1 of (x, s2) \<Rightarrow>
     (nested SK_While es [x] [], s2)))"
| "build_stmt (S_Goto c l) s = (case build_option c s of (es, s1) \<Rightarrow> (plain SK_Goto l es, s1))"
| "build_stmt (S_Read vs) s = (case build_vars vs s of (es, s1) \<Rightarrow> (plain SK_Read [] es, s1))"
| "build_stmt (S_Print ps) s = (case build_exprs (map printable ps) s of (es, s1) \<Rightarrow> (plain SK_Print [] es, s1))"
| "build_stmt (S_Label l) s = (plain SK_Label l [], s)"
| "build_stmt (S_GreenReport n a b c) s = (case build_exprs [a, b, c] s of (es, s1) \<Rightarrow> (plain SK_GreenReport n es, s1))"
| "build_stmt (S_AiInfer p sh i) s =
     (Statement SK_LegacyInfer [] [sir_unquote p, sir_unquote sh, sir_unquote i] [] [] [] [] 0 False, s)"
| "build_stmt (S_Model d) s = add_model d s"
| "build_stmt (S_Tensor d) s = add_tensor d s"
| "build_stmt (S_Contract d) s = add_contract d s"
| "build_stmt (S_Measure d) s = add_measurement d s"
| "build_stmt (S_C3Eco d) s = (Statement SK_Evidence (cd_name d) (evidence_strings d) [] [] [] [] 0 False, s)"
| "build_stmt (S_Infer m i out) s = add_inference m i out s"
| "build_stmt S_Break s = (plain SK_Break [] [], s)"
| "build_stmt S_Continue s = (plain SK_Continue [] [], s)"
| "build_stmt (S_Return e) s = (case build_option e s of (es, s1) \<Rightarrow> (plain SK_Return [] es, s1))"
| "build_block (Block lexical sts) s = (case build_stmts sts (if lexical then builder_push s else s) of (xs, s1) \<Rightarrow>
     (Statement SK_Block [] [] [] [] xs [] 0 lexical, if lexical then builder_pop s1 else s1))"
| "build_stmts [] s = ([], s)"
| "build_stmts (st # sts) s = (case build_stmt st s of (x, s1) \<Rightarrow> (case build_stmts sts s1 of (xs, s2) \<Rightarrow> (x # xs, s2)))"

subsection \<open>Programs\<close>

definition build_function :: "AST_FUNCTION \<Rightarrow> builder \<Rightarrow> builder" where
  "build_function f s = (let ps = declarations (fn_parameters f) in
     case build_block (fn_block f) (declare_scope ps (builder_push s)) of (body, s1) \<Rightarrow>
       (builder_pop s1)\<lparr>bu_result := (bu_result s1)\<lparr>ir_functions := ir_functions (bu_result s1) @
         [\<lparr>fu_name = fn_name f, fu_result = scalar_of (fn_type f), fu_parameters = ps, fu_body = body,
           fu_result_composite = []\<rparr>]\<rparr>\<rparr>)"

definition build_functions :: "AST_PROGRAM \<Rightarrow> builder \<Rightarrow> builder" where
  "build_functions p s = fold build_function (pg_functions p)
     (s\<lparr>bu_result := (bu_result s)\<lparr>ir_globals := ir_globals (bu_result s) @ declarations (pg_decl_block p)\<rparr>\<rparr>)"

text \<open>Compact model declarations derive a signature from their checked uses.\<close>

definition derive_from :: "InferOp \<Rightarrow> TensorOp \<Rightarrow> ModelOp \<Rightarrow> ModelOp" where
  "derive_from i t m =
     (let m1 = (if mo_input_shape m = [] \<and> to_name t = io_input_tensor_name i then m\<lparr>mo_input_shape := to_shape t\<rparr> else m)
      in if mo_output_shape m1 = [] \<and> to_name t = io_output_tensor_name i then m1\<lparr>mo_output_shape := to_shape t\<rparr> else m1)"

definition derive_shapes :: "InferOp list \<Rightarrow> TensorOp list \<Rightarrow> ModelOp \<Rightarrow> ModelOp" where
  "derive_shapes infers tensors m =
     fold (\<lambda>i m. if io_model_name i = mo_name m then fold (derive_from i) tensors m else m) infers m"

definition build :: "AST_PROGRAM list \<Rightarrow> AST_PROGRAM \<Rightarrow> ProgramIR fallible" where
  "build libraries entry =
     (let s0 = signatures entry (fold signatures libraries builder_init) in
      if bu_error s0 \<noteq> [] then Inl (bu_error s0)
      else let s1 = build_functions entry (fold build_functions libraries s0) in
        case build_block (pg_code_block entry) (builder_push s1) of (body, s2) \<Rightarrow>
          (let r = bu_result s2;
               r1 = r\<lparr>ir_body := body, ir_models := map (derive_shapes (ir_inferences r) (ir_tensors r)) (ir_models r)\<rparr> in
           if bu_error s2 \<noteq> [] then Inl (bu_error s2) else Inr r1))"

end
