(* ===== verification/IRTyping.thy ===== *)
theory IRTyping
  imports SemanticIR
begin

section \<open>Typing rules of the semantic representation\<close>

text \<open>
  What \<open>mlir/lib/SemanticVerifier.cpp\<close> promises, as typing rules: an expression or a statement is
  well typed in an environment, and it is within the work and depth limits of the verifier. The
  verifier of \<open>SemanticIR\<close> is shown to accept exactly the well-typed programs within the limits, so
  its state (the counters, the scopes and labels it pushes and pops, the early returns) is correct.
\<close>

subsection \<open>Expressions\<close>

record typing =
  ty_program :: ProgramIR
  ty_composites :: "string \<rightharpoonup> Composite"
  ty_functions :: "string \<rightharpoonup> Function"
  ty_globals :: "string \<rightharpoonup> Variable"

type_synonym scopes = "(string \<rightharpoonup> Variable) list"

definition resolve :: "typing \<Rightarrow> scopes \<Rightarrow> string \<Rightarrow> Variable option" where
  "resolve C G n = (case find_scope G n of Some v \<Rightarrow> Some v | None \<Rightarrow> ty_globals C n)"

definition identity :: "typing \<Rightarrow> ScalarType \<Rightarrow> string \<Rightarrow> bool" where
  "identity C t c = (t \<noteq> ST_Void \<longrightarrow> valueType (ty_composites C) t c)"

definition agreeing :: "Expression \<Rightarrow> Variable \<Rightarrow> bool" where
  "agreeing a p = (ex_type a = va_type p \<and> ex_composite a = va_composite p)"

inductive typed :: "typing \<Rightarrow> scopes \<Rightarrow> Expression \<Rightarrow> bool" for C G where
  typed_integer: "typed C G (Expression EK_Integer ST_Int32 n i d opc [] [])"
| typed_boolean: "i = 0 \<or> i = 1 \<Longrightarrow> typed C G (Expression EK_Boolean ST_Bool n i d opc [] [])"
| typed_float: "b_finite d \<Longrightarrow> typed C G (Expression EK_Float ST_Float64 n i d opc [] [])"
| typed_string: "CHR 0x00 \<notin> set n \<Longrightarrow> typed C G (Expression EK_String ST_String n i d opc [] [])"
| typed_variable: "resolve C G n = Some v \<Longrightarrow> va_extent v \<le> 0 \<Longrightarrow> identity C (va_type v) (va_composite v) \<Longrightarrow>
    typed C G (Expression EK_Variable (va_type v) n i d opc [] (va_composite v))"
| typed_index: "resolve C G n = Some v \<Longrightarrow> va_extent v > 0 \<Longrightarrow> identity C (va_type v) (va_composite v) \<Longrightarrow>
    typed C G a \<Longrightarrow> ex_type a = ST_Int32 \<Longrightarrow>
    typed C G (Expression EK_Index (va_type v) n i d opc [a] (va_composite v))"
| typed_unary: "typed C G a \<Longrightarrow> ir_numeric (ex_type a) \<Longrightarrow> typed C G (Expression EK_Unary (ex_type a) n i d 1 [a] [])"
| typed_binary: "typed C G a \<Longrightarrow> typed C G b \<Longrightarrow> ex_type a = ex_type b \<Longrightarrow> binary_ok opc (ex_type a) t \<Longrightarrow>
    typed C G (Expression EK_Binary t n i d opc [a, b] [])"
| typed_call: "ty_functions C n = Some f \<Longrightarrow> identity C (fu_result f) (fu_result_composite f) \<Longrightarrow>
    (\<And>a. a \<in> set args \<Longrightarrow> typed C G a) \<Longrightarrow>
    list_all2 agreeing args (fu_parameters f) \<Longrightarrow>
    typed C G (Expression EK_Call (fu_result f) n i d opc args (fu_result_composite f))"
| typed_construct: "ty_composites C c = Some cp \<Longrightarrow> cp_kind cp \<noteq> CK_Slice \<Longrightarrow> (\<And>a. a \<in> set args \<Longrightarrow> typed C G a) \<Longrightarrow>
    list_all2 (\<lambda>t a. t = ex_type a) (ir_fields cp) args \<Longrightarrow> typed C G (Expression EK_Construct ST_Composite n i d opc args c)"
| typed_project: "typed C G a \<Longrightarrow> ex_type a = ST_Composite \<Longrightarrow> ty_composites C (ex_composite a) = Some cp \<Longrightarrow>
    cp_kind cp \<noteq> CK_Slice \<Longrightarrow> 0 \<le> sint i \<Longrightarrow> nat (sint i) < length (ir_fields cp) \<Longrightarrow> t = ir_fields cp ! nat (sint i) \<Longrightarrow>
    identity C t c \<Longrightarrow> typed C G (Expression EK_Project t n i d opc [a] c)"
| typed_slice: "ty_composites C c = Some cp \<Longrightarrow> cp_kind cp = CK_Slice \<Longrightarrow> ty_globals C n = Some v \<Longrightarrow> va_extent v > 0 \<Longrightarrow>
    find_scope G n = None \<Longrightarrow> va_type v = hd (cp_fields cp) \<Longrightarrow> typed C G a \<Longrightarrow> typed C G b \<Longrightarrow>
    ex_type a = ST_Int32 \<Longrightarrow> ex_type b = ST_Int32 \<Longrightarrow> typed C G (Expression EK_Slice ST_Composite n i d opc [a, b] c)"
| typed_slice_index: "resolve C G n = Some v \<Longrightarrow> va_type v = ST_Composite \<Longrightarrow> ty_composites C (va_composite v) = Some cp \<Longrightarrow>
    cp_kind cp = CK_Slice \<Longrightarrow> typed C G a \<Longrightarrow> ex_type a = ST_Int32 \<Longrightarrow> t = hd (cp_fields cp) \<Longrightarrow> identity C t c \<Longrightarrow>
    typed C G (Expression EK_SliceIndex t n i d opc [a] c)"
| typed_tensor_index: "List.find (\<lambda>t. to_name t = n) (ir_tensors (ty_program C)) = Some tn \<Longrightarrow>
    to_element_type tn = SE_Float32 \<Longrightarrow> typed C G a \<Longrightarrow> ex_type a = ST_Int32 \<Longrightarrow>
    typed C G (Expression EK_TensorIndex ST_Float64 n i d opc [a] [])"

inductive_simps typed_kind: "typed C G (Expression k t n i d opc args c)"

fun expr_nodes :: "Expression \<Rightarrow> nat" where
  "expr_nodes (Expression k t n i d opc args c) = 1 + sum_list (map expr_nodes args)"

primrec max_list :: "nat list \<Rightarrow> nat" where
  "max_list [] = 0"
| "max_list (x # xs) = max x (max_list xs)"

fun expr_height :: "Expression \<Rightarrow> nat" where
  "expr_height (Expression k t n i d opc args c) = 1 + max_list (map expr_height args)"

definition exprs_nodes :: "Expression list \<Rightarrow> nat" where
  "exprs_nodes es = sum_list (map expr_nodes es)"

definition exprs_height :: "Expression list \<Rightarrow> nat" where
  "exprs_height es = max_list (map expr_height es)"

definition is_lvalue :: "Expression \<Rightarrow> bool" where
  "is_lvalue e = (ex_kind e = EK_Variable \<or> ex_kind e = EK_Index)"

subsection \<open>The verifier of expressions\<close>

definition typing_of :: "verifier \<Rightarrow> typing" where
  "typing_of s = \<lparr>ty_program = vf_program s, ty_composites = vf_composites s, ty_functions = vf_functions s,
     ty_globals = vf_globals s\<rparr>"

lemma typing_of_simps [simp]:
  "ty_program (typing_of s) = vf_program s" "ty_composites (typing_of s) = vf_composites s"
  "ty_functions (typing_of s) = vf_functions s" "ty_globals (typing_of s) = vf_globals s"
  by (simp_all add: typing_of_def)

lemma typing_of_update [simp]:
  "typing_of (s\<lparr>vf_nodes := n\<rparr>) = typing_of s" "typing_of (s\<lparr>vf_depth := n\<rparr>) = typing_of s"
  "typing_of (s\<lparr>vf_scopes := G\<rparr>) = typing_of s" "typing_of (s\<lparr>vf_labels := L\<rparr>) = typing_of s"
  "typing_of (s\<lparr>vf_loops := n\<rparr>) = typing_of s" "typing_of (s\<lparr>vf_result := t\<rparr>) = typing_of s"
  "typing_of (s\<lparr>vf_result_composite := c\<rparr>) = typing_of s"
  by (simp_all add: typing_of_def)

lemma ir_lookup_resolve: "ir_lookup s n = resolve (typing_of s) (vf_scopes s) n"
  by (simp add: ir_lookup_def resolve_def split: option.split)

lemma ensure_iff [simp]: "ensure b m s = Inr s' \<longleftrightarrow> b \<and> s' = s"
  by (auto simp: ensure_def)

declare and_then_iff [simp] if_fail_iff [simp]

lemma with_composite_iff [simp]: "with_composite s i f = Inr v \<longleftrightarrow> (\<exists>c. vf_composites s i = Some c \<and> f c = Inr v)"
  by (auto simp: with_composite_def split: option.splits)

lemma binary_ok_scalar: "binary_ok opc a t \<Longrightarrow> ir_scalar t \<and> t \<noteq> ST_Composite \<and> t \<noteq> ST_Void"
  by (auto simp: ir_numeric_def ir_scalar_def binary_ok_def split: if_splits)

lemma value_type_scalar: "ir_scalar t \<Longrightarrow> valueType cs t c \<longleftrightarrow> c = []"
  by (auto simp: valueType_def ir_scalar_def)

lemma length_one: "length xs = Suc 0 \<longleftrightarrow> (\<exists>x. xs = [x])"
  by (cases xs) auto

lemma one_iff [simp]: "(case xs of [a] \<Rightarrow> f a | _ \<Rightarrow> Inl m) = Inr v \<longleftrightarrow> (\<exists>a. xs = [a] \<and> f a = Inr v)"
  by (auto split: list.splits)

lemma two_iff [simp]: "(case xs of [a, b] \<Rightarrow> f a b | _ \<Rightarrow> Inl m) = Inr v \<longleftrightarrow> (\<exists>a b. xs = [a, b] \<and> f a b = Inr v)"
  by (auto split: list.splits)

lemma some_iff [simp]: "(case r of None \<Rightarrow> Inl m | Some x \<Rightarrow> f x) = Inr v \<longleftrightarrow> (\<exists>x. r = Some x \<and> f x = Inr v)"
  by (auto split: option.splits)

lemmas check_defs = check_kind_def check_variable_def check_binary_def check_call_def check_construct_def check_project_def check_slice_def
  check_slice_index_def check_tensor_index_def Let_def

lemma check_kind_same: "check_kind e s = Inr s' \<Longrightarrow> s' = s"
  by (cases "ex_kind e") (auto simp: check_defs)

text \<open>The premises of the rule for each kind are what \<open>exprImpl\<close> tests.\<close>

lemma check_variable_iff:
  "check_variable e s = Inr s' \<longleftrightarrow> s' = s \<and> (\<exists>v. resolve (typing_of s) (vf_scopes s) (ex_name e) = Some v \<and>
     va_type v = ex_type e \<and> va_composite v = ex_composite e \<and>
     (if ex_kind e = EK_Index then va_extent v > 0 \<and> (\<exists>a. ex_operands e = [a] \<and> ex_type a = ST_Int32)
      else va_extent v \<le> 0 \<and> ex_operands e = []))"
  unfolding check_variable_def Let_def some_iff ensure_iff ir_lookup_resolve
  by (cases "ex_kind e = EK_Index") (auto simp: length_one)

lemma typed_variable_iff:
  "typed (typing_of s) (vf_scopes s) (Expression EK_Variable t n i d opc args c) \<longleftrightarrow>
     identity (typing_of s) t c \<and> (\<forall>a\<in>set args. typed (typing_of s) (vf_scopes s) a) \<and>
     check_kind (Expression EK_Variable t n i d opc args c) s = Inr s"
  by (simp add: typed_kind check_kind_def check_variable_iff) fastforce

lemma typed_index_iff:
  "typed (typing_of s) (vf_scopes s) (Expression EK_Index t n i d opc args c) \<longleftrightarrow>
     identity (typing_of s) t c \<and> (\<forall>a\<in>set args. typed (typing_of s) (vf_scopes s) a) \<and>
     check_kind (Expression EK_Index t n i d opc args c) s = Inr s"
  by (simp add: typed_kind check_kind_def check_variable_iff) fastforce

lemma numeric_scalar: "ir_numeric t \<Longrightarrow> ir_scalar t"
  by (auto simp: ir_numeric_def ir_scalar_def)

lemma identity_scalar: "ir_scalar t \<Longrightarrow> identity C t c \<longleftrightarrow> c = []"
  by (auto simp: identity_def valueType_def ir_scalar_def)

lemma typed_unary_iff:
  "typed (typing_of s) (vf_scopes s) (Expression EK_Unary t n i d opc args c) \<longleftrightarrow>
     identity (typing_of s) t c \<and> (\<forall>a\<in>set args. typed (typing_of s) (vf_scopes s) a) \<and>
     check_kind (Expression EK_Unary t n i d opc args c) s = Inr s"
  by (auto simp: typed_kind check_kind_def length_one identity_scalar [OF numeric_scalar])

lemma identity_binary: "binary_ok opc a t \<Longrightarrow> identity C t c \<longleftrightarrow> c = []"
  by (rule identity_scalar [OF conjunct1 [OF binary_ok_scalar]])

lemma check_binary_iff:
  "check_binary e s = Inr s' \<longleftrightarrow> s' = s \<and> (\<exists>a b. ex_operands e = [a, b] \<and> ex_type a = ex_type b \<and>
     binary_ok (ex_opcode e) (ex_type a) (ex_type e))"
  unfolding check_binary_def two_iff if_fail_iff ensure_iff by blast

lemma typed_binary_iff:
  "typed (typing_of s) (vf_scopes s) (Expression EK_Binary t n i d opc args c) \<longleftrightarrow>
     identity (typing_of s) t c \<and> (\<forall>a\<in>set args. typed (typing_of s) (vf_scopes s) a) \<and>
     check_kind (Expression EK_Binary t n i d opc args c) s = Inr s" (is "?l \<longleftrightarrow> ?r")
proof
  assume ?l
  then show ?r
  proof cases
    case (typed_binary a b)
    then show ?thesis
      using iffD2 [OF identity_binary [OF typed_binary(6)]] by (simp add: check_kind_def check_binary_iff)
  qed
next
  assume r: ?r
  then obtain a b where args: "args = [a, b]" and eq: "ex_type a = ex_type b" and ok: "binary_ok opc (ex_type a) t"
    by (auto simp only: check_kind_def check_binary_iff Expression.sel ExpressionKind.case)
  have "c = []" using r identity_binary [OF ok] by blast
  then show ?l
    using r eq ok unfolding args by (simp add: typed_binary)
qed

lemma check_call_iff:
  "check_call e s = Inr s' \<longleftrightarrow> s' = s \<and> (\<exists>f. vf_functions s (ex_name e) = Some f \<and> fu_result f = ex_type e \<and>
     fu_result_composite f = ex_composite e \<and> list_all2 agreeing (ex_operands e) (fu_parameters f))"
proof -
  have "length (fu_parameters f) = length (ex_operands e) \<and> list_all2 agreeing (ex_operands e) (fu_parameters f) \<longleftrightarrow>
    list_all2 agreeing (ex_operands e) (fu_parameters f)" for f
    by (auto dest: list_all2_lengthD)
  then show ?thesis
    unfolding check_call_def some_iff if_fail_iff ensure_iff de_Morgan_disj not_not agreeing_def [symmetric] by blast
qed

lemma typed_call_iff:
  "typed (typing_of s) (vf_scopes s) (Expression EK_Call t n i d opc args c) \<longleftrightarrow>
     identity (typing_of s) t c \<and> (\<forall>a\<in>set args. typed (typing_of s) (vf_scopes s) a) \<and>
     check_kind (Expression EK_Call t n i d opc args c) s = Inr s"
  by (simp add: typed_kind check_kind_def check_call_iff) blast

lemma identity_composite: "identity C ST_Composite c \<longleftrightarrow> ty_composites C c \<noteq> None"
  by (simp add: identity_def valueType_def)

lemma typed_construct_iff:
  "typed (typing_of s) (vf_scopes s) (Expression EK_Construct t n i d opc args c) \<longleftrightarrow>
     identity (typing_of s) t c \<and> (\<forall>a\<in>set args. typed (typing_of s) (vf_scopes s) a) \<and>
     check_kind (Expression EK_Construct t n i d opc args c) s = Inr s"
  by (auto simp: typed_kind check_kind_def check_construct_def identity_composite dest: list_all2_lengthD)

lemma typed_project_iff:
  "typed (typing_of s) (vf_scopes s) (Expression EK_Project t n i d opc args c) \<longleftrightarrow>
     identity (typing_of s) t c \<and> (\<forall>a\<in>set args. typed (typing_of s) (vf_scopes s) a) \<and>
     check_kind (Expression EK_Project t n i d opc args c) s = Inr s"
  by (auto simp: typed_kind check_kind_def check_project_def)

lemma typed_slice_iff:
  "typed (typing_of s) (vf_scopes s) (Expression EK_Slice t n i d opc args c) \<longleftrightarrow>
     identity (typing_of s) t c \<and> (\<forall>a\<in>set args. typed (typing_of s) (vf_scopes s) a) \<and>
     check_kind (Expression EK_Slice t n i d opc args c) s = Inr s"
  by (auto simp: typed_kind check_kind_def check_slice_def identity_composite)

lemma typed_slice_index_iff:
  "typed (typing_of s) (vf_scopes s) (Expression EK_SliceIndex t n i d opc args c) \<longleftrightarrow>
     identity (typing_of s) t c \<and> (\<forall>a\<in>set args. typed (typing_of s) (vf_scopes s) a) \<and>
     check_kind (Expression EK_SliceIndex t n i d opc args c) s = Inr s"
  by (auto simp: typed_kind check_kind_def check_slice_index_def ir_lookup_resolve length_one)

lemma typed_tensor_index_iff:
  "typed (typing_of s) (vf_scopes s) (Expression EK_TensorIndex t n i d opc args c) \<longleftrightarrow>
     identity (typing_of s) t c \<and> (\<forall>a\<in>set args. typed (typing_of s) (vf_scopes s) a) \<and>
     check_kind (Expression EK_TensorIndex t n i d opc args c) s = Inr s"
  by (auto simp: typed_kind check_kind_def check_tensor_index_def length_one identity_def valueType_def ir_scalar_def)

lemma identity_literal [simp]:
  "identity C ST_Int32 c \<longleftrightarrow> c = []" "identity C ST_Bool c \<longleftrightarrow> c = []"
  "identity C ST_Float64 c \<longleftrightarrow> c = []" "identity C ST_String c \<longleftrightarrow> c = []"
  by (simp_all add: identity_scalar ir_scalar_def)

lemma typed_integer_iff:
  "typed (typing_of s) (vf_scopes s) (Expression EK_Integer t n i d opc args c) \<longleftrightarrow>
     identity (typing_of s) t c \<and> (\<forall>a\<in>set args. typed (typing_of s) (vf_scopes s) a) \<and>
     check_kind (Expression EK_Integer t n i d opc args c) s = Inr s"
  by (simp add: typed_kind check_kind_def) auto

lemma typed_boolean_iff:
  "typed (typing_of s) (vf_scopes s) (Expression EK_Boolean t n i d opc args c) \<longleftrightarrow>
     identity (typing_of s) t c \<and> (\<forall>a\<in>set args. typed (typing_of s) (vf_scopes s) a) \<and>
     check_kind (Expression EK_Boolean t n i d opc args c) s = Inr s"
  by (simp add: typed_kind check_kind_def) auto

lemma typed_float_iff:
  "typed (typing_of s) (vf_scopes s) (Expression EK_Float t n i d opc args c) \<longleftrightarrow>
     identity (typing_of s) t c \<and> (\<forall>a\<in>set args. typed (typing_of s) (vf_scopes s) a) \<and>
     check_kind (Expression EK_Float t n i d opc args c) s = Inr s"
  by (simp add: typed_kind check_kind_def) auto

lemma typed_string_iff:
  "typed (typing_of s) (vf_scopes s) (Expression EK_String t n i d opc args c) \<longleftrightarrow>
     identity (typing_of s) t c \<and> (\<forall>a\<in>set args. typed (typing_of s) (vf_scopes s) a) \<and>
     check_kind (Expression EK_String t n i d opc args c) s = Inr s"
  by (simp add: typed_kind check_kind_def) auto

lemma typed_iff:
  "typed (typing_of s) (vf_scopes s) (Expression k t n i d opc args c) \<longleftrightarrow>
     identity (typing_of s) t c \<and> (\<forall>a\<in>set args. typed (typing_of s) (vf_scopes s) a) \<and>
     check_kind (Expression k t n i d opc args c) s = Inr s"
  by (cases k) (simp_all only: typed_integer_iff typed_boolean_iff typed_float_iff typed_string_iff typed_variable_iff typed_index_iff typed_unary_iff typed_binary_iff typed_call_iff
      typed_construct_iff typed_project_iff typed_slice_iff typed_slice_index_iff typed_tensor_index_iff simp_thms)

text \<open>Running a checker: it succeeds under a condition and then only counts nodes.\<close>

definition in_limits :: "verifier \<Rightarrow> bool" where
  "in_limits s = (vf_nodes s \<le> kMaxNodes \<and> vf_depth s \<le> kMaxDepth)"

definition counted :: "nat \<Rightarrow> verifier \<Rightarrow> verifier" where
  "counted n s = s\<lparr>vf_nodes := vf_nodes s + n\<rparr>"

definition fits :: "nat \<Rightarrow> nat \<Rightarrow> verifier \<Rightarrow> bool" where
  "fits n h s = (vf_nodes s + n \<le> kMaxNodes \<and> vf_depth s + h \<le> kMaxDepth)"

lemma counted_simps [simp]:
  "typing_of (counted n s) = typing_of s" "vf_scopes (counted n s) = vf_scopes s" "vf_depth (counted n s) = vf_depth s"
  "vf_nodes (counted n s) = vf_nodes s + n" "counted n (counted m s) = counted (m + n) s" "counted 0 s = s"
  by (simp_all add: counted_def add.assoc)

lemma exprs_simps [simp]:
  "exprs_nodes [] = 0" "exprs_nodes (e # es) = expr_nodes e + exprs_nodes es"
  "exprs_height [] = 0" "exprs_height (e # es) = max (expr_height e) (exprs_height es)"
  by (simp_all add: exprs_nodes_def exprs_height_def)

lemma expression_lists [case_names Expression Nil Cons]:
  assumes 1: "\<And>k t n i d opc args c. Q args \<Longrightarrow> P (Expression k t n i d opc args c)"
    and 2: "Q []" and 3: "\<And>e es. P e \<Longrightarrow> Q es \<Longrightarrow> Q (e # es)"
  shows "P e" "Q es"
proof -
  have l: "list_all P xs \<Longrightarrow> Q xs" for xs
    by (induction xs) (simp_all add: 2 3)
  have p: "P e" for e
    by (induction e) (rule 1, rule l, simp add: list_all_iff)
  show "P e" by (rule p)
  show "Q es" by (rule l) (simp add: list_all_iff p)
qed

lemma enter_node_iff:
  "enter_node s = Inr s' \<longleftrightarrow> fits 1 1 s \<and> s' = (counted 1 s)\<lparr>vf_depth := vf_depth s + 1\<rparr>"
  by (auto simp: enter_node_def fits_def counted_def)

lemma leave_counted: "leave_node (counted n (s\<lparr>vf_depth := vf_depth s + 1\<rparr>)) = counted n s"
  by (simp add: leave_node_def counted_def)

lemma vexpr_step:
  "vexpr (Expression k t n i d opc args c) lv s = Inr s' \<longleftrightarrow>
     fits 1 1 s \<and> identity (typing_of s) t c \<and> (lv \<longrightarrow> k = EK_Variable \<or> k = EK_Index) \<and>
     (\<exists>s2. vexprs args ((counted 1 s)\<lparr>vf_depth := vf_depth s + 1\<rparr>) = Inr s2 \<and>
        check_kind (Expression k t n i d opc args c) s2 = Inr s2 \<and> s' = leave_node s2)"
proof -
  let ?e = "Expression k t n i d opc args c" and ?s1 = "(counted 1 s)\<lparr>vf_depth := vf_depth s + 1\<rparr>"
  have same: "(\<exists>s3. check_kind ?e s2 = Inr s3 \<and> Inr (leave_node s3) = (Inr s' :: verifier fallible)) \<longleftrightarrow>
    check_kind ?e s2 = Inr s2 \<and> s' = leave_node s2" for s2
    using check_kind_same by blast
  have id: "\<not> (t \<noteq> ST_Void \<and> \<not> valueType (vf_composites ?s1) t c) \<longleftrightarrow> identity (typing_of s) t c"
    by (auto simp: identity_def counted_def)
  show ?thesis
    unfolding vexpr.simps Let_def and_then_iff enter_node_iff if_fail_iff same using id by blast
qed

lemma vexpr_iff:
  "vexpr e lv s = Inr s' \<longleftrightarrow> typed (typing_of s) (vf_scopes s) e \<and> (lv \<longrightarrow> is_lvalue e) \<and>
     fits (expr_nodes e) (expr_height e) s \<and> s' = counted (expr_nodes e) s"
  "in_limits s \<Longrightarrow> vexprs es s = Inr s' \<longleftrightarrow> (\<forall>e \<in> set es. typed (typing_of s) (vf_scopes s) e) \<and>
     fits (exprs_nodes es) (exprs_height es) s \<and> s' = counted (exprs_nodes es) s"
proof (induction e and es arbitrary: lv s s' and s s' rule: expression_lists)
  case (Expression k t n i d opc args c)
  let ?s1 = "(counted 1 s)\<lparr>vf_depth := vf_depth s + 1\<rparr>"
  show ?case
  proof (cases "fits 1 1 s")
    case True
    then have "in_limits ?s1"
      by (auto simp: in_limits_def fits_def)
    note ih = Expression [OF this]
    have "check_kind e (counted m ?s1) = Inr (counted m ?s1) \<and> identity (typing_of s) t c \<and> (\<forall>a\<in>set args. typed (typing_of s) (vf_scopes s) a)
      \<longleftrightarrow> typed (typing_of s) (vf_scopes s) e" if "e = Expression k t n i d opc args c" for m e
      using typed_iff [of "counted m ?s1"] that by auto
    moreover have "leave_node (counted m ?s1) = counted (Suc m) s" for m
      by (simp add: leave_node_def counted_def)
    moreover have "fits (exprs_nodes args) (exprs_height args) ?s1 \<longleftrightarrow> fits (Suc (exprs_nodes args)) (Suc (exprs_height args)) s"
      by (auto simp: fits_def)
    ultimately show ?thesis
      using True unfolding vexpr_step ih by (auto simp: is_lvalue_def exprs_nodes_def exprs_height_def)
  next
    case False
    then show ?thesis
      unfolding vexpr_step by (auto simp: fits_def)
  qed
next
  case Nil
  then show ?case by (auto simp: fits_def in_limits_def)
next
  case (Cons e es)
  have ih: "vexprs es (counted (expr_nodes e) s) = Inr s' \<longleftrightarrow> (\<forall>e \<in> set es. typed (typing_of s) (vf_scopes s) e) \<and>
      fits (exprs_nodes es) (exprs_height es) (counted (expr_nodes e) s) \<and> s' = counted (expr_nodes e + exprs_nodes es) s"
    if "fits (expr_nodes e) (expr_height e) s"
  proof -
    have "in_limits (counted (expr_nodes e) s)"
      using that by (simp add: fits_def in_limits_def)
    from Cons.IH(2) [OF this] show ?thesis by simp
  qed
  have "fits (expr_nodes e) (expr_height e) s \<and> fits (exprs_nodes es) (exprs_height es) (counted (expr_nodes e) s) \<longleftrightarrow>
    fits (exprs_nodes (e # es)) (exprs_height (e # es)) s"
    by (auto simp: fits_def)
  then show ?case
    unfolding vexprs.simps and_then_iff Cons.IH(1) using ih by (auto simp del: exprs_simps(2,4) simp: exprs_simps(2) [symmetric])
qed

subsection \<open>Statements\<close>

text \<open>
  A statement is checked for a function result, for the labels of the block it stands in and inside
  or outside a loop; it takes the scopes before it to the scopes after it.
\<close>

record position =
  po_result :: ScalarType
  po_result_composite :: string
  po_labels :: "string set"
  po_loop :: bool

definition add_variables :: "Variable list \<Rightarrow> scopes \<Rightarrow> scopes" where
  "add_variables vs G = (case G of [] \<Rightarrow> [] | sc # scs \<Rightarrow> fold (\<lambda>v m. m(va_name v \<mapsto> v)) vs sc # scs)"

definition new_variables :: "typing \<Rightarrow> Variable list \<Rightarrow> scopes \<Rightarrow> bool" where
  "new_variables C vs G = (list_all (ir_variable (ty_composites C)) vs \<and> distinct (map va_name vs) \<and>
     list_all (\<lambda>v. hd G (va_name v) = None) vs)"

definition labels_of :: "Statement list \<Rightarrow> string list" where
  "labels_of body = map st_name (filter (\<lambda>c. st_kind c = SK_Label) body)"

definition operands_ok :: "typing \<Rightarrow> scopes \<Rightarrow> Expression list \<Rightarrow> bool" where
  "operands_ok C G es = (\<forall>e \<in> set es. typed C G e)"

text \<open>The list of declarations that an indexed statement points into.\<close>

fun table_size :: "ProgramIR \<Rightarrow> StatementKind \<Rightarrow> nat" where
  "table_size p SK_Model = length (ir_models p)"
| "table_size p SK_Tensor = length (ir_tensors p)"
| "table_size p SK_Infer = length (ir_inferences p)"
| "table_size p SK_Contract = length (ir_contracts p)"
| "table_size p SK_Measurement = length (ir_measurements p)"
| "table_size p k = 0"

inductive simple_typed :: "typing \<Rightarrow> position \<Rightarrow> scopes \<Rightarrow> Statement \<Rightarrow> scopes \<Rightarrow> bool" for C K G where
  simple_declare: "new_variables C vs G \<Longrightarrow> simple_typed C K G (Statement SK_Declare n strs [] vs body alt d l) (add_variables vs G)"
| simple_assign: "is_lvalue a \<Longrightarrow> ir_same a b \<Longrightarrow> simple_typed C K G (Statement SK_Assign n strs [a, b] vs body alt d l) G"
| simple_update: "is_lvalue a \<Longrightarrow> ex_type a = ST_Composite \<Longrightarrow> ty_composites C (ex_composite a) = Some cp \<Longrightarrow>
    cp_kind cp = CK_Record \<Longrightarrow> d < length (cp_fields cp) \<Longrightarrow> cp_fields cp ! d = ex_type b \<Longrightarrow>
    simple_typed C K G (Statement SK_Update n strs [a, b] vs body alt d l) G"
| simple_expression: "simple_typed C K G (Statement SK_Expression n strs [e] vs body alt d l) G"
| simple_read: "es \<noteq> [] \<Longrightarrow> list_all is_lvalue es \<Longrightarrow> list_all (\<lambda>e. ir_numeric (ex_type e)) es \<Longrightarrow>
    simple_typed C K G (Statement SK_Read n strs es vs body alt d l) G"
| simple_print: "es \<noteq> [] \<Longrightarrow> list_all (\<lambda>e. ir_scalar (ex_type e)) es \<Longrightarrow>
    simple_typed C K G (Statement SK_Print n strs es vs body alt d l) G"
| simple_break: "po_loop K \<Longrightarrow> simple_typed C K G (Statement SK_Break n strs [] vs body alt d l) G"
| simple_continue: "po_loop K \<Longrightarrow> simple_typed C K G (Statement SK_Continue n strs [] vs body alt d l) G"
| simple_return_void: "po_result K = ST_Void \<Longrightarrow> simple_typed C K G (Statement SK_Return n strs [] vs body alt d l) G"
| simple_return: "po_result K \<noteq> ST_Void \<Longrightarrow> ex_type e = po_result K \<Longrightarrow> ex_composite e = po_result_composite K \<Longrightarrow>
    simple_typed C K G (Statement SK_Return n strs [e] vs body alt d l) G"
| simple_goto: "n \<in> po_labels K \<Longrightarrow> simple_typed C K G (Statement SK_Goto n strs [] vs body alt d l) G"
| simple_goto_if: "n \<in> po_labels K \<Longrightarrow> ir_condition (ex_type e) \<Longrightarrow>
    simple_typed C K G (Statement SK_Goto n strs [e] vs body alt d l) G"
| simple_label: "n \<in> po_labels K \<Longrightarrow> simple_typed C K G (Statement SK_Label n strs [] vs body alt d l) G"
| simple_indexed: "d < table_size (ty_program C) k \<Longrightarrow> simple_typed C K G (Statement k n strs [] vs body alt d l) G"
| simple_legacy: "length strs = 3 \<Longrightarrow> simple_typed C K G (Statement SK_LegacyInfer n strs [] vs body alt d l) G"
| simple_report: "ex_type a = ST_Int32 \<Longrightarrow> ex_type b = ST_Int32 \<Longrightarrow> ex_type c = ST_Int32 \<Longrightarrow>
    simple_typed C K G (Statement SK_GreenReport n strs [a, b, c] vs body alt d l) G"
| simple_evidence: "simple_typed C K G (Statement SK_Evidence n strs [] vs body alt d l) G"

inductive_simps simple_kind: "simple_typed C K G (Statement k n strs es vs body alt d l) G'"

definition in_loop :: "position \<Rightarrow> position" where "in_loop K = K\<lparr>po_loop := True\<rparr>"

inductive stmt_typed :: "typing \<Rightarrow> position \<Rightarrow> scopes \<Rightarrow> Statement \<Rightarrow> scopes \<Rightarrow> bool"
  and seq_typed :: "typing \<Rightarrow> position \<Rightarrow> scopes \<Rightarrow> Statement list \<Rightarrow> scopes \<Rightarrow> bool" for C where
  typed_simple: "operands_ok C G es \<Longrightarrow> simple_typed C K G (Statement k n strs es vs body alt d l) G' \<Longrightarrow>
    stmt_typed C K G (Statement k n strs es vs body alt d l) G'"
| typed_block: "list_all is_identifier (labels_of body) \<Longrightarrow> distinct (labels_of body) \<Longrightarrow>
    seq_typed C (K\<lparr>po_labels := set (labels_of body)\<rparr>) (if l then Map.empty # G else G) body G' \<Longrightarrow>
    stmt_typed C K G (Statement SK_Block n strs [] vs body alt d l) (if l then tl G' else G')"
| typed_if: "typed C G e \<Longrightarrow> ir_condition (ex_type e) \<Longrightarrow> seq_typed C K G body G1 \<Longrightarrow> seq_typed C K G1 alt G2 \<Longrightarrow>
    stmt_typed C K G (Statement SK_If n strs [e] vs body alt d l) G2"
| typed_while: "typed C G e \<Longrightarrow> ir_condition (ex_type e) \<Longrightarrow> seq_typed C (in_loop K) G body G1 \<Longrightarrow> seq_typed C K G1 alt G2 \<Longrightarrow>
    stmt_typed C K G (Statement SK_While n strs [e] vs body alt d l) G2"
| typed_for: "operands_ok C G es \<Longrightarrow> length es = 4 \<Longrightarrow> is_lvalue (hd es) \<Longrightarrow> list_all (\<lambda>e. ex_type e = ST_Int32) es \<Longrightarrow>
    seq_typed C (in_loop K) G body G1 \<Longrightarrow> seq_typed C K G1 alt G2 \<Longrightarrow>
    stmt_typed C K G (Statement SK_For n strs es vs body alt d l) G2"
| seq_nil: "seq_typed C K G [] G"
| seq_cons: "stmt_typed C K G c G1 \<Longrightarrow> seq_typed C K G1 cs G2 \<Longrightarrow> seq_typed C K G (c # cs) G2"

inductive_simps seq_simps [simp]: "seq_typed C K G [] G'" "seq_typed C K G (c # cs) G'"
inductive_simps stmt_kind: "stmt_typed C K G (Statement k n strs es vs body alt d l) G'"

text \<open>
  The work of a statement: itself, its operands, the targets that are checked once more as places
  to write to, and its children.
\<close>

definition rechecked :: "StatementKind \<Rightarrow> Expression list \<Rightarrow> Expression list" where
  "rechecked k es = (if k = SK_Assign \<or> k = SK_Update \<or> k = SK_For then take 1 es else if k = SK_Read then es else [])"

definition has_body :: "StatementKind \<Rightarrow> bool" where
  "has_body k = (k = SK_Block \<or> k = SK_If \<or> k = SK_While \<or> k = SK_For)"

fun stmt_work :: "Statement \<Rightarrow> nat" where
  "stmt_work (Statement k n strs es vs body alt d l) = 1 + exprs_nodes es + exprs_nodes (rechecked k es) +
     (if has_body k then sum_list (map stmt_work body) else 0) +
     (if has_body k \<and> k \<noteq> SK_Block then sum_list (map stmt_work alt) else 0)"

fun stmt_height :: "Statement \<Rightarrow> nat" where
  "stmt_height (Statement k n strs es vs body alt d l) = 1 + max (exprs_height es)
     (max (if has_body k then max_list (map stmt_height body) else 0)
        (if has_body k \<and> k \<noteq> SK_Block then max_list (map stmt_height alt) else 0))"

end
