(* ===== verification/IRVerifier.thy ===== *)
theory IRVerifier
  imports IRTyping
begin

section \<open>The verifier accepts the well-typed programs\<close>

text \<open>
  The statements and programs of \<open>mlir/lib/SemanticVerifier.cpp\<close> against the rules of \<open>IRTyping\<close>:
  the verifier accepts a program exactly when it is well typed and within the limits, and a lookup
  of a composite type that it makes never throws.
\<close>

subsection \<open>Statements without a body\<close>

definition position_of :: "verifier \<Rightarrow> position" where
  "position_of s = \<lparr>po_result = vf_result s, po_result_composite = vf_result_composite s,
     po_labels = (case vf_labels s of [] \<Rightarrow> {} | ls # _ \<Rightarrow> ls), po_loop = (vf_loops s > 0)\<rparr>"

definition after :: "nat \<Rightarrow> scopes \<Rightarrow> verifier \<Rightarrow> verifier" where
  "after n G s = s\<lparr>vf_nodes := vf_nodes s + n, vf_scopes := G\<rparr>"

lemma after_simps [simp]:
  "typing_of (after n G s) = typing_of s" "vf_scopes (after n G s) = G" "vf_depth (after n G s) = vf_depth s"
  "vf_nodes (after n G s) = vf_nodes s + n" "position_of (after n G s) = position_of s" "vf_program (after n G s) = vf_program s"
  "vf_composites (after n G s) = vf_composites s" "vf_labels (after n G s) = vf_labels s" "vf_loops (after n G s) = vf_loops s"
  "after n G (after m F s) = after (m + n) G s" "counted n (after m F s) = after (m + n) F s" "after n G (counted m s) = after (m + n) G s"
  by (simp_all add: after_def counted_def position_of_def typing_of_def add.assoc)

lemma after_counted: "after n (vf_scopes s) s = counted n s"
  by (simp add: after_def counted_def)

lemma position_counted [simp]: "position_of (counted n s) = position_of s" "vf_program (counted n s) = vf_program s"
  "vf_composites (counted n s) = vf_composites s" "vf_labels (counted n s) = vf_labels s" "vf_loops (counted n s) = vf_loops s"
  by (simp_all add: counted_def position_of_def)

lemma position_of_simps [simp]:
  "po_result (position_of s) = vf_result s" "po_result_composite (position_of s) = vf_result_composite s"
  "po_loop (position_of s) = (vf_loops s > 0)"
  by (simp_all add: position_of_def)

lemma label_here: "vf_labels s \<noteq> [] \<and> n \<in> hd (vf_labels s) \<longleftrightarrow> n \<in> po_labels (position_of s)"
  by (auto simp: position_of_def split: list.split)

lemma count_is_iff [simp]: "count_is n st s = Inr s' \<longleftrightarrow> length (st_expressions st) = n \<and> s' = s"
  by (simp add: count_is_def)

lemma declare_all_iff:
  "vf_scopes s \<noteq> [] \<Longrightarrow> declare_all vs s = Inr s' \<longleftrightarrow>
     new_variables (typing_of s) vs (vf_scopes s) \<and> s' = s\<lparr>vf_scopes := add_variables vs (vf_scopes s)\<rparr>"
proof (induction vs arbitrary: s)
  case Nil
  then show ?case by (auto simp: new_variables_def add_variables_def split: list.splits)
next
  case (Cons v vs)
  then show ?case
    by (cases "vf_scopes s") (auto simp: new_variables_def add_variables_def list_all_iff rev_image_eqI)
qed

lemma declare_parameters_iff:
  "vf_scopes s \<noteq> [] \<Longrightarrow> declare_parameters vs s = Inr s' \<longleftrightarrow>
     list_all (\<lambda>v. va_extent v = 0) vs \<and> declare_all vs s = Inr s'"
  by (induction vs arbitrary: s) auto

lemma collect_labels_iff:
  "collect_labels cs ls = Inr ls' \<longleftrightarrow> list_all is_identifier (labels_of cs) \<and> distinct (labels_of cs) \<and>
     set (labels_of cs) \<inter> ls = {} \<and> ls' = ls \<union> set (labels_of cs)"
  by (induction cs arbitrary: ls) (auto simp: labels_of_def)

lemma fits_more: "fits n h s \<Longrightarrow> m \<le> n \<Longrightarrow> k \<le> h \<Longrightarrow> fits m k s"
  by (simp add: fits_def)

lemma read_targets_iff:
  "in_limits s \<Longrightarrow> read_targets es s = Inr s' \<longleftrightarrow> operands_ok (typing_of s) (vf_scopes s) es \<and> list_all is_lvalue es \<and>
     list_all (\<lambda>e. ir_numeric (ex_type e)) es \<and> fits (exprs_nodes es) (exprs_height es) s \<and> s' = counted (exprs_nodes es) s"
proof (induction es arbitrary: s)
  case Nil
  then show ?case by (auto simp: operands_ok_def in_limits_def fits_def)
next
  case (Cons e es)
  have "in_limits (counted (expr_nodes e) s)" if "fits (expr_nodes e) (expr_height e) s"
    using that by (simp add: in_limits_def fits_def)
  note ih = Cons.IH [OF this]
  have "fits (expr_nodes e) (expr_height e) s \<and> fits (exprs_nodes es) (exprs_height es) (counted (expr_nodes e) s) \<longleftrightarrow>
    fits (exprs_nodes (e # es)) (exprs_height (e # es)) s"
    by (auto simp: fits_def)
  then show ?case
    unfolding read_targets.simps and_then_iff vexpr_iff(1) if_fail_iff not_not using ih
    by (auto simp: operands_ok_def simp del: exprs_simps(2,4) simp: exprs_simps(2) [symmetric])
qed

lemma length_two: "length xs = 2 \<longleftrightarrow> (\<exists>a b. xs = [a, b])"
  by (auto simp: numeral_2_eq_2 length_Suc_conv)

lemma length_three: "length xs = 3 \<longleftrightarrow> (\<exists>a b c. xs = [a, b, c])"
  by (auto simp: numeral_3_eq_3 length_Suc_conv)

lemma length_four: "length xs = 4 \<longleftrightarrow> (\<exists>a b c d. xs = [a, b, c, d])"
  by (auto simp: numeral_eq_Suc length_Suc_conv)

text \<open>What a statement without a body needs of the limits after its operands.\<close>

definition simple_spec :: "verifier \<Rightarrow> Statement \<Rightarrow> verifier \<Rightarrow> bool" where
  "simple_spec s st s' = (let n = exprs_nodes (rechecked (st_kind st) (st_expressions st)) in
     \<exists>G'. simple_typed (typing_of s) (position_of s) (vf_scopes s) st G' \<and>
       fits n (exprs_height (rechecked (st_kind st) (st_expressions st))) s \<and> s' = after n G' s)"

lemma check_declare_iff:
  assumes "vf_scopes s \<noteq> []" "in_limits s"
  shows "check_simple (Statement SK_Declare n strs es vs body alt d l) s = Inr s' \<longleftrightarrow>
    simple_spec s (Statement SK_Declare n strs es vs body alt d l) s'"
  using assms by (auto simp: check_simple_def declare_all_iff simple_spec_def Let_def simple_kind rechecked_def fits_def in_limits_def after_def)

lemma check_assign_iff:
  assumes "operands_ok (typing_of s) (vf_scopes s) es"
  shows "check_simple (Statement SK_Assign n strs es vs body alt d l) s = Inr s' \<longleftrightarrow>
    simple_spec s (Statement SK_Assign n strs es vs body alt d l) s'"
  using assms by (auto simp: check_simple_def check_assign_def vexpr_iff simple_spec_def Let_def simple_kind rechecked_def length_two
      operands_ok_def after_counted)

lemma check_update_iff:
  assumes "operands_ok (typing_of s) (vf_scopes s) es"
  shows "check_simple (Statement SK_Update n strs es vs body alt d l) s = Inr s' \<longleftrightarrow>
    simple_spec s (Statement SK_Update n strs es vs body alt d l) s'"
  using assms by (auto simp: check_simple_def check_update_def vexpr_iff simple_spec_def Let_def simple_kind rechecked_def length_two
      operands_ok_def after_counted)

lemma check_read_iff:
  assumes "operands_ok (typing_of s) (vf_scopes s) es" "in_limits s"
  shows "check_simple (Statement SK_Read n strs es vs body alt d l) s = Inr s' \<longleftrightarrow>
    simple_spec s (Statement SK_Read n strs es vs body alt d l) s'"
  using assms by (auto simp: check_simple_def read_targets_iff simple_spec_def Let_def simple_kind rechecked_def after_counted)

lemma check_return_iff:
  assumes "in_limits s"
  shows "check_simple (Statement SK_Return n strs es vs body alt d l) s = Inr s' \<longleftrightarrow>
    simple_spec s (Statement SK_Return n strs es vs body alt d l) s'"
  using assms by (auto simp: check_simple_def check_return_def simple_spec_def Let_def simple_kind rechecked_def length_one after_counted
      fits_def in_limits_def)

lemma check_goto_iff:
  assumes "in_limits s"
  shows "check_simple (Statement SK_Goto n strs es vs body alt d l) s = Inr s' \<longleftrightarrow>
    simple_spec s (Statement SK_Goto n strs es vs body alt d l) s'"
  using assms by (cases es) (auto simp: check_simple_def check_goto_def label_here simple_spec_def Let_def simple_kind rechecked_def
      after_counted fits_def in_limits_def)

lemma check_other_iff:
  assumes "in_limits s"
    and "k \<notin> {SK_Declare, SK_Assign, SK_Update, SK_Read, SK_Return, SK_Goto}" "\<not> has_body k"
  shows "check_simple (Statement k n strs es vs body alt d l) s = Inr s' \<longleftrightarrow> simple_spec s (Statement k n strs es vs body alt d l) s'"
  using assms by (cases k) (auto simp: check_simple_def check_indexed_def label_here simple_spec_def Let_def simple_kind rechecked_def
      after_counted fits_def in_limits_def length_one length_three has_body_def)

subsection \<open>All statements\<close>

definition stmts_work :: "Statement list \<Rightarrow> nat" where "stmts_work sts = sum_list (map stmt_work sts)"
definition stmts_height :: "Statement list \<Rightarrow> nat" where "stmts_height sts = max_list (map stmt_height sts)"

lemma stmts_simps [simp]:
  "stmts_work [] = 0" "stmts_work (c # cs) = stmt_work c + stmts_work cs"
  "stmts_height [] = 0" "stmts_height (c # cs) = max (stmt_height c) (stmts_height cs)"
  by (simp_all add: stmts_work_def stmts_height_def)

definition stmt_spec :: "verifier \<Rightarrow> Statement \<Rightarrow> verifier \<Rightarrow> bool" where
  "stmt_spec s st s' = (\<exists>G'. stmt_typed (typing_of s) (position_of s) (vf_scopes s) st G' \<and>
     fits (stmt_work st) (stmt_height st) s \<and> s' = after (stmt_work st) G' s)"

definition seq_spec :: "verifier \<Rightarrow> Statement list \<Rightarrow> verifier \<Rightarrow> bool" where
  "seq_spec s sts s' = (\<exists>G'. seq_typed (typing_of s) (position_of s) (vf_scopes s) sts G' \<and>
     fits (stmts_work sts) (stmts_height sts) s \<and> s' = after (stmts_work sts) G' s)"

text \<open>The state one level deeper, after some nodes.\<close>

definition inner :: "nat \<Rightarrow> verifier \<Rightarrow> verifier" where
  "inner n s = s\<lparr>vf_nodes := vf_nodes s + n, vf_depth := vf_depth s + 1\<rparr>"

lemma inner_simps [simp]:
  "typing_of (inner n s) = typing_of s" "position_of (inner n s) = position_of s" "vf_scopes (inner n s) = vf_scopes s"
  "counted m (inner n s) = inner (n + m) s" "vf_labels (inner n s) = vf_labels s" "vf_loops (inner n s) = vf_loops s"
  by (simp_all add: inner_def position_of_def counted_def add.assoc)

lemma leave_inner [simp]: "leave_node (after n G (inner m s)) = after (m + n) G s"
  by (simp add: leave_node_def after_def inner_def add.assoc)

lemma fits_inner: "fits 1 1 s \<and> fits a b (inner 1 s) \<and> fits c d (inner (1 + a) s) \<longleftrightarrow> fits (1 + a + c) (1 + max b d) s"
  by (auto simp: fits_def inner_def)

lemma fits_inner_limits: "fits 1 1 s \<Longrightarrow> in_limits (inner 1 s)" "fits a b (inner 1 s) \<Longrightarrow> fits 0 b (inner (1 + a) s)"
  by (auto simp: fits_def inner_def in_limits_def)

definition body_check :: "Statement \<Rightarrow> verifier \<Rightarrow> verifier fallible" where
  "body_check st s = (case st of Statement k n strs es vs body alt d lexical \<Rightarrow>
     if k = SK_Block then
       and_then (count_is 0 st s) (\<lambda>s3. and_then (collect_labels body {}) (\<lambda>ls.
         and_then (vstmts body ((push_scope lexical s3)\<lparr>vf_labels := ls # vf_labels s3\<rparr>)) (\<lambda>s4.
           Inr (pop_scope lexical (s4\<lparr>vf_labels := tl (vf_labels s4)\<rparr>)))))
     else if k = SK_If \<or> k = SK_While \<or> k = SK_For then
       and_then (check_control st s) (\<lambda>s3.
         and_then (vstmts body (if is_loop k then s3\<lparr>vf_loops := vf_loops s3 + 1\<rparr> else s3)) (\<lambda>s4.
           vstmts alt (if is_loop k then s4\<lparr>vf_loops := vf_loops s4 - 1\<rparr> else s4)))
     else check_simple st s)"

lemma vstmt_body_check:
  "vstmt st s = and_then (enter_node s) (\<lambda>s1. and_then (vexprs (st_expressions st) s1) (\<lambda>s2.
     and_then (body_check st s2) (\<lambda>s5. Inr (leave_node s5))))"
  by (cases st) (simp only: vstmt.simps Let_def body_check_def Statement.case Statement.sel)

lemma vstmt_step:
  "vstmt st s = Inr s' \<longleftrightarrow> fits 1 1 s \<and> operands_ok (typing_of s) (vf_scopes s) (st_expressions st) \<and>
     fits (exprs_nodes (st_expressions st)) (exprs_height (st_expressions st)) (inner 1 s) \<and>
     (\<exists>s5. body_check st (inner (1 + exprs_nodes (st_expressions st)) s) = Inr s5 \<and> s' = leave_node s5)"
proof -
  have enter: "enter_node s = Inr s1 \<longleftrightarrow> fits 1 1 s \<and> s1 = inner 1 s" for s1
    by (auto simp: enter_node_iff inner_def counted_def)
  have exprs: "vexprs (st_expressions st) (inner 1 s) = Inr s2 \<longleftrightarrow> operands_ok (typing_of s) (vf_scopes s) (st_expressions st) \<and>
      fits (exprs_nodes (st_expressions st)) (exprs_height (st_expressions st)) (inner 1 s) \<and>
      s2 = inner (1 + exprs_nodes (st_expressions st)) s" if "fits 1 1 s" for s2
    using vexpr_iff(2) [OF fits_inner_limits(1) [OF that]] by (simp add: operands_ok_def)
  show ?thesis
  proof (cases "fits 1 1 s")
    case True
    show ?thesis
      unfolding vstmt_body_check and_then_iff enter sum.inject using True by (simp only: exprs [OF True] simp_thms) blast
  qed (simp add: vstmt_body_check enter)
qed

text \<open>What the check of the body has to give, at the state it starts from.\<close>

definition body_spec :: "verifier \<Rightarrow> Statement \<Rightarrow> verifier \<Rightarrow> bool" where
  "body_spec s st s' = (\<exists>G'. stmt_typed (typing_of s) (position_of s) (vf_scopes s) st G' \<and>
     fits (stmt_work st - 1 - exprs_nodes (st_expressions st)) (stmt_height st - 1) s \<and>
     s' = after (stmt_work st - 1 - exprs_nodes (st_expressions st)) G' s)"

lemma work_split: "stmt_work st = 1 + exprs_nodes (st_expressions st) + (stmt_work st - 1 - exprs_nodes (st_expressions st))"
  by (cases st) simp

lemma height_split: "stmt_height st = 1 + max (exprs_height (st_expressions st)) (stmt_height st - 1)"
  by (cases st) simp

lemma stmt_typed_operands: "stmt_typed C K G st G' \<Longrightarrow> operands_ok C G (st_expressions st)"
  by (cases rule: stmt_typed.cases) (auto simp: operands_ok_def)

lemma vstmt_by_body:
  assumes "\<And>s'. fits 0 (exprs_height (st_expressions st)) (inner (1 + exprs_nodes (st_expressions st)) s) \<Longrightarrow> operands_ok (typing_of s) (vf_scopes s) (st_expressions st) \<Longrightarrow>
    body_check st (inner (1 + exprs_nodes (st_expressions st)) s) = Inr s' \<longleftrightarrow>
    body_spec (inner (1 + exprs_nodes (st_expressions st)) s) st s'"
  shows "vstmt st s = Inr s' \<longleftrightarrow> stmt_spec s st s'"
proof -
  let ?n = "exprs_nodes (st_expressions st)" and ?h = "exprs_height (st_expressions st)"
  have fit: "fits (stmt_work st) (stmt_height st) s \<longleftrightarrow> fits 1 1 s \<and> fits ?n ?h (inner 1 s) \<and>
      fits (stmt_work st - 1 - ?n) (stmt_height st - 1) (inner (1 + ?n) s)"
    using fits_inner [of s ?n ?h] work_split [of st] height_split [of st] by metis
  have leave: "leave_node (after (stmt_work st - 1 - ?n) G (inner (1 + ?n) s)) = after (stmt_work st) G s" for G
    using work_split [of st] by simp
  show ?thesis
  proof (cases "operands_ok (typing_of s) (vf_scopes s) (st_expressions st) \<and> fits ?n ?h (inner 1 s)")
    case True
    then have body: "body_check st (inner (1 + ?n) s) = Inr s' \<longleftrightarrow> body_spec (inner (1 + ?n) s) st s'" for s'
      using assms fits_inner_limits(2) by blast
    show ?thesis
      unfolding vstmt_step stmt_spec_def fit body using True by (auto simp only: body_spec_def inner_simps leave)
  next
    case False
    then show ?thesis
      unfolding vstmt_step stmt_spec_def fit using stmt_typed_operands by blast
  qed
qed

lemma rechecked_height: "exprs_height (rechecked k es) \<le> exprs_height es"
  by (cases es) (auto simp: rechecked_def)

lemma fits_limits: "fits n h s \<Longrightarrow> in_limits s"
  by (simp add: fits_def in_limits_def)

lemma no_simple_body: "has_body k \<Longrightarrow> \<not> simple_typed C K G (Statement k n strs es vs body alt d l) G'"
  by (auto simp: has_body_def simple_kind)

lemma simple_body:
  assumes st: "st = Statement k n strs es vs body alt d l" and k: "\<not> has_body k" and s: "vf_scopes s \<noteq> []"
    and h: "fits 0 (exprs_height es) s" and es: "operands_ok (typing_of s) (vf_scopes s) es"
  shows "body_check st s = Inr s' \<longleftrightarrow> body_spec s st s'"
proof -
  have eq: "body_check st s = check_simple st s"
    using k by (simp add: st body_check_def has_body_def)
  have fit: "fits (exprs_nodes (rechecked k es)) (exprs_height es) s \<longleftrightarrow>
      fits (exprs_nodes (rechecked k es)) (exprs_height (rechecked k es)) s"
    using h rechecked_height [of k es] by (auto simp: fits_def)
  have ty: "stmt_typed (typing_of s) (position_of s) (vf_scopes s) st G' \<longleftrightarrow>
      simple_typed (typing_of s) (position_of s) (vf_scopes s) st G'" for G'
    using k es by (auto simp: st stmt_kind has_body_def)
  have "simple_spec s st s' \<longleftrightarrow> body_spec s st s'"
    using k unfolding simple_spec_def body_spec_def Let_def ty by (simp add: st fit)
  moreover have "check_simple st s = Inr s' \<longleftrightarrow> simple_spec s st s'"
    using k fits_limits [OF h] es s unfolding st
    by (cases k) (simp_all add: has_body_def check_declare_iff check_assign_iff check_update_iff check_read_iff check_return_iff
        check_goto_iff check_other_iff)
  ultimately show ?thesis by (simp add: eq)
qed

lemma block_body:
  assumes st: "st = Statement SK_Block n strs es vs body alt d l"
    and h: "fits 0 (exprs_height es) s" and s: "vf_scopes s \<noteq> []"
    and body: "\<And>s s'. vf_scopes s \<noteq> [] \<Longrightarrow> in_limits s \<Longrightarrow> vstmts body s = Inr s' \<longleftrightarrow> seq_spec s body s'"
  shows "body_check st s = Inr s' \<longleftrightarrow> body_spec s st s'"
proof -
  let ?s1 = "\<lambda>ls. (push_scope l s)\<lparr>vf_labels := ls # vf_labels s\<rparr>"
  have lim: "in_limits (?s1 ls)" "vf_scopes (?s1 ls) \<noteq> []" for ls
    using fits_limits [OF h] s by (auto simp: push_scope_def in_limits_def)
  have state: "vf_scopes (?s1 ls) = (if l then Map.empty # vf_scopes s else vf_scopes s)" "typing_of (?s1 ls) = typing_of s"
    "position_of (?s1 ls) = (position_of s)\<lparr>po_labels := ls\<rparr>" "fits a b (?s1 ls) = fits a b s" for ls a b
    by (auto simp: push_scope_def position_of_def fits_def)
  have pop: "pop_scope l ((after m G (?s1 ls))\<lparr>vf_labels := tl (vf_labels (after m G (?s1 ls)))\<rparr>) =
      after m (if l then tl G else G) s" for m G ls
    by (auto simp: pop_scope_def push_scope_def after_def)
  have work: "stmt_work st - 1 - exprs_nodes (st_expressions st) = stmts_work body"
    "es = [] \<Longrightarrow> stmt_height st - 1 = stmts_height body"
    by (simp_all add: st rechecked_def has_body_def stmts_work_def stmts_height_def)
  have "body_check st s = Inr s' \<longleftrightarrow> es = [] \<and> list_all is_identifier (labels_of body) \<and> distinct (labels_of body) \<and>
      (\<exists>s4. seq_spec (?s1 (set (labels_of body))) body s4 \<and> s' = pop_scope l (s4\<lparr>vf_labels := tl (vf_labels s4)\<rparr>))"
    using body [OF lim(2,1)] by (auto simp: st body_check_def collect_labels_iff)
  moreover have "stmt_typed (typing_of s) (position_of s) (vf_scopes s) st G' \<longleftrightarrow> es = [] \<and> list_all is_identifier (labels_of body) \<and>
      distinct (labels_of body) \<and> (\<exists>G1. seq_typed (typing_of s) ((position_of s)\<lparr>po_labels := set (labels_of body)\<rparr>)
        (if l then Map.empty # vf_scopes s else vf_scopes s) body G1 \<and> G' = (if l then tl G1 else G1))" for G'
    by (auto simp: st stmt_kind no_simple_body has_body_def)
  moreover have "(\<exists>s4. seq_spec (?s1 ls) body s4 \<and> s' = pop_scope l (s4\<lparr>vf_labels := tl (vf_labels s4)\<rparr>)) \<longleftrightarrow>
      (\<exists>G1. seq_typed (typing_of s) ((position_of s)\<lparr>po_labels := ls\<rparr>) (if l then Map.empty # vf_scopes s else vf_scopes s) body G1 \<and>
        fits (stmts_work body) (stmts_height body) s \<and> s' = after (stmts_work body) (if l then tl G1 else G1) s)" for ls
    unfolding seq_spec_def state pop [symmetric, of _ _ ls] by blast
  ultimately show ?thesis
    unfolding body_spec_def work(1) using work(2) by (cases "es = []") (simp, blast, simp)
qed

lemma typed_length:
  "stmt_typed C K G st G' \<Longrightarrow> length G' = length G"
  "seq_typed C K G sts G' \<Longrightarrow> length G' = length G"
proof (induction rule: stmt_typed_seq_typed.inducts)
  case (typed_simple G es K k n strs vs body alt d l G')
  from typed_simple(2) show ?case
    by cases (auto simp: add_variables_def split: list.split)
qed auto

definition control_ok :: "StatementKind \<Rightarrow> Expression list \<Rightarrow> bool" where
  "control_ok k es = (if k = SK_For then length es = 4 \<and> is_lvalue (hd es) \<and> list_all (\<lambda>e. ex_type e = ST_Int32) es
     else length es = 1 \<and> ir_condition (ex_type (hd es)))"

lemma check_control_iff:
  assumes "operands_ok (typing_of s) (vf_scopes s) es" "fits 0 (exprs_height es) s" "k = SK_If \<or> k = SK_While \<or> k = SK_For"
  shows "check_control (Statement k n strs es vs body alt d l) s = Inr s3 \<longleftrightarrow> control_ok k es \<and>
    fits (exprs_nodes (rechecked k es)) (exprs_height es) s \<and> s3 = counted (exprs_nodes (rechecked k es)) s"
proof (cases "k = SK_For")
  case True
  have "fits (expr_nodes e) (expr_height e) s \<longleftrightarrow> fits (expr_nodes e) (exprs_height es) s" if "es = e # es'" for e es'
    using assms(2) that by (auto simp: fits_def)
  then show ?thesis
    using True assms by (auto simp: check_control_def control_ok_def rechecked_def vexpr_iff operands_ok_def length_four)
next
  case False
  then show ?thesis
    using assms by (auto simp: check_control_def control_ok_def rechecked_def length_one)
qed

definition looped :: "StatementKind \<Rightarrow> position \<Rightarrow> position" where
  "looped k K = (if is_loop k then in_loop K else K)"

lemma control_typed:
  assumes "k = SK_If \<or> k = SK_While \<or> k = SK_For"
  shows "stmt_typed C K G (Statement k n strs es vs body alt d l) G2 \<longleftrightarrow> operands_ok C G es \<and> control_ok k es \<and>
    (\<exists>G1. seq_typed C (looped k K) G body G1 \<and> seq_typed C K G1 alt G2)"
  using assms by (auto simp: stmt_kind no_simple_body has_body_def control_ok_def looped_def is_loop_def operands_ok_def length_one)

definition enter_loop :: "StatementKind \<Rightarrow> verifier \<Rightarrow> verifier" where
  "enter_loop k s = (if is_loop k then s\<lparr>vf_loops := vf_loops s + 1\<rparr> else s)"

definition leave_loop :: "StatementKind \<Rightarrow> verifier \<Rightarrow> verifier" where
  "leave_loop k s = (if is_loop k then s\<lparr>vf_loops := vf_loops s - 1\<rparr> else s)"

lemma enter_loop_simps [simp]:
  "typing_of (enter_loop k s) = typing_of s" "position_of (enter_loop k s) = looped k (position_of s)"
  "vf_scopes (enter_loop k s) = vf_scopes s" "fits n h (enter_loop k s) = fits n h s" "in_limits (enter_loop k s) = in_limits s"
  "leave_loop k (after n G (enter_loop k s)) = after n G s"
  by (simp_all add: enter_loop_def leave_loop_def looped_def in_loop_def position_of_def fits_def in_limits_def after_def)

lemma control_body:
  assumes st: "st = Statement k n strs es vs body alt d l" and k: "k = SK_If \<or> k = SK_While \<or> k = SK_For"
    and s: "vf_scopes s \<noteq> []" and h: "fits 0 (exprs_height es) s" and es: "operands_ok (typing_of s) (vf_scopes s) es"
    and body: "\<And>s s'. vf_scopes s \<noteq> [] \<Longrightarrow> in_limits s \<Longrightarrow> vstmts body s = Inr s' \<longleftrightarrow> seq_spec s body s'"
    and alt: "\<And>s s'. vf_scopes s \<noteq> [] \<Longrightarrow> in_limits s \<Longrightarrow> vstmts alt s = Inr s' \<longleftrightarrow> seq_spec s alt s'"
  shows "body_check st s = Inr s' \<longleftrightarrow> body_spec s st s'"
proof -
  let ?m = "exprs_nodes (rechecked k es)" and ?h = "exprs_height es"
  have check: "body_check st s = Inr s' \<longleftrightarrow> control_ok k es \<and> fits ?m ?h s \<and>
      (\<exists>s4. vstmts body (enter_loop k (counted ?m s)) = Inr s4 \<and> vstmts alt (leave_loop k s4) = Inr s')"
    unfolding enter_loop_def leave_loop_def using k by (auto simp: st body_check_def check_control_iff [OF es h k])
  have 1: "vstmts body (enter_loop k (counted ?m s)) = Inr s4 \<longleftrightarrow> seq_spec (enter_loop k (counted ?m s)) body s4"
    if "fits ?m ?h s" for s4
  proof -
    have "in_limits (counted ?m s)" using that by (simp add: in_limits_def fits_def)
    then show ?thesis using s by (intro body) simp_all
  qed
  have 2: "vstmts alt (after (?m + stmts_work body) G1 s) = Inr s' \<longleftrightarrow> seq_spec (after (?m + stmts_work body) G1 s) alt s'"
    if "seq_typed (typing_of s) (looped k (position_of s)) (vf_scopes s) body G1"
      "fits (stmts_work body) (stmts_height body) (counted ?m s)" for G1
    using that s typed_length(2) [OF that(1)] by (intro alt) (auto simp: in_limits_def fits_def)
  have 3: "(\<exists>s4. seq_spec (enter_loop k (counted ?m s)) body s4 \<and> vstmts alt (leave_loop k s4) = Inr s') \<longleftrightarrow>
      (\<exists>G1. seq_typed (typing_of s) (looped k (position_of s)) (vf_scopes s) body G1 \<and>
        fits (stmts_work body) (stmts_height body) (counted ?m s) \<and> seq_spec (after (?m + stmts_work body) G1 s) alt s')"
    unfolding seq_spec_def [of _ body] using 2 by auto
  have work: "stmt_work st - 1 - exprs_nodes (st_expressions st) = ?m + stmts_work body + stmts_work alt"
    "stmt_height st - 1 = max ?h (max (stmts_height body) (stmts_height alt))"
    using k by (auto simp: st rechecked_def has_body_def stmts_work_def stmts_height_def)
  have fit: "fits ?m ?h s \<and> fits (stmts_work body) (stmts_height body) (counted ?m s) \<and>
      fits (stmts_work alt) (stmts_height alt) (after (?m + stmts_work body) G1 s) \<longleftrightarrow>
      fits (?m + stmts_work body + stmts_work alt) (max ?h (max (stmts_height body) (stmts_height alt))) s" for G1
    by (auto simp: fits_def)
  have "body_check st s = Inr s' \<longleftrightarrow> control_ok k es \<and> fits ?m ?h s \<and>
      (\<exists>G1. seq_typed (typing_of s) (looped k (position_of s)) (vf_scopes s) body G1 \<and>
        fits (stmts_work body) (stmts_height body) (counted ?m s) \<and> seq_spec (after (?m + stmts_work body) G1 s) alt s')"
    using check 1 3 by blast
  moreover have "stmt_typed (typing_of s) (position_of s) (vf_scopes s) st G2 \<longleftrightarrow> control_ok k es \<and>
      (\<exists>G1. seq_typed (typing_of s) (looped k (position_of s)) (vf_scopes s) body G1 \<and>
        seq_typed (typing_of s) (position_of s) G1 alt G2)" for G2
    unfolding st control_typed [OF k] using es by blast
  ultimately show ?thesis
    unfolding body_spec_def work seq_spec_def after_simps using fit by blast
qed

lemma statement_lists [case_names Statement Nil Cons]:
  assumes 1: "\<And>k n strs es vs body alt d l. Q body \<Longrightarrow> Q alt \<Longrightarrow> P (Statement k n strs es vs body alt d l)"
    and 2: "Q []" and 3: "\<And>c cs. P c \<Longrightarrow> Q cs \<Longrightarrow> Q (c # cs)"
  shows "P c" "Q cs"
proof -
  have l: "list_all P xs \<Longrightarrow> Q xs" for xs
    by (induction xs) (simp_all add: 2 3)
  have p: "P c" for c
    by (induction c) (rule 1, (rule l, simp add: list_all_iff)+)
  show "P c" by (rule p)
  show "Q cs" by (rule l) (simp add: list_all_iff p)
qed

lemma seq_spec_cons:
  assumes "vf_scopes s \<noteq> []"
    and "\<And>s'. vstmt c s = Inr s' \<longleftrightarrow> stmt_spec s c s'"
    and cs: "\<And>s s'. vf_scopes s \<noteq> [] \<Longrightarrow> in_limits s \<Longrightarrow> vstmts cs s = Inr s' \<longleftrightarrow> seq_spec s cs s'"
  shows "vstmts (c # cs) s = Inr s' \<longleftrightarrow> seq_spec s (c # cs) s'"
proof -
  have rest: "vstmts cs (after (stmt_work c) G1 s) = Inr s' \<longleftrightarrow> seq_spec (after (stmt_work c) G1 s) cs s'"
    if "stmt_typed (typing_of s) (position_of s) (vf_scopes s) c G1" "fits (stmt_work c) (stmt_height c) s" for G1
    using that assms(1) typed_length(1) [OF that(1)] by (intro cs) (auto simp: in_limits_def fits_def)
  have fit: "fits (stmt_work c) (stmt_height c) s \<and> fits (stmts_work cs) (stmts_height cs) (after (stmt_work c) G1 s) \<longleftrightarrow>
      fits (stmts_work (c # cs)) (stmts_height (c # cs)) s" for G1
    by (auto simp: fits_def)
  have "vstmts (c # cs) s = Inr s' \<longleftrightarrow> (\<exists>G1. stmt_typed (typing_of s) (position_of s) (vf_scopes s) c G1 \<and>
      fits (stmt_work c) (stmt_height c) s \<and> seq_spec (after (stmt_work c) G1 s) cs s')"
    unfolding vstmts.simps and_then_iff assms(2) stmt_spec_def using rest by blast
  then show ?thesis
    unfolding seq_spec_def seq_simps after_simps stmts_simps(2) [symmetric] using fit by blast
qed

lemma vstmt_iff:
  "vf_scopes s \<noteq> [] \<Longrightarrow> vstmt st s = Inr s' \<longleftrightarrow> stmt_spec s st s'"
  "vf_scopes s \<noteq> [] \<Longrightarrow> in_limits s \<Longrightarrow> vstmts sts s = Inr s' \<longleftrightarrow> seq_spec s sts s'"
proof (induction st and sts arbitrary: s s' and s s' rule: statement_lists)
  case (Statement k n strs es vs body alt d l)
  show ?case
  proof (rule vstmt_by_body, unfold Statement.sel)
    fix s' assume a: "fits 0 (exprs_height es) (inner (1 + exprs_nodes es) s)" "operands_ok (typing_of s) (vf_scopes s) es"
    consider "\<not> has_body k" | "k = SK_Block" | "k = SK_If \<or> k = SK_While \<or> k = SK_For"
      by (auto simp: has_body_def)
    then show "body_check (Statement k n strs es vs body alt d l) (inner (1 + exprs_nodes es) s) = Inr s' \<longleftrightarrow>
      body_spec (inner (1 + exprs_nodes es) s) (Statement k n strs es vs body alt d l) s'"
    proof cases
      case 1 then show ?thesis using a Statement.prems by (intro simple_body [OF refl]) simp_all
    next
      case 2 then show ?thesis using a Statement by (intro block_body) simp_all
    next
      case 3 then show ?thesis using a Statement by (intro control_body [OF refl]) simp_all
    qed
  qed
next
  case Nil
  then show ?case by (auto simp: seq_spec_def after_def fits_def in_limits_def)
next
  case (Cons c cs)
  then show ?case by (intro seq_spec_cons) simp_all
qed

subsection \<open>Programs\<close>

definition named :: "('a \<Rightarrow> string) \<Rightarrow> 'a list \<Rightarrow> string \<rightharpoonup> 'a" where
  "named name_of xs = fold (\<lambda>x m. m(name_of x \<mapsto> x)) xs Map.empty"

definition program_typing :: "ProgramIR \<Rightarrow> typing" where
  "program_typing p = \<lparr>ty_program = p, ty_composites = named cp_name (ir_composites p),
     ty_functions = named fu_name (ir_functions p), ty_globals = named va_name (ir_globals p)\<rparr>"

definition composites_typed :: "ProgramIR \<Rightarrow> bool" where
  "composites_typed p = (distinct (map cp_name (ir_composites p)) \<and>
     list_all (\<lambda>c. is_identifier (cp_name c) \<and> composite_error c = None) (ir_composites p))"

definition globals_typed :: "ProgramIR \<Rightarrow> bool" where
  "globals_typed p = (distinct (map va_name (ir_globals p)) \<and>
     list_all (\<lambda>v. ir_variable (ty_composites (program_typing p)) v \<and> va_name v \<notin> ir_reserved) (ir_globals p))"

definition result_typed :: "typing \<Rightarrow> Function \<Rightarrow> bool" where
  "result_typed C f = (valueType (ty_composites C) (fu_result f) (fu_result_composite f) \<or>
     fu_result f = ST_Void \<and> fu_result_composite f = [])"

definition signatures_typed :: "ProgramIR \<Rightarrow> bool" where
  "signatures_typed p = (distinct (map fu_name (ir_functions p)) \<and>
     list_all (\<lambda>f. is_identifier (fu_name f) \<and> fu_name f \<notin> ir_reserved \<and> fu_name f \<notin> va_name ` set (ir_globals p) \<and>
       result_typed (program_typing p) f) (ir_functions p))"

definition declarations_typed :: "ProgramIR \<Rightarrow> bool" where
  "declarations_typed p =
     (distinct (map mo_name (ir_models p)) \<and> list_all model_ok (ir_models p) \<and>
      distinct (map to_name (ir_tensors p)) \<and> list_all (\<lambda>t. tensor_error t = None) (ir_tensors p) \<and>
      distinct (map co_name (ir_contracts p)) \<and> list_all (\<lambda>c. is_identifier (co_name c)) (ir_contracts p) \<and>
      list_all (\<lambda>i. io_model_name i \<in> mo_name ` set (ir_models p) \<and> io_input_tensor_name i \<in> to_name ` set (ir_tensors p) \<and>
        io_output_tensor_name i \<in> to_name ` set (ir_tensors p)) (ir_inferences p) \<and>
      list_all (\<lambda>m. me_workload m \<in> co_name ` set (ir_contracts p)) (ir_measurements p))"

definition outermost :: "ScalarType \<Rightarrow> string \<Rightarrow> position" where
  "outermost t c = \<lparr>po_result = t, po_result_composite = c, po_labels = {}, po_loop = False\<rparr>"

definition function_typed :: "typing \<Rightarrow> Function \<Rightarrow> bool" where
  "function_typed C f = (list_all (\<lambda>v. va_extent v = 0) (fu_parameters f) \<and> new_variables C (fu_parameters f) [Map.empty] \<and>
     (\<exists>G'. stmt_typed C (outermost (fu_result f) (fu_result_composite f)) (add_variables (fu_parameters f) [Map.empty]) (fu_body f) G'))"

definition well_typed :: "ProgramIR \<Rightarrow> bool" where
  "well_typed p = (composites_typed p \<and> globals_typed p \<and> signatures_typed p \<and> declarations_typed p \<and>
     list_all (function_typed (program_typing p)) (ir_functions p) \<and>
     (\<exists>G'. stmt_typed (program_typing p) (outermost ST_Int32 []) [Map.empty] (ir_body p) G'))"

definition program_work :: "ProgramIR \<Rightarrow> nat" where
  "program_work p = stmts_work (map fu_body (ir_functions p)) + stmt_work (ir_body p)"

definition program_height :: "ProgramIR \<Rightarrow> nat" where
  "program_height p = stmts_height (map fu_body (ir_functions p) @ [ir_body p])"

lemma named_None: "named name_of xs n = None \<longleftrightarrow> n \<notin> name_of ` set xs"
proof -
  have "fold (\<lambda>x m. m(name_of x \<mapsto> x)) xs m n = None \<longleftrightarrow> n \<notin> name_of ` set xs \<and> m n = None" for m
    by (induction xs arbitrary: m) auto
  then show ?thesis by (simp add: named_def)
qed

lemma load_composites_iff:
  "load_composites cs s = Inr s' \<longleftrightarrow> distinct (map cp_name cs) \<and>
     list_all (\<lambda>c. is_identifier (cp_name c) \<and> composite_error c = None \<and> vf_composites s (cp_name c) = None) cs \<and>
     s' = s\<lparr>vf_composites := fold (\<lambda>x m. m(cp_name x \<mapsto> x)) cs (vf_composites s)\<rparr>"
  by (induction cs arbitrary: s) (auto simp: list_all_iff rev_image_eqI split: option.splits)

lemma load_ir_globals_iff:
  "load_ir_globals vs s = Inr s' \<longleftrightarrow> distinct (map va_name vs) \<and>
     list_all (\<lambda>v. ir_variable (vf_composites s) v \<and> va_name v \<notin> ir_reserved \<and> vf_globals s (va_name v) = None) vs \<and>
     s' = s\<lparr>vf_globals := fold (\<lambda>x m. m(va_name x \<mapsto> x)) vs (vf_globals s)\<rparr>"
  by (induction vs arbitrary: s) (auto simp: list_all_iff rev_image_eqI)

lemma load_functions_iff:
  "load_functions fs s = Inr s' \<longleftrightarrow> distinct (map fu_name fs) \<and>
     list_all (\<lambda>f. is_identifier (fu_name f) \<and> fu_name f \<notin> ir_reserved \<and> vf_globals s (fu_name f) = None \<and>
       result_typed (typing_of s) f \<and> vf_functions s (fu_name f) = None) fs \<and>
     s' = s\<lparr>vf_functions := fold (\<lambda>x m. m(fu_name x \<mapsto> x)) fs (vf_functions s)\<rparr>"
  by (induction fs arbitrary: s) (auto simp: list_all_iff rev_image_eqI result_typed_def)

lemma first_error_iff:
  "first_error name_of err_of m xs seen = Inr seen' \<longleftrightarrow> distinct (map name_of xs) \<and>
     list_all (\<lambda>x. err_of x = None \<and> name_of x \<notin> seen) xs \<and> seen' = seen \<union> name_of ` set xs"
  by (induction xs arbitrary: seen) (auto simp: list_all_iff rev_image_eqI split: option.splits)

text \<open>The state in which a function or the program body is checked.\<close>

definition at_top :: "verifier \<Rightarrow> bool" where
  "at_top s = (vf_scopes s = [] \<and> vf_labels s = [] \<and> vf_loops s = 0 \<and> vf_depth s = 0)"

definition checked :: "nat \<Rightarrow> ScalarType \<Rightarrow> string \<Rightarrow> verifier \<Rightarrow> verifier" where
  "checked n t c s = s\<lparr>vf_nodes := vf_nodes s + n, vf_result := t, vf_result_composite := c\<rparr>"

lemma checked_simps [simp]:
  "typing_of (checked n t c s) = typing_of s" "vf_nodes (checked n t c s) = vf_nodes s + n" "at_top (checked n t c s) = at_top s"
  by (simp_all add: checked_def at_top_def)

lemma fits_top: "at_top s \<Longrightarrow> fits n h s \<longleftrightarrow> vf_nodes s + n \<le> kMaxNodes \<and> h \<le> kMaxDepth"
  by (auto simp: fits_def at_top_def)

lemma vfunction_iff:
  assumes top: "at_top s"
  shows "vfunction f s = Inr s' \<longleftrightarrow> function_typed (typing_of s) f \<and> fits (stmt_work (fu_body f)) (stmt_height (fu_body f)) s \<and>
    s' = checked (stmt_work (fu_body f)) (fu_result f) (fu_result_composite f) s"
proof -
  define s0 where "s0 = s\<lparr>vf_scopes := Map.empty # vf_scopes s, vf_result := fu_result f, vf_result_composite := fu_result_composite f\<rparr>"
  define s1 where "s1 = s0\<lparr>vf_scopes := add_variables (fu_parameters f) (vf_scopes s0)\<rparr>"
  have s0: "vf_scopes s0 = [Map.empty]" "typing_of s0 = typing_of s"
    using top by (simp_all add: s0_def at_top_def)
  have s1: "vf_scopes s1 = add_variables (fu_parameters f) [Map.empty]" "typing_of s1 = typing_of s"
    "position_of s1 = outermost (fu_result f) (fu_result_composite f)" "fits n h s1 = fits n h s" for n h
    using top by (simp_all add: s1_def s0 position_of_def outermost_def fits_def) (simp_all add: s0_def at_top_def)
  have ne: "vf_scopes s1 \<noteq> []"
    by (simp add: s1 add_variables_def)
  have popped: "(after n G s1)\<lparr>vf_scopes := tl (vf_scopes (after n G s1))\<rparr> = checked n (fu_result f) (fu_result_composite f) s"
    if "length G = 1" for n G
    using that top by (cases G) (auto simp: after_def checked_def s1_def s0_def at_top_def)
  have len: "length G' = 1" if "stmt_typed (typing_of s) (outermost (fu_result f) (fu_result_composite f))
      (add_variables (fu_parameters f) [Map.empty]) (fu_body f) G'" for G'
    using typed_length(1) [OF that] by (simp add: add_variables_def)
  have body: "(\<exists>s2. stmt_spec s1 (fu_body f) s2 \<and> s2\<lparr>vf_scopes := tl (vf_scopes s2)\<rparr> = s') \<longleftrightarrow>
    (\<exists>G'. stmt_typed (typing_of s) (outermost (fu_result f) (fu_result_composite f)) (add_variables (fu_parameters f) [Map.empty]) (fu_body f) G') \<and>
    fits (stmt_work (fu_body f)) (stmt_height (fu_body f)) s \<and> s' = checked (stmt_work (fu_body f)) (fu_result f) (fu_result_composite f) s"
    unfolding stmt_spec_def s1 using popped len by metis
  show ?thesis
    unfolding vfunction_def and_then_iff sum.inject s0_def [symmetric] function_typed_def
    using s0 body by (auto simp: declare_parameters_iff declare_all_iff s1_def [symmetric, unfolded s0] vstmt_iff(1) [OF ne])
qed

definition all_accepted :: "Function list \<Rightarrow> verifier \<Rightarrow> verifier" where
  "all_accepted fs s = fold (\<lambda>f. checked (stmt_work (fu_body f)) (fu_result f) (fu_result_composite f)) fs s"

lemma all_accepted_simps [simp]:
  "all_accepted [] s = s"
  "all_accepted (f # fs) s = all_accepted fs (checked (stmt_work (fu_body f)) (fu_result f) (fu_result_composite f) s)"
  by (simp_all add: all_accepted_def)

lemma all_accepted_state:
  "typing_of (all_accepted fs s) = typing_of s" "vf_nodes (all_accepted fs s) = vf_nodes s + stmts_work (map fu_body fs)"
  "at_top (all_accepted fs s) = at_top s"
  by (induction fs arbitrary: s) simp_all

lemma vfunctions_iff:
  "at_top s \<Longrightarrow> in_limits s \<Longrightarrow> vfunctions fs s = Inr s' \<longleftrightarrow> list_all (function_typed (typing_of s)) fs \<and>
     fits (stmts_work (map fu_body fs)) (stmts_height (map fu_body fs)) s \<and> s' = all_accepted fs s"
proof (induction fs arbitrary: s)
  case Nil
  then show ?case by (auto simp: fits_def in_limits_def)
next
  case (Cons f fs)
  let ?s1 = "checked (stmt_work (fu_body f)) (fu_result f) (fu_result_composite f) s"
  have rest: "vfunctions fs ?s1 = Inr s' \<longleftrightarrow> list_all (function_typed (typing_of s)) fs \<and>
      fits (stmts_work (map fu_body fs)) (stmts_height (map fu_body fs)) ?s1 \<and> s' = all_accepted fs ?s1"
    if "fits (stmt_work (fu_body f)) (stmt_height (fu_body f)) s"
    using that Cons.IH [of ?s1] Cons.prems by (simp add: in_limits_def fits_def checked_def at_top_def)
  have fit: "fits (stmt_work (fu_body f)) (stmt_height (fu_body f)) s \<and>
      fits (stmts_work (map fu_body fs)) (stmts_height (map fu_body fs)) ?s1 \<longleftrightarrow>
      fits (stmts_work (map fu_body (f # fs))) (stmts_height (map fu_body (f # fs))) s"
    by (auto simp: fits_def checked_def)
  show ?case
    unfolding vfunctions.simps and_then_iff vfunction_iff [OF Cons.prems(1)] all_accepted_simps list.pred_inject(2) fit [symmetric]
    using rest by blast
qed

lemma body_iff:
  assumes top: "at_top s"
  shows "(\<exists>s'. vstmt st (s\<lparr>vf_scopes := Map.empty # vf_scopes s, vf_result := ST_Int32, vf_result_composite := []\<rparr>) = Inr s') \<longleftrightarrow>
    (\<exists>G'. stmt_typed (typing_of s) (outermost ST_Int32 []) [Map.empty] st G') \<and> fits (stmt_work st) (stmt_height st) s"
proof -
  let ?s = "s\<lparr>vf_scopes := Map.empty # vf_scopes s, vf_result := ST_Int32, vf_result_composite := []\<rparr>"
  have "position_of ?s = outermost ST_Int32 []" "fits n h ?s = fits n h s" "vf_scopes ?s = [Map.empty]" for n h
    using top by (simp_all add: position_of_def outermost_def fits_def at_top_def)
  then show ?thesis
    using vstmt_iff(1) [of ?s st] by (auto simp: stmt_spec_def)
qed

text \<open>The state after the declarations have been loaded.\<close>

definition loaded :: "ProgramIR \<Rightarrow> verifier" where
  "loaded p = (Verifier_init p)\<lparr>vf_composites := named cp_name (ir_composites p), vf_globals := named va_name (ir_globals p),
     vf_functions := named fu_name (ir_functions p)\<rparr>"

lemma loaded_state: "typing_of (loaded p) = program_typing p" "at_top (loaded p)" "vf_nodes (loaded p) = 0" "in_limits (loaded p)"
  by (simp_all add: loaded_def typing_of_def program_typing_def Verifier_init_def at_top_def in_limits_def)

lemma loads_iff:
  "and_then (load_composites (ir_composites p) (Verifier_init p)) (\<lambda>s1. and_then (load_ir_globals (ir_globals p) s1) (\<lambda>s2.
     and_then (load_functions (ir_functions p) s2) k)) = Inr r \<longleftrightarrow>
   composites_typed p \<and> globals_typed p \<and> signatures_typed p \<and> k (loaded p) = Inr r"
proof -
  let ?s1 = "(Verifier_init p)\<lparr>vf_composites := named cp_name (ir_composites p)\<rparr>"
  let ?s2 = "?s1\<lparr>vf_globals := named va_name (ir_globals p)\<rparr>"
  have 1: "load_composites (ir_composites p) (Verifier_init p) = Inr s' \<longleftrightarrow> composites_typed p \<and> s' = ?s1" for s'
    by (auto simp: load_composites_iff composites_typed_def Verifier_init_def named_def)
  have 2: "load_ir_globals (ir_globals p) ?s1 = Inr s' \<longleftrightarrow> globals_typed p \<and> s' = ?s2" for s'
    by (auto simp: load_ir_globals_iff globals_typed_def Verifier_init_def named_def program_typing_def)
  have "result_typed (typing_of ?s2) f = result_typed (program_typing p) f" for f
    by (simp add: result_typed_def program_typing_def)
  then have 3: "load_functions (ir_functions p) ?s2 = Inr s' \<longleftrightarrow> signatures_typed p \<and> s' = loaded p" for s'
    by (auto simp: load_functions_iff signatures_typed_def named_None loaded_def Verifier_init_def list_all_iff)
      (simp_all add: named_def)
  show ?thesis
    unfolding and_then_iff 1 using 2 3 by auto
qed

lemma declarations_iff:
  "and_then (load_models (ir_models p)) (\<lambda>models. and_then (load_tensors (ir_tensors p)) (\<lambda>tensors.
     and_then (load_contracts (ir_contracts p)) (\<lambda>contracts.
     if \<not> list_all (\<lambda>i. io_model_name i \<in> models \<and> io_input_tensor_name i \<in> tensors \<and> io_output_tensor_name i \<in> tensors)
         (ir_inferences p)
     then Inl m1
     else if \<not> list_all (\<lambda>m. me_workload m \<in> contracts) (ir_measurements p) then Inl m2 else rest))) = Inr r \<longleftrightarrow>
   declarations_typed p \<and> rest = Inr r"
proof -
  have *: "(if b then None else Some m) = None \<longleftrightarrow> b" for b and m :: string
    by simp
  show ?thesis
    unfolding and_then_iff if_fail_iff load_models_def load_tensors_def load_contracts_def first_error_iff declarations_typed_def *
    by auto
qed

lemma stmts_height_app [simp]: "stmts_height (xs @ ys) = max (stmts_height xs) (stmts_height ys)"
  by (induction xs) simp_all

lemma vrun_iff:
  "(\<exists>r. vrun p (Verifier_init p) = Inr r) \<longleftrightarrow>
     well_typed p \<and> program_work p \<le> kMaxNodes \<and> program_height p \<le> kMaxDepth"
proof -
  let ?C = "program_typing p" and ?s = "all_accepted (ir_functions p) (loaded p)"
  have "(\<exists>r. vrun p (Verifier_init p) = Inr r) \<longleftrightarrow> composites_typed p \<and> globals_typed p \<and> signatures_typed p \<and>
      declarations_typed p \<and> list_all (function_typed ?C) (ir_functions p) \<and>
      fits (stmts_work (map fu_body (ir_functions p))) (stmts_height (map fu_body (ir_functions p))) (loaded p) \<and>
      (\<exists>r. vstmt (ir_body p) (?s\<lparr>vf_scopes := Map.empty # vf_scopes ?s, vf_result := ST_Int32, vf_result_composite := []\<rparr>) = Inr r)"
    unfolding vrun_def loads_iff declarations_iff
    unfolding and_then_iff vfunctions_iff [OF loaded_state(2,4)] loaded_state(1) by blast
  also have "\<dots> \<longleftrightarrow> well_typed p \<and> fits (stmts_work (map fu_body (ir_functions p))) (stmts_height (map fu_body (ir_functions p))) (loaded p) \<and>
      fits (stmt_work (ir_body p)) (stmt_height (ir_body p)) ?s"
    unfolding well_typed_def using body_iff [of ?s "ir_body p"] loaded_state by (auto simp: all_accepted_state)
  also have "\<dots> \<longleftrightarrow> well_typed p \<and> program_work p \<le> kMaxNodes \<and> program_height p \<le> kMaxDepth"
    using loaded_state by (auto simp: fits_top all_accepted_state program_work_def program_height_def)
  finally show ?thesis .
qed

lemma verifySemanticIR_iff:
  "verifySemanticIR p = (True, []) \<longleftrightarrow> well_typed p \<and> program_work p \<le> kMaxNodes \<and> program_height p \<le> kMaxDepth"
  unfolding vrun_iff [symmetric] verifySemanticIR_def by (auto split: sum.split)

text \<open>
  C4: The verifier accepts a program exactly when the program is well typed by the rules of the
  representation and stays within its limits on the number of nodes it visits and on their nesting.
\<close>

theorem verifier_exact:
  "verifySemanticIR p = (True, []) \<longleftrightarrow> well_typed p \<and> program_work p \<le> kMaxNodes \<and> program_height p \<le> kMaxDepth"
  by (rule verifySemanticIR_iff)

end
