(* ===== verification/IRMatch.thy ===== *)
theory IRMatch
  imports ProgramSafety IRBuilder IRVerifier
begin

section \<open>Scopes and expressions of the analyzer, the builder and the verifier\<close>

text \<open>
  The analyzer, the builder and the verifier each keep scopes and signatures of their own. When
  they match, an expression that the analyzer types without an error is built without one, with
  the same type, and is well typed for the verifier.
\<close>

subsection \<open>What the analyzer does not check\<close>

fun expr_lexical :: "Expression \<Rightarrow> bool" where
  "expr_lexical (Expression k t n i d opc args c) = ((k = EK_Float \<longrightarrow> b_finite d) \<and> (k = EK_String \<longrightarrow> CHR 0x00 \<notin> set n) \<and>
     (k = EK_Unary \<longrightarrow> opc = 1) \<and> list_all expr_lexical args)"

definition variable_lexical :: "Variable \<Rightarrow> bool" where
  "variable_lexical v = (is_identifier (va_name v) \<and> va_extent v \<le> 65536)"

fun stmt_lexical :: "Statement \<Rightarrow> bool" where
  "stmt_lexical (Statement k n strs es vs body alt d l) = (list_all expr_lexical es \<and>
     (k = SK_Declare \<longrightarrow> list_all variable_lexical vs) \<and> (k = SK_Label \<longrightarrow> is_identifier n) \<and>
     (k = SK_Read \<longrightarrow> es \<noteq> [] \<and> list_all (\<lambda>e. ir_numeric (ex_type e)) es) \<and> (k = SK_Print \<longrightarrow> es \<noteq> []) \<and>
     (has_body k \<longrightarrow> list_all stmt_lexical body) \<and> (has_body k \<and> k \<noteq> SK_Block \<longrightarrow> list_all stmt_lexical alt))"

lemma typed_lexical: "typed C G e \<Longrightarrow> expr_lexical e"
  by (induction rule: typed.induct) (simp_all add: list_all_iff)

lemma operands_lexical: "operands_ok C G es \<Longrightarrow> list_all expr_lexical es"
  by (auto simp: operands_ok_def list_all_iff typed_lexical)

lemma new_variables_lexical: "new_variables C vs G \<Longrightarrow> list_all variable_lexical vs"
  by (auto simp: new_variables_def list_all_iff ir_variable_def variable_lexical_def)

lemma labels_lexical: "list_all is_identifier (labels_of body) \<Longrightarrow> c \<in> set body \<Longrightarrow> st_kind c = SK_Label \<Longrightarrow> is_identifier (st_name c)"
  by (auto simp: labels_of_def list_all_iff)

subsection \<open>Scopes of the three components\<close>

definition variable_matches :: "VariableInfo \<Rightarrow> Variable \<Rightarrow> bool" where
  "variable_matches i v = (va_type v = scalar_of (vi_type i) \<and> vi_type i \<noteq> T_Void \<and> va_composite v = [] \<and>
     (va_extent v > 0) = vi_is_array i)"

definition scope_matches :: "(string \<rightharpoonup> VariableInfo) \<Rightarrow> (string \<rightharpoonup> Variable) \<Rightarrow> bool" where
  "scope_matches sa sg = (\<forall>n. rel_option variable_matches (sa n) (sg n))"

definition types_of :: "(string \<rightharpoonup> Variable) \<Rightarrow> string \<rightharpoonup> ScalarType" where
  "types_of sc n = map_option va_type (sc n)"

definition parameter_matches :: "Variable \<Rightarrow> ShortType \<Rightarrow> bool" where
  "parameter_matches v t = (va_type v = scalar_of t \<and> va_composite v = [])"

definition function_matches :: "analyzer \<Rightarrow> builder \<Rightarrow> typing \<Rightarrow> string \<Rightarrow> bool" where
  "function_matches a b C n = (\<exists>rt ts f. an_function_return_types a n = Some rt \<and> an_function_parameter_types a n = Some ts \<and>
     an_function_arity a n = Some (length ts) \<and> bu_returns b n = Some (scalar_of rt) \<and> ty_functions C n = Some f \<and>
     fu_result f = scalar_of rt \<and> fu_result_composite f = [] \<and> list_all2 parameter_matches (fu_parameters f) ts)"

definition signatures_match :: "analyzer \<Rightarrow> builder \<Rightarrow> typing \<Rightarrow> bool" where
  "signatures_match a b C = (scope_matches (global_scope a) (ty_globals C) \<and> bu_globals b = types_of (ty_globals C) \<and>
     (\<forall>n. an_function_arity a n \<noteq> None \<longrightarrow> function_matches a b C n))"

definition related :: "analyzer \<Rightarrow> builder \<Rightarrow> typing \<Rightarrow> scopes \<Rightarrow> bool" where
  "related a b C G = (signatures_match a b C \<and> list_all2 scope_matches (an_local_scopes a) G \<and> bu_scopes b = map types_of G)"

lemma scalar_of_eq [simp]: "scalar_of t = scalar_of u \<longleftrightarrow> t = u"
  by (cases t; cases u) simp_all

lemma scalar_of_void [simp]: "scalar_of t = ST_Void \<longleftrightarrow> t = T_Void" "ST_Void = scalar_of t \<longleftrightarrow> t = T_Void" "scalar_of t \<noteq> ST_Composite"
  by (cases t; simp)+

lemma scalar_of_names [simp]: "scalar_of t = ST_Int32 \<longleftrightarrow> t = T_Int" "scalar_of t = ST_Bool \<longleftrightarrow> t = T_Boolean"
  "scalar_of t = ST_Float64 \<longleftrightarrow> t = T_Float" "scalar_of t = ST_String \<longleftrightarrow> t = T_String"
  by (cases t; simp)+

lemma value_scalar_of: "t \<noteq> T_Void \<Longrightarrow> valueType cs (scalar_of t) []"
  by (cases t) (simp_all add: valueType_def ir_scalar_def)

lemma identity_scalar_of: "identity C (scalar_of t) []"
  by (simp add: identity_def value_scalar_of)

lemma lookup_related:
  assumes "related a b C G" and "lookupType n a = Some (t, arr)"
  shows "\<exists>v. resolve C G n = Some v \<and> variable_matches \<lparr>vi_type = t, vi_is_array = arr\<rparr> v \<and> variableType n b = (scalar_of t, b)"
proof -
  have *: "rel_option variable_matches (lookup_scopes (as @ [ga]) n) (case find_scope gs n of Some v \<Rightarrow> Some v | None \<Rightarrow> gg n) \<and>
      scope_type (map types_of gs) n = map_option va_type (find_scope gs n)"
    if "list_all2 scope_matches as gs" "scope_matches ga gg" for as gs ga gg
    using that
  proof (induction rule: list_all2_induct)
    case (Cons sa as sg gs)
    then have "rel_option variable_matches (sa n) (sg n)" by (simp add: scope_matches_def)
    then show ?case using Cons by (cases "sa n"; cases "sg n") (auto simp: types_of_def)
  next
    case Nil
    then have "rel_option variable_matches (ga n) (gg n)" by (simp add: scope_matches_def)
    then show ?case by (cases "ga n") auto
  qed
  obtain i where i: "lookup_scopes (an_local_scopes a @ [global_scope a]) n = Some i" "t = vi_type i" "arr = vi_is_array i"
    using assms(2) by (auto simp: lookupType_scopes)
  have r: "list_all2 scope_matches (an_local_scopes a) G" "scope_matches (global_scope a) (ty_globals C)"
    "bu_scopes b = map types_of G" "bu_globals b = types_of (ty_globals C)"
    using assms(1) by (simp_all add: related_def signatures_match_def)
  from * [OF r(1,2)] i(1) obtain v where v: "resolve C G n = Some v" "variable_matches i v"
    unfolding resolve_def by (auto simp: option_rel_Some1)
  moreover have "variableType n b = (va_type v, b)"
    using v(1) * [OF r(1,2)] r(3,4) by (auto simp: variableType_def resolve_def types_of_def split: option.splits)
  moreover have "\<lparr>vi_type = t, vi_is_array = arr\<rparr> = i" using i by simp
  ultimately show ?thesis by (auto simp: variable_matches_def)
qed

subsection \<open>Expressions\<close>

definition built :: "builder \<Rightarrow> typing \<Rightarrow> scopes \<Rightarrow> ShortType \<Rightarrow> Expression \<times> builder \<Rightarrow> bool" where
  "built b C G t r = (snd r = b \<and> ex_type (fst r) = scalar_of t \<and> ex_composite (fst r) = [] \<and>
     (expr_lexical (fst r) \<longrightarrow> typed C G (fst r)))"

definition built_args :: "builder \<Rightarrow> typing \<Rightarrow> scopes \<Rightarrow> ShortType list \<Rightarrow> Expression list \<times> builder \<Rightarrow> bool" where
  "built_args b C G ts r = (snd r = b \<and> list_all2 (\<lambda>e t. ex_type e = scalar_of t \<and> ex_composite e = []) (fst r) ts \<and>
     (list_all expr_lexical (fst r) \<longrightarrow> operands_ok C G (fst r)))"

lemma binary_type_built:
  assumes "binary_type op lt rt = (t, r)" "\<not> error_in r"
  shows "lt = rt \<and> binary_ok (binop_code op) (scalar_of lt) (scalar_of t) \<and>
    (if binop_code op \<ge> binop_code BOP_LESS then ST_Bool else scalar_of lt) = scalar_of t"
  using assms by (cases op; cases lt) (auto simp: binary_type_def is_arithmetic_def is_equality_def is_ordering_def is_logical_def
      binary_ok_def ir_numeric_def ir_scalar_def ir_condition_def split: if_splits)

lemma matches_index: "variable_matches \<lparr>vi_type = t, vi_is_array = True\<rparr> v \<Longrightarrow> va_extent v > 0"
  and matches_simple: "variable_matches \<lparr>vi_type = t, vi_is_array = False\<rparr> v \<Longrightarrow> va_extent v \<le> 0"
  and matches_type: "variable_matches \<lparr>vi_type = t, vi_is_array = arr\<rparr> v \<Longrightarrow> va_type v = scalar_of t \<and> va_composite v = []"
  by (simp_all add: variable_matches_def)

lemma built_variable:
  assumes r: "related a b C G" and l: "lookupType n a = Some (t, False)"
  shows "built b C G t (build_expr (E_Var (V_Simple n)) b)"
proof -
  obtain v where v: "resolve C G n = Some v" "variable_matches \<lparr>vi_type = t, vi_is_array = False\<rparr> v" "variableType n b = (scalar_of t, b)"
    using lookup_related [OF r l] by blast
  from typed_variable [OF v(1) matches_simple [OF v(2)], of 0 "B_Zero False" 0] show ?thesis
    using v(3) matches_type [OF v(2)] by (simp add: built_def identity_scalar_of)
qed

lemma built_index:
  assumes r: "related a b C G" and l: "lookupType n a = Some (t, True)" and i: "built b C G T_Int (build_expr index b)"
  shows "built b C G t (build_expr (E_Var (V_Array n index)) b)"
proof -
  obtain v where v: "resolve C G n = Some v" "variable_matches \<lparr>vi_type = t, vi_is_array = True\<rparr> v" "variableType n b = (scalar_of t, b)"
    using lookup_related [OF r l] by blast
  from typed_index [OF v(1) matches_index [OF v(2)], of _ 0 "B_Zero False" 0] show ?thesis
    using v(3) i matches_type [OF v(2)] by (auto simp: built_def identity_scalar_of split: prod.split)
qed

lemma built_call:
  assumes r: "related a b C G" and v: "\<not> error_in (validateCall a n (length args))"
    and args: "\<And>ts. an_function_parameter_types a n = Some ts \<Longrightarrow> length ts = length args \<Longrightarrow> built_args b C G ts (build_exprs args b)"
  shows "built b C G (case an_function_return_types a n of None \<Rightarrow> T_Void | Some t \<Rightarrow> t) (build_expr (E_Call n args) b)"
proof -
  have ar: "an_function_arity a n = Some (length args)"
    using v by (auto simp: validateCall_def split: option.splits if_splits)
  then obtain rt ts f where f: "an_function_return_types a n = Some rt" "an_function_parameter_types a n = Some ts" "length ts = length args"
    "bu_returns b n = Some (scalar_of rt)" "ty_functions C n = Some f" "fu_result f = scalar_of rt" "fu_result_composite f = []"
    "list_all2 parameter_matches (fu_parameters f) ts"
    using r by (auto simp: related_def signatures_match_def function_matches_def)
  obtain es b' where es: "build_exprs args b = (es, b')" by (cases "build_exprs args b")
  have es': "b' = b" "list_all2 (\<lambda>e t. ex_type e = scalar_of t \<and> ex_composite e = []) es ts" "list_all expr_lexical es \<longrightarrow> operands_ok C G es"
    using args [OF f(2,3)] by (simp_all add: built_args_def es)
  have "list_all2 agreeing es (fu_parameters f)"
    using es'(2) f(8) by (auto simp: list_all2_conv_all_nth agreeing_def parameter_matches_def)
  then have "operands_ok C G es \<Longrightarrow> typed C G (Expression EK_Call (scalar_of rt) n 0 (B_Zero False) 0 es [])"
    using typed_call [OF f(5), of es G 0 "B_Zero False" 0] f(6,7) by (simp add: operands_ok_def identity_scalar_of)
  then show ?thesis
    using f(1,4) es es' by (simp add: built_def call_type_def)
qed

lemma built_expression:
  "related a b C G \<Longrightarrow> \<not> error_in (snd (expressionType a e)) \<Longrightarrow> built b C G (fst (expressionType a e)) (build_expr e b)"
  "related a b C G \<Longrightarrow> \<not> error_in (argument_types a n i args ts) \<Longrightarrow> length args = length ts \<Longrightarrow>
     built_args b C G ts (build_exprs args b)"
proof (induction a e and a n i args ts rule: expressionType_argument_types.induct)
  case (5 a n)
  then show ?case using built_variable by (auto split: option.splits prod.splits if_splits)
next
  case (6 a n index)
  then obtain t where l: "lookupType n a = Some (t, True)" by (auto split: option.splits prod.splits if_splits)
  then have ok: "fst (expressionType a index) = T_Int" "\<not> error_in (snd (expressionType a index))"
    using 6(3) by (auto split: prod.splits if_splits)
  have i: "built b C G T_Int (build_expr index b)"
    using 6(1) [OF l refl] 6(2) ok by simp
  have "fst (expressionType a (E_Var (V_Array n index))) = t"
    using l by (simp add: case_prod_beta)
  then show ?case using built_index [OF 6(2) l i] by (simp only:)
next
  case (7 a e op)
  then have ok: "\<not> error_in (snd (expressionType a e))" and t: "fst (expressionType a e) = T_Int \<or> fst (expressionType a e) = T_Float"
    "fst (expressionType a (E_Unary e op)) = fst (expressionType a e)"
    by (auto split: prod.splits if_splits)
  obtain x b' where x: "build_expr e b = (x, b')" by (cases "build_expr e b")
  have "built b C G (fst (expressionType a e)) (x, b')"
    using 7(1) [OF 7(2) ok] by (simp add: x)
  then show ?case
    using t typed_unary [of C G x "[]" 0 "B_Zero False"] by (auto simp: built_def x ir_numeric_def)
next
  case (8 a l r op)
  obtain lt r1 rt r2 where lr: "expressionType a l = (lt, r1)" "expressionType a r = (rt, r2)" by (meson surj_pair)
  obtain t r3 where t: "binary_type op lt rt = (t, r3)" by (meson surj_pair)
  have ok: "\<not> error_in r1" "\<not> error_in r2" "\<not> error_in r3"
    using 8(4) by (simp_all add: lr t)
  obtain x b1 where x: "build_expr l b = (x, b1)" by (cases "build_expr l b")
  have bx: "built b C G lt (x, b1)" using 8(1,3) ok by (simp add: lr x)
  then have b1: "b1 = b" by (simp add: built_def)
  obtain y b2 where y: "build_expr r b = (y, b2)" by (cases "build_expr r b")
  have yy: "built b C G rt (y, b2)" using 8(2) [OF lr(1) [symmetric]] 8(3) ok by (simp add: lr y)
  have "typed C G x \<Longrightarrow> typed C G y \<Longrightarrow> typed C G (Expression EK_Binary (scalar_of t) [] 0 (B_Zero False) (binop_code op) [x, y] [])"
    using binary_type_built [OF t ok(3)] bx yy by (intro typed_binary) (auto simp: built_def)
  moreover have "build_expr (E_Binary l r op) b = (Expression EK_Binary (scalar_of t) [] 0 (B_Zero False) (binop_code op) [x, y] [], b)"
    using binary_type_built [OF t ok(3)] bx yy by (auto simp: built_def x y b1)
  moreover have "fst (expressionType a (E_Binary l r op)) = t" by (simp add: lr t)
  ultimately show ?case
    using bx yy by (simp add: built_def)
next
  case (9 a n args)
  have "built_args b C G ts (build_exprs args b)" if "an_function_parameter_types a n = Some ts" "length ts = length args" for ts
    by (rule 9(1) [OF that(1) _ 9(2)]) (use 9(3) that in simp_all)
  then show ?case
    using built_call [OF 9(2), of n args] 9(3) by simp
next
  case (12 a n i e es t ts)
  obtain t' r where e: "expressionType a e = (t', r)" by (cases "expressionType a e")
  have ok: "\<not> error_in r" "t' = t" "\<not> error_in (argument_types a n (i + 1) es ts)"
    using 12(4) by (auto simp: e argument_report_def split: if_splits)
  have "built b C G t (build_expr e b)" "built_args b C G ts (build_exprs es b)"
    using 12 ok by (simp_all add: e)
  then show ?case by (auto simp: built_def built_args_def operands_ok_def split: prod.splits)
qed (auto simp: built_def built_args_def operands_ok_def intro: typed_integer typed_boolean typed_float typed_string)

subsection \<open>Declarations\<close>

lemma array_reports_accepted:
  "\<not> error_in (array_reports top_level ds names) \<Longrightarrow> \<forall>d \<in> set ds. ad_type d \<noteq> T_Void \<and> ad_type d \<noteq> T_String \<and> ad_size d > 0"
proof (induction ds arbitrary: names)
  case (Cons d ds)
  have "ad_type d \<noteq> T_Void" "ad_type d \<noteq> T_String" "\<not> error_in (descriptor_report (td_array (productionTypeKind (ad_type d)) (array_extent (ad_size d))))"
    using Cons.prems by (auto simp: executable_report_def isExecutableScalarType_def split: if_splits)
  then have "array_extent (ad_size d) \<noteq> 0"
    by (auto simp: descriptor_report_def validate_def td_array_def isScalar_def split: sum.splits if_splits)
  then have "ad_size d > 0"
    by (cases "ad_size d" "0 :: int" rule: linorder_cases) (simp_all add: array_extent_def)
  then show ?case using Cons \<open>ad_type d \<noteq> T_Void\<close> \<open>ad_type d \<noteq> T_String\<close> by auto
qed simp

text \<open>A declaration the analyzer knows and the one the builder makes of it.\<close>

definition same_declaration :: "string \<times> VariableInfo \<Rightarrow> Variable \<Rightarrow> bool" where
  "same_declaration d v = (va_name v = fst d \<and> variable_matches (snd d) v \<and> (va_extent v > 0 \<longrightarrow> va_type v \<noteq> ST_String) \<and> va_extent v \<ge> 0)"

lemma declarations_same:
  assumes "\<not> errs (sem_declarations b a)"
  shows "list_all2 same_declaration (declared b) (declarations b)"
proof -
  let ?o = "an_local_scopes a = []"
  obtain r names where r: "scalar_reports ?o (db_typed_scalars b) {} = (r, names)" by force
  have "\<not> error_in (array_reports ?o (db_typed_arrays b) names)"
    using assms r by (auto simp: sem_declarations_def declareInCurrentScope_def Let_def split: list.splits prod.splits)
  note ar = array_reports_accepted [OF this]
  have sr: "\<forall>d \<in> set (db_typed_scalars b). sd_type d \<noteq> T_Void"
    using declarations_accepted(2) [OF assms] by (simp add: declared_def ball_Un)
  have "list_all2 same_declaration (map (\<lambda>d. (sd_name d, \<lparr>vi_type = sd_type d, vi_is_array = False\<rparr>)) ds)
      (map (\<lambda>v. \<lparr>va_name = sd_name v, va_type = scalar_of (sd_type v), va_extent = 0, va_composite = []\<rparr>) ds)"
    if "\<forall>d \<in> set ds. sd_type d \<noteq> T_Void" for ds
    using that by (induction ds) (simp_all add: same_declaration_def variable_matches_def)
  moreover have "list_all2 same_declaration (map (\<lambda>d. (ad_name d, \<lparr>vi_type = ad_type d, vi_is_array = True\<rparr>)) ds)
      (map (\<lambda>v. \<lparr>va_name = ad_name v, va_type = scalar_of (ad_type v), va_extent = ad_size v, va_composite = []\<rparr>) ds)"
    if "\<forall>d \<in> set ds. ad_type d \<noteq> T_Void \<and> ad_type d \<noteq> T_String \<and> ad_size d > 0" for ds
    using that by (induction ds) (simp_all add: same_declaration_def variable_matches_def)
  ultimately show ?thesis
    unfolding declared_def declarations_def using sr ar by (intro list_all2_appendI) blast+
qed

lemma scope_matches_update:
  "scope_matches sa sg \<Longrightarrow> variable_matches i v \<Longrightarrow> scope_matches (sa(n \<mapsto> i)) (sg(n \<mapsto> v))"
  by (simp add: scope_matches_def)

lemma scope_matches_None: "scope_matches sa sg \<Longrightarrow> sa n = None \<longleftrightarrow> sg n = None"
  unfolding scope_matches_def by (metis option.rel_distinct(1,2) not_None_eq)

lemma declare_names_same:
  assumes "list_all2 same_declaration ds vs" "scope_matches sa sg" "\<not> error_in (snd (declare_names ds sa))"
  shows "scope_matches (fst (declare_names ds sa)) (fold (\<lambda>v m. m(va_name v \<mapsto> v)) vs sg) \<and>
    distinct (map va_name vs) \<and> list_all (\<lambda>v. sg (va_name v) = None) vs"
  using assms
proof (induction arbitrary: sa sg rule: list_all2_induct)
  case (Cons d ds v vs)
  obtain n i where d: "d = (n, i)" by (cases d)
  have v: "va_name v = n" "variable_matches i v" using Cons.hyps(1) by (simp_all add: d same_declaration_def)
  have new: "sa n = None" "\<not> error_in (snd (declare_names ds (sa(n \<mapsto> i))))"
    using Cons.prems(2) by (auto simp: d split: prod.splits if_splits)
  have m: "scope_matches (sa(n \<mapsto> i)) (sg(n \<mapsto> v))" by (rule scope_matches_update [OF Cons.prems(1) v(2)])
  note ih = Cons.IH [OF m new(2)]
  have "sg n = None" using scope_matches_None [OF Cons.prems(1)] new(1) by blast
  moreover have "list_all (\<lambda>w. va_name w \<noteq> n \<and> sg (va_name w) = None) vs"
    using ih by (auto simp: list_all_iff split: if_splits)
  ultimately show ?case using ih new(1) v(1) by (auto simp add: d list_all_iff simp del: fun_upd_apply)
qed simp

lemma types_of_fold: "types_of (fold (\<lambda>v m. m(va_name v \<mapsto> v)) vs sg) = fold (\<lambda>v m. m(va_name v \<mapsto> va_type v)) vs (types_of sg)"
proof (induction vs arbitrary: sg)
  case (Cons v vs)
  have "types_of (sg(va_name v \<mapsto> v)) = (types_of sg)(va_name v \<mapsto> va_type v)"
    by (auto simp: types_of_def fun_eq_iff)
  then show ?case by (simp add: Cons.IH del: fun_upd_apply)
qed simp

end
