(* ===== verification/IRPipeline.thy ===== *)
theory IRPipeline
  imports IRMatch
begin

section \<open>From the analyzer through the builder to the verifier\<close>

text \<open>
  The driver hands a program that \<open>SemanticAnalyzer\<close> accepted to \<open>SemanticIRBuilder\<close> and the result
  to \<open>verifySemanticIR\<close>. Here the three are put together: the builder resolves every name of an
  accepted program, what it builds has the types the analyzer computed, and the verifier can reject
  the result only for reasons the analyzer does not look at, which are listed.
\<close>

subsection \<open>Statements\<close>

text \<open>The builder sets its error only for an unknown back end.\<close>

definition error_kept :: "builder \<Rightarrow> builder \<Rightarrow> bool" where
  "error_kept b b' = (bu_error b' = bu_error b \<or>
     (\<exists>k. sir_backend k = None \<and> bu_error b' = ''unknown SemanticIR backend: '' @ k))"

definition placed :: "analyzer \<Rightarrow> position \<Rightarrow> bool" where
  "placed a K = ((\<forall>t ts. an_return_types a = t # ts \<longrightarrow> po_result K = scalar_of t) \<and> po_result_composite K = [] \<and>
     po_loop K = (an_loopDepth a > 0))"

definition labelled :: "analyzer \<Rightarrow> position \<Rightarrow> bool" where
  "labelled a K = (po_labels K = (case an_block_label_scopes a of [] \<Rightarrow> {} | ls # _ \<Rightarrow> ls))"

definition tables_le :: "ProgramIR \<Rightarrow> ProgramIR \<Rightarrow> bool" where
  "tables_le p q = (\<forall>k. table_size p k \<le> table_size q k)"

definition passed_on :: "typing \<Rightarrow> position \<Rightarrow> scopes \<Rightarrow> builder \<Rightarrow> analyzer \<Rightarrow> Statement \<times> builder \<Rightarrow> bool" where
  "passed_on C K G b a' r = (\<exists>G'. related a' (snd r) C G' \<and> error_kept b (snd r) \<and>
     (stmt_lexical (fst r) \<longrightarrow> stmt_typed C K G (fst r) G'))"

lemma error_kept_refl [simp]: "error_kept b b"
  by (simp add: error_kept_def)

lemma error_kept_result [simp]: "error_kept b (b\<lparr>bu_result := r\<rparr>)" "error_kept b (b\<lparr>bu_scopes := G\<rparr>)"
  by (simp_all add: error_kept_def)

lemma error_kept_trans: "error_kept b c \<Longrightarrow> error_kept c d \<Longrightarrow> error_kept b d"
  by (auto simp: error_kept_def)

lemma signatures_match_same: "same_signatures a a' \<Longrightarrow> signatures_match a' b C = signatures_match a b C"
  using same_global_scope [of a a'] by (simp add: signatures_match_def function_matches_def same_signatures_def)

lemma signatures_match_builder:
  "bu_globals b' = bu_globals b \<Longrightarrow> bu_returns b' = bu_returns b \<Longrightarrow> signatures_match a b' C = signatures_match a b C"
  by (simp add: signatures_match_def function_matches_def)

lemma related_analyzer:
  "same_signatures a a' \<Longrightarrow> an_local_scopes a' = an_local_scopes a \<Longrightarrow> related a' b C G = related a b C G"
  by (simp add: related_def signatures_match_same)

lemma related_builder:
  "bu_globals b' = bu_globals b \<Longrightarrow> bu_returns b' = bu_returns b \<Longrightarrow> bu_scopes b' = bu_scopes b \<Longrightarrow> related a b' C G = related a b C G"
  using signatures_match_builder [of b' b a C] by (simp add: related_def)

lemma related_emit [simp]: "related (emit rs a) b C G = related a b C G"
  by (rule related_analyzer) (simp_all add: same_signatures_def)

text \<open>A statement that changes no scope and builds from expressions only.\<close>

lemma outcome_simple:
  assumes "related a b C G" and "related a' b C G = related a b C G" and "r = (Statement k n strs es vs [] [] d l, b)"
    and "list_all expr_lexical es \<longrightarrow> operands_ok C G es"
    and "stmt_lexical (fst r) \<Longrightarrow> simple_typed C K G (fst r) G"
  shows "passed_on C K G b a' r"
  using assms by (auto simp: passed_on_def intro!: exI [of _ G] typed_simple)

lemma built_list:
  assumes r: "related a b C G" and "\<forall>e \<in> set es. \<not> error_in (snd (expressionType a e))"
  shows "built_args b C G (map (\<lambda>e. fst (expressionType a e)) es) (build_exprs es b)"
  using assms(2)
proof (induction es)
  case (Cons e es)
  then have "built b C G (fst (expressionType a e)) (build_expr e b)" by (intro built_expression(1) [OF r]) simp
  then show ?case using Cons by (auto simp: built_def built_args_def operands_ok_def split: prod.splits)
qed (simp add: built_args_def operands_ok_def)

lemma built_args_split:
  assumes "built_args b C G ts r"
  obtains es where "r = (es, b)" "list_all2 (\<lambda>e t. ex_type e = scalar_of t \<and> ex_composite e = []) es ts"
    "list_all expr_lexical es \<longrightarrow> operands_ok C G es"
  using assms by (cases r) (auto simp: built_args_def)

lemma build_vars_exprs: "build_vars vs b = build_exprs (map E_Var vs) b"
  by (induction vs arbitrary: b) simp_all

lemma build_var_lvalue: "is_lvalue (fst (build_expr (E_Var v) b))"
  by (cases v) (simp_all add: is_lvalue_def split: prod.split)

lemma outcome_expression:
  assumes r: "related a b C G" and ok: "\<not> error_in (snd (expressionType a e))"
  shows "passed_on C K G b (emit rs a) (build_stmt (S_Expr e) b)"
proof -
  obtain x where "build_expr e b = (x, b)" "expr_lexical x \<longrightarrow> typed C G x"
    using built_expression(1) [OF r ok] by (cases "build_expr e b") (auto simp: built_def)
  then show ?thesis
    by (intro outcome_simple [OF r related_emit]) (auto simp: plain_def operands_ok_def intro: simple_expression)
qed

lemma outcome_call:
  assumes "related a b C G" and "\<not> error_in (validateCallTypes a f (map E_Var vs))"
  shows "passed_on C K G b (emit rs a) (build_stmt (S_Call f vs) b)"
proof -
  have "build_stmt (S_Call f vs) b = build_stmt (S_Expr (E_Call f (map E_Var vs))) b"
    by (simp add: build_vars_exprs split: prod.split)
  then show ?thesis
    using outcome_expression [OF assms(1) assms(2) [unfolded validateCallTypes_def]] by (simp only:)
qed

lemma outcome_assign:
  assumes r: "related a b C G" and ok: "\<not> error_in (assignment_reports a v e)"
  shows "passed_on C K G b (emit rs a) (build_stmt (S_Assign v e) b)"
proof -
  have ok: "\<not> error_in (snd (expressionType a (E_Var v)))" "\<not> error_in (snd (expressionType a e))"
    "fst (expressionType a (E_Var v)) = T_Void \<or> fst (expressionType a (E_Var v)) = fst (expressionType a e)"
    using ok by (auto simp: assignment_reports_def split: prod.splits if_splits)
  have void: "fst (expressionType a (E_Var v)) \<noteq> T_Void"
    using ok(1) lookup_related [OF r] by (cases v) (auto simp: variable_matches_def split: option.splits prod.splits if_splits)
  have "\<forall>x \<in> set [E_Var v, e]. \<not> error_in (snd (expressionType a x))" using ok by simp
  from built_list [OF r this] obtain x y where xy: "build_exprs [E_Var v, e] b = ([x, y], b)"
    "ex_type x = scalar_of (fst (expressionType a (E_Var v)))" "ex_composite x = []"
    "ex_type y = scalar_of (fst (expressionType a e))" "ex_composite y = []"
    "list_all expr_lexical [x, y] \<longrightarrow> operands_ok C G [x, y]"
    by (elim built_args_split) (auto simp: list_all2_Cons2)
  have "is_lvalue x" using build_var_lvalue [of v b] xy(1) by (auto split: prod.splits)
  then show ?thesis
    using xy ok(3) void by (intro outcome_simple [OF r related_emit, of _ SK_Assign "[]" "[]" "[x, y]" "[]" 0 False])
      (auto simp: plain_def ir_same_def intro: simple_assign)
qed

lemma condition_built:
  assumes r: "related a b C G" and ok: "\<not> error_in (requireConditionType a c)"
  obtains x where "build_expr c b = (x, b)" "ir_condition (ex_type x)" "expr_lexical x \<longrightarrow> typed C G x"
proof -
  have "\<not> error_in (snd (expressionType a c))" "fst (expressionType a c) = T_Boolean \<or> fst (expressionType a c) = T_Int"
    using ok by (auto simp: requireConditionType_def split: prod.splits if_splits)
  with built_expression(1) [OF r this(1)] that show ?thesis
    by (cases "build_expr c b") (auto simp: built_def ir_condition_def)
qed

lemma outcome_goto:
  assumes r: "related a b C G" and ok: "\<not> error_in (goto_reports a c l)" and "labelled a K"
  shows "passed_on C K G b (emit rs a) (build_stmt (S_Goto c l) b)"
proof -
  have l: "l \<in> po_labels K"
    using ok assms(3) by (auto simp: goto_reports_def labelled_def split: list.splits if_splits)
  show ?thesis
  proof (cases c)
    case None
    then show ?thesis
      using l by (intro outcome_simple [OF r related_emit, of _ SK_Goto l "[]" "[]" "[]" 0 False])
        (auto simp: build_option_def plain_def operands_ok_def intro: simple_goto)
  next
    case (Some e)
    then have "\<not> error_in (requireConditionType a e)" using ok by (simp add: goto_reports_def)
    then obtain x where "build_expr e b = (x, b)" "ir_condition (ex_type x)" "expr_lexical x \<longrightarrow> typed C G x"
      by (rule condition_built [OF r])
    then show ?thesis
      using l Some by (intro outcome_simple [OF r related_emit, of _ SK_Goto l "[]" "[x]" "[]" 0 False])
        (auto simp: build_option_def plain_def operands_ok_def intro: simple_goto_if)
  qed
qed

lemma outcome_read:
  assumes r: "related a b C G" and ok: "\<not> error_in (concat (map (read_reports a) vs))"
  shows "passed_on C K G b (emit rs a) (build_stmt (S_Read vs) b)"
proof -
  have ok: "\<forall>e \<in> set (map E_Var vs). \<not> error_in (snd (expressionType a e))"
    using ok by (auto simp: read_reports_def case_prod_beta)
  obtain es where es: "build_exprs (map E_Var vs) b = (es, b)" "list_all expr_lexical es \<longrightarrow> operands_ok C G es"
    using built_list [OF r ok] by (elim built_args_split) blast
  have "list_all is_lvalue (fst (build_exprs (map E_Var vs) b))"
    using build_var_lvalue by (induction vs arbitrary: b) (simp_all add: case_prod_beta)
  then show ?thesis
    using es by (intro outcome_simple [OF r related_emit, of _ SK_Read "[]" "[]" es "[]" 0 False])
      (auto simp: build_vars_exprs plain_def intro: simple_read)
qed

lemma outcome_print:
  assumes r: "related a b C G" and ok: "\<not> error_in (concat (map (print_reports a) ps))"
  shows "passed_on C K G b (emit rs a) (build_stmt (S_Print ps) b)"
proof -
  have p: "\<not> error_in (snd (expressionType a (printable p))) \<and> fst (expressionType a (printable p)) \<noteq> T_Void" if "p \<in> set ps" for p
    using ok that by (cases p) (auto simp: case_prod_beta)
  then have ok: "\<forall>e \<in> set (map printable ps). \<not> error_in (snd (expressionType a e))" by simp
  obtain es where es: "build_exprs (map printable ps) b = (es, b)" "list_all expr_lexical es \<longrightarrow> operands_ok C G es"
    "list_all2 (\<lambda>e t. ex_type e = scalar_of t \<and> ex_composite e = []) es (map (\<lambda>e. fst (expressionType a e)) (map printable ps))"
    using built_list [OF r ok] by (elim built_args_split) blast
  have "list_all (\<lambda>e. ir_scalar (ex_type e)) es"
  proof -
    have "ir_scalar (ex_type e)" if "ex_type e = scalar_of t" "t \<noteq> T_Void" for e t
      using that by (cases t) (simp_all add: ir_scalar_def)
    then show ?thesis
      using es(3) p by (auto simp: list_all2_conv_all_nth list_all_length)
  qed
  then show ?thesis
    using es by (intro outcome_simple [OF r related_emit, of _ SK_Print "[]" "[]" es "[]" 0 False])
      (auto simp: plain_def intro: simple_print)
qed

lemma outcome_return:
  assumes r: "related a b C G" and ok: "\<not> error_in (return_reports a e)" and pl: "placed a K"
  shows "passed_on C K G b (emit rs a) (build_stmt (S_Return e) b)"
proof -
  obtain t ts where t: "an_return_types a = t # ts" using ok by (auto simp: return_reports_def split: list.splits)
  then have K: "po_result K = scalar_of t" "po_result_composite K = []" using pl by (simp_all add: placed_def)
  show ?thesis
  proof (cases e)
    case None
    then have "t = T_Void" using ok t by (auto simp: return_reports_def)
    then show ?thesis
      using None K by (intro outcome_simple [OF r related_emit, of _ SK_Return "[]" "[]" "[]" "[]" 0 False])
        (auto simp: build_option_def plain_def operands_ok_def intro: simple_return_void)
  next
    case (Some x)
    have x: "t \<noteq> T_Void" "\<not> error_in (snd (expressionType a x))" "fst (expressionType a x) = t"
      using ok by (auto simp: Some t return_reports_def case_prod_beta split: if_splits)
    obtain y where "build_expr x b = (y, b)" "ex_type y = scalar_of t" "ex_composite y = []" "expr_lexical y \<longrightarrow> typed C G y"
      using built_expression(1) [OF r x(2)] x(3) by (cases "build_expr x b") (auto simp: built_def)
    moreover have "po_result K \<noteq> ST_Void" using K x(1) by simp
    ultimately show ?thesis
      using Some K by (intro outcome_simple [OF r related_emit, of _ SK_Return "[]" "[]" "[y]" "[]" 0 False])
        (auto simp: build_option_def plain_def operands_ok_def intro!: simple_return)
  qed
qed

lemma all_int_built:
  assumes r: "related a b C G" and ok: "\<not> error_in (all_int a es (err code msg))"
  obtains xs where "build_exprs es b = (xs, b)" "length xs = length es" "list_all (\<lambda>x. ex_type x = ST_Int32) xs"
    "list_all expr_lexical xs \<longrightarrow> operands_ok C G xs"
proof -
  have e: "\<forall>e \<in> set es. \<not> error_in (snd (expressionType a e))" "\<forall>e \<in> set es. fst (expressionType a e) = T_Int"
    using ok by (auto simp: all_int_def list_ex_iff)
  obtain xs where xs: "build_exprs es b = (xs, b)" "list_all expr_lexical xs \<longrightarrow> operands_ok C G xs"
    "list_all2 (\<lambda>x t. ex_type x = scalar_of t \<and> ex_composite x = []) xs (map (\<lambda>e. fst (expressionType a e)) es)"
    using built_list [OF r e(1)] by (elim built_args_split) blast
  moreover have "length xs = length es" "list_all (\<lambda>x. ex_type x = ST_Int32) xs"
    using xs(3) e(2) by (auto simp: list_all2_conv_all_nth list_all_length)
  ultimately show ?thesis using that by blast
qed

lemma outcome_report:
  assumes r: "related a b C G" and ok: "\<not> error_in (all_int a [x, y, z] (err code msg))"
  shows "passed_on C K G b (emit rs a) (build_stmt (S_GreenReport n x y z) b)"
proof -
  obtain xs where xs: "build_exprs [x, y, z] b = (xs, b)" "length xs = length [x, y, z]" "list_all (\<lambda>x. ex_type x = ST_Int32) xs"
    "list_all expr_lexical xs \<longrightarrow> operands_ok C G xs"
    by (rule all_int_built [OF r ok])
  have "\<exists>p q r. xs = [p, q, r]" using xs(2) by (simp add: length_three flip: numeral_3_eq_3)
  then show ?thesis
    using xs by (intro outcome_simple [OF r related_emit, of _ SK_GreenReport n "[]" xs "[]" 0 False])
      (auto simp: plain_def intro: simple_report)
qed

lemma build_backends_state:
  "\<exists>e. snd (build_backends bs b) = b\<lparr>bu_error := e\<rparr> \<and> error_kept b (b\<lparr>bu_error := e\<rparr>)"
proof (induction bs arbitrary: b)
  case Nil
  show ?case by (intro exI [of _ "bu_error b"]) simp
next
  case (Cons k bs)
  show ?case
  proof (cases "sir_backend k")
    case None
    let ?b = "b\<lparr>bu_error := ''unknown SemanticIR backend: '' @ k\<rparr>"
    obtain e where "snd (build_backends bs ?b) = ?b\<lparr>bu_error := e\<rparr>" "error_kept ?b (?b\<lparr>bu_error := e\<rparr>)" using Cons.IH by blast
    then show ?thesis using None by (auto simp: error_kept_def)
  next
    case (Some x)
    then show ?thesis using Cons.IH [of b] by (auto simp: case_prod_beta)
  qed
qed

text \<open>A statement that only adds a declaration to a table.\<close>

lemma outcome_indexed:
  assumes r: "related a b C G" and "related a' b C G = related a b C G" and "fst x = indexed k (table_size (bu_result b) k)"
    and "bu_globals (snd x) = bu_globals b" "bu_returns (snd x) = bu_returns b" "bu_scopes (snd x) = bu_scopes b"
    and "error_kept b (snd x)" and "table_size (bu_result b) k < table_size (bu_result (snd x)) k"
    and "tables_le (bu_result (snd x)) (ty_program C)"
  shows "passed_on C K G b a' x"
proof -
  have "table_size (bu_result b) k < table_size (ty_program C) k"
    using assms(8,9) unfolding tables_le_def by (meson less_le_trans)
  then have "stmt_typed C K G (fst x) G"
    unfolding assms(3) indexed_def by (intro typed_simple simple_indexed) (simp_all add: operands_ok_def)
  moreover have "related a' (snd x) C G" using assms(1,2) related_builder [OF assms(4-6)] by blast
  ultimately show ?thesis using assms(7) unfolding passed_on_def by blast
qed

lemma outcome_model:
  assumes "related a b C G" "tables_le (bu_result (snd (add_model d b))) (ty_program C)"
  shows "passed_on C K G b (sem_model d a) (build_stmt (S_Model d) b)"
proof -
  have rel: "related (sem_model d a) b C G = related a b C G"
    by (rule related_analyzer) (simp_all add: sem_model_def same_signatures_def)
  obtain ks e where e: "build_backends (md_backend_preference d) b = (ks, b\<lparr>bu_error := e\<rparr>)" "error_kept b (b\<lparr>bu_error := e\<rparr>)"
    using build_backends_state [of "md_backend_preference d" b] by (cases "build_backends (md_backend_preference d) b") auto
  have "error_kept b (snd (add_model d b))"
    using e by (simp add: add_model_def error_kept_def)
  then show ?thesis
    using e assms(2) by (intro outcome_indexed [OF assms(1) rel, where k = SK_Model]) (simp_all add: add_model_def)
qed

lemma outcome_tensor:
  assumes "related a b C G" "tables_le (bu_result (snd (add_tensor t b))) (ty_program C)"
  shows "passed_on C K G b (sem_tensor t a) (build_stmt (S_Tensor t) b)"
proof -
  have rel: "related (sem_tensor t a) b C G = related a b C G"
    by (rule related_analyzer) (simp_all add: sem_tensor_def same_signatures_def)
  show ?thesis
    using assms(2) by (intro outcome_indexed [OF assms(1) rel, where k = SK_Tensor]) (simp_all add: add_tensor_def)
qed

lemma outcome_contract:
  assumes "related a b C G" "tables_le (bu_result (snd (add_contract c b))) (ty_program C)"
  shows "passed_on C K G b (sem_contract c a) (build_stmt (S_Contract c) b)"
proof -
  have rel: "related (sem_contract c a) b C G = related a b C G"
    by (rule related_analyzer) (simp_all add: sem_contract_def same_signatures_def)
  show ?thesis
    using assms(2) by (intro outcome_indexed [OF assms(1) rel, where k = SK_Contract]) (simp_all add: add_contract_def)
qed

lemma outcome_measurement:
  assumes "related a b C G" "tables_le (bu_result (snd (add_measurement m b))) (ty_program C)"
  shows "passed_on C K G b (sem_measurement m a) (build_stmt (S_Measure m) b)"
proof -
  have rel: "related (sem_measurement m a) b C G = related a b C G"
    by (rule related_analyzer) (simp_all add: sem_measurement_def same_signatures_def)
  show ?thesis
    using assms(2) by (intro outcome_indexed [OF assms(1) rel, where k = SK_Measurement]) (simp_all add: add_measurement_def)
qed

lemma outcome_inference:
  assumes "related a b C G" "tables_le (bu_result (snd (add_inference x y z b))) (ty_program C)"
  shows "passed_on C K G b (sem_infer x y z a) (build_stmt (S_Infer x y z) b)"
proof -
  have rel: "related (sem_infer x y z a) b C G = related a b C G"
    by (rule related_analyzer) (simp_all add: sem_infer_def same_signatures_def)
  show ?thesis
    using assms(2) by (intro outcome_indexed [OF assms(1) rel, where k = SK_Infer]) (simp_all add: add_inference_def)
qed

lemma declared_variables:
  assumes "list_all2 same_declaration ds vs" "list_all variable_lexical vs"
  shows "list_all (ir_variable cs) vs"
proof -
  have "ir_variable cs v" if "same_declaration d v" "variable_lexical v" for d v
    using that value_scalar_of [of "vi_type (snd d)" cs]
    by (auto simp: same_declaration_def variable_matches_def variable_lexical_def ir_variable_def)
  with assms show ?thesis by (induction rule: list_all2_induct) (auto simp del: split_paired_All split_paired_all)
qed

lemma outcome_declare:
  assumes r: "related a b C G" and ne: "an_local_scopes a \<noteq> []" and ok: "\<not> errs (sem_declarations d a)"
  shows "passed_on C K G b (sem_declarations d a) (build_stmt (S_Decl d) b)"
proof -
  obtain sa as where sa: "an_local_scopes a = sa # as" using ne by (cases "an_local_scopes a") auto
  then obtain sg gs where G: "G = sg # gs" "scope_matches sa sg" "list_all2 scope_matches as gs"
    using r by (auto simp: related_def list_all2_Cons1)
  note same = declarations_same [OF ok]
  have dn: "\<not> error_in (snd (declare_names (declared d) sa))"
    using ok sa by (auto simp: sem_declarations_def declareInCurrentScope_def Let_def split: prod.splits)
  note dec = declare_names_same [OF same G(2) dn]
  have scopes: "an_local_scopes (sem_declarations d a) = fst (declare_names (declared d) sa) # as"
    using sa by (auto simp: sem_declarations_def declareInCurrentScope_def Let_def split: prod.splits)
  have "signatures_match a b C" "bu_scopes b = types_of sg # map types_of gs"
    using r G(1) by (simp_all add: related_def)
  then have "signatures_match (sem_declarations d a) (declare_scope (declarations d) b) C"
    using signatures_match_same [OF context_signatures [OF context_declarations]]
      signatures_match_builder [of "declare_scope (declarations d) b" b] by (simp add: declare_scope_def)
  moreover have "bu_scopes (declare_scope (declarations d) b) = map types_of (add_variables (declarations d) G)"
    using \<open>bu_scopes b = _\<close> by (simp add: declare_scope_def add_variables_def G(1) types_of_fold)
  ultimately have "related (sem_declarations d a) (declare_scope (declarations d) b) C (add_variables (declarations d) G)"
    using dec G(3) unfolding related_def scopes by (simp add: add_variables_def G(1))
  moreover have "new_variables C (declarations d) G" if "list_all variable_lexical (declarations d)"
    using dec declared_variables [OF same that] G(1) by (simp add: new_variables_def)
  then have "stmt_lexical (fst (build_stmt (S_Decl d) b)) \<longrightarrow>
      stmt_typed C K G (fst (build_stmt (S_Decl d) b)) (add_variables (declarations d) G)"
    by (auto simp: operands_ok_def intro!: typed_simple simple_declare)
  ultimately show ?thesis
    unfolding passed_on_def by (intro exI [of _ "add_variables (declarations d) G"]) (simp add: error_kept_def declare_scope_def)
qed

subsection \<open>Blocks\<close>

fun ast_labels :: "AST_STATEMENT list \<Rightarrow> string list" where
  "ast_labels [] = []"
| "ast_labels (S_Label l # ss) = l # ast_labels ss"
| "ast_labels (_ # ss) = ast_labels ss"

lemma label_reports_distinct:
  "snd (label_reports ss ls) = ls \<union> set (ast_labels ss)"
  "\<not> error_in (fst (label_reports ss ls)) \<Longrightarrow> distinct (ast_labels ss) \<and> set (ast_labels ss) \<inter> ls = {}"
  by (induction ss ls rule: label_reports.induct) (auto simp: case_prod_beta split: if_splits)

lemma built_label: "st_kind (fst (build_stmt st b)) = SK_Label \<longleftrightarrow> (\<exists>l. st = S_Label l)" "build_stmt (S_Label l) b = (plain SK_Label l [], b)"
proof -
  have "st_kind (fst (build_block bl b)) = SK_Block" for bl
    by (cases bl) (simp add: case_prod_beta)
  then show "st_kind (fst (build_stmt st b)) = SK_Label \<longleftrightarrow> (\<exists>l. st = S_Label l)"
    by (cases st) (auto simp: case_prod_beta plain_def nested_def indexed_def add_model_def add_tensor_def add_contract_def
        add_measurement_def add_inference_def)
qed simp

lemma built_labels: "labels_of (fst (build_stmts ss b)) = ast_labels ss"
proof (induction ss arbitrary: b)
  case (Cons st ss)
  show ?case
  proof (cases "\<exists>l. st = S_Label l")
    case True
    then show ?thesis using Cons by (auto simp: labels_of_def plain_def case_prod_beta)
  next
    case False
    then have "ast_labels (st # ss) = ast_labels ss" by (cases st) auto
    then show ?thesis using Cons False built_label(1) [of st b] by (auto simp: labels_of_def case_prod_beta)
  qed
qed (simp add: labels_of_def)

lemma lexical_labels: "list_all stmt_lexical sts \<Longrightarrow> list_all is_identifier (labels_of sts)"
proof (induction sts)
  case (Cons st sts)
  then show ?case by (cases st) (auto simp: labels_of_def)
qed (simp add: labels_of_def)

text \<open>Building an expression changes nothing but the error; building a statement only extends the tables.\<close>

lemma build_expr_result:
  "bu_result (snd (build_expr e b)) = bu_result b" "bu_result (snd (build_var v b)) = bu_result b" "bu_result (snd (build_exprs es b)) = bu_result b"
  by (induction e b and v b and es b rule: build_expr_build_var_build_exprs.induct)
    (auto simp: call_type_def variableType_def split: option.splits prod.splits)

lemma build_vars_result: "bu_result (snd (build_vars vs b)) = bu_result b"
  by (simp add: build_vars_exprs build_expr_result)

lemma build_option_result: "bu_result (snd (build_option e b)) = bu_result b"
  by (cases e) (simp_all add: build_option_def build_expr_result del: build_exprs.simps)

lemma tables_le_refl [simp]: "tables_le p p"
  by (simp add: tables_le_def)

lemma tables_le_trans: "tables_le p q \<Longrightarrow> tables_le q r \<Longrightarrow> tables_le p r"
  by (auto simp: tables_le_def intro: order_trans)

lemma add_tables:
  "tables_le (bu_result b) (bu_result (snd (add_model d b)))" "tables_le (bu_result b) (bu_result (snd (add_tensor t b)))"
  "tables_le (bu_result b) (bu_result (snd (add_contract c b)))" "tables_le (bu_result b) (bu_result (snd (add_measurement m b)))"
  "tables_le (bu_result b) (bu_result (snd (add_inference x y z b)))"
proof -
  obtain ks e where e: "build_backends (md_backend_preference d) b = (ks, b\<lparr>bu_error := e\<rparr>)"
    using build_backends_state [of "md_backend_preference d" b] by (cases "build_backends (md_backend_preference d) b") auto
  have le: "tables_le p q" if "length (ir_models p) \<le> length (ir_models q)" "length (ir_tensors p) \<le> length (ir_tensors q)"
    "length (ir_inferences p) \<le> length (ir_inferences q)" "length (ir_contracts p) \<le> length (ir_contracts q)"
    "length (ir_measurements p) \<le> length (ir_measurements q)" for p q
    unfolding tables_le_def
  proof
    fix k show "table_size p k \<le> table_size q k" using that by (cases k) simp_all
  qed
  show "tables_le (bu_result b) (bu_result (snd (add_model d b)))" "tables_le (bu_result b) (bu_result (snd (add_tensor t b)))"
  "tables_le (bu_result b) (bu_result (snd (add_contract c b)))" "tables_le (bu_result b) (bu_result (snd (add_measurement m b)))"
  "tables_le (bu_result b) (bu_result (snd (add_inference x y z b)))"
    by (rule le; simp add: add_model_def e add_tensor_def add_contract_def add_measurement_def add_inference_def)+
qed

lemma scope_result [simp]: "bu_result (builder_push b) = bu_result b" "bu_result (builder_pop b) = bu_result b"
  "bu_result (declare_scope vs b) = bu_result b"
  by (simp_all add: builder_push_def builder_pop_def declare_scope_def)

lemma build_tables:
  "tables_le (bu_result b) (bu_result (snd (build_stmt st b)))" "tables_le (bu_result b) (bu_result (snd (build_block bl b)))"
  "tables_le (bu_result b) (bu_result (snd (build_stmts ss b)))"
proof (induction st b and bl b and ss b rule: build_stmt_build_block_build_stmts.induct)
  case (6 c bl s)
  then show ?case using build_expr_result(3) [of "[c]" s] by (cases "build_exprs [c] s") (simp del: build_exprs.simps add: case_prod_beta)
next
  case (7 c b1 b2 s)
  then show ?case using build_expr_result(3) [of "[c]" s]
    by (cases "build_exprs [c] s") (auto simp del: build_exprs.simps split: prod.splits intro: tables_le_trans)
next
  case (8 v b st e body s)
  then show ?case using build_expr_result(3) [of "[E_Var v, b, st, e]" s]
    by (cases "build_exprs [E_Var v, b, st, e] s") (simp del: build_exprs.simps add: case_prod_beta)
next
  case (9 c body s)
  then show ?case using build_expr_result(3) [of "[c]" s] by (cases "build_exprs [c] s") (simp del: build_exprs.simps add: case_prod_beta)
next
  case (27 st sts s)
  then show ?case by (auto split: prod.splits intro: tables_le_trans)
qed (auto simp: case_prod_beta build_expr_result build_vars_result build_option_result add_tables call_type_def
      simp del: build_exprs.simps split: option.splits if_splits)

text \<open>What is shown of a statement, a block and a sequence of statements.\<close>

definition stmt_pipe :: "AST_STATEMENT \<Rightarrow> analyzer \<Rightarrow> bool" where
  "stmt_pipe st a = (\<forall>b C G K. related a b C G \<longrightarrow> an_local_scopes a \<noteq> [] \<longrightarrow> placed a K \<longrightarrow> labelled a K \<longrightarrow>
     set (ast_labels [st]) \<subseteq> po_labels K \<longrightarrow>
     \<not> errs (sem_statement st a) \<longrightarrow> tables_le (bu_result (snd (build_stmt st b))) (ty_program C) \<longrightarrow>
     passed_on C K G b (sem_statement st a) (build_stmt st b))"

definition block_pipe :: "AST_BLOCK \<Rightarrow> analyzer \<Rightarrow> bool" where
  "block_pipe bl a = (\<forall>b C G K. related a b C G \<longrightarrow> an_local_scopes a \<noteq> [] \<longrightarrow> placed a K \<longrightarrow>
     \<not> errs (sem_block bl a) \<longrightarrow> tables_le (bu_result (snd (build_block bl b))) (ty_program C) \<longrightarrow>
     passed_on C K G b (sem_block bl a) (build_block bl b))"

definition seq_pipe :: "AST_STATEMENT list \<Rightarrow> nat \<Rightarrow> AST_STATEMENT list \<Rightarrow> analyzer \<Rightarrow> bool" where
  "seq_pipe all i ss a = (\<forall>b C G K. related a b C G \<longrightarrow> an_local_scopes a \<noteq> [] \<longrightarrow> placed a K \<longrightarrow> labelled a K \<longrightarrow>
     set (ast_labels ss) \<subseteq> po_labels K \<longrightarrow>
     \<not> errs (sem_statements all i ss a) \<longrightarrow> tables_le (bu_result (snd (build_stmts ss b))) (ty_program C) \<longrightarrow>
     (\<exists>G'. related (sem_statements all i ss a) (snd (build_stmts ss b)) C G' \<and> error_kept b (snd (build_stmts ss b)) \<and>
       (list_all stmt_lexical (fst (build_stmts ss b)) \<longrightarrow> seq_typed C K G (fst (build_stmts ss b)) G')))"

lemma placed_context: "context_kept a a' \<Longrightarrow> placed a' K = placed a K" "context_kept a a' \<Longrightarrow> labelled a' K = labelled a K"
  by (simp_all add: placed_def labelled_def context_kept_def)

lemma placed_emit [simp]: "placed (emit rs a) K = placed a K" "labelled (emit rs a) K = labelled a K"
  using placed_context [OF context_emit] by simp_all

lemma scopes_context: "context_kept a a' \<Longrightarrow> an_local_scopes a \<noteq> [] \<Longrightarrow> an_local_scopes a' \<noteq> []"
  by (simp add: context_kept_def)

lemma seq_pipe_cons:
  assumes st: "stmt_pipe st (emit (jump_reports all i st) a)"
    and ss: "seq_pipe all (i + 1) ss (sem_statement st (emit (jump_reports all i st) a))"
  shows "seq_pipe all i (st # ss) a"
  unfolding seq_pipe_def
proof (intro allI impI)
  fix b C G K
  let ?a = "emit (jump_reports all i st) a"
  assume h: "related a b C G" "an_local_scopes a \<noteq> []" "placed a K" "labelled a K" "set (ast_labels (st # ss)) \<subseteq> po_labels K"
    "\<not> errs (sem_statements all i (st # ss) a)" "tables_le (bu_result (snd (build_stmts (st # ss) b))) (ty_program C)"
  have ls: "set (ast_labels [st]) \<subseteq> po_labels K" "set (ast_labels ss) \<subseteq> po_labels K"
    using h(5) by (cases st; simp)+
  obtain x b1 where x: "build_stmt st b = (x, b1)" by (cases "build_stmt st b")
  obtain xs b2 where xs: "build_stmts ss b1 = (xs, b2)" by (cases "build_stmts ss b1")
  have le: "tables_le (bu_result b2) (ty_program C)" "tables_le (bu_result b1) (ty_program C)"
    using h(7) build_tables(3) [of b1 ss] tables_le_trans by (auto simp: x xs)
  have ok: "\<not> errs (sem_statement st ?a)" using h(6) errs_statements by auto
  have "passed_on C K G b (sem_statement st ?a) (x, b1)"
    using st h ls le ok unfolding stmt_pipe_def by (metis related_emit placed_emit emit_simps(10) x snd_conv)
  then obtain G1 where G1: "related (sem_statement st ?a) b1 C G1" "error_kept b b1" "stmt_lexical x \<longrightarrow> stmt_typed C K G x G1"
    by (auto simp: passed_on_def)
  have c: "context_kept ?a (sem_statement st ?a)" by (rule context_statement)
  have "placed (sem_statement st ?a) K" "labelled (sem_statement st ?a) K" "an_local_scopes (sem_statement st ?a) \<noteq> []"
    using h placed_context [OF c] scopes_context [OF c] by simp_all
  then obtain G2 where "related (sem_statements all (i + 1) ss (sem_statement st ?a)) b2 C G2" "error_kept b1 b2"
    "list_all stmt_lexical xs \<longrightarrow> seq_typed C K G1 xs G2"
    using ss G1(1) h(6) ls le(1) unfolding seq_pipe_def by (metis sem_statements.simps(2) xs fst_conv snd_conv)
  then show "\<exists>G'. related (sem_statements all i (st # ss) a) (snd (build_stmts (st # ss) b)) C G' \<and>
      error_kept b (snd (build_stmts (st # ss) b)) \<and>
      (list_all stmt_lexical (fst (build_stmts (st # ss) b)) \<longrightarrow> seq_typed C K G (fst (build_stmts (st # ss) b)) G')"
    using G1(2,3) error_kept_trans by (intro exI [of _ G2]) (auto simp: x xs)
qed

lemma list_all2_tl: "list_all2 P xs ys \<Longrightarrow> list_all2 P (tl xs) (tl ys)"
  by (cases xs; cases ys) simp_all

lemma block_pipe_block:
  assumes ss: "seq_pipe ss 0 ss (enter_block l ss a)"
  shows "block_pipe (Block l ss) a"
  unfolding block_pipe_def
proof (intro allI impI)
  fix b C G K
  assume h: "related a b C G" "an_local_scopes a \<noteq> []" "placed a K" "\<not> errs (sem_block (Block l ss) a)"
    "tables_le (bu_result (snd (build_block (Block l ss) b))) (ty_program C)"
  let ?a = "enter_block l ss a" and ?b = "if l then builder_push b else b" and ?G = "if l then Map.empty # G else G"
    and ?K = "K\<lparr>po_labels := set (ast_labels ss)\<rparr>"
  obtain xs b1 where xs: "build_stmts ss ?b = (xs, b1)" by (cases "build_stmts ss ?b")
  have ok: "\<not> errs (sem_statements ss 0 ss ?a)" using h(4) by simp
  then have "\<not> errs ?a" using errs_statements by blast
  then have lab: "\<not> error_in (fst (label_reports ss {}))"
    by (auto simp: enter_block_def Let_def case_prod_beta split: if_splits)
  have a: "an_local_scopes ?a = (if l then Map.empty # an_local_scopes a else an_local_scopes a)" "same_signatures a ?a"
    "placed ?a ?K" "labelled ?a ?K"
    using h(3) label_reports_distinct(1) [of ss "{}"]
    by (auto simp: enter_block_def Let_def case_prod_beta same_signatures_def placed_def labelled_def)
  have "signatures_match ?a ?b C"
    using h(1) signatures_match_same [OF a(2)] signatures_match_builder [of ?b b] by (simp add: related_def builder_push_def)
  moreover have "scope_matches Map.empty Map.empty" "types_of Map.empty = Map.empty"
    by (simp_all add: scope_matches_def types_of_def fun_eq_iff)
  ultimately have rel: "related ?a ?b C ?G"
    using h(1) a(1) by (simp add: related_def builder_push_def)
  have le: "tables_le (bu_result b1) (ty_program C)" using h(5) xs by (auto split: if_splits)
  have "error_kept b ?b" by (simp add: builder_push_def)
  obtain G1 where G1: "related (sem_statements ss 0 ss ?a) b1 C G1" "error_kept ?b b1"
    "list_all stmt_lexical xs \<longrightarrow> seq_typed C ?K ?G xs G1"
  proof -
    have "set (ast_labels ss) \<subseteq> po_labels ?K" "an_local_scopes ?a \<noteq> []" using a(1) h(2) by simp_all
    then show ?thesis using that ss rel a(3,4) ok le unfolding seq_pipe_def by (metis xs fst_conv snd_conv)
  qed
  let ?a' = "sem_statements ss 0 ss ?a" and ?b' = "if l then builder_pop b1 else b1" and ?G' = "if l then tl G1 else G1"
  have sig: "same_signatures ?a' (leave_block l ?a')" "an_local_scopes (leave_block l ?a') = (if l then tl (an_local_scopes ?a') else an_local_scopes ?a')"
    by (simp_all add: leave_block_def Let_def same_signatures_def)
  have "signatures_match (leave_block l ?a') ?b' C"
    using G1(1) signatures_match_same [OF sig(1)] signatures_match_builder [of ?b' b1] by (simp add: related_def builder_pop_def)
  then have "related (sem_block (Block l ss) a) ?b' C ?G'"
    using G1(1) by (auto simp: related_def sig(2) builder_pop_def map_tl intro: list_all2_tl)
  moreover have "error_kept b ?b'" using G1(2) \<open>error_kept b ?b\<close> by (auto simp: error_kept_def builder_pop_def builder_push_def split: if_splits)
  moreover have labs: "labels_of xs = ast_labels ss" using built_labels [of ss ?b] by (simp add: xs)
  have "stmt_typed C K G (Statement SK_Block [] [] [] [] xs [] 0 l) ?G'" if "list_all stmt_lexical xs"
    using G1(3) that lexical_labels [OF that] label_reports_distinct(2) [OF lab] unfolding labs [symmetric]
    by (intro typed_block) (auto simp: labs)
  ultimately show "passed_on C K G b (sem_block (Block l ss) a) (build_block (Block l ss) b)"
    by (auto simp: passed_on_def xs has_body_def intro!: exI [of _ ?G'])
qed

lemma block_outcome:
  assumes "block_pipe bl a" "related a b C G" "an_local_scopes a \<noteq> []" "placed a K" "\<not> errs (sem_block bl a)"
    "tables_le (bu_result (snd (build_block bl b))) (ty_program C)"
  obtains x b' G' where "build_block bl b = (x, b')" "related (sem_block bl a) b' C G'" "error_kept b b'"
    "stmt_lexical x \<longrightarrow> stmt_typed C K G x G'"
  using assms unfolding block_pipe_def passed_on_def by (metis prod.collapse)

lemma outcome_control:
  assumes k: "k = SK_If \<or> k = SK_While \<or> k = SK_For" and xs: "control_ok k xs" "list_all expr_lexical xs \<longrightarrow> operands_ok C G xs"
    and body: "block_pipe bl a" "related a b C G" "an_local_scopes a \<noteq> []" "placed a (looped k K)" "\<not> errs (sem_block bl a)"
    and le: "tables_le (bu_result (snd (build_block bl b))) (ty_program C)"
    and a': "same_signatures (sem_block bl a) a'" "an_local_scopes a' = an_local_scopes (sem_block bl a)"
  shows "passed_on C K G b a' (case build_block bl b of (x, s2) \<Rightarrow> (nested k xs [x] [], s2))"
proof -
  obtain x b' G' where x: "build_block bl b = (x, b')" "related (sem_block bl a) b' C G'" "error_kept b b'"
    "stmt_lexical x \<longrightarrow> stmt_typed C (looped k K) G x G'"
    using block_outcome [OF body le] by blast
  have "related a' b' C G'" using x(2) related_analyzer [OF a'] by blast
  moreover have "stmt_typed C K G (nested k xs [x] []) G'" if "stmt_lexical (nested k xs [x] [])"
    using that xs x(4) k unfolding nested_def control_typed [OF k] by (auto simp: has_body_def)
  ultimately show ?thesis using x(1,3) by (auto simp: passed_on_def)
qed

lemma placed_loop: "placed a K \<Longrightarrow> placed (deeper (emit rs a)) (looped SK_While K)" "placed a K \<Longrightarrow> placed (deeper (emit rs a)) (looped SK_For K)"
  by (simp_all add: placed_def deeper_def looped_def is_loop_def in_loop_def)

lemma related_deeper: "related (deeper (emit rs a)) b C G = related a b C G"
  by (rule related_analyzer) (simp_all add: deeper_def same_signatures_def)

lemma outcome_if:
  assumes r: "related a b C G" "an_local_scopes a \<noteq> []" "placed a K" and bl: "block_pipe bl (emit (requireConditionType a c) a)"
    and ok: "\<not> errs (sem_statement (S_If c bl) a)" and le: "tables_le (bu_result (snd (build_stmt (S_If c bl) b))) (ty_program C)"
  shows "passed_on C K G b (sem_statement (S_If c bl) a) (build_stmt (S_If c bl) b)"
proof -
  have "\<not> error_in (requireConditionType a c)" using ok errs_block by fastforce
  then obtain x where x: "build_expr c b = (x, b)" "ir_condition (ex_type x)" "expr_lexical x \<longrightarrow> typed C G x"
    by (rule condition_built [OF r(1)])
  have "passed_on C K G b (sem_statement (S_If c bl) a) (case build_block bl b of (y, s2) \<Rightarrow> (nested SK_If [x] [y] [], s2))"
    by (rule outcome_control [OF _ _ _ bl])
      (use r ok le x in \<open>simp_all add: control_ok_def operands_ok_def looped_def is_loop_def same_signatures_def case_prod_beta\<close>)
  then show ?thesis by (simp add: x)
qed

lemma outcome_while:
  assumes r: "related a b C G" "an_local_scopes a \<noteq> []" "placed a K" and bl: "block_pipe bl (deeper (emit (requireConditionType a c) a))"
    and ok: "\<not> errs (sem_statement (S_While c bl) a)" and le: "tables_le (bu_result (snd (build_stmt (S_While c bl) b))) (ty_program C)"
  shows "passed_on C K G b (sem_statement (S_While c bl) a) (build_stmt (S_While c bl) b)"
proof -
  have ok': "\<not> errs (sem_block bl (deeper (emit (requireConditionType a c) a)))" using ok by (simp add: shallower_def)
  then have "\<not> error_in (requireConditionType a c)" using errs_block by (fastforce simp: deeper_def)
  then obtain x where x: "build_expr c b = (x, b)" "ir_condition (ex_type x)" "expr_lexical x \<longrightarrow> typed C G x"
    by (rule condition_built [OF r(1)])
  have "passed_on C K G b (sem_statement (S_While c bl) a) (case build_block bl b of (y, s2) \<Rightarrow> (nested SK_While [x] [y] [], s2))"
    by (rule outcome_control [OF _ _ _ bl])
      (use r ok' le x in \<open>simp_all add: control_ok_def operands_ok_def placed_loop related_deeper same_signatures_def case_prod_beta shallower_def\<close>,
       simp add: deeper_def)
  then show ?thesis by (simp add: x)
qed

lemma outcome_for:
  assumes r: "related a b C G" "an_local_scopes a \<noteq> []" "placed a K"
    and bl: "block_pipe bl (deeper (emit (all_int a [E_Var v, e1, e2, e3] (err ''SHD3013'' msg)) a))"
    and m: "msg = ''counted loop variable, start, step and bound must all have type int''"
    and ok: "\<not> errs (sem_statement (S_For v e1 e2 e3 bl) a)"
    and le: "tables_le (bu_result (snd (build_stmt (S_For v e1 e2 e3 bl) b))) (ty_program C)"
  shows "passed_on C K G b (sem_statement (S_For v e1 e2 e3 bl) a) (build_stmt (S_For v e1 e2 e3 bl) b)"
proof -
  let ?es = "[E_Var v, e1, e2, e3]"
  have ok': "\<not> errs (sem_block bl (deeper (emit (all_int a ?es (err ''SHD3013'' msg)) a)))" using ok by (simp add: shallower_def m)
  then have "\<not> error_in (all_int a ?es (err ''SHD3013'' msg))" using errs_block by (fastforce simp: deeper_def)
  then obtain xs where xs: "build_exprs ?es b = (xs, b)" "length xs = length ?es" "list_all (\<lambda>x. ex_type x = ST_Int32) xs"
    "list_all expr_lexical xs \<longrightarrow> operands_ok C G xs"
    by (rule all_int_built [OF r(1)])
  have "is_lvalue (hd xs)" using build_var_lvalue [of v b] xs(1) by (auto simp: case_prod_beta)
  then have "control_ok SK_For xs" using xs by (simp add: control_ok_def)
  then have "passed_on C K G b (sem_statement (S_For v e1 e2 e3 bl) a) (case build_block bl b of (y, s2) \<Rightarrow> (nested SK_For xs [y] [], s2))"
    by (intro outcome_control [OF _ _ _ bl])
      (use r ok' le xs in \<open>simp_all add: placed_loop related_deeper same_signatures_def case_prod_beta shallower_def m del: build_exprs.simps\<close>,
       simp add: deeper_def)
  then show ?thesis by (simp add: xs(1) del: build_exprs.simps)
qed

lemma outcome_if_else:
  assumes r: "related a b C G" "an_local_scopes a \<noteq> []" "placed a K" and b1: "block_pipe b1 (emit (requireConditionType a c) a)"
    and b2: "block_pipe b2 (sem_block b1 (emit (requireConditionType a c) a))"
    and ok: "\<not> errs (sem_statement (S_IfElse c b1 b2) a)" and le: "tables_le (bu_result (snd (build_stmt (S_IfElse c b1 b2) b))) (ty_program C)"
  shows "passed_on C K G b (sem_statement (S_IfElse c b1 b2) a) (build_stmt (S_IfElse c b1 b2) b)"
proof -
  let ?a = "emit (requireConditionType a c) a"
  have ok1: "\<not> errs (sem_block b1 ?a)" "\<not> errs (sem_block b2 (sem_block b1 ?a))" using ok errs_block by auto
  then have "\<not> error_in (requireConditionType a c)" using errs_block by fastforce
  then obtain x where x: "build_expr c b = (x, b)" "ir_condition (ex_type x)" "expr_lexical x \<longrightarrow> typed C G x"
    by (rule condition_built [OF r(1)])
  obtain y c1 where y: "build_block b1 b = (y, c1)" by (cases "build_block b1 b")
  obtain z c2 where z: "build_block b2 c1 = (z, c2)" by (cases "build_block b2 c1")
  have le2: "tables_le (bu_result c2) (ty_program C)" "tables_le (bu_result c1) (ty_program C)"
    using le build_tables(2) [of c1 b2] tables_le_trans by (auto simp: x y z)
  obtain G1 where G1: "related (sem_block b1 ?a) c1 C G1" "error_kept b c1" "stmt_lexical y \<longrightarrow> stmt_typed C K G y G1"
    using block_outcome [OF b1, of b C G K] r ok1 le2 by (auto simp: y)
  have ctx: "context_kept ?a (sem_block b1 ?a)" by (rule context_block)
  have "placed (sem_block b1 ?a) K" "an_local_scopes (sem_block b1 ?a) \<noteq> []"
    using placed_context [OF ctx] scopes_context [OF ctx] r by simp_all
  then obtain G2 where G2: "related (sem_block b2 (sem_block b1 ?a)) c2 C G2" "error_kept c1 c2" "stmt_lexical z \<longrightarrow> stmt_typed C K G1 z G2"
    using block_outcome [OF b2 G1(1), of K] ok1 le2 by (auto simp: z)
  have "stmt_typed C K G (nested SK_If [x] [y] [z]) G2" if "stmt_lexical (nested SK_If [x] [y] [z])"
    unfolding nested_def by (rule typed_if) (use that x G1(3) G2(3) in \<open>auto simp: nested_def has_body_def\<close>)
  then show ?thesis
    using G2(1) error_kept_trans [OF G1(2) G2(2)] by (auto simp: passed_on_def x y z)
qed

lemma outcome_plain:
  assumes r: "related a b C G" and "related a' b C G = related a b C G" and "x = Statement k n strs [] vs [] [] d l"
    and "stmt_lexical x \<Longrightarrow> simple_typed C K G x G"
  shows "passed_on C K G b a' (x, b)"
  using assms by (intro outcome_simple [OF r, of a' _ k n strs "[]" vs d l]) (auto simp: operands_ok_def)

lemma related_c3eco: "related (sem_c3eco d a) b C G = related a b C G"
  by (rule related_analyzer) (simp_all add: sem_c3eco_def same_signatures_def)

lemma pipeline:
  "stmt_pipe st a" "block_pipe bl a" "seq_pipe all i ss a"
proof (induction st a and bl a and all i ss a rule: sem_statement_sem_block_sem_statements.induct)
  case (1 d a) show ?case unfolding stmt_pipe_def by (simp add: outcome_declare del: build_stmt.simps)
next
  case (2 e a)
  have "expression_statement_reports a e = snd (expressionType a e)"
    by (cases e) (simp_all add: validateCallTypes_def)
  then show ?case unfolding stmt_pipe_def by (simp add: outcome_expression del: build_stmt.simps)
next
  case (3 f vs a) show ?case unfolding stmt_pipe_def by (simp add: outcome_call del: build_stmt.simps)
next
  case (4 v e a) show ?case unfolding stmt_pipe_def by (simp add: outcome_assign del: build_stmt.simps)
next
  case (5 bl a) then show ?case unfolding stmt_pipe_def block_pipe_def by simp
next
  case (6 c bl a) then show ?case unfolding stmt_pipe_def using outcome_if by blast
next
  case (7 c b1 b2 a) then show ?case unfolding stmt_pipe_def using outcome_if_else by blast
next
  case (8 v e1 e2 e3 bl a) then show ?case unfolding stmt_pipe_def using outcome_for by blast
next
  case (9 c bl a) then show ?case unfolding stmt_pipe_def using outcome_while by blast
next
  case (10 c l a) show ?case unfolding stmt_pipe_def by (simp add: outcome_goto del: build_stmt.simps)
next
  case (11 vs a) show ?case unfolding stmt_pipe_def by (simp add: outcome_read del: build_stmt.simps error_in_concat)
next
  case (12 ps a) show ?case unfolding stmt_pipe_def by (simp add: outcome_print del: build_stmt.simps error_in_concat)
next
  case (13 l a) show ?case
    unfolding stmt_pipe_def by (auto simp: plain_def intro!: outcome_plain simple_label)
next
  case (14 w i p t a) show ?case unfolding stmt_pipe_def by (simp del: build_stmt.simps) (blast intro: outcome_report)
next
  case (15 m sh i a) show ?case unfolding stmt_pipe_def by (auto intro!: outcome_plain simple_legacy)
next
  case (16 d a) show ?case unfolding stmt_pipe_def using outcome_model by simp
next
  case (17 d a) show ?case unfolding stmt_pipe_def using outcome_tensor by simp
next
  case (18 d a) show ?case unfolding stmt_pipe_def using outcome_contract by simp
next
  case (19 d a) show ?case unfolding stmt_pipe_def using outcome_measurement by simp
next
  case (20 d a) show ?case unfolding stmt_pipe_def by (auto simp: related_c3eco intro!: outcome_plain simple_evidence)
next
  case (21 m i out a) show ?case unfolding stmt_pipe_def using outcome_inference by simp
next
  case (22 a) show ?case unfolding stmt_pipe_def by (auto simp: plain_def placed_def intro!: outcome_plain simple_break)
next
  case (23 a) show ?case unfolding stmt_pipe_def by (auto simp: plain_def placed_def intro!: outcome_plain simple_continue)
next
  case (24 e a) show ?case unfolding stmt_pipe_def by (simp add: outcome_return del: build_stmt.simps)
next
  case (25 l ss a) then show ?case by (rule block_pipe_block)
next
  case (26 all i a) show ?case unfolding seq_pipe_def by auto
next
  case (27 all i st ss a) then show ?case by (intro seq_pipe_cons)
qed

subsection \<open>Functions\<close>

text \<open>The parts of the result that statements do not touch.\<close>

definition fixed_part :: "ProgramIR \<Rightarrow> Composite list \<times> Variable list \<times> Function list" where
  "fixed_part p = (ir_composites p, ir_globals p, ir_functions p)"

lemma build_fixed:
  "fixed_part (bu_result (snd (build_stmt st b))) = fixed_part (bu_result b)"
  "fixed_part (bu_result (snd (build_block bl b))) = fixed_part (bu_result b)"
  "fixed_part (bu_result (snd (build_stmts ss b))) = fixed_part (bu_result b)"
proof (induction st b and bl b and ss b rule: build_stmt_build_block_build_stmts.induct)
  case (6 c bl s)
  then show ?case using build_expr_result(3) [of "[c]" s] by (cases "build_exprs [c] s") (simp del: build_exprs.simps add: case_prod_beta)
next
  case (7 c b1 b2 s)
  then show ?case using build_expr_result(3) [of "[c]" s]
    by (cases "build_exprs [c] s") (auto simp del: build_exprs.simps split: prod.splits)
next
  case (8 v b st e body s)
  then show ?case using build_expr_result(3) [of "[E_Var v, b, st, e]" s]
    by (cases "build_exprs [E_Var v, b, st, e] s") (simp del: build_exprs.simps add: case_prod_beta)
next
  case (9 c body s)
  then show ?case using build_expr_result(3) [of "[c]" s] by (cases "build_exprs [c] s") (simp del: build_exprs.simps add: case_prod_beta)
next
  case (16 d s)
  obtain ks e where e: "build_backends (md_backend_preference d) s = (ks, s\<lparr>bu_error := e\<rparr>)"
    using build_backends_state [of "md_backend_preference d" s] by (cases "build_backends (md_backend_preference d) s") auto
  then show ?case by (simp add: add_model_def fixed_part_def)
next
  case (27 st sts s)
  then show ?case by (auto split: prod.splits)
qed (auto simp: case_prod_beta build_expr_result build_vars_result build_option_result call_type_def
      add_tensor_def add_contract_def add_measurement_def add_inference_def fixed_part_def
      simp del: build_exprs.simps split: option.splits if_splits)

definition same_function :: "AST_FUNCTION \<Rightarrow> Function \<Rightarrow> bool" where
  "same_function f F = (fu_name F = fn_name f \<and> fu_result F = scalar_of (fn_type f) \<and> fu_result_composite F = [] \<and>
     fu_parameters F = declarations (fn_parameters f))"

definition function_lexical :: "Function \<Rightarrow> bool" where
  "function_lexical F = (list_all variable_lexical (fu_parameters F) \<and> stmt_lexical (fu_body F))"

lemma build_function_shape:
  "\<exists>F. same_function f F \<and> ir_functions (bu_result (build_function f b)) = ir_functions (bu_result b) @ [F] \<and>
     ir_globals (bu_result (build_function f b)) = ir_globals (bu_result b) \<and>
     ir_composites (bu_result (build_function f b)) = ir_composites (bu_result b)"
  "tables_le (bu_result b) (bu_result (build_function f b))"
proof -
  let ?b = "declare_scope (declarations (fn_parameters f)) (builder_push b)"
  obtain body b1 where body: "build_block (fn_block f) ?b = (body, b1)" by (cases "build_block (fn_block f) ?b")
  have "fixed_part (bu_result b1) = fixed_part (bu_result b)" "tables_le (bu_result b) (bu_result b1)"
    using build_fixed(2) [of "fn_block f" ?b] build_tables(2) [of ?b "fn_block f"] by (simp_all add: body)
  then show "\<exists>F. same_function f F \<and> ir_functions (bu_result (build_function f b)) = ir_functions (bu_result b) @ [F] \<and>
      ir_globals (bu_result (build_function f b)) = ir_globals (bu_result b) \<and>
      ir_composites (bu_result (build_function f b)) = ir_composites (bu_result b)"
    by (auto simp: build_function_def body same_function_def fixed_part_def Let_def)
  have "table_size (bu_result (build_function f b)) k = table_size (bu_result b1) k" for k
    by (cases k) (simp_all add: build_function_def body Let_def)
  then show "tables_le (bu_result b) (bu_result (build_function f b))"
    using \<open>tables_le (bu_result b) (bu_result b1)\<close> by (simp add: tables_le_def)
qed

lemma build_functions_shape:
  "\<exists>Fs. list_all2 same_function fs Fs \<and> ir_functions (bu_result (fold build_function fs b)) = ir_functions (bu_result b) @ Fs \<and>
     ir_globals (bu_result (fold build_function fs b)) = ir_globals (bu_result b) \<and>
     ir_composites (bu_result (fold build_function fs b)) = ir_composites (bu_result b)"
  "tables_le (bu_result b) (bu_result (fold build_function fs b))"
proof (induction fs arbitrary: b)
  case (Cons f fs)
  { case 1
    obtain F where F: "same_function f F" "ir_functions (bu_result (build_function f b)) = ir_functions (bu_result b) @ [F]"
      "ir_globals (bu_result (build_function f b)) = ir_globals (bu_result b)"
      "ir_composites (bu_result (build_function f b)) = ir_composites (bu_result b)"
      using build_function_shape(1) [of f b] by blast
    obtain Fs where "list_all2 same_function fs Fs"
      "ir_functions (bu_result (fold build_function fs (build_function f b))) = ir_functions (bu_result (build_function f b)) @ Fs"
      "ir_globals (bu_result (fold build_function fs (build_function f b))) = ir_globals (bu_result (build_function f b))"
      "ir_composites (bu_result (fold build_function fs (build_function f b))) = ir_composites (bu_result (build_function f b))"
      using Cons.IH(1) by blast
    then show ?case using F by (intro exI [of _ "F # Fs"]) simp
  next
    case 2
    show ?case using Cons.IH(2) [of "build_function f b"] build_function_shape(2) [of b f] tables_le_trans by auto }
qed simp_all

lemma enter_function_related:
  assumes sig: "signatures_match a b C" "bu_scopes b = []" "an_local_scopes a = []"
    and ok: "\<not> errs (sem_declarations (fn_parameters f) a)"
  defines "ps \<equiv> declarations (fn_parameters f)"
  shows "related (enter_function_scope f a) (declare_scope ps (builder_push b)) C (add_variables ps [Map.empty])"
    "list_all variable_lexical ps \<Longrightarrow> new_variables C ps [Map.empty]"
proof -
  note same = declarations_same [OF ok, folded ps_def]
  have "scope_matches Map.empty Map.empty" "types_of Map.empty = Map.empty"
    by (simp_all add: scope_matches_def types_of_def fun_eq_iff)
  moreover have "declare_names (declared (fn_parameters f)) Map.empty = (Map.empty ++ map_of (declared (fn_parameters f)), [])"
    using declarations_accepted(3) [OF ok] by (intro declare_names_distinct) simp_all
  ultimately have dec: "scope_matches (parameter_scope f) (fold (\<lambda>v m. m(va_name v \<mapsto> v)) ps Map.empty)" "distinct (map va_name ps)"
    "types_of (fold (\<lambda>v m. m(va_name v \<mapsto> v)) ps Map.empty) = fold (\<lambda>v m. m(va_name v \<mapsto> va_type v)) ps Map.empty"
    using declare_names_same [OF same, of Map.empty Map.empty] by (simp_all add: parameter_scope_def types_of_fold)
  have ctx: "context_kept a (sem_declarations (fn_parameters f) a)" by (rule context_declarations)
  have "same_signatures a (enter_function_scope f a)" "an_local_scopes (enter_function_scope f a) = [parameter_scope f]"
    using ctx sig(3) by (simp_all add: enter_function_scope_def Let_def context_kept_def same_signatures_def)
  then have "signatures_match (enter_function_scope f a) (declare_scope ps (builder_push b)) C"
    using sig(1) signatures_match_same signatures_match_builder [of "declare_scope ps (builder_push b)" b]
    by (simp add: declare_scope_def builder_push_def)
  then show "related (enter_function_scope f a) (declare_scope ps (builder_push b)) C (add_variables ps [Map.empty])"
    using dec sig(2) \<open>an_local_scopes (enter_function_scope f a) = _\<close>
    by (simp add: related_def add_variables_def declare_scope_def builder_push_def)
  show "new_variables C ps [Map.empty]" if "list_all variable_lexical ps"
    using declared_variables [OF same that] dec(2) by (simp add: new_variables_def list_all_iff)
qed

lemma function_built:
  assumes sig: "signatures_match a b C" "bu_scopes b = []" "an_local_scopes a = []" and ok: "\<not> errs (sem_function f a)"
    and wf: "decl_wf (fn_parameters f)" and le: "tables_le (bu_result (build_function f b)) (ty_program C)"
  shows "signatures_match a (build_function f b) C" "bu_scopes (build_function f b) = []" "error_kept b (build_function f b)"
    "function_lexical (last (ir_functions (bu_result (build_function f b)))) \<Longrightarrow>
       function_typed C (last (ir_functions (bu_result (build_function f b))))"
proof -
  let ?ps = "declarations (fn_parameters f)" and ?K = "outermost (scalar_of (fn_type f)) []"
  let ?b = "declare_scope ?ps (builder_push b)" and ?a = "enter_function_scope f a" and ?G = "add_variables ?ps [Map.empty]"
  have blk: "\<not> errs (sem_block (fn_block f) ?a)" using ok by (auto simp: sem_function_def Let_def)
  then have "\<not> errs ?a" using errs_block by blast
  then have dec: "\<not> errs (sem_declarations (fn_parameters f) a)" "db_array_ints (fn_parameters f) = []"
    by (auto simp: enter_function_scope_def Let_def)
  then have scalar: "list_all (\<lambda>v. va_extent v = 0) ?ps"
    using wf by (simp add: declarations_def decl_wf_def list_all_iff)
  note rel = enter_function_related [OF sig dec(1)]
  obtain body b1 where body: "build_block (fn_block f) ?b = (body, b1)" by (cases "build_block (fn_block f) ?b")
  have "table_size (bu_result (build_function f b)) k = table_size (bu_result b1) k" for k
    by (cases k) (simp_all add: build_function_def body Let_def)
  then have le1: "tables_le (bu_result (snd (build_block (fn_block f) ?b))) (ty_program C)" using le by (simp add: tables_le_def body)
  have pl: "an_local_scopes ?a \<noteq> []" "placed ?a ?K"
    by (simp_all add: enter_function_scope_def Let_def placed_def outermost_def)
  obtain G' where G': "related (sem_block (fn_block f) ?a) b1 C G'" "error_kept ?b b1" "stmt_lexical body \<longrightarrow> stmt_typed C ?K ?G body G'"
    using block_outcome [OF pipeline(2) rel(1) pl blk le1] by (auto simp: body)
  have bf: "bu_globals (build_function f b) = bu_globals b1" "bu_returns (build_function f b) = bu_returns b1"
    "bu_scopes (build_function f b) = tl (bu_scopes b1)" "bu_error (build_function f b) = bu_error b1"
    by (simp_all add: build_function_def body Let_def builder_pop_def)
  have ctx: "context_kept ?a (sem_block (fn_block f) ?a)" by (rule context_block)
  have "same_signatures a (sem_block (fn_block f) ?a)"
    using ctx enter_scope_signatures [of a f] by (simp add: context_kept_def same_signatures_def)
  then show "signatures_match a (build_function f b) C"
    using G'(1) signatures_match_same signatures_match_builder [OF bf(1,2)] by (simp add: related_def)
  have "length (an_local_scopes (sem_block (fn_block f) ?a)) = 1"
  proof -
    have "an_local_scopes ?a = [parameter_scope f]"
      using context_declarations [of a "fn_parameters f"] sig(3) by (simp add: enter_function_scope_def Let_def context_kept_def)
    then show ?thesis using ctx by (cases "an_local_scopes (sem_block (fn_block f) ?a)") (simp_all add: context_kept_def)
  qed
  then have "length (bu_scopes b1) = 1" using G'(1) by (auto simp: related_def dest: list_all2_lengthD)
  then show "bu_scopes (build_function f b) = []" by (cases "bu_scopes b1") (simp_all add: bf)
  show "error_kept b (build_function f b)" using G'(2) by (simp add: error_kept_def bf declare_scope_def builder_push_def)
  show "function_typed C (last (ir_functions (bu_result (build_function f b))))"
    if "function_lexical (last (ir_functions (bu_result (build_function f b))))"
    using that G'(3) rel(2) scalar by (auto simp: build_function_def body Let_def function_lexical_def function_typed_def)
qed

end
