(* ===== verification/IRTheorems.thy ===== *)
theory IRTheorems
  imports IRPipeline
begin

section \<open>Accepted programs, built and verified\<close>

text \<open>
  The path from an accepted program to its verified representation: what \<open>SemanticIRBuilder::build\<close>
  makes of a program that \<open>SemanticAnalyzer\<close> accepts, and what \<open>verifySemanticIR\<close> says of it.
\<close>

subsection \<open>All functions\<close>

lemma functions_built:
  assumes "signatures_match a b C" "bu_scopes b = []"
    and "\<forall>f \<in> set fs. decl_wf (fn_parameters f) \<and> (\<exists>a'. same_signatures a a' \<and> an_local_scopes a' = [] \<and> \<not> errs (sem_function f a'))"
    and "tables_le (bu_result (fold build_function fs b)) (ty_program C)"
  shows "signatures_match a (fold build_function fs b) C \<and> bu_scopes (fold build_function fs b) = [] \<and>
    error_kept b (fold build_function fs b) \<and>
    (\<forall>F \<in> set (drop (length (ir_functions (bu_result b))) (ir_functions (bu_result (fold build_function fs b)))).
       function_lexical F \<longrightarrow> function_typed C F)"
  using assms
proof (induction fs arbitrary: b)
  case (Cons f fs)
  let ?b = "build_function f b"
  obtain a' where a': "same_signatures a a'" "an_local_scopes a' = []" "\<not> errs (sem_function f a')" and wf: "decl_wf (fn_parameters f)"
    using Cons.prems(3) by auto
  have le: "tables_le (bu_result ?b) (ty_program C)"
    using Cons.prems(4) build_functions_shape(2) [of ?b fs] tables_le_trans by auto
  note f = function_built [OF _ Cons.prems(2) a'(2,3) wf le]
  have sig: "signatures_match a' b C" using Cons.prems(1) signatures_match_same [OF a'(1)] by blast
  then have "signatures_match a ?b C" using f(1) signatures_match_same [OF a'(1)] by blast
  note ih = Cons.IH [OF this f(2) [OF sig]]
  obtain F where F: "ir_functions (bu_result ?b) = ir_functions (bu_result b) @ [F]"
    using build_function_shape(1) [of f b] by blast
  obtain Fs where Fs: "ir_functions (bu_result (fold build_function fs ?b)) = ir_functions (bu_result ?b) @ Fs"
    using build_functions_shape(1) [of fs ?b] by blast
  show ?case
    using ih Cons.prems(3,4) f(3,4) [OF sig] error_kept_trans [of b ?b] by (auto simp: F Fs)
qed simp

lemma named_distinct: "distinct (map name_of xs) \<Longrightarrow> x \<in> set xs \<Longrightarrow> named name_of xs (name_of x) = Some x"
  by (simp add: named_def fold_map_of distinct_map_of_rev comp_def map_of_eq_Some_iff)

lemma named_declarations:
  assumes "\<not> errs (sem_declarations d a)"
  shows "scope_matches (map_of (declared d)) (named va_name (declarations d))" "distinct (map va_name (declarations d))"
    "types_of (named va_name (declarations d)) = fold (\<lambda>v m. m(va_name v \<mapsto> va_type v)) (declarations d) Map.empty"
proof -
  have empty: "scope_matches Map.empty Map.empty" "types_of Map.empty = Map.empty"
    by (simp_all add: scope_matches_def types_of_def fun_eq_iff)
  have "declare_names (declared d) Map.empty = (Map.empty ++ map_of (declared d), [])"
    using declarations_accepted(3) [OF assms] by (intro declare_names_distinct) simp_all
  with declare_names_same [OF declarations_same [OF assms] empty(1)]
  show "scope_matches (map_of (declared d)) (named va_name (declarations d))" "distinct (map va_name (declarations d))"
    by (simp_all add: named_def)
  show "types_of (named va_name (declarations d)) = fold (\<lambda>v m. m(va_name v \<mapsto> va_type v)) (declarations d) Map.empty"
    by (simp add: named_def types_of_fold empty)
qed

lemma accepted_declarations:
  assumes "accepts_program p SemanticAnalyzer_init"
  shows "\<exists>a. \<not> errs (sem_declarations (pg_decl_block p) a)" "distinct (map fn_name (pg_functions p))"
proof -
  define a1 where "a1 = sem_declarations (pg_decl_block p) (load_globals p SemanticAnalyzer_init)"
  define a2 where "a2 = register_functions (pg_functions p) {} a1"
  define a3 where "a3 = fold sem_function (pg_functions p) a2"
  have "\<not> errs (sem_block (pg_code_block p) (a3\<lparr>an_local_scopes := Map.empty # an_local_scopes a3\<rparr>))"
    using assms by (simp add: accepts_program_def sem_program_def sem_functions_def sem_logic_block_def Let_def a3_def
        a2_def a1_def errs_def [symmetric])
  then have "\<not> errs a3" using errs_block by fastforce
  then have "\<not> errs a2" using functions_context a3_def by blast
  note reg = register_accepted [OF this [unfolded a2_def]]
  from reg show "\<exists>a. \<not> errs (sem_declarations (pg_decl_block p) a)" unfolding a1_def by blast
  from reg show "distinct (map fn_name (pg_functions p))" by blast
qed

subsection \<open>A program without libraries\<close>

definition built_body :: "AST_PROGRAM \<Rightarrow> Statement \<times> builder" where
  "built_body p = build_block (pg_code_block p) (builder_push (build_functions p (signatures p builder_init)))"

definition finished :: "Statement \<times> builder \<Rightarrow> ProgramIR" where
  "finished x = (bu_result (snd x))\<lparr>ir_body := fst x,
     ir_models := map (derive_shapes (ir_inferences (bu_result (snd x))) (ir_tensors (bu_result (snd x)))) (ir_models (bu_result (snd x)))\<rparr>"

lemma build_alone:
  "build [] p = (if bu_error (snd (built_body p)) \<noteq> [] then Inl (bu_error (snd (built_body p))) else Inr (finished (built_body p)))"
  by (simp add: build_def built_body_def finished_def signatures_def builder_init_def Let_def case_prod_beta)

lemma signature_functions:
  assumes "distinct (map fn_name fs)" "f \<in> set fs"
  shows "fold (\<lambda>f m. m(fn_name f \<mapsto> scalar_of (fn_type f))) fs Map.empty (fn_name f) = Some (scalar_of (fn_type f))"
  using assms by (simp add: fold_map_of distinct_map_of_rev comp_def map_of_eq_Some_iff)

lemma parameters_match: "list_all2 parameter_matches (declarations (fn_parameters f)) (parameter_types_of f)"
  unfolding declarations_def parameter_types_of_def
  by (intro list_all2_appendI) (simp_all add: list_all2_conv_all_nth parameter_matches_def)

lemma same_functions_named:
  assumes "list_all2 same_function fs Fs" "distinct (map fn_name fs)" "f \<in> set fs"
  shows "\<exists>F. named fu_name Fs (fn_name f) = Some F \<and> same_function f F"
proof -
  obtain i where i: "i < length fs" "f = fs ! i" using assms(3) by (auto simp: in_set_conv_nth)
  have "map fu_name Fs = map fn_name fs"
    using assms(1) by (auto simp: list_all2_conv_all_nth same_function_def intro: nth_equalityI)
  then have "named fu_name Fs (fu_name (Fs ! i)) = Some (Fs ! i)"
    using assms(1,2) i by (intro named_distinct) (auto simp: list_all2_lengthD)
  moreover have "same_function f (Fs ! i)" using assms(1) i by (simp add: list_all2_conv_all_nth)
  ultimately show ?thesis by (auto simp: same_function_def)
qed

lemma built_shape:
  "ir_composites (finished (built_body p)) = [] \<and> ir_globals (finished (built_body p)) = declarations (pg_decl_block p) \<and>
   list_all2 same_function (pg_functions p) (ir_functions (finished (built_body p))) \<and>
   ir_functions (finished (built_body p)) = ir_functions (bu_result (build_functions p (signatures p builder_init)))"
proof -
  let ?s = "signatures p builder_init"
  let ?s1 = "?s\<lparr>bu_result := (bu_result ?s)\<lparr>ir_globals := ir_globals (bu_result ?s) @ declarations (pg_decl_block p)\<rparr>\<rparr>"
  have "fixed_part (bu_result (snd (built_body p))) = fixed_part (bu_result (build_functions p ?s))"
    unfolding built_body_def by (simp add: build_fixed)
  moreover have "ir_composites (bu_result ?s1) = []" "ir_functions (bu_result ?s1) = []"
    "ir_globals (bu_result ?s1) = declarations (pg_decl_block p)"
    by (simp_all add: signatures_def builder_init_def empty_program_def)
  ultimately show ?thesis
    using build_functions_shape(1) [of "pg_functions p" ?s1] by (auto simp: build_functions_def finished_def fixed_part_def)
qed

lemma built_tables:
  "tables_le (bu_result (snd (built_body p))) (finished (built_body p))"
  "tables_le (bu_result (build_functions p (signatures p builder_init))) (finished (built_body p))"
proof -
  show 1: "tables_le (bu_result (snd (built_body p))) (finished (built_body p))"
    unfolding tables_le_def
  proof
    fix k show "table_size (bu_result (snd (built_body p))) k \<le> table_size (finished (built_body p)) k"
      by (cases k) (simp_all add: finished_def)
  qed
  show "tables_le (bu_result (build_functions p (signatures p builder_init))) (finished (built_body p))"
    using build_tables(2) [of "builder_push (build_functions p (signatures p builder_init))" "pg_code_block p"] tables_le_trans [OF _ 1]
    by (simp add: built_body_def)
qed

definition parameters_wf :: "AST_PROGRAM \<Rightarrow> bool" where
  "parameters_wf p = list_all (\<lambda>f. decl_wf (fn_parameters f)) (pg_functions p)"

lemma start_signatures:
  assumes acc: "accepts_program p SemanticAnalyzer_init" and wf: "parameters_wf p"
    and g: "global_scope a = map_of (declared (pg_decl_block p))"
    and f: "\<forall>f \<in> set (pg_functions p). an_function_arity a (fn_name f) = Some (arity_of f) \<and>
      an_function_return_types a (fn_name f) = Some (fn_type f) \<and> an_function_parameter_types a (fn_name f) = Some (parameter_types_of f)"
    and n: "\<forall>n. n \<notin> fn_name ` set (pg_functions p) \<longrightarrow> an_function_arity a n = None"
    and b: "bu_globals b = bu_globals (signatures p builder_init)" "bu_returns b = bu_returns (signatures p builder_init)"
  shows "signatures_match a b (program_typing (finished (built_body p)))"
proof -
  let ?C = "program_typing (finished (built_body p))"
  obtain a0 where a0: "\<not> errs (sem_declarations (pg_decl_block p) a0)" using accepted_declarations(1) [OF acc] by blast
  have C: "ty_globals ?C = named va_name (declarations (pg_decl_block p))" "ty_functions ?C = named fu_name (ir_functions (finished (built_body p)))"
    using built_shape [of p] by (simp_all add: program_typing_def)
  have "function_matches a b ?C (fn_name f)" if mem: "f \<in> set (pg_functions p)" for f
  proof -
    obtain F where F: "ty_functions ?C (fn_name f) = Some F" "same_function f F"
      using same_functions_named [OF _ accepted_declarations(2) [OF acc] mem] built_shape [of p] C(2) by metis
    have "decl_wf (fn_parameters f)" using wf mem by (simp add: parameters_wf_def list_all_iff)
    then have "arity_of f = length (parameter_types_of f)"
      by (metis arity_of_def decl_wf_def parameter_types_of_def length_map length_append)
    moreover have "bu_returns b (fn_name f) = Some (scalar_of (fn_type f))"
      using signature_functions [OF accepted_declarations(2) [OF acc] mem] by (simp add: b signatures_def builder_init_def)
    ultimately show ?thesis
      using f mem F parameters_match [of f] by (simp add: function_matches_def same_function_def)
  qed
  moreover have "bu_globals b = types_of (ty_globals ?C)"
    using named_declarations(3) [OF a0] by (simp add: b C signatures_def builder_init_def)
  ultimately show ?thesis
    using named_declarations(1) [OF a0] g n unfolding signatures_match_def C by (metis imageE)
qed

lemma program_built:
  assumes acc: "accepts_program p SemanticAnalyzer_init" and wf: "parameters_wf p"
  defines "r \<equiv> finished (built_body p)"
  shows "error_kept builder_init (snd (built_body p))"
    "\<forall>F \<in> set (ir_functions r). function_lexical F \<longrightarrow> function_typed (program_typing r) F"
    "stmt_lexical (ir_body r) \<longrightarrow> (\<exists>G'. stmt_typed (program_typing r) (outermost ST_Int32 []) [Map.empty] (ir_body r) G')"
proof -
  let ?s0 = "signatures p builder_init" and ?C = "program_typing r"
  let ?s1 = "?s0\<lparr>bu_result := (bu_result ?s0)\<lparr>ir_globals := ir_globals (bu_result ?s0) @ declarations (pg_decl_block p)\<rparr>\<rparr>"
  let ?s2 = "build_functions p ?s0"
  obtain a where a: "\<not> errs (sem_block (pg_code_block p) a)" "an_local_scopes a = [Map.empty]" "an_return_types a = []" "an_loopDepth a = 0"
    "global_scope a = map_of (declared (pg_decl_block p))"
    "\<forall>f \<in> set (pg_functions p). an_function_arity a (fn_name f) = Some (arity_of f) \<and>
      an_function_return_types a (fn_name f) = Some (fn_type f) \<and> an_function_parameter_types a (fn_name f) = Some (parameter_types_of f)"
    "\<forall>f \<in> set (pg_functions p). \<exists>b. same_signatures a b \<and> an_local_scopes b = [] \<and> \<not> errs (sem_function f b)"
    "\<forall>n. n \<notin> fn_name ` set (pg_functions p) \<longrightarrow> an_function_arity a n = None"
    using accepted_start [OF acc] by blast
  have C: "ty_program ?C = r" by (simp add: program_typing_def)
  have s1: "signatures_match a ?s1 ?C" "bu_scopes ?s1 = []" "ir_functions (bu_result ?s1) = []" "error_kept builder_init ?s1"
    unfolding r_def by (intro start_signatures [OF acc wf a(5,6,8)])
      (simp_all add: signatures_def builder_init_def empty_program_def error_kept_def)
  have fs: "\<forall>f \<in> set (pg_functions p). decl_wf (fn_parameters f) \<and>
      (\<exists>a'. same_signatures a a' \<and> an_local_scopes a' = [] \<and> \<not> errs (sem_function f a'))"
    using a(7) wf by (simp add: parameters_wf_def list_all_iff)
  have f2: "signatures_match a ?s2 ?C" "bu_scopes ?s2 = []" "error_kept ?s1 ?s2"
    "\<forall>F \<in> set (ir_functions r). function_lexical F \<longrightarrow> function_typed ?C F"
    using functions_built [OF s1(1,2) fs] built_tables(2) [of p, folded r_def] built_shape [of p, folded r_def] s1(3)
    by (simp_all add: C build_functions_def)
  show "\<forall>F \<in> set (ir_functions r). function_lexical F \<longrightarrow> function_typed ?C F" by (rule f2(4))
  have "scope_matches Map.empty Map.empty" "types_of Map.empty = Map.empty"
    by (simp_all add: scope_matches_def types_of_def fun_eq_iff)
  then have rel: "related a (builder_push ?s2) ?C [Map.empty]"
    using f2(1,2) a(2) signatures_match_builder [of "builder_push ?s2" ?s2] by (simp add: related_def builder_push_def)
  have pl: "an_local_scopes a \<noteq> []" "placed a (outermost ST_Int32 [])"
    using a(2-4) by (simp_all add: placed_def outermost_def)
  have le: "tables_le (bu_result (snd (build_block (pg_code_block p) (builder_push ?s2)))) (ty_program ?C)"
    unfolding C using built_tables(1) [of p] unfolding r_def built_body_def .
  obtain x b' G' where x: "build_block (pg_code_block p) (builder_push ?s2) = (x, b')" "error_kept (builder_push ?s2) b'"
    "stmt_lexical x \<longrightarrow> stmt_typed ?C (outermost ST_Int32 []) [Map.empty] x G'"
    using block_outcome [OF pipeline(2) rel pl a(1) le] by blast
  have body: "built_body p = (x, b')" by (simp add: built_body_def x)
  show "stmt_lexical (ir_body r) \<longrightarrow> (\<exists>G'. stmt_typed ?C (outermost ST_Int32 []) [Map.empty] (ir_body r) G')"
    using x(3) by (auto simp: r_def finished_def body)
  show "error_kept builder_init (snd (built_body p))"
    using s1(4) f2(3) x(2) by (auto simp: body error_kept_def builder_push_def)
qed

subsection \<open>What is left for the verifier\<close>

text \<open>
  The conditions on the built program that the analyzer does not establish: names are identifiers
  the back end can use and extents are small enough, floating-point literals are finite and string
  literals hold no zero byte, unary operators are minus, \<open>read\<close> has numeric targets.
\<close>

definition program_lexical :: "ProgramIR \<Rightarrow> bool" where
  "program_lexical r = (list_all (\<lambda>v. variable_lexical v \<and> va_name v \<notin> ir_reserved) (ir_globals r) \<and>
     list_all (\<lambda>f. is_identifier (fu_name f) \<and> fu_name f \<notin> ir_reserved \<and> fu_name f \<notin> va_name ` set (ir_globals r) \<and>
       function_lexical f) (ir_functions r) \<and> stmt_lexical (ir_body r))"

lemma simple_lexical:
  assumes "simple_typed C K G st G'" "operands_ok C G (st_expressions st)" "\<forall>l \<in> po_labels K. is_identifier l"
  shows "stmt_lexical st"
proof -
  note es = operands_lexical [OF assms(2)]
  from assms(1) show ?thesis
  proof cases
    case (simple_indexed d k n strs vs body alt l)
    then show ?thesis using assms(3) by (cases k) (auto simp: has_body_def)
  qed (use es assms(3) in \<open>auto simp: has_body_def new_variables_lexical\<close>)
qed

lemma stmt_typed_lexical:
  "stmt_typed C K G st G' \<Longrightarrow> (\<forall>l \<in> po_labels K. is_identifier l) \<longrightarrow> stmt_lexical st"
  "seq_typed C K G sts G' \<Longrightarrow> (\<forall>l \<in> po_labels K. is_identifier l) \<longrightarrow> list_all stmt_lexical sts"
proof (induction rule: stmt_typed_seq_typed.inducts)
  case (typed_simple G es K k n strs vs body alt d l G')
  then show ?case using simple_lexical [OF typed_simple(2)] by simp
next
  case (typed_block body K l G G' n strs vs alt d)
  then show ?case by (auto simp: has_body_def list_all_iff)
qed (auto simp: has_body_def typed_lexical operands_lexical in_loop_def)

lemma well_typed_lexical:
  assumes "well_typed r"
  shows "program_lexical r"
proof -
  have body: "stmt_lexical st" if "stmt_typed C (outermost t c) G st G'" for C t c G st G'
    using stmt_typed_lexical(1) [OF that] by (simp add: outermost_def)
  have "list_all (\<lambda>v. variable_lexical v \<and> va_name v \<notin> ir_reserved) (ir_globals r)"
    using assms by (auto simp: well_typed_def globals_typed_def list_all_iff ir_variable_def variable_lexical_def)
  moreover have "function_lexical f" if "f \<in> set (ir_functions r)" for f
  proof -
    have "function_typed (program_typing r) f" using assms that by (simp add: well_typed_def list_all_iff)
    then show ?thesis using body new_variables_lexical by (auto simp: function_typed_def function_lexical_def)
  qed
  ultimately show ?thesis
    using assms body by (auto simp: program_lexical_def well_typed_def signatures_typed_def list_all_iff)
qed

lemma same_function_result: "same_function f F \<Longrightarrow> result_typed C F"
  by (cases "fn_type f = T_Void") (auto simp: result_typed_def same_function_def intro: value_scalar_of)

lemma built_globals_typed:
  assumes "accepts_program p SemanticAnalyzer_init" "program_lexical (finished (built_body p))"
  shows "globals_typed (finished (built_body p))"
proof -
  obtain a0 where a0: "\<not> errs (sem_declarations (pg_decl_block p) a0)" using accepted_declarations(1) [OF assms(1)] by blast
  have g: "ir_globals (finished (built_body p)) = declarations (pg_decl_block p)" using built_shape [of p] by blast
  have "list_all variable_lexical (declarations (pg_decl_block p))"
    using assms(2) unfolding program_lexical_def g by (simp add: list_all_iff)
  note ir_vars = declared_variables [OF declarations_same [OF a0] this]
  show ?thesis
    using named_declarations(2) [OF a0] ir_vars assms(2) unfolding globals_typed_def program_lexical_def g
    by (simp add: list_all_iff)
qed

lemma built_signatures_typed:
  assumes "accepts_program p SemanticAnalyzer_init" "program_lexical (finished (built_body p))"
  shows "signatures_typed (finished (built_body p))"
proof -
  let ?Fs = "ir_functions (finished (built_body p))"
  have same: "list_all2 same_function (pg_functions p) ?Fs" using built_shape [of p] by blast
  then have "map fu_name ?Fs = map fn_name (pg_functions p)"
    by (auto simp: list_all2_conv_all_nth same_function_def intro: nth_equalityI)
  then have "distinct (map fu_name ?Fs)" using accepted_declarations(2) [OF assms(1)] by simp
  moreover have "list_all (result_typed (program_typing (finished (built_body p)))) ?Fs"
    using same by (rule list_all2_induct) (auto intro: same_function_result)
  ultimately show ?thesis
    using assms(2) unfolding signatures_typed_def program_lexical_def by (simp add: list_all_iff)
qed

lemma built_well_typed:
  assumes acc: "accepts_program p SemanticAnalyzer_init" and wf: "parameters_wf p"
    and lex: "program_lexical (finished (built_body p))" and decl: "declarations_typed (finished (built_body p))"
  shows "well_typed (finished (built_body p))"
proof -
  have "ir_composites (finished (built_body p)) = []" using built_shape [of p] by blast
  then have "composites_typed (finished (built_body p))" by (simp add: composites_typed_def)
  moreover have "list_all (function_typed (program_typing (finished (built_body p)))) (ir_functions (finished (built_body p)))"
    using program_built(2) [OF acc wf] lex unfolding program_lexical_def list_all_iff by blast
  moreover have "\<exists>G'. stmt_typed (program_typing (finished (built_body p))) (outermost ST_Int32 []) [Map.empty]
      (ir_body (finished (built_body p))) G'"
    using program_built(3) [OF acc wf] lex unfolding program_lexical_def by blast
  ultimately show ?thesis
    unfolding well_typed_def using built_globals_typed [OF acc lex] built_signatures_typed [OF acc lex] decl by blast
qed

text \<open>
  C2: The front end and the verifier agree. Take a program without libraries that the analyzer
  accepts, its parameter lists formed as the parser forms them. The builder translates it, or its one complaint is a back end name it does not know: no name of the program
  is unresolved. The verifier accepts the translation exactly when the conditions hold that the
  analyzer does not look at: the lexical conditions on names, extents, literals and \<open>read\<close>
  targets, the well-formedness of the AI declarations, and the limits on size and nesting. It never
  rejects it for a type, an arity, an unknown name, a label or a misplaced statement.
\<close>

theorem accepted_program_verifies:
  assumes "accepts_program p SemanticAnalyzer_init" and "parameters_wf p"
  shows "case build [] p of
      Inl message \<Rightarrow> \<exists>k. sir_backend k = None \<and> message = ''unknown SemanticIR backend: '' @ k
    | Inr r \<Rightarrow> verifySemanticIR r = (True, []) \<longleftrightarrow>
        program_lexical r \<and> declarations_typed r \<and> program_work r \<le> kMaxNodes \<and> program_height r \<le> kMaxDepth"
proof (cases "bu_error (snd (built_body p)) = []")
  case True
  then have b: "build [] p = Inr (finished (built_body p))" by (simp add: build_alone)
  have "well_typed (finished (built_body p)) \<longleftrightarrow>
      program_lexical (finished (built_body p)) \<and> declarations_typed (finished (built_body p))"
    using built_well_typed [OF assms] well_typed_lexical [of "finished (built_body p)"] unfolding well_typed_def by blast
  then show ?thesis unfolding b sum.case verifySemanticIR_iff by blast
next
  case False
  then have "build [] p = Inl (bu_error (snd (built_body p)))" by (simp add: build_alone)
  moreover have "\<exists>k. sir_backend k = None \<and> bu_error (snd (built_body p)) = ''unknown SemanticIR backend: '' @ k"
    using program_built(1) [OF assms] False unfolding error_kept_def builder_init_def builder.simps by blast
  ultimately show ?thesis by simp
qed

lemma demo_divide_built:
  "\<exists>b. built_body demo_divide = (Statement SK_Block [] [] [] []
     [Statement SK_Assign [] []
        [Expression EK_Variable ST_Int32 ''x'' 0 (B_Zero False) 0 [] [],
         Expression EK_Binary ST_Int32 [] 0 (B_Zero False) 4
           [Expression EK_Integer ST_Int32 [] 1 (B_Zero False) 0 [] [],
            Expression EK_Variable ST_Int32 ''x'' 0 (B_Zero False) 0 [] []] []] [] [] [] 0 False] [] 0 False, b) \<and>
     bu_error b = [] \<and> bu_result b = empty_program\<lparr>ir_globals :=
       [\<lparr>va_name = ''x'', va_type = ST_Int32, va_extent = 0, va_composite = []\<rparr>]\<rparr>"
  by (simp add: built_body_def demo_divide_def build_functions_def signatures_def builder_init_def empty_program_def builder_push_def
    builder_pop_def declarations_def decl_push_scalar_def empty_decl_block_def Let_def declare_scope_def variableType_def plain_def
    nested_def)

theorem accepted_program_verifies_witness:
  "\<exists>r. build [] demo_divide = Inr r \<and> verifySemanticIR r = (True, [])"
proof -
  let ?r = "finished (built_body demo_divide)"
  have "is_identifier ''x''" by code_simp
  have "build [] demo_divide = Inr ?r" using demo_divide_built by (auto simp: build_alone)
  moreover have "program_lexical ?r" "declarations_typed ?r" "program_work ?r \<le> kMaxNodes" "program_height ?r \<le> kMaxDepth"
    using demo_divide_built \<open>is_identifier ''x''\<close> by (auto simp: finished_def empty_program_def program_lexical_def declarations_typed_def program_work_def
        program_height_def variable_lexical_def ir_reserved_def has_body_def kMaxNodes_def kMaxDepth_def rechecked_def)
  moreover have "parameters_wf demo_divide" by (simp add: parameters_wf_def demo_divide_def)
  ultimately show ?thesis using accepted_program_verifies [OF demo_divide_accepted] by auto
qed

end
