(* ===== verification/SourceTools.thy ===== *)
theory SourceTools
  imports Prelude
begin

section \<open>The formatter and the linter\<close>

text \<open>
  \<open>tooling/SourceTools.cpp\<close> and the command \<open>shorthand_tool\<close> of \<open>tooling/SourceToolMain.cpp\<close>.
  Source text is a \<^typ>\<open>string\<close>; \<open>'\n'\<close> and \<open>'\r'\<close> are \<open>LF\<close> and \<open>CR\<close>. The brace depth is a natural
  number, so the truncated subtraction is the source's \<open>std::max(0, depth - 1)\<close>.
\<close>

subsection \<open>Lines\<close>

abbreviation LF :: char where "LF \<equiv> CHR 0x0A"
abbreviation CR :: char where "CR \<equiv> CHR 0x0D"

definition skip_LF :: "string \<Rightarrow> string" where
  "skip_LF cs = (if cs \<noteq> [] \<and> hd cs = LF then tl cs else cs)"

function normalizeNewlines :: "string \<Rightarrow> string" where
  "normalizeNewlines [] = []"
| "normalizeNewlines (c # cs) =
     (if c = CR then LF # normalizeNewlines (skip_LF cs) else c # normalizeNewlines cs)"
  by pat_completeness auto
termination by (relation "measure length") (auto simp: skip_LF_def)

function split_loop :: "string \<Rightarrow> string list" where
  "split_loop s = (if s = [] then [] else takeWhile (\<lambda>c. c \<noteq> LF) s # split_loop (tl (dropWhile (\<lambda>c. c \<noteq> LF) s)))"
  by pat_completeness auto
termination
proof (relation "measure length")
  fix s :: string assume "s \<noteq> []"
  have "length (dropWhile (\<lambda>c. c \<noteq> LF) s) \<le> length s" by (simp add: length_dropWhile_le)
  with \<open>s \<noteq> []\<close> show "(tl (dropWhile (\<lambda>c. c \<noteq> LF) s), s) \<in> measure length"
    by (cases s; cases "dropWhile (\<lambda>c. c \<noteq> LF) s") auto
qed simp

declare split_loop.simps [simp del]

definition splitLines :: "string \<Rightarrow> string list" where
  "splitLines s = (if s = [] then [[]] else split_loop s)"

definition horizontal :: "char \<Rightarrow> bool" where
  "horizontal c = (c = CHR '' '' \<or> c = CHR 0x09)"

definition leadingWhitespace :: "string \<Rightarrow> nat" where
  "leadingWhitespace line = length (takeWhile horizontal line)"

definition rtrimHorizontal :: "string \<Rightarrow> string" where
  "rtrimHorizontal line = rev (dropWhile horizontal (rev line))"

definition beginsWithClosingBrace :: "string \<Rightarrow> bool" where
  "beginsWithClosingBrace content = (content \<noteq> [] \<and> hd content = CHR ''}'')"

subsection \<open>Braces\<close>

record ScanState =
  braceDepth :: nat
  inBlockComment :: bool

definition scan_init :: ScanState where
  "scan_init = \<lparr>braceDepth = 0, inBlockComment = False\<rparr>"

text \<open>The loop of \<open>scanCode\<close>; the first two arguments are its local flags \<open>inString\<close> and \<open>escaped\<close>.\<close>

function scan_loop :: "bool \<Rightarrow> bool \<Rightarrow> string \<Rightarrow> ScanState \<Rightarrow> ScanState" where
  "scan_loop inString escaped [] st = st"
| "scan_loop inString escaped (c # cs) st = (let next_char = (if cs = [] then CHR 0x00 else hd cs) in
     if inBlockComment st
     then (if c = CHR ''*'' \<and> next_char = CHR ''/''
           then scan_loop inString escaped (tl cs) (st\<lparr>inBlockComment := False\<rparr>)
           else scan_loop inString escaped cs st)
     else if inString
     then (if escaped then scan_loop inString False cs st
           else if c = CHR 0x5C then scan_loop inString True cs st
           else if c = CHR 0x22 then scan_loop False escaped cs st
           else scan_loop inString escaped cs st)
     else if c = CHR 0x22 then scan_loop True escaped cs st
     else if c = CHR ''/'' \<and> next_char = CHR ''/'' then st
     else if c = CHR ''#'' then st
     else if c = CHR ''/'' \<and> next_char = CHR ''*''
     then scan_loop inString escaped (tl cs) (st\<lparr>inBlockComment := True\<rparr>)
     else if c = CHR ''{'' then scan_loop inString escaped cs (st\<lparr>braceDepth := braceDepth st + 1\<rparr>)
     else if c = CHR ''}'' then scan_loop inString escaped cs (st\<lparr>braceDepth := braceDepth st - 1\<rparr>)
     else scan_loop inString escaped cs st)"
  by pat_completeness auto
termination by (relation "measure (\<lambda>(q, e, cs, st). length cs)") auto

definition scanCode :: "string \<Rightarrow> ScanState \<Rightarrow> ScanState" where
  "scanCode line st = scan_loop False False line st"

definition targetDepth :: "ScanState \<Rightarrow> string \<Rightarrow> nat" where
  "targetDepth st content =
     (if \<not> inBlockComment st \<and> beginsWithClosingBrace content then braceDepth st - 1 else braceDepth st)"

definition indentation :: "nat \<Rightarrow> string" where
  "indentation depth = replicate (depth * 4) (CHR '' '')"

subsection \<open>Formatting\<close>

definition line_content :: "string \<Rightarrow> string" where
  "line_content raw = drop (leadingWhitespace (rtrimHorizontal raw)) (rtrimHorizontal raw)"

fun format_loop :: "string list \<Rightarrow> string list \<Rightarrow> bool \<Rightarrow> ScanState \<Rightarrow> string list" where
  "format_loop [] formatted previousBlank st = formatted"
| "format_loop (raw # lines) formatted previousBlank st = (let content = line_content raw in
     if content = []
     then format_loop lines (if formatted \<noteq> [] \<and> \<not> previousBlank then formatted @ [[]] else formatted) True st
     else format_loop lines (formatted @ [indentation (targetDepth st content) @ content]) False (scanCode content st))"

definition drop_blank_end :: "string list \<Rightarrow> string list" where
  "drop_blank_end ls = rev (dropWhile (\<lambda>l. l = []) (rev ls))"

definition print_lines :: "string list \<Rightarrow> string" where
  "print_lines ls = concat (map (\<lambda>l. l @ [LF]) ls)"

definition formatSource :: "string \<Rightarrow> string" where
  "formatSource source =
     print_lines (drop_blank_end (format_loop (splitLines (normalizeNewlines source)) [] False scan_init))"

subsection \<open>Linting\<close>

record LintDiagnostic =
  ld_code :: string
  ld_message :: string
  ld_line :: nat
  ld_column :: nat
  ld_fixable :: bool

definition lint_diagnostic :: "string \<Rightarrow> string \<Rightarrow> nat \<Rightarrow> nat \<Rightarrow> LintDiagnostic" where
  "lint_diagnostic code message line column =
     \<lparr>ld_code = code, ld_message = message, ld_line = line, ld_column = column, ld_fixable = True\<rparr>"

fun lint_ending :: "string \<Rightarrow> nat \<Rightarrow> LintDiagnostic list" where
  "lint_ending [] crLine = []"
| "lint_ending (c # cs) crLine =
     (if c = CR then [lint_diagnostic ''SHL006'' ''non-LF line ending'' crLine 1]
      else lint_ending cs (if c = LF then crLine + 1 else crLine))"

definition lint_whitespace :: "string \<Rightarrow> nat \<Rightarrow> LintDiagnostic list" where
  "lint_whitespace line lineNumber =
     (if length line \<noteq> length (rtrimHorizontal line)
      then [lint_diagnostic ''SHL002'' ''trailing whitespace'' lineNumber (length (rtrimHorizontal line) + 1)] else []) @
     (if CHR 0x09 \<in> set (take (leadingWhitespace line) line)
      then [lint_diagnostic ''SHL001'' ''tab used for indentation; use four spaces per level'' lineNumber 1] else [])"

definition lint_content :: "string \<Rightarrow> string" where
  "lint_content line = drop (min (leadingWhitespace line) (length (rtrimHorizontal line))) (rtrimHorizontal line)"

fun lint_loop :: "string list \<Rightarrow> nat \<Rightarrow> bool \<Rightarrow> ScanState \<Rightarrow> LintDiagnostic list \<times> bool" where
  "lint_loop [] lineNumber previousBlank st = ([], previousBlank)"
| "lint_loop (line # lines) lineNumber previousBlank st = (let content = lint_content line in
     if content = []
     then (case lint_loop lines (lineNumber + 1) True st of (ds, b) \<Rightarrow>
       (lint_whitespace line lineNumber @ (if previousBlank
          then [lint_diagnostic ''SHL005'' ''more than one consecutive blank line'' lineNumber 1] else []) @ ds, b))
     else (case lint_loop lines (lineNumber + 1) False (scanCode content st) of (ds, b) \<Rightarrow>
       (lint_whitespace line lineNumber @
        (if take (leadingWhitespace line) line \<noteq> indentation (targetDepth st content)
         then [lint_diagnostic ''SHL003'' ''non-canonical indentation'' lineNumber 1] else []) @ ds, b)))"

definition lintSource :: "string \<Rightarrow> LintDiagnostic list" where
  "lintSource source = (let lines = splitLines (normalizeNewlines source);
       (ds, previousBlank) = lint_loop lines 1 False scan_init
     in lint_ending source 1 @ ds @
       (if previousBlank \<and> lines \<noteq> []
        then [lint_diagnostic ''SHL005'' ''trailing blank line is not canonical'' (length lines) 1] else []) @
       (if source = [] \<or> last source \<noteq> LF
        then [lint_diagnostic ''SHL004'' ''source must end with exactly one newline'' (length lines)
          (if lines = [] then 1 else length (last lines) + 1)] else []))"

subsection \<open>The report and the command\<close>

definition hex_char :: "nat \<Rightarrow> char" where
  "hex_char n = ''0123456789abcdef'' ! n"

definition json_char :: "char \<Rightarrow> string" where
  "json_char c =
     (if c = CHR 0x22 then [CHR 0x5C, CHR 0x22]
      else if c = CHR 0x5C then [CHR 0x5C, CHR 0x5C]
      else if c = CHR 0x08 then [CHR 0x5C, CHR ''b'']
      else if c = CHR 0x0C then [CHR 0x5C, CHR ''f'']
      else if c = LF then [CHR 0x5C, CHR ''n'']
      else if c = CR then [CHR 0x5C, CHR ''r'']
      else if c = CHR 0x09 then [CHR 0x5C, CHR ''t'']
      else if of_char c < (0x20 :: nat)
      then [CHR 0x5C] @ ''u00'' @ [hex_char (of_char c div 16 mod 16), hex_char (of_char c mod 16)]
      else [c])"

definition jsonEscape :: "string \<Rightarrow> string" where
  "jsonEscape value = concat (map json_char value)"

definition quoted_text :: "string \<Rightarrow> string" where
  "quoted_text t = [CHR 0x22] @ t @ [CHR 0x22]"

definition diagnostic_json :: "LintDiagnostic \<Rightarrow> string" where
  "diagnostic_json d = ''{'' @ quoted_text ''code'' @ '':'' @ quoted_text (jsonEscape (ld_code d)) @
     '','' @ quoted_text ''severity'' @ '':'' @ quoted_text ''warning'' @
     '','' @ quoted_text ''line'' @ '':'' @ show_nat (ld_line d) @
     '','' @ quoted_text ''column'' @ '':'' @ show_nat (ld_column d) @
     '','' @ quoted_text ''message'' @ '':'' @ quoted_text (jsonEscape (ld_message d)) @
     '','' @ quoted_text ''fixable'' @ '':'' @ (if ld_fixable d then ''true'' else ''false'') @ ''}''"

fun comma_separated :: "string list \<Rightarrow> string" where
  "comma_separated [] = []"
| "comma_separated [x] = x"
| "comma_separated (x # y # xs) = x @ '','' @ comma_separated (y # xs)"

definition writeDiagnosticsJson :: "string \<Rightarrow> LintDiagnostic list \<Rightarrow> string" where
  "writeDiagnosticsJson path ds = ''{'' @ quoted_text ''schema'' @ '':'' @ quoted_text ''shorthand.lint.v1'' @
     '','' @ quoted_text ''path'' @ '':'' @ quoted_text (jsonEscape path) @
     '','' @ quoted_text ''diagnostics'' @ '':['' @ comma_separated (map diagnostic_json ds) @ '']}'' @ [LF]"

text \<open>
  The command: what it prints, the file it writes if it writes one, and its exit status. Which files
  can be read and written is given.
\<close>

record tool_result =
  tr_exit :: nat
  tr_stdout :: string
  tr_written :: "(string \<times> string) option"

definition tool_failed :: tool_result where
  "tool_failed = \<lparr>tr_exit = 2, tr_stdout = [], tr_written = None\<rparr>"

definition tool_emit :: "(string \<Rightarrow> bool) \<Rightarrow> string list \<Rightarrow> string \<Rightarrow> nat \<Rightarrow> tool_result" where
  "tool_emit writable args text status =
     (if length args = 4
      then (if \<not> writable (args ! 3) then tool_failed
            else \<lparr>tr_exit = status, tr_stdout = [], tr_written = Some (args ! 3, text)\<rparr>)
      else \<lparr>tr_exit = status, tr_stdout = text, tr_written = None\<rparr>)"

definition tool_main :: "(string \<Rightarrow> string option) \<Rightarrow> (string \<Rightarrow> bool) \<Rightarrow> string list \<Rightarrow> tool_result" where
  "tool_main readable writable args =
     (if length args \<noteq> 2 \<and> length args \<noteq> 4 then tool_failed
      else if length args = 4 \<and> args ! 2 \<noteq> ''--output'' then tool_failed
      else if args ! 1 \<noteq> ''format'' \<and> args ! 1 \<noteq> ''lint'' \<and> args ! 1 \<noteq> ''fix'' then tool_failed
      else if args ! 1 = ''fix'' \<and> length args \<noteq> 4 then tool_failed
      else (case readable (args ! 0) of
          None \<Rightarrow> tool_failed
        | Some source \<Rightarrow>
            if args ! 1 = ''lint''
            then tool_emit writable args (writeDiagnosticsJson (args ! 0) (lintSource source))
              (if lintSource source = [] then 0 else 1)
            else tool_emit writable args (formatSource source) 0))"

subsection \<open>Lines of normalized text\<close>

lemma normalize_no_CR: "CR \<notin> set (normalizeNewlines s)"
  by (induction s rule: normalizeNewlines.induct) auto

lemma normalize_id: "CR \<notin> set s \<Longrightarrow> normalizeNewlines s = s"
  by (induction s) auto

lemma split_loop_Cons: "s \<noteq> [] \<Longrightarrow>
    split_loop s = takeWhile (\<lambda>c. c \<noteq> LF) s # split_loop (tl (dropWhile (\<lambda>c. c \<noteq> LF) s))"
  by (subst split_loop.simps) simp

lemma split_loop_Nil [simp]: "split_loop [] = []"
  by (simp add: split_loop.simps)

lemma rest_subset: "set (tl (dropWhile P s)) \<subseteq> set s"
  by (induction s) auto

lemma split_no_LF: "\<forall>l \<in> set (split_loop s). LF \<notin> set l \<and> set l \<subseteq> set s"
proof (induction s rule: split_loop.induct)
  case (1 s)
  show ?case
  proof (cases "s = []")
    case False
    have "\<forall>l \<in> set (split_loop (tl (dropWhile (\<lambda>c. c \<noteq> LF) s))). LF \<notin> set l \<and> set l \<subseteq> set s"
      using "1.IH" [OF False] rest_subset [of "\<lambda>c. c \<noteq> LF" s] by blast
    moreover have "LF \<notin> set (takeWhile (\<lambda>c. c \<noteq> LF) s) \<and> set (takeWhile (\<lambda>c. c \<noteq> LF) s) \<subseteq> set s"
      by (auto dest: set_takeWhileD)
    ultimately show ?thesis unfolding split_loop_Cons [OF False] by simp
  qed simp
qed

lemma first_line:
  "LF \<notin> set l \<Longrightarrow> takeWhile (\<lambda>c. c \<noteq> LF) (l @ LF # s) = l \<and> dropWhile (\<lambda>c. c \<noteq> LF) (l @ LF # s) = LF # s"
  by (induction l) auto

lemma split_line: "LF \<notin> set l \<Longrightarrow> split_loop (l @ LF # s) = l # split_loop s"
  using split_loop_Cons [of "l @ LF # s"] first_line [of l s] by simp

lemma split_print: "(\<forall>l \<in> set ls. LF \<notin> set l) \<Longrightarrow> split_loop (print_lines ls) = ls"
  by (induction ls) (simp_all add: print_lines_def split_line)

lemma print_split:
  assumes "s = [] \<or> last s = LF"
  shows "print_lines (split_loop s) = s"
  using assms
proof (induction s rule: split_loop.induct)
  case (1 s)
  show ?case
  proof (cases "s = []")
    case False
    let ?t = "takeWhile (\<lambda>c. c \<noteq> LF) s" and ?d = "dropWhile (\<lambda>c. c \<noteq> LF) s"
    have "last s = LF" using 1(2) False by simp
    then have d: "?d \<noteq> []" using last_in_set [OF False] by auto
    then obtain r where r: "?d = LF # r" using hd_dropWhile [OF d] by (cases ?d) auto
    have s: "?t @ LF # r = s" unfolding r [symmetric] by (rule takeWhile_dropWhile_id)
    have "r = [] \<or> last r = LF" using \<open>last s = LF\<close> last_appendR [of "LF # r" ?t] unfolding s
      by (auto split: if_splits)
    then have "print_lines (split_loop r) = r" using "1.IH" [OF False] unfolding r list.sel by blast
    then show ?thesis using s unfolding split_loop_Cons [OF False] r list.sel by (simp add: print_lines_def)
  qed (simp add: print_lines_def)
qed

subsection \<open>Contents of a line\<close>

lemma content_iff_lint: "lint_content line = line_content line"
proof -
  have "leadingWhitespace (rtrimHorizontal line) = min (leadingWhitespace line) (length (rtrimHorizontal line))"
  proof -
    obtain w where w: "line = rtrimHorizontal line @ w" "list_all horizontal w"
      unfolding rtrimHorizontal_def
      by (metis rev_append rev_rev_ident takeWhile_dropWhile_id list_all_iff set_rev set_takeWhileD)
    have "length (takeWhile P (xs @ ys)) = (if \<forall>x \<in> set xs. P x then length xs + length (takeWhile P ys) else length (takeWhile P xs))"
      for P and xs ys :: string
      by (induction xs) auto
    from this [of horizontal "rtrimHorizontal line" w] w(1) show ?thesis
      unfolding leadingWhitespace_def by (auto simp: takeWhile_eq_all_conv [THEN iffD2] length_takeWhile_le)
  qed
  then show ?thesis by (simp add: lint_content_def line_content_def)
qed

definition stripped :: "string \<Rightarrow> bool" where
  "stripped c = (c \<noteq> [] \<and> \<not> horizontal (hd c) \<and> \<not> horizontal (last c))"

lemma rtrim_stripped: "stripped c \<Longrightarrow> rtrimHorizontal (w @ c) = w @ c"
  unfolding stripped_def rtrimHorizontal_def by (cases c rule: rev_cases) auto

lemma leading_stripped: "stripped c \<Longrightarrow> list_all horizontal w \<Longrightarrow> leadingWhitespace (w @ c) = length w"
  unfolding stripped_def leadingWhitespace_def by (induction w) (cases c, auto)

lemma content_stripped: "stripped c \<Longrightarrow> list_all horizontal w \<Longrightarrow> line_content (w @ c) = c"
  by (simp add: line_content_def rtrim_stripped leading_stripped)

lemma content_dropWhile: "line_content l = dropWhile horizontal (rtrimHorizontal l)"
  by (simp add: line_content_def leadingWhitespace_def dropWhile_eq_drop)

lemma rtrim_last: "rtrimHorizontal l \<noteq> [] \<Longrightarrow> \<not> horizontal (last (rtrimHorizontal l))"
  unfolding rtrimHorizontal_def by (metis hd_dropWhile last_rev rev_is_Nil_conv)

lemma content_empty_iff: "line_content l = [] \<longleftrightarrow> rtrimHorizontal l = []"
  unfolding content_dropWhile using rtrim_last [of l] last_in_set [of "rtrimHorizontal l"] by (cases "rtrimHorizontal l = []") auto

lemma content_cases: "line_content l = [] \<or> stripped (line_content l)"
proof -
  let ?r = "rtrimHorizontal l"
  have "dropWhile horizontal ?r \<noteq> [] \<Longrightarrow> last (dropWhile horizontal ?r) = last ?r"
    by (metis last_appendR takeWhile_dropWhile_id)
  then show ?thesis
    unfolding stripped_def content_dropWhile using hd_dropWhile [of horizontal ?r] rtrim_last [of l] by (metis dropWhile.simps(1))
qed

lemma content_subset: "set (line_content l) \<subseteq> set l"
  unfolding line_content_def rtrimHorizontal_def by (metis set_drop_subset set_rev set_dropWhileD subset_iff)

lemma indentation_horizontal [simp]: "list_all horizontal (indentation d)"
  by (simp add: indentation_def list_all_iff horizontal_def)

subsection \<open>Canonical text\<close>

text \<open>
  Lines as the formatter leaves them: indented by brace depth, without blanks at either end of
  the content, single blank lines between others. The flag says that a blank line is not allowed.
\<close>

fun canonical :: "string list \<Rightarrow> bool \<Rightarrow> ScanState \<Rightarrow> bool" where
  "canonical [] blank st = (\<not> blank)"
| "canonical (l # ls) blank st =
     (if l = [] then \<not> blank \<and> canonical ls True st
      else l = indentation (targetDepth st (line_content l)) @ line_content l \<and> line_content l \<noteq> [] \<and>
        canonical ls False (scanCode (line_content l) st))"

text \<open>What the loop of the formatter appends, by recursion on the lines.\<close>

fun formatted_lines :: "string list \<Rightarrow> bool \<Rightarrow> ScanState \<Rightarrow> string list" where
  "formatted_lines [] blank st = []"
| "formatted_lines (raw # ls) blank st = (let c = line_content raw in
     if c = [] then (if blank then [] else [[]]) @ formatted_lines ls True st
     else (indentation (targetDepth st c) @ c) # formatted_lines ls False (scanCode c st))"

lemma format_loop_lines:
  "format_loop ls acc b st = acc @ formatted_lines ls (acc = [] \<or> b) st"
  by (induction ls arbitrary: acc b st) (auto simp: Let_def)

lemma content_of_formatted [simp]:
  "c = line_content raw \<Longrightarrow> c \<noteq> [] \<Longrightarrow> line_content (indentation d @ c) = c"
  using content_cases [of raw] content_stripped by auto

lemma drop_blank_end_Cons:
  "drop_blank_end (l # ls) = (if l = [] \<and> drop_blank_end ls = [] then [] else l # drop_blank_end ls)"
  unfolding drop_blank_end_def by (simp add: dropWhile_append)

lemma drop_blank_end_Nil [simp]: "drop_blank_end [] = []"
  by (simp add: drop_blank_end_def)

lemma formatted_canonical:
  "drop_blank_end (formatted_lines ls b st) = [] \<or> canonical (drop_blank_end (formatted_lines ls b st)) b st"
proof (induction ls arbitrary: b st)
  case (Cons raw ls)
  show ?case
  proof (cases "line_content raw = []")
    case True
    then show ?thesis using Cons.IH [of True st] by (auto simp: drop_blank_end_Cons)
  next
    case False
    then show ?thesis using Cons.IH [of False "scanCode (line_content raw) st"]
      by (auto simp: drop_blank_end_Cons Let_def)
  qed
qed simp

lemma canonical_fixed: "canonical ls b st \<Longrightarrow> formatted_lines ls b st = ls \<and> (ls \<noteq> [] \<longrightarrow> drop_blank_end ls = ls)"
proof (induction ls arbitrary: b st)
  case (Cons l ls)
  show ?case
  proof (cases "l = []")
    case True
    with Cons.prems have "canonical ls True st" "\<not> b" by simp_all
    then have "ls \<noteq> []" by auto
    have "line_content [] = []" by (simp add: line_content_def rtrimHorizontal_def)
    then show ?thesis using True Cons.IH [OF \<open>canonical ls True st\<close>] \<open>\<not> b\<close> \<open>ls \<noteq> []\<close> by (simp add: drop_blank_end_Cons)
  next
    case False
    with Cons.prems have c: "canonical ls False (scanCode (line_content l) st)" "line_content l \<noteq> []"
      "indentation (targetDepth st (line_content l)) @ line_content l = l" by simp_all
    then show ?thesis using Cons.IH [OF c(1)] False by (cases "ls = []") (simp_all add: drop_blank_end_Cons)
  qed
qed simp

lemma lint_line_iff:
  "lint_whitespace l n = [] \<and> line_content l \<noteq> [] \<and> take (leadingWhitespace l) l = indentation d \<longleftrightarrow>
   l = indentation d @ line_content l \<and> line_content l \<noteq> []"
proof
  assume a: "lint_whitespace l n = [] \<and> line_content l \<noteq> [] \<and> take (leadingWhitespace l) l = indentation d"
  then have "length (rtrimHorizontal l) = length l" by (simp add: lint_whitespace_def split: if_splits)
  moreover have "\<exists>w. l = rtrimHorizontal l @ w"
    unfolding rtrimHorizontal_def by (metis rev_append rev_rev_ident takeWhile_dropWhile_id)
  ultimately have "rtrimHorizontal l = l" by (metis append_eq_conv_conj append_Nil2 append.right_neutral take_all order_refl)
  then show "l = indentation d @ line_content l \<and> line_content l \<noteq> []"
    using a append_take_drop_id [of "leadingWhitespace l" l] by (auto simp: line_content_def)
next
  assume a: "l = indentation d @ line_content l \<and> line_content l \<noteq> []"
  then have s: "stripped (line_content l)" using content_cases by blast
  have "rtrimHorizontal l = l" "leadingWhitespace l = length (indentation d)"
    using rtrim_stripped [OF s, of "indentation d"] leading_stripped [OF s, of "indentation d"] a by simp_all
  moreover from this have "take (leadingWhitespace l) l = indentation d" using a by (metis append_eq_conv_conj)
  ultimately show "lint_whitespace l n = [] \<and> line_content l \<noteq> [] \<and> take (leadingWhitespace l) l = indentation d"
    using a by (simp add: lint_whitespace_def) (simp add: indentation_def)
qed

lemma lint_blank_iff: "lint_whitespace l n = [] \<and> line_content l = [] \<longleftrightarrow> l = []"
proof
  assume "lint_whitespace l n = [] \<and> line_content l = []"
  then show "l = []" by (auto simp: lint_whitespace_def content_empty_iff split: if_splits)
qed (simp add: lint_whitespace_def content_empty_iff rtrimHorizontal_def)

lemma lint_loop_iff:
  "fst (lint_loop ls n b st) = [] \<and> \<not> snd (lint_loop ls n b st) \<longleftrightarrow> canonical ls b st"
proof (induction ls arbitrary: n b st)
  case (Cons l ls)
  show ?case
  proof (cases "line_content l = []")
    case True
    then show ?thesis
      using Cons.IH [of "n + 1" True st] lint_blank_iff [of l n] by (auto simp: content_iff_lint Let_def case_prod_beta)
  next
    case False
    then have "l \<noteq> []" by (auto simp: line_content_def rtrimHorizontal_def)
    then show ?thesis
      using False Cons.IH [of "n + 1" False "scanCode (line_content l) st"]
        lint_line_iff [of l n "targetDepth st (line_content l)"] by (auto simp: content_iff_lint Let_def case_prod_beta)
  qed
qed simp

lemma lint_ending_iff: "lint_ending s n = [] \<longleftrightarrow> CR \<notin> set s"
  by (induction s arbitrary: n) auto

lemma lint_iff:
  "lintSource s = [] \<longleftrightarrow> CR \<notin> set s \<and> s \<noteq> [] \<and> last s = LF \<and> canonical (split_loop s) False scan_init"
proof (cases "CR \<in> set s \<or> s = []")
  case True
  then show ?thesis by (auto simp: lintSource_def Let_def case_prod_beta lint_ending_iff)
next
  case False
  then have l: "splitLines (normalizeNewlines s) = split_loop s" "split_loop s \<noteq> []"
    by (simp_all add: normalize_id splitLines_def split_loop_Cons)
  show ?thesis
    using False lint_loop_iff [of "split_loop s" 1 False scan_init]
    by (auto simp: lintSource_def l Let_def case_prod_beta lint_ending_iff)
qed

subsection \<open>What the formatter does\<close>

lemma format_lines:
  "formatSource s = print_lines (drop_blank_end (formatted_lines (splitLines (normalizeNewlines s)) True scan_init))"
  by (simp add: formatSource_def format_loop_lines)

lemma drop_blank_end_subset: "set (drop_blank_end ls) \<subseteq> set ls"
  by (auto simp: drop_blank_end_def dest: set_dropWhileD)

lemma formatted_set: "l \<in> set (formatted_lines ls b st) \<Longrightarrow> l = [] \<or> (\<exists>raw \<in> set ls. \<exists>d. l = indentation d @ line_content raw)"
proof (induction ls arbitrary: b st)
  case (Cons raw ls)
  show ?case
  proof (cases "line_content raw = []")
    case True
    then have "l = [] \<or> l \<in> set (formatted_lines ls True st)" using Cons.prems by (auto simp: Let_def split: if_splits)
    then show ?thesis using Cons.IH by auto
  next
    case False
    let ?c = "line_content raw"
    have "l = indentation (targetDepth st ?c) @ ?c \<or> l \<in> set (formatted_lines ls False (scanCode ?c st))"
      using False Cons.prems by (simp add: Let_def)
    then show ?thesis using Cons.IH by auto
  qed
qed simp

lemma formatted_chars:
  assumes "\<forall>l \<in> set ls. LF \<notin> set l \<and> CR \<notin> set l"
  shows "\<forall>l \<in> set (formatted_lines ls b st). LF \<notin> set l \<and> CR \<notin> set l"
proof
  fix l assume "l \<in> set (formatted_lines ls b st)"
  from formatted_set [OF this] show "LF \<notin> set l \<and> CR \<notin> set l"
  proof (elim disjE bexE exE)
    fix raw d assume raw: "raw \<in> set ls" "l = indentation d @ line_content raw"
    have "LF \<notin> set (indentation d) \<and> CR \<notin> set (indentation d)" by (simp add: indentation_def)
    moreover have "LF \<notin> set (line_content raw) \<and> CR \<notin> set (line_content raw)"
      using assms raw(1) content_subset [of raw] by blast
    ultimately show ?thesis unfolding raw(2) by simp
  qed simp
qed

lemma format_result:
  defines "L s \<equiv> drop_blank_end (formatted_lines (splitLines (normalizeNewlines s)) True scan_init)"
  shows "formatSource s = print_lines (L s)" "L s = [] \<or> canonical (L s) True scan_init"
    "\<forall>l \<in> set (L s). LF \<notin> set l \<and> CR \<notin> set l"
proof -
  show "formatSource s = print_lines (L s)" unfolding L_def by (rule format_lines)
  show "L s = [] \<or> canonical (L s) True scan_init" unfolding L_def by (rule formatted_canonical)
  have "\<forall>l \<in> set (splitLines (normalizeNewlines s)). LF \<notin> set l \<and> CR \<notin> set l"
    using split_no_LF [of "normalizeNewlines s"] normalize_no_CR [of s] by (auto simp: splitLines_def)
  from formatted_chars [OF this] show "\<forall>l \<in> set (L s). LF \<notin> set l \<and> CR \<notin> set l"
    unfolding L_def using drop_blank_end_subset by blast
qed

lemma print_lines_last: "ls \<noteq> [] \<Longrightarrow> print_lines ls \<noteq> [] \<and> last (print_lines ls) = LF"
  by (cases ls rule: rev_cases) (auto simp: print_lines_def)

lemma print_lines_chars: "\<forall>l \<in> set ls. LF \<notin> set l \<and> CR \<notin> set l \<Longrightarrow> CR \<notin> set (print_lines ls)"
  by (auto simp: print_lines_def)

lemma fixed_iff:
  "formatSource t = t \<and> t \<noteq> [] \<longleftrightarrow> CR \<notin> set t \<and> t \<noteq> [] \<and> last t = LF \<and> canonical (split_loop t) True scan_init"
proof
  let ?L = "drop_blank_end (formatted_lines (splitLines (normalizeNewlines t)) True scan_init)"
  note r = format_result [of t]
  assume a: "formatSource t = t \<and> t \<noteq> []"
  then have t: "t = print_lines ?L" "?L \<noteq> []" using r(1) by (auto simp: print_lines_def)
  then have "split_loop t = ?L" using split_print [of ?L] r(3) by metis
  then show "CR \<notin> set t \<and> t \<noteq> [] \<and> last t = LF \<and> canonical (split_loop t) True scan_init"
    using a t(2) r(2) print_lines_last [OF t(2)] print_lines_chars [OF r(3)] t(1) by metis
next
  assume a: "CR \<notin> set t \<and> t \<noteq> [] \<and> last t = LF \<and> canonical (split_loop t) True scan_init"
  then have "splitLines (normalizeNewlines t) = split_loop t" "split_loop t \<noteq> []"
    by (simp_all add: normalize_id splitLines_def split_loop_Cons)
  then show "formatSource t = t \<and> t \<noteq> []"
    using a canonical_fixed [of "split_loop t" True scan_init] print_split [of t] by (simp add: format_lines)
qed

text \<open>
  C18: The linter and the formatter agree. A source is free of findings exactly when it is a
  non-empty text that the formatter leaves unchanged, or such a text after one blank line: the
  blank line at the start is the one thing the formatter removes and the linter does not report.
\<close>

theorem lint_clean_iff_formatted:
  "lintSource s = [] \<longleftrightarrow> (\<exists>t. formatSource t = t \<and> t \<noteq> [] \<and> (s = t \<or> s = LF # t))"
proof -
  have blank: "split_loop (LF # t) = [] # split_loop t" for t using split_line [of "[]" t] by simp
  have ne: "canonical (split_loop t) True scan_init \<Longrightarrow> t \<noteq> []" for t by auto
  have "lintSource s = [] \<longleftrightarrow>
      (\<exists>t. (CR \<notin> set t \<and> t \<noteq> [] \<and> last t = LF \<and> canonical (split_loop t) True scan_init) \<and> (s = t \<or> s = LF # t))"
  proof (cases "\<exists>t. s = LF # t")
    case True
    then obtain t where "s = LF # t" by blast
    then show ?thesis using ne [of t] by (auto simp: lint_iff blank)
  next
    case False
    then have "s \<noteq> [] \<longrightarrow> canonical (split_loop s) False scan_init = canonical (split_loop s) True scan_init"
      by (cases s) (auto simp: split_loop_Cons)
    with False show ?thesis unfolding lint_iff by blast
  qed
  then show ?thesis unfolding fixed_iff [symmetric] by (simp add: conj_assoc)
qed

text \<open>
  Formatting changes nothing the second time.
\<close>

theorem formatSource_idempotent: "formatSource (formatSource s) = formatSource s"
proof -
  let ?L = "drop_blank_end (formatted_lines (splitLines (normalizeNewlines s)) True scan_init)"
  note r = format_result [of s]
  show ?thesis
  proof (cases "?L = []")
    case True
    then have "formatSource s = []" using r(1) by (simp add: print_lines_def)
    moreover have "formatSource [] = []" by code_simp
    ultimately show ?thesis by simp
  next
    case False
    then have "split_loop (formatSource s) = ?L" using split_print [of ?L] r(1,3) by metis
    then show ?thesis
      using False r(2) print_lines_last [OF False] print_lines_chars [OF r(3)] fixed_iff [of "formatSource s"] r(1) by metis
  qed
qed





subsection \<open>The report can be read back\<close>

text \<open>
  The body of a JSON string as RFC 8259 reads it, restricted to escapes of code points below 256:
  no control character and no bare quote may occur.
\<close>

definition hex_of :: "char \<Rightarrow> nat option" where
  "hex_of c = (let n = of_char c in if 48 \<le> n \<and> n \<le> 57 then Some (n - 48) else if 97 \<le> n \<and> n \<le> 102 then Some (n - 87) else None)"

definition short_escape :: "char \<Rightarrow> char option" where
  "short_escape = map_of [(CHR 0x22, CHR 0x22), (CHR 0x5C, CHR 0x5C), (CHR ''/'', CHR ''/''), (CHR ''b'', CHR 0x08),
     (CHR ''f'', CHR 0x0C), (CHR ''n'', LF), (CHR ''r'', CR), (CHR ''t'', CHR 0x09)]"

definition unicode_escape :: "string \<Rightarrow> char option" where
  "unicode_escape cs = (case cs of
       [z, y, h, l] \<Rightarrow> (case (hex_of h, hex_of l) of
           (Some a, Some b) \<Rightarrow> if z = CHR ''0'' \<and> y = CHR ''0'' then Some (char_of (16 * a + b)) else None
         | _ \<Rightarrow> None)
     | _ \<Rightarrow> None)"

function json_read :: "string \<Rightarrow> string option" where
  "json_read [] = Some []"
| "json_read (c # cs) =
     (if c = CHR 0x22 \<or> of_char c < (0x20 :: nat) then None
      else if c \<noteq> CHR 0x5C then map_option ((#) c) (json_read cs)
      else (case cs of
          [] \<Rightarrow> None
        | e # rest \<Rightarrow>
            if e = CHR ''u''
            then (case unicode_escape (take 4 rest) of
                None \<Rightarrow> None
              | Some d \<Rightarrow> map_option ((#) d) (json_read (drop 4 rest)))
            else (case short_escape e of None \<Rightarrow> None | Some d \<Rightarrow> map_option ((#) d) (json_read rest))))"
  by pat_completeness auto
termination by (relation "measure length") auto

lemma hex_reads_back: "n < 16 \<Longrightarrow> hex_of (hex_char n) = Some n"
proof -
  assume "n < 16"
  then have "n \<in> {0, 1, 2, 3, 4, 5, 6, 7, 8, 9, 10, 11, 12, 13, 14, 15}" by (simp; arith)
  then show ?thesis unfolding insert_iff empty_iff by (elim disjE) (simp_all add: hex_of_def hex_char_def)
qed

lemma control_escape:
  "n < 256 \<Longrightarrow> unicode_escape [CHR ''0'', CHR ''0'', hex_char (n div 16 mod 16), hex_char (n mod 16)] = Some (char_of n)"
  by (simp add: unicode_escape_def hex_reads_back less_mult_imp_div_less)

lemma read_short: "short_escape e = Some d \<Longrightarrow> e \<noteq> CHR ''u'' \<Longrightarrow>
    json_read (CHR 0x5C # e # rest) = map_option ((#) d) (json_read rest)"
  by simp

lemma read_unicode: "unicode_escape [a, b, h, l] = Some d \<Longrightarrow>
    json_read (CHR 0x5C # CHR ''u'' # a # b # h # l # rest) = map_option ((#) d) (json_read rest)"
  by simp

lemma read_plain: "c \<noteq> CHR 0x22 \<Longrightarrow> c \<noteq> CHR 0x5C \<Longrightarrow> \<not> of_char c < (0x20 :: nat) \<Longrightarrow>
    json_read (c # rest) = map_option ((#) c) (json_read rest)"
  by simp

lemma json_read_char: "json_read (json_char c @ rest) = map_option ((#) c) (json_read rest)"
proof (cases "c \<in> {CHR 0x22, CHR 0x5C, CHR 0x08, CHR 0x0C, LF, CR, CHR 0x09}")
  case True
  then have "\<exists>e. json_char c = [CHR 0x5C, e] \<and> short_escape e = Some c \<and> e \<noteq> CHR ''u''"
    unfolding insert_iff empty_iff by (elim disjE) (simp_all add: json_char_def short_escape_def)
  then show ?thesis by (metis append_Cons append_Nil read_short)
next
  case False
  then have "json_char c = (if of_char c < (0x20 :: nat)
      then [CHR 0x5C] @ ''u00'' @ [hex_char (of_char c div 16 mod 16), hex_char (of_char c mod 16)] else [c])"
    unfolding insert_iff empty_iff by (simp add: json_char_def)
  moreover have "unicode_escape [CHR ''0'', CHR ''0'', hex_char (of_char c div 16 mod 16), hex_char (of_char c mod 16)] = Some c"
    if "of_char c < (0x20 :: nat)" using control_escape [of "of_char c"] that by simp
  ultimately show ?thesis
    using False read_plain [of c rest] read_unicode [of "CHR ''0''" "CHR ''0''" _ _ c rest]
    unfolding insert_iff empty_iff by (simp del: json_read.simps)
qed

text \<open>
  Text in the report of the linter is read back as it was: the escaped form of any byte string
  is the body of a JSON string that denotes it.
\<close>

theorem jsonEscape_reads_back: "json_read (jsonEscape value) = Some value"
  by (induction "value") (simp_all add: jsonEscape_def json_read_char)

end
