(* ===== verification/Json.thy ===== *)
theory Json
  imports Decimal
begin

section \<open>The JSON reader of the evidence tools\<close>

text \<open>
  The class \<open>JsonParser\<close> of \<open>evidence/CertificationAssessment.cpp\<close> and the accessors it comes with,
  which the assessment, the auditor bundle and the workbook share. The parser is a cursor, the
  position and the text from there on; every exception it throws is an error with its message.
  Nesting is bounded in the source by a depth that counts up to 64, here by a number that counts
  down. The loops over the members of an array or object carry the test that the text gets shorter;
  it always does (\<open>parse_value_shorter\<close>), so the test never decides anything.
\<close>

subsection \<open>Values and cursors\<close>

datatype Json = J_Null | J_Boolean bool | J_Number binary64 | J_String string | J_Array "Json list" | J_Object "(string \<times> Json) list"

type_synonym cursor = "nat \<times> string"

abbreviation rest_of :: "cursor \<Rightarrow> string" where "rest_of \<equiv> snd"

definition json_error :: "cursor \<Rightarrow> string \<Rightarrow> 'a fallible" where
  "json_error c message = Inl (''invalid JSON at byte '' @ show_nat (fst c) @ '': '' @ message)"

definition advance :: "nat \<Rightarrow> cursor \<Rightarrow> cursor" where
  "advance n c = (fst c + n, drop n (snd c))"

definition json_space :: "char \<Rightarrow> bool" where
  "json_space c = (c = CHR '' '' \<or> c = CHR 0x09 \<or> c = CHR 0x0D \<or> c = CHR 0x0A)"

definition skipWhitespace :: "cursor \<Rightarrow> cursor" where
  "skipWhitespace c = advance (length (takeWhile json_space (snd c))) c"

definition at_char :: "char \<Rightarrow> cursor \<Rightarrow> bool" where
  "at_char x c = (snd c \<noteq> [] \<and> hd (snd c) = x)"

definition expect_char :: "char \<Rightarrow> cursor \<Rightarrow> cursor fallible" where
  "expect_char x c = (if at_char x c then Inr (advance 1 c)
     else json_error c (''expected '' @ [CHR 0x27, x, CHR 0x27]))"

subsection \<open>Strings\<close>

definition hexValue :: "char \<Rightarrow> int" where
  "hexValue x = (let n = of_char x in
     if 48 \<le> n \<and> n \<le> 57 then n - 48 else if 97 \<le> n \<and> n \<le> 102 then n - 87
     else if 65 \<le> n \<and> n \<le> 70 then n - 55 else - 1)"

fun unicode_digits :: "nat \<Rightarrow> int \<Rightarrow> cursor \<Rightarrow> (int \<times> cursor) fallible" where
  "unicode_digits 0 u c = Inr (u, c)"
| "unicode_digits (Suc k) u c = (let v = hexValue (hd (snd c)); c1 = advance 1 c in
     if v < 0 then json_error c1 ''invalid unicode escape'' else unicode_digits k (16 * u + v) c1)"

definition parseUnicodeUnit :: "cursor \<Rightarrow> (int \<times> cursor) fallible" where
  "parseUnicodeUnit c = (if length (snd c) < 4 then json_error c ''incomplete unicode escape'' else unicode_digits 4 0 c)"

definition byte :: "int \<Rightarrow> char" where "byte n = char_of (nat n)"

definition utf8 :: "int \<Rightarrow> string" where
  "utf8 p =
     (if p \<le> 0x7F then [byte p]
      else if p \<le> 0x7FF then [byte (0xC0 + p div 64), byte (0x80 + p mod 64)]
      else if p \<le> 0xFFFF then [byte (0xE0 + p div 4096), byte (0x80 + p div 64 mod 64), byte (0x80 + p mod 64)]
      else [byte (0xF0 + p div 262144), byte (0x80 + p div 4096 mod 64), byte (0x80 + p div 64 mod 64), byte (0x80 + p mod 64)])"

definition parse_unicode :: "cursor \<Rightarrow> (string \<times> cursor) fallible" where
  "parse_unicode c = and_then (parseUnicodeUnit c) (\<lambda>(u, c1).
     if 0xD800 \<le> u \<and> u \<le> 0xDBFF
     then (if \<not> (length (snd c1) \<ge> 2 \<and> snd c1 ! 0 = CHR 0x5C \<and> snd c1 ! 1 = CHR ''u'')
           then json_error c1 ''high surrogate must be followed by a low surrogate''
           else and_then (parseUnicodeUnit (advance 2 c1)) (\<lambda>(low, c2).
             if \<not> (0xDC00 \<le> low \<and> low \<le> 0xDFFF) then json_error c2 ''invalid low surrogate''
             else Inr (utf8 (0x10000 + (u - 0xD800) * 1024 + (low - 0xDC00)), c2)))
     else if 0xDC00 \<le> u \<and> u \<le> 0xDFFF then json_error c1 ''unexpected low surrogate''
     else Inr (utf8 u, c1))"

definition simple_escape :: "char \<Rightarrow> char option" where
  "simple_escape e = (if e = CHR 0x22 \<or> e = CHR 0x5C \<or> e = CHR ''/'' then Some e
     else if e = CHR ''b'' then Some (CHR 0x08) else if e = CHR ''f'' then Some (CHR 0x0C)
     else if e = CHR ''n'' then Some (CHR 0x0A) else if e = CHR ''r'' then Some (CHR 0x0D)
     else if e = CHR ''t'' then Some (CHR 0x09) else None)"

text \<open>What a backslash stands for, from the character after it on.\<close>

definition parse_escape :: "cursor \<Rightarrow> (string \<times> cursor) fallible" where
  "parse_escape c = (if snd c = [] then json_error c ''incomplete string escape''
     else let e = hd (snd c); c1 = advance 1 c in
       if e = CHR ''u'' then parse_unicode c1
       else (case simple_escape e of Some x \<Rightarrow> Inr ([x], c1) | None \<Rightarrow> json_error c1 ''invalid string escape''))"

function string_loop :: "string \<Rightarrow> cursor \<Rightarrow> (string \<times> cursor) fallible" where
  "string_loop out c =
     (if snd c = [] then json_error c ''unterminated string''
      else let x = hd (snd c); c1 = advance 1 c in
        if x = CHR 0x22 then Inr (out, c1)
        else if of_char x < (0x20 :: nat) then json_error c1 ''unescaped control character in string''
        else if x \<noteq> CHR 0x5C then string_loop (out @ [x]) c1
        else (case parse_escape c1 of
            Inl e \<Rightarrow> Inl e
          | Inr (s, c2) \<Rightarrow> if length (snd c2) < length (snd c) then string_loop (out @ s) c2 else Inl ''stuck''))"
  by pat_completeness auto
termination by (relation "measure (\<lambda>(out, c). length (snd c))") (auto simp: advance_def)

declare string_loop.simps [simp del]

definition parseString :: "cursor \<Rightarrow> (string \<times> cursor) fallible" where
  "parseString c = and_then (expect_char (CHR 0x22) c) (string_loop [])"

subsection \<open>Numbers\<close>

definition at_digit :: "cursor \<Rightarrow> bool" where
  "at_digit c = (snd c \<noteq> [] \<and> is_digit (hd (snd c)))"

definition skip_digits :: "cursor \<Rightarrow> cursor" where
  "skip_digits c = advance (length (takeWhile is_digit (snd c))) c"

definition integer_part :: "cursor \<Rightarrow> cursor fallible" where
  "integer_part c =
     (if snd c = [] then json_error c ''incomplete number''
      else if hd (snd c) = CHR ''0''
      then (if at_digit (advance 1 c) then json_error (advance 1 c) ''leading zero in number'' else Inr (advance 1 c))
      else if \<not> at_digit c then json_error c ''invalid number''
      else Inr (skip_digits c))"

definition fraction_part :: "cursor \<Rightarrow> cursor fallible" where
  "fraction_part c = (if \<not> at_char (CHR ''.'') c then Inr c
     else if \<not> at_digit (advance 1 c) then json_error (advance 1 c) ''fraction has no digits''
     else Inr (skip_digits (advance 1 c)))"

definition exponent_part :: "cursor \<Rightarrow> cursor fallible" where
  "exponent_part c = (if \<not> (at_char (CHR ''e'') c \<or> at_char (CHR ''E'') c) then Inr c
     else let c1 = advance 1 c; c2 = (if at_char (CHR ''+'') c1 \<or> at_char (CHR ''-'') c1 then advance 1 c1 else c1) in
       if \<not> at_digit c2 then json_error c2 ''exponent has no digits'' else Inr (skip_digits c2))"

text \<open>\<open>std::stod\<close>: no conversion and a value out of range are exceptions.\<close>

definition stod :: "string \<Rightarrow> (binary64 \<times> nat) option" where
  "stod s = (case strtod (c_str s) of (v, rest, erange) \<Rightarrow>
     if length rest = length (c_str s) \<or> erange then None else Some (v, length (c_str s) - length rest))"

definition json_parseNumber :: "cursor \<Rightarrow> (Json \<times> cursor) fallible" where
  "json_parseNumber c =
     and_then (integer_part (if at_char (CHR ''-'') c then advance 1 c else c)) (\<lambda>c1.
     and_then (fraction_part c1) (\<lambda>c2.
     and_then (exponent_part c2) (\<lambda>c3.
       let token = take (fst c3 - fst c) (snd c) in
       case stod token of
         None \<Rightarrow> json_error c3 ''invalid number''
       | Some (v, used) \<Rightarrow>
           if used = length token \<and> b_finite v then Inr (J_Number v, c3) else json_error c3 ''invalid number'')))"

subsection \<open>Values\<close>

definition parseLiteral :: "string \<Rightarrow> Json \<Rightarrow> cursor \<Rightarrow> (Json \<times> cursor) fallible" where
  "parseLiteral literal v c = (if take (length literal) (snd c) \<noteq> literal then json_error c ''invalid literal''
     else Inr (v, advance (length literal) c))"

type_synonym reader = "cursor \<Rightarrow> (Json \<times> cursor) fallible"

function array_loop :: "reader \<Rightarrow> Json list \<Rightarrow> reader" where
  "array_loop value vs c = (case value c of
       Inl e \<Rightarrow> Inl e
     | Inr (v, c1) \<Rightarrow> (let c2 = skipWhitespace c1 in
         if at_char (CHR '']'') c2 then Inr (J_Array (vs @ [v]), advance 1 c2)
         else (case expect_char (CHR '','') c2 of
             Inl e \<Rightarrow> Inl e
           | Inr c3 \<Rightarrow> let c4 = skipWhitespace c3 in
               if length (snd c4) < length (snd c) then array_loop value (vs @ [v]) c4 else Inl ''stuck'')))"
  by pat_completeness auto
termination by (relation "measure (\<lambda>(value, vs, c). length (snd c))") auto

declare array_loop.simps [simp del]

definition parseArray :: "reader \<Rightarrow> reader" where
  "parseArray value c = and_then (expect_char (CHR ''['') c) (\<lambda>c1. let c2 = skipWhitespace c1 in
     if at_char (CHR '']'') c2 then Inr (J_Array [], advance 1 c2) else array_loop value [] c2)"

text \<open>One member: its key, the colon and its value, not yet entered into the object.\<close>

definition parse_member :: "reader \<Rightarrow> cursor \<Rightarrow> (string \<times> Json \<times> cursor) fallible" where
  "parse_member value c =
     (if snd c = [] then json_error c ''unexpected end of input''
      else if hd (snd c) \<noteq> CHR 0x22 then json_error c ''object key must be a string''
      else and_then (parseString c) (\<lambda>(key, c1).
        and_then (expect_char (CHR '':'') (skipWhitespace c1)) (\<lambda>c2.
        and_then (value c2) (\<lambda>(v, c3). Inr (key, v, c3)))))"

function object_loop :: "reader \<Rightarrow> (string \<times> Json) list \<Rightarrow> reader" where
  "object_loop value ms c = (case parse_member value c of
       Inl e \<Rightarrow> Inl e
     | Inr (key, v, c1) \<Rightarrow>
         if key \<in> fst ` set ms then json_error c1 (''duplicate object key: '' @ key)
         else (let c2 = skipWhitespace c1 in
           if at_char (CHR ''}'') c2 then Inr (J_Object (ms @ [(key, v)]), advance 1 c2)
           else (case expect_char (CHR '','') c2 of
               Inl e \<Rightarrow> Inl e
             | Inr c3 \<Rightarrow> let c4 = skipWhitespace c3 in
                 if length (snd c4) < length (snd c) then object_loop value (ms @ [(key, v)]) c4 else Inl ''stuck'')))"
  by pat_completeness auto
termination by (relation "measure (\<lambda>(value, ms, c). length (snd c))") auto

declare object_loop.simps [simp del]

definition parseObject :: "reader \<Rightarrow> reader" where
  "parseObject value c = and_then (expect_char (CHR ''{'') c) (\<lambda>c1. let c2 = skipWhitespace c1 in
     if at_char (CHR ''}'') c2 then Inr (J_Object [], advance 1 c2) else object_loop value [] c2)"

fun parse_value :: "nat \<Rightarrow> reader" where
  "parse_value 0 c = json_error c ''nesting depth exceeds 64''"
| "parse_value (Suc d) c0 = (let c = skipWhitespace c0 in
     if snd c = [] then json_error c ''unexpected end of input''
     else let x = hd (snd c) in
       if x = CHR ''{'' then parseObject (parse_value d) c
       else if x = CHR ''['' then parseArray (parse_value d) c
       else if x = CHR 0x22 then and_then (parseString c) (\<lambda>(s, c1). Inr (J_String s, c1))
       else if x = CHR ''t'' then parseLiteral ''true'' (J_Boolean True) c
       else if x = CHR ''f'' then parseLiteral ''false'' (J_Boolean False) c
       else if x = CHR ''n'' then parseLiteral ''null'' J_Null c
       else if x = CHR ''-'' \<or> is_digit x then json_parseNumber c
       else json_error c ''unexpected token'')"

definition kMaxJsonDepth :: nat where "kMaxJsonDepth = 64"

definition parseJson :: "string \<Rightarrow> Json fallible" where
  "parseJson source = and_then (parse_value (kMaxJsonDepth + 1) (skipWhitespace (0, source))) (\<lambda>(v, c).
     let c1 = skipWhitespace c in if snd c1 \<noteq> [] then json_error c1 ''trailing data'' else Inr v)"

subsection \<open>Writing\<close>

definition hex_text :: "nat \<Rightarrow> string" where
  "hex_text n = map (\<lambda>k. ''0123456789abcdef'' ! (n div 16 ^ k mod 16)) [3, 2, 1, 0]"

definition escaped_char :: "char \<Rightarrow> string" where
  "escaped_char c =
     (if c = CHR 0x22 then [CHR 0x5C, CHR 0x22]
      else if c = CHR 0x5C then [CHR 0x5C, CHR 0x5C]
      else if c = CHR 0x08 then [CHR 0x5C, CHR ''b'']
      else if c = CHR 0x0C then [CHR 0x5C, CHR ''f'']
      else if c = CHR 0x0A then [CHR 0x5C, CHR ''n'']
      else if c = CHR 0x0D then [CHR 0x5C, CHR ''r'']
      else if c = CHR 0x09 then [CHR 0x5C, CHR ''t'']
      else if of_char c < (0x20 :: nat) then [CHR 0x5C, CHR ''u''] @ hex_text (of_char c)
      else [c])"

definition jsonEscape :: "string \<Rightarrow> string" where
  "jsonEscape value = concat (map escaped_char value)"

subsection \<open>Accessors\<close>

definition jsonMember :: "Json \<Rightarrow> string \<Rightarrow> Json fallible" where
  "jsonMember j key = (case j of
       J_Object ms \<Rightarrow> (case map_of ms key of
           None \<Rightarrow> Inl (''JSON object missing required member: '' @ key)
         | Some v \<Rightarrow> Inr v)
     | _ \<Rightarrow> Inl ''JSON value must be an object'')"

definition findJsonMember :: "Json \<Rightarrow> string \<Rightarrow> Json option fallible" where
  "findJsonMember j key = (case j of J_Object ms \<Rightarrow> Inr (map_of ms key) | _ \<Rightarrow> Inl ''JSON value must be an object'')"

definition jsonString :: "Json \<Rightarrow> string \<Rightarrow> string fallible" where
  "jsonString j key = and_then (jsonMember j key) (\<lambda>v. case v of
     J_String s \<Rightarrow> Inr s | _ \<Rightarrow> Inl (''JSON member must be a string: '' @ key))"

definition jsonBoolean :: "Json \<Rightarrow> string \<Rightarrow> bool fallible" where
  "jsonBoolean j key = and_then (jsonMember j key) (\<lambda>v. case v of
     J_Boolean b \<Rightarrow> Inr b | _ \<Rightarrow> Inl (''JSON member must be a boolean: '' @ key))"

definition jsonNumber :: "Json \<Rightarrow> string \<Rightarrow> binary64 fallible" where
  "jsonNumber j key = and_then (jsonMember j key) (\<lambda>v. case v of
     J_Number x \<Rightarrow> Inr x | _ \<Rightarrow> Inl (''JSON member must be a number: '' @ key))"

definition requireNonemptyJsonString :: "Json \<Rightarrow> string \<Rightarrow> unit fallible" where
  "requireNonemptyJsonString j key = and_then (jsonString j key) (\<lambda>s.
     if s = [] then Inl (''JSON string member must be non-empty: '' @ key) else Inr ())"

fun missing_key :: "(string \<times> Json) list \<Rightarrow> string list \<Rightarrow> string option" where
  "missing_key ms [] = None"
| "missing_key ms (k # ks) = (if map_of ms k = None then Some k else missing_key ms ks)"

definition requireExactKeys :: "Json \<Rightarrow> string list \<Rightarrow> string \<Rightarrow> unit fallible" where
  "requireExactKeys j keys description = (case j of
       J_Object ms \<Rightarrow>
         if length ms \<noteq> length keys then Inl (description @ '' must contain exactly the contract keys'')
         else (case missing_key ms keys of
             Some k \<Rightarrow> Inl (description @ '' missing required member: '' @ k)
           | None \<Rightarrow> Inr ())
     | _ \<Rightarrow> Inl (description @ '' must be an object''))"

end
