(* ===== verification/JsonTheorems.thy ===== *)
theory JsonTheorems
  imports Json
begin

section \<open>What the JSON reader accepts\<close>

text \<open>
  The reader moves forward through the text, every error names a position in it, the values it
  returns have distinct keys, finite numbers and at most 65 levels, and it reads back every such
  value with integral numbers from its printed form.
\<close>

subsection \<open>Moving forward\<close>

definition reaches :: "cursor \<Rightarrow> cursor \<Rightarrow> bool" where
  "reaches c c' = (fst c \<le> fst c' \<and> fst c' - fst c \<le> length (snd c) \<and> snd c' = drop (fst c' - fst c) (snd c))"

definition passes :: "cursor \<Rightarrow> cursor \<Rightarrow> bool" where
  "passes c c' = (reaches c c' \<and> fst c < fst c')"

lemma reaches_refl [simp]: "reaches c c"
  by (simp add: reaches_def)

lemma passes_reaches: "passes c c' \<Longrightarrow> reaches c c'"
  by (simp add: passes_def)

lemma reaches_trans: "reaches c c1 \<Longrightarrow> reaches c1 c2 \<Longrightarrow> reaches c c2"
  by (auto simp: reaches_def)

lemma passes_trans: "passes c c1 \<Longrightarrow> reaches c1 c2 \<Longrightarrow> passes c c2" "reaches c c1 \<Longrightarrow> passes c1 c2 \<Longrightarrow> passes c c2"
  by (auto simp: passes_def reaches_def)

lemma passes_shorter: "passes c c' \<Longrightarrow> length (snd c') < length (snd c)"
  by (auto simp: passes_def reaches_def)

lemma reaches_advance: "n \<le> length (snd c) \<Longrightarrow> reaches c (advance n c)"
  by (simp add: reaches_def advance_def)

lemma passes_advance: "0 < n \<Longrightarrow> n \<le> length (snd c) \<Longrightarrow> passes c (advance n c)"
  by (simp add: passes_def reaches_def advance_def)

lemma passes_step: "snd c \<noteq> [] \<Longrightarrow> passes c (advance 1 c)"
  by (rule passes_advance) (auto simp: Suc_le_eq)

lemma reaches_skip [simp]: "reaches c (skipWhitespace c)"
  unfolding skipWhitespace_def by (rule reaches_advance) (rule length_takeWhile_le)

lemma reaches_digits [simp]: "reaches c (skip_digits c)"
  unfolding skip_digits_def by (rule reaches_advance) (rule length_takeWhile_le)

lemma passes_digits: "at_digit c \<Longrightarrow> passes c (skip_digits c)"
  unfolding skip_digits_def at_digit_def by (rule passes_advance) (cases "snd c", auto simp: length_takeWhile_le)

lemma expect_passes: "expect_char x c = Inr c' \<Longrightarrow> passes c c'"
  using passes_step [of c] by (auto simp: expect_char_def at_char_def json_error_def split: if_splits)

text \<open>An error names a position of the text; a reader moves forward or fails with such an error.\<close>

definition json_message :: "cursor \<Rightarrow> string \<Rightarrow> bool" where
  "json_message c e = (\<exists>c' m. reaches c c' \<and> json_error c' m = (Inl e :: unit fallible))"

definition forward :: "cursor \<Rightarrow> ('a \<times> cursor) fallible \<Rightarrow> bool" where
  "forward c r = (case r of Inl e \<Rightarrow> json_message c e | Inr p \<Rightarrow> passes c (snd p))"

lemma message_here: "reaches c c' \<Longrightarrow> json_error c' m = (Inl e :: 'a fallible) \<Longrightarrow> json_message c e"
  unfolding json_message_def json_error_def by blast

lemma message_later: "reaches c c1 \<Longrightarrow> json_message c1 e \<Longrightarrow> json_message c e"
  unfolding json_message_def using reaches_trans by blast

lemma error_forward: "reaches c c' \<Longrightarrow> forward c (json_error c' m)"
  unfolding forward_def json_error_def by (auto intro: message_here simp: json_error_def)

lemma forward_simps [simp]: "forward c (Inl e) = json_message c e" "forward c (Inr p) = passes c (snd p)"
  by (simp_all add: forward_def)

lemma forward_later: "reaches c c1 \<Longrightarrow> forward c1 r \<Longrightarrow> forward c r"
  by (cases r) (auto intro: message_later passes_trans(2))

lemma forward_and_then:
  assumes "forward c r" "\<And>p. r = Inr p \<Longrightarrow> forward c (f p)"
  shows "forward c (and_then r f)"
  using assms by (cases r) (simp_all add: and_then_def)

lemma expect_forward:
  assumes "reaches c c0" "\<And>c1. expect_char x c0 = Inr c1 \<Longrightarrow> passes c0 c1 \<Longrightarrow> forward c (f c1)"
  shows "forward c (and_then (expect_char x c0) f)"
proof (cases "expect_char x c0")
  case (Inl e)
  then have "json_message c e" using message_here [OF assms(1)] by (auto simp: expect_char_def split: if_splits)
  then show ?thesis by (simp add: Inl and_then_def)
next
  case (Inr c1)
  then show ?thesis using assms(2) expect_passes by (simp add: and_then_def)
qed

lemma unicode_digits_moves:
  "k \<le> length (snd c) \<Longrightarrow> case unicode_digits k u c of Inl e \<Rightarrow> json_message c e | Inr p \<Rightarrow> snd p = advance k c"
proof (induction k arbitrary: u c)
  case (Suc k)
  let ?c = "advance 1 c"
  have r: "reaches c ?c" using Suc.prems by (intro reaches_advance) simp
  have "k \<le> length (snd ?c)" "advance k ?c = advance (Suc k) c" using Suc.prems by (simp_all add: advance_def)
  with Suc.IH [of ?c "16 * u + hexValue (hd (snd c))"] show ?case
    using message_later [OF r] message_here [OF r, of "''invalid unicode escape''"]
    by (auto simp: Let_def json_error_def split: sum.splits)
qed (simp add: advance_def)

lemma unicode_unit_forward: "forward c (parseUnicodeUnit c)"
proof (cases "length (snd c) < 4")
  case True
  then show ?thesis by (simp add: parseUnicodeUnit_def error_forward)
next
  case False
  then show ?thesis
    using unicode_digits_moves [of 4 c 0] passes_advance [of 4 c] by (auto simp: parseUnicodeUnit_def split: sum.splits)
qed

lemma parse_unicode_forward: "forward c (parse_unicode c)"
  unfolding parse_unicode_def
proof (rule forward_and_then [OF unicode_unit_forward], clarify)
  fix u q s assume p: "parseUnicodeUnit c = Inr (u, q, s)"
  then have c1: "passes c (q, s)" using unicode_unit_forward [of c] by simp
  note r1 = passes_reaches [OF c1]
  have low: "forward c (and_then (parseUnicodeUnit (advance 2 (q, s))) (\<lambda>(low, c2).
      if \<not> (0xDC00 \<le> low \<and> low \<le> 0xDFFF) then json_error c2 ''invalid low surrogate''
      else Inr (utf8 (0x10000 + (u - 0xD800) * 1024 + (low - 0xDC00)), c2)))" if "length s \<ge> 2"
  proof (rule forward_and_then)
    have r2: "reaches c (advance 2 (q, s))" using reaches_trans [OF r1 reaches_advance] that by simp
    show f: "forward c (parseUnicodeUnit (advance 2 (q, s)))" by (rule forward_later [OF r2 unicode_unit_forward])
    fix p assume "parseUnicodeUnit (advance 2 (q, s)) = Inr p"
    then have "passes c (snd p)" using f by simp
    then show "forward c (case p of (low, c2) \<Rightarrow> if \<not> (0xDC00 \<le> low \<and> low \<le> 0xDFFF) then json_error c2 ''invalid low surrogate''
        else Inr (utf8 (0x10000 + (u - 0xD800) * 1024 + (low - 0xDC00)), c2))"
      by (cases p) (auto intro: error_forward passes_reaches)
  qed
  show "forward c (if 0xD800 \<le> u \<and> u \<le> 0xDBFF
     then (if \<not> (length (snd (q, s)) \<ge> 2 \<and> snd (q, s) ! 0 = CHR 0x5C \<and> snd (q, s) ! 1 = CHR ''u'')
           then json_error (q, s) ''high surrogate must be followed by a low surrogate''
           else and_then (parseUnicodeUnit (advance 2 (q, s))) (\<lambda>(low, c2).
             if \<not> (0xDC00 \<le> low \<and> low \<le> 0xDFFF) then json_error c2 ''invalid low surrogate''
             else Inr (utf8 (0x10000 + (u - 0xD800) * 1024 + (low - 0xDC00)), c2)))
     else if 0xDC00 \<le> u \<and> u \<le> 0xDFFF then json_error (q, s) ''unexpected low surrogate''
     else Inr (utf8 u, (q, s)))"
    using low c1 by (simp add: error_forward [OF r1])
qed

lemma parse_escape_forward: "forward c (parse_escape c)"
proof (cases "snd c = []")
  case False
  note p = passes_step [OF this]
  have "forward c (parse_unicode (advance 1 c))" by (rule forward_later [OF passes_reaches [OF p] parse_unicode_forward])
  then show ?thesis
    using False p by (auto simp: parse_escape_def Let_def intro: error_forward passes_reaches split: option.splits)
qed (simp add: parse_escape_def error_forward)

lemma string_loop_forward: "forward c (string_loop out c)"
proof (induction out c rule: string_loop.induct)
  case (1 out c)
  show ?case
  proof (cases "snd c = []")
    case True
    then show ?thesis by (subst string_loop.simps) (simp add: error_forward)
  next
    case False
    note p = passes_step [OF this] and r = passes_reaches [OF passes_step [OF False]]
    let ?x = "hd (snd c)" and ?c = "advance 1 c"
    have plain: "forward c (string_loop (out @ [?x]) ?c)"
      if "?x \<noteq> CHR 0x22" "\<not> of_char ?x < (0x20 :: nat)" "?x \<noteq> CHR 0x5C"
      using forward_later [OF r "1.IH"(1) [OF False refl refl that(1,2)]] that by simp
    have esc: "forward c (case parse_escape ?c of Inl e \<Rightarrow> Inl e
        | Inr (s, c2) \<Rightarrow> if length (snd c2) < length (snd c) then string_loop (out @ s) c2 else Inl ''stuck'')"
      if x: "\<not> ?x \<noteq> CHR 0x5C"
    proof (cases "parse_escape ?c")
      case (Inl e)
      then show ?thesis using forward_later [OF r parse_escape_forward] by simp
    next
      case (Inr q)
      obtain s c2 where q: "q = (s, c2)" by (rule prod.exhaust)
      have "passes ?c c2" using parse_escape_forward [of ?c] Inr q by simp
      then have c2: "passes c c2" using p passes_trans(1) passes_reaches by blast
      have "forward c2 (string_loop (out @ s) c2)"
        using "1.IH"(2) [OF False refl refl _ _ x Inr q [symmetric] passes_shorter [OF c2]] x by simp
      then have "forward c (string_loop (out @ s) c2)" by (rule forward_later [OF passes_reaches [OF c2]])
      then show ?thesis using Inr q passes_shorter [OF c2] by simp
    qed
    show ?thesis
      using False plain esc p by (subst string_loop.simps) (simp add: Let_def error_forward [OF r] del: One_nat_def)
  qed
qed

lemma parseString_forward: "forward c (parseString c)"
  unfolding parseString_def
  by (rule expect_forward [OF reaches_refl]) (rule forward_later [OF passes_reaches string_loop_forward])

text \<open>A step of the number reader: it reaches a cursor or fails with a position.\<close>

lemma step_and_then:
  assumes "reaches c c0" "\<And>e. r = Inl e \<Longrightarrow> json_message c0 e" "\<And>c1. r = Inr c1 \<Longrightarrow> forward c (f c1)"
  shows "forward c (and_then r f)"
  using assms message_later [OF assms(1)] by (cases r) (simp_all add: and_then_def)

lemma integer_part_moves:
  "integer_part c = Inl e \<Longrightarrow> json_message c e" "integer_part c = Inr c' \<Longrightarrow> passes c c'"
proof -
  have one: "reaches c (advance 1 c)" "passes c (advance 1 c)" if "snd c \<noteq> []" using that passes_step passes_reaches by blast+
  show "integer_part c = Inl e \<Longrightarrow> json_message c e"
    by (auto simp: integer_part_def simp del: One_nat_def split: if_splits intro: message_here [OF one(1)] message_here [OF reaches_refl])
  show "integer_part c = Inr c' \<Longrightarrow> passes c c'"
    using one by (auto simp: integer_part_def json_error_def simp del: One_nat_def split: if_splits intro: passes_digits)
qed

lemma fraction_part_moves:
  "fraction_part c = Inl e \<Longrightarrow> json_message c e" "fraction_part c = Inr c' \<Longrightarrow> reaches c c'"
proof -
  have one: "reaches c (advance 1 c)" if "at_char x c" for x using that passes_step passes_reaches by (auto simp: at_char_def)
  show "fraction_part c = Inl e \<Longrightarrow> json_message c e"
    by (auto simp: fraction_part_def simp del: One_nat_def split: if_splits intro: message_here [OF one])
  show "fraction_part c = Inr c' \<Longrightarrow> reaches c c'"
    by (auto simp: fraction_part_def json_error_def simp del: One_nat_def split: if_splits intro: reaches_trans [OF one reaches_digits])
qed

lemma exponent_part_moves:
  "exponent_part c = Inl e \<Longrightarrow> json_message c e" "exponent_part c = Inr c' \<Longrightarrow> reaches c c'"
proof -
  define c2 where "c2 = (if at_char (CHR ''+'') (advance 1 c) \<or> at_char (CHR ''-'') (advance 1 c) then advance 1 (advance 1 c) else advance 1 c)"
  have one: "reaches c (advance 1 c)" if "at_char x c" for x c using that passes_step passes_reaches by (auto simp: at_char_def)
  have two: "reaches c c2" if "at_char x c" for x
    unfolding c2_def using reaches_trans [OF one [OF that] one] one [OF that] by (auto simp del: One_nat_def)
  show "exponent_part c = Inl e \<Longrightarrow> json_message c e"
    unfolding exponent_part_def Let_def c2_def [symmetric] by (auto split: if_splits intro: message_here [OF two])
  show "exponent_part c = Inr c' \<Longrightarrow> reaches c c'"
    unfolding exponent_part_def Let_def c2_def [symmetric] json_error_def by (auto split: if_splits intro: reaches_trans [OF two reaches_digits])
qed

lemma number_forward: "forward c (json_parseNumber c)"
  unfolding json_parseNumber_def
proof (rule step_and_then)
  let ?c = "if at_char (CHR ''-'') c then advance 1 c else c"
  show r: "reaches c ?c" using passes_reaches passes_step by (auto simp: at_char_def simp del: One_nat_def)
  show "integer_part ?c = Inl e \<Longrightarrow> json_message ?c e" for e by (rule integer_part_moves)
  fix c1 assume "integer_part ?c = Inr c1"
  then have c1: "passes c c1" using passes_trans(2) [OF r integer_part_moves(2)] by simp
  show "forward c (and_then (fraction_part c1) (\<lambda>c2. and_then (exponent_part c2) (\<lambda>c3.
      let token = take (fst c3 - fst c) (snd c) in case stod token of None \<Rightarrow> json_error c3 ''invalid number''
        | Some (v, used) \<Rightarrow> if used = length token \<and> b_finite v then Inr (J_Number v, c3) else json_error c3 ''invalid number'')))"
  proof (rule step_and_then [OF passes_reaches [OF c1] fraction_part_moves(1)])
    fix c2 assume "fraction_part c1 = Inr c2"
    then have c2: "passes c c2" using passes_trans(1) [OF c1] fraction_part_moves(2) by blast
    show "forward c (and_then (exponent_part c2) (\<lambda>c3.
      let token = take (fst c3 - fst c) (snd c) in case stod token of None \<Rightarrow> json_error c3 ''invalid number''
        | Some (v, used) \<Rightarrow> if used = length token \<and> b_finite v then Inr (J_Number v, c3) else json_error c3 ''invalid number''))"
    proof (rule step_and_then [OF passes_reaches [OF c2] exponent_part_moves(1)])
      fix c3 assume "exponent_part c2 = Inr c3"
      then have c3: "passes c c3" using passes_trans(1) [OF c2] exponent_part_moves(2) by blast
      then show "forward c (let token = take (fst c3 - fst c) (snd c) in case stod token of None \<Rightarrow> json_error c3 ''invalid number''
        | Some (v, used) \<Rightarrow> if used = length token \<and> b_finite v then Inr (J_Number v, c3) else json_error c3 ''invalid number'')"
        by (auto simp: Let_def error_forward [OF passes_reaches [OF c3]] split: option.split)
    qed
  qed
qed

lemma literal_forward:
  assumes "literal \<noteq> []"
  shows "forward c (parseLiteral literal v c)"
proof (cases "take (length literal) (snd c) = literal")
  case True
  then have "length literal \<le> length (snd c)" by (metis length_take min.cobounded1)
  then show ?thesis using True assms passes_advance [of "length literal" c] by (simp add: parseLiteral_def)
qed (simp add: parseLiteral_def error_forward)

text \<open>A reader of values that always moves forward, as the loops get it.\<close>

definition good_reader :: "reader \<Rightarrow> bool" where
  "good_reader value = (\<forall>c. forward c (value c))"

lemma good_readerD: "good_reader value \<Longrightarrow> forward c (value c)"
  unfolding good_reader_def by blast

lemma close_passes:
  assumes "passes c c1" "at_char x (skipWhitespace c1)"
  shows "passes c (advance 1 (skipWhitespace c1))"
proof -
  have "snd (skipWhitespace c1) \<noteq> []" using assms(2) by (simp add: at_char_def)
  from passes_reaches [OF passes_step [OF this]] show ?thesis
    by (rule passes_trans(1) [OF assms(1) reaches_trans [OF reaches_skip]])
qed

lemma array_loop_forward: "good_reader value \<Longrightarrow> forward c (array_loop value vs c)"
proof (induction "value" vs c rule: array_loop.induct)
  case (1 "value" vs c)
  show ?case
  proof (cases "value c")
    case (Inl e)
    then show ?thesis using good_readerD [OF "1.prems", of c] by (subst array_loop.simps) simp
  next
    case (Inr p)
    obtain v c1 where p: "p = (v, c1)" by (rule prod.exhaust)
    have c1: "passes c c1" using good_readerD [OF "1.prems", of c] Inr p by simp
    let ?c2 = "skipWhitespace c1"
    have c2: "passes c ?c2" using passes_trans(1) [OF c1] by simp
    show ?thesis
    proof (cases "at_char (CHR '']'') ?c2")
      case True
      then show ?thesis using Inr p close_passes [OF c1] by (subst array_loop.simps) (simp add: Let_def del: One_nat_def)
    next
      case False
      show ?thesis
      proof (cases "expect_char (CHR '','') ?c2")
        case (Inl e)
        then have "json_message c e" using message_here [OF passes_reaches [OF c2]] by (auto simp: expect_char_def split: if_splits)
        then show ?thesis using Inr p False Inl by (subst array_loop.simps) (simp add: Let_def)
      next
        case c3: (Inr c3)
        have c4: "passes c (skipWhitespace c3)"
          using passes_trans(1) [OF passes_trans(1) [OF c2 passes_reaches [OF expect_passes [OF c3]]]] by simp
        note sh = passes_shorter [OF c4]
        have "forward (skipWhitespace c3) (array_loop value (vs @ [v]) (skipWhitespace c3))"
          by (rule "1.IH" [OF Inr p [symmetric] refl False c3 refl sh "1.prems"])
        then have "forward c (array_loop value (vs @ [v]) (skipWhitespace c3))"
          by (rule forward_later [OF passes_reaches [OF c4]])
        then show ?thesis using Inr p False c3 sh by (subst array_loop.simps) (simp add: Let_def)
      qed
    qed
  qed
qed

definition keyed_value :: "reader \<Rightarrow> cursor \<Rightarrow> ((string \<times> Json) \<times> cursor) fallible" where
  "keyed_value value c = and_then (parseString c) (\<lambda>(key, c1). and_then (expect_char (CHR '':'') (skipWhitespace c1)) (\<lambda>c2.
      and_then (value c2) (\<lambda>(v, c3). Inr ((key, v), c3))))"

lemma parse_member_keyed:
  "snd c \<noteq> [] \<Longrightarrow> hd (snd c) = CHR 0x22 \<Longrightarrow>
    parse_member value c = (case keyed_value value c of Inl e \<Rightarrow> Inl e | Inr ((k, v), c1) \<Rightarrow> Inr (k, v, c1))"
  unfolding parse_member_def keyed_value_def and_then_def by (simp split: sum.split prod.split)

lemma keyed_value_forward:
  assumes "good_reader value"
  shows "forward c (keyed_value value c)"
  unfolding keyed_value_def
proof (rule forward_and_then [OF parseString_forward], clarify)
  fix key q s assume "parseString c = Inr (key, q, s)"
  then have c1: "passes c (q, s)" using parseString_forward [of c] by simp
  show "forward c (and_then (expect_char (CHR '':'') (skipWhitespace (q, s))) (\<lambda>c2. and_then (value c2) (\<lambda>(v, c3). Inr ((key, v), c3))))"
  proof (rule expect_forward [OF reaches_trans [OF passes_reaches [OF c1] reaches_skip]])
    fix c2 assume "passes (skipWhitespace (q, s)) c2"
    then have r: "reaches c c2" using reaches_trans [OF passes_reaches [OF c1] reaches_skip] passes_reaches reaches_trans by blast
    from good_readerD [OF assms, of c2] show "forward c (and_then (value c2) (\<lambda>(v, c3). Inr ((key, v), c3)))"
      using forward_later [OF r, of "value c2"] by (cases "value c2") (auto simp: and_then_def)
  qed
qed

lemma member_forward:
  assumes "good_reader value"
  shows "parse_member value c = Inl e \<Longrightarrow> json_message c e" "parse_member value c = Inr (k, v, c1) \<Longrightarrow> passes c c1"
proof -
  have bad: "\<exists>m. parse_member value c = json_error c m" if "snd c = [] \<or> hd (snd c) \<noteq> CHR 0x22"
    using that by (auto simp: parse_member_def)
  show "json_message c e" if e: "parse_member value c = Inl e"
  proof (cases "snd c = [] \<or> hd (snd c) \<noteq> CHR 0x22")
    case True
    then show ?thesis using bad e message_here [OF reaches_refl] by metis
  next
    case False
    then show ?thesis using e parse_member_keyed [of c "value"] keyed_value_forward [OF assms, of c] by (auto split: sum.splits prod.splits)
  qed
  show "passes c c1" if r: "parse_member value c = Inr (k, v, c1)"
  proof (cases "snd c = [] \<or> hd (snd c) \<noteq> CHR 0x22")
    case True
    then show ?thesis using bad r by (auto simp: json_error_def)
  next
    case False
    then show ?thesis using r parse_member_keyed [of c "value"] keyed_value_forward [OF assms, of c] by (auto split: sum.splits prod.splits)
  qed
qed

lemma object_loop_forward: "good_reader value \<Longrightarrow> forward c (object_loop value ms c)"
proof (induction "value" ms c rule: object_loop.induct)
  case (1 "value" ms c)
  show ?case
  proof (cases "parse_member value c")
    case (Inl e)
    then show ?thesis using member_forward(1) [OF "1.prems"] by (subst object_loop.simps) simp
  next
    case (Inr p)
    obtain k v c1 where p: "p = (k, v, c1)" by (metis prod.exhaust)
    have c1: "passes c c1" using member_forward(2) [OF "1.prems"] Inr p by blast
    let ?c2 = "skipWhitespace c1"
    have c2: "passes c ?c2" using passes_trans(1) [OF c1] by simp
    consider "k \<in> fst ` set ms" | "k \<notin> fst ` set ms" "at_char (CHR ''}'') ?c2" | "k \<notin> fst ` set ms" "\<not> at_char (CHR ''}'') ?c2" by blast
    then show ?thesis
    proof cases
      case 1
      then show ?thesis using Inr p by (subst object_loop.simps) (simp add: error_forward [OF passes_reaches [OF c1]])
    next
      case 2
      then show ?thesis using Inr p close_passes [OF c1] by (subst object_loop.simps) (simp add: Let_def del: One_nat_def)
    next
      case 3
      show ?thesis
      proof (cases "expect_char (CHR '','') ?c2")
        case (Inl e)
        then have "json_message c e" using message_here [OF passes_reaches [OF c2]] by (auto simp: expect_char_def split: if_splits)
        then show ?thesis using Inr p 3 Inl by (subst object_loop.simps) (simp add: Let_def)
      next
        case c3: (Inr c3)
        have c4: "passes c (skipWhitespace c3)"
          using passes_trans(1) [OF passes_trans(1) [OF c2 passes_reaches [OF expect_passes [OF c3]]]] by simp
        note sh = passes_shorter [OF c4]
        have "forward (skipWhitespace c3) (object_loop value (ms @ [(k, v)]) (skipWhitespace c3))"
          by (rule "1.IH" [OF Inr p [symmetric] refl 3(1) refl 3(2) c3 refl sh "1.prems"])
        then have "forward c (object_loop value (ms @ [(k, v)]) (skipWhitespace c3))"
          by (rule forward_later [OF passes_reaches [OF c4]])
        then show ?thesis using Inr p 3 c3 sh by (subst object_loop.simps) (simp add: Let_def)
      qed
    qed
  qed
qed

lemma parseArray_forward: "good_reader value \<Longrightarrow> forward c (parseArray value c)"
  unfolding parseArray_def
proof (rule expect_forward [OF reaches_refl])
  fix c1 assume g: "good_reader value" and c1: "passes c c1"
  show "forward c (let c2 = skipWhitespace c1 in if at_char (CHR '']'') c2 then Inr (J_Array [], advance 1 c2) else array_loop value [] c2)"
    using close_passes [OF c1] forward_later [OF reaches_trans [OF passes_reaches [OF c1] reaches_skip] array_loop_forward [OF g]]
    by (simp add: Let_def)
qed

lemma parseObject_forward: "good_reader value \<Longrightarrow> forward c (parseObject value c)"
  unfolding parseObject_def
proof (rule expect_forward [OF reaches_refl])
  fix c1 assume g: "good_reader value" and c1: "passes c c1"
  show "forward c (let c2 = skipWhitespace c1 in if at_char (CHR ''}'') c2 then Inr (J_Object [], advance 1 c2) else object_loop value [] c2)"
    using close_passes [OF c1] forward_later [OF reaches_trans [OF passes_reaches [OF c1] reaches_skip] object_loop_forward [OF g]]
    by (simp add: Let_def)
qed

lemma parse_value_forward: "good_reader (parse_value d)"
proof (induction d)
  case 0
  then show ?case by (auto simp: good_reader_def intro: error_forward)
next
  case (Suc d)
  have "forward c0 (parse_value (Suc d) c0)" for c0
  proof -
    define c where "c = skipWhitespace c0"
    have str: "forward c (and_then (parseString c) (\<lambda>(s, c1). Inr (J_String s, c1)))"
      using parseString_forward [of c] by (cases "parseString c") (auto simp: and_then_def)
    have "forward c (parse_value (Suc d) c0)"
      unfolding parse_value.simps Let_def c_def [symmetric]
      using str parseObject_forward [OF Suc] parseArray_forward [OF Suc] literal_forward number_forward
      by (simp add: error_forward)
    then show ?thesis by (rule forward_later [rotated]) (simp add: c_def)
  qed
  then show ?case unfolding good_reader_def by blast
qed

subsection \<open>The values that are returned\<close>

text \<open>At most so many levels, finite numbers, and no key twice in an object.\<close>

fun json_ok :: "nat \<Rightarrow> Json \<Rightarrow> bool" where
  "json_ok 0 j = False"
| "json_ok (Suc d) j = (case j of
       J_Array vs \<Rightarrow> list_all (json_ok d) vs
     | J_Object ms \<Rightarrow> distinct (map fst ms) \<and> list_all (\<lambda>m. json_ok d (snd m)) ms
     | J_Number x \<Rightarrow> b_finite x
     | _ \<Rightarrow> True)"

definition yields :: "(Json \<Rightarrow> bool) \<Rightarrow> reader \<Rightarrow> bool" where
  "yields P r = (\<forall>c v c'. r c = Inr (v, c') \<longrightarrow> P v)"

lemma yieldsD: "yields P r \<Longrightarrow> r c = Inr (v, c') \<Longrightarrow> P v"
  unfolding yields_def by blast

lemma array_loop_yields:
  "yields P value \<Longrightarrow> list_all P vs \<Longrightarrow> array_loop value vs c = Inr (j, c') \<Longrightarrow> \<exists>ws. j = J_Array ws \<and> list_all P ws"
proof (induction "value" vs c rule: array_loop.induct)
  case (1 "value" vs c)
  from "1.prems"(3) obtain v c1 where v: "value c = Inr (v, c1)"
    by (subst (asm) array_loop.simps) (auto split: sum.splits)
  then have P: "list_all P (vs @ [v])" using "1.prems"(2) yieldsD [OF "1.prems"(1)] by simp
  show ?case
  proof (cases "at_char (CHR '']'') (skipWhitespace c1)")
    case True
    then show ?thesis using "1.prems"(3) v P by (subst (asm) array_loop.simps) (auto simp: Let_def)
  next
    case False
    then obtain c3 where c3: "expect_char (CHR '','') (skipWhitespace c1) = Inr c3"
      "length (snd (skipWhitespace c3)) < length (snd c)" "array_loop value (vs @ [v]) (skipWhitespace c3) = Inr (j, c')"
      using "1.prems"(3) v by (subst (asm) (2) array_loop.simps) (auto simp: Let_def split: sum.splits if_splits)
    show ?thesis by (rule "1.IH" [OF v refl refl False c3(1) refl c3(2) "1.prems"(1) P c3(3)])
  qed
qed

lemma object_loop_yields:
  "yields P value \<Longrightarrow> distinct (map fst ms) \<Longrightarrow> list_all (\<lambda>m. P (snd m)) ms \<Longrightarrow> object_loop value ms c = Inr (j, c') \<Longrightarrow>
    \<exists>ns. j = J_Object ns \<and> distinct (map fst ns) \<and> list_all (\<lambda>m. P (snd m)) ns"
proof (induction "value" ms c rule: object_loop.induct)
  case (1 "value" ms c)
  from "1.prems"(4) obtain k v c1 where v: "parse_member value c = Inr (k, v, c1)" and k: "k \<notin> fst ` set ms"
    by (subst (asm) object_loop.simps) (auto simp: json_error_def split: sum.splits if_splits)
  have "P v" using v unfolding parse_member_def
    by (auto simp: and_then_def json_error_def split: sum.splits if_splits dest: yieldsD [OF "1.prems"(1)])
  then have P: "list_all (\<lambda>m. P (snd m)) (ms @ [(k, v)])" and D: "distinct (map fst (ms @ [(k, v)]))"
    using "1.prems"(2,3) k by auto
  show ?case
  proof (cases "at_char (CHR ''}'') (skipWhitespace c1)")
    case True
    then show ?thesis using "1.prems"(4) v k P D by (subst (asm) object_loop.simps) (auto simp: Let_def)
  next
    case False
    then obtain c3 where c3: "expect_char (CHR '','') (skipWhitespace c1) = Inr c3"
      "length (snd (skipWhitespace c3)) < length (snd c)" "object_loop value (ms @ [(k, v)]) (skipWhitespace c3) = Inr (j, c')"
      using "1.prems"(4) v k by (subst (asm) (2) object_loop.simps) (auto simp: Let_def split: sum.splits if_splits)
    show ?thesis by (rule "1.IH" [OF v refl refl k refl False c3(1) refl c3(2) "1.prems"(1) D P c3(3)])
  qed
qed

lemma parse_value_yields: "yields (json_ok d) (parse_value d)"
proof (induction d)
  case 0
  then show ?case by (simp add: yields_def json_error_def)
next
  case (Suc d)
  have "json_ok (Suc d) v" if r: "parse_value (Suc d) c0 = Inr (v, c')" for c0 v c'
  proof -
    define c where "c = skipWhitespace c0"
    have arr: "json_ok (Suc d) v" if a: "parseArray (parse_value d) c = Inr (v, c')"
    proof -
      obtain u where "(let c2 = skipWhitespace u in if at_char (CHR '']'') c2 then Inr (J_Array [], advance 1 c2)
          else array_loop (parse_value d) [] c2) = Inr (v, c')"
        using a unfolding parseArray_def and_then_iff by blast
      then show ?thesis using array_loop_yields [OF Suc, of "[]" "skipWhitespace u" v c'] by (auto simp: Let_def split: if_splits)
    qed
    have obj: "json_ok (Suc d) v" if a: "parseObject (parse_value d) c = Inr (v, c')"
    proof -
      obtain u where "(let c2 = skipWhitespace u in if at_char (CHR ''}'') c2 then Inr (J_Object [], advance 1 c2)
          else object_loop (parse_value d) [] c2) = Inr (v, c')"
        using a unfolding parseObject_def and_then_iff by blast
      then show ?thesis using object_loop_yields [OF Suc, of "[]" "skipWhitespace u" v c'] by (auto simp: Let_def split: if_splits)
    qed
    have num: "json_ok (Suc d) v" if "json_parseNumber c = Inr (v, c')"
      using that unfolding json_parseNumber_def and_then_iff by (auto simp: Let_def json_error_def split: option.splits if_splits)
    show ?thesis
      using r unfolding parse_value.simps Let_def c_def [symmetric]
      by (auto simp: json_error_def parseLiteral_def and_then_iff simp del: json_ok.simps dest: arr obj num split: if_splits)
        (simp_all)
  qed
  then show ?case unfolding yields_def by blast
qed

text \<open>
  C28: The reader decides every text. It rejects it with a message that names a byte position
  within the text, or returns a value of at most 65 levels in which every number is finite and no
  object has a key twice.
\<close>

theorem parseJson_outcome:
  "case parseJson source of
     Inl e \<Rightarrow> \<exists>position message. position \<le> length source \<and> e = ''invalid JSON at byte '' @ show_nat position @ '': '' @ message
   | Inr v \<Rightarrow> json_ok 65 v"
proof -
  let ?c = "skipWhitespace (0, source)"
  have r0: "reaches (0, source) ?c" by simp
  have pos: "\<exists>position message. position \<le> length source \<and> e = ''invalid JSON at byte '' @ show_nat position @ '': '' @ message"
    if "json_message (0, source) e" for e
    using that unfolding json_message_def reaches_def json_error_def by auto
  show ?thesis
  proof (cases "parse_value 65 ?c")
    case (Inl e)
    then have "json_message (0, source) e"
      using message_later [OF r0] good_readerD [OF parse_value_forward [of 65], of ?c] by simp
    from pos [OF this] show ?thesis by (simp add: parseJson_def kMaxJsonDepth_def and_then_def Inl)
  next
    case (Inr p)
    obtain v c where p: "p = (v, c)" by (rule prod.exhaust)
    have "passes ?c c" using good_readerD [OF parse_value_forward [of 65], of ?c] Inr p by simp
    then have "reaches (0, source) (skipWhitespace c)"
      using reaches_trans [OF reaches_trans [OF r0 passes_reaches] reaches_skip] by blast
    from message_here [OF this] pos have "\<exists>position message. position \<le> length source \<and> e = ''invalid JSON at byte '' @ show_nat position @ '': '' @ message"
      if "json_error (skipWhitespace c) ''trailing data'' = (Inl e :: unit fallible)" for e using that by blast
    moreover have "json_ok 65 v" using yieldsD [OF parse_value_yields] Inr p by blast
    ultimately show ?thesis
      by (simp add: parseJson_def kMaxJsonDepth_def and_then_def Inr p Let_def json_error_def)
  qed
qed

subsection \<open>Reading back printed values\<close>

text \<open>
  A reference printer: no blanks, numbers as integers. A value is plain if all its numbers are
  integers below \<open>2 ^ 53\<close>, which doubles hold exactly.
\<close>

definition plain_number :: "binary64 \<Rightarrow> bool" where
  "plain_number x = (\<bar>\<lfloor>b_val x\<rfloor>\<bar> < 2 ^ 53 \<and> x = b_of_int \<lfloor>b_val x\<rfloor>)"

fun json_plain :: "Json \<Rightarrow> bool" where
  "json_plain (J_Number x) = plain_number x"
| "json_plain (J_Array vs) = list_all json_plain vs"
| "json_plain (J_Object ms) = list_all (\<lambda>m. json_plain (snd m)) ms"
| "json_plain _ = True"

definition string_text :: "string \<Rightarrow> string" where
  "string_text s = CHR 0x22 # jsonEscape s @ [CHR 0x22]"

fun json_text :: "Json \<Rightarrow> string" where
  "json_text J_Null = ''null''"
| "json_text (J_Boolean b) = (if b then ''true'' else ''false'')"
| "json_text (J_Number x) = show_int \<lfloor>b_val x\<rfloor>"
| "json_text (J_String s) = string_text s"
| "json_text (J_Array vs) = ''['' @ join_with (CHR '','') (map json_text vs) @ '']''"
| "json_text (J_Object ms) = ''{'' @ join_with (CHR '','') (map (\<lambda>m. string_text (fst m) @ '':'' @ json_text (snd m)) ms) @ ''}''"

text \<open>The rest of a text after a value: nothing, or one of the characters that close or separate.\<close>

definition closed :: "string \<Rightarrow> bool" where
  "closed rest = (rest = [] \<or> hd rest \<in> {CHR '','', CHR '']'', CHR ''}''})"

lemma hex_digit_value: "n < 16 \<Longrightarrow> hexValue (''0123456789abcdef'' ! n) = int n"
proof -
  assume "n < 16"
  then have "n \<in> {0, 1, 2, 3, 4, 5, 6, 7, 8, 9, 10, 11, 12, 13, 14, 15}" by (simp; arith)
  then show ?thesis unfolding insert_iff empty_iff by (elim disjE) (simp_all add: hexValue_def)
qed

lemma unicode_step:
  "n < 16 \<Longrightarrow> unicode_digits (Suc k) u (p, ''0123456789abcdef'' ! n # t) = unicode_digits k (16 * u + int n) (Suc p, t)"
  using hex_digit_value [of n] by (simp add: advance_def Let_def)

lemma unicode_hex:
  assumes "n < 256"
  shows "parseUnicodeUnit (p, hex_text n @ t) = Inr (int n, (p + 4, t))"
proof -
  define d where "d k = n div 16 ^ k mod 16" for k
  have d: "d k < 16" for k by (simp add: d_def)
  have h: "hex_text n = map (\<lambda>k. ''0123456789abcdef'' ! d k) [3, 2, 1, 0]" by (simp only: hex_text_def d_def)
  have "d 3 = 0" "d 2 = 0" "int n = 16 * int (d 1) + int (d 0)" using assms by (simp_all add: d_def) presburger
  then have "unicode_digits (Suc (Suc (Suc (Suc 0)))) 0 (p, hex_text n @ t) = Inr (int n, (p + 4, t))"
    unfolding h list.map append_Cons append_Nil unicode_step [OF d] by simp
  then show ?thesis by (simp add: parseUnicodeUnit_def h numeral_eq_Suc del: unicode_digits.simps)
qed

lemma length_hex_text: "length (hex_text n) = 4"
  by (simp add: hex_text_def)

lemma loop_plain:
  "x \<noteq> CHR 0x22 \<Longrightarrow> x \<noteq> CHR 0x5C \<Longrightarrow> \<not> of_char x < (0x20 :: nat) \<Longrightarrow>
    string_loop out (p, x # t) = string_loop (out @ [x]) (Suc p, t)"
  by (subst string_loop.simps) (simp add: advance_def Let_def)

lemma loop_end: "string_loop out (p, CHR 0x22 # t) = Inr (out, (Suc p, t))"
  by (subst string_loop.simps) (simp add: advance_def)

lemma loop_escape:
  "parse_escape (Suc p, t) = Inr (s, (q, t')) \<Longrightarrow> length t' \<le> length t \<Longrightarrow>
    string_loop out (p, CHR 0x5C # t) = string_loop (out @ s) (q, t')"
  by (subst string_loop.simps) (simp add: advance_def Let_def)

lemma loop_char: "string_loop out (p, escaped_char c @ t) = string_loop (out @ [c]) (p + length (escaped_char c), t)"
proof (cases "c \<in> {CHR 0x22, CHR 0x5C, CHR 0x08, CHR 0x0C, CHR 0x0A, CHR 0x0D, CHR 0x09}")
  case True
  then have "\<exists>e. escaped_char c = [CHR 0x5C, e] \<and> simple_escape e = Some c \<and> e \<noteq> CHR ''u''"
    unfolding insert_iff empty_iff by (elim disjE) (simp_all add: escaped_char_def simple_escape_def)
  then obtain e where e: "escaped_char c = [CHR 0x5C, e]" "simple_escape e = Some c" "e \<noteq> CHR ''u''" by blast
  then have "parse_escape (Suc p, e # t) = Inr ([c], (Suc (Suc p), t))" by (simp add: parse_escape_def advance_def Let_def)
  from loop_escape [OF this] e(1) show ?thesis by simp
next
  case False
  then have c: "escaped_char c = (if of_char c < (0x20 :: nat) then [CHR 0x5C, CHR ''u''] @ hex_text (of_char c) else [c])"
    unfolding insert_iff empty_iff by (simp add: escaped_char_def)
  show ?thesis
  proof (cases "of_char c < (0x20 :: nat)")
    case True
    then have "utf8 (int (of_char c)) = [c]" by (simp add: utf8_def byte_def nat_int)
    then have "parse_escape (Suc p, CHR ''u'' # hex_text (of_char c) @ t) = Inr ([c], (p + 6, t))"
      using True unicode_hex [of "of_char c" "Suc (Suc p)" t]
      by (simp add: parse_escape_def parse_unicode_def advance_def Let_def and_then_def)
    from loop_escape [OF this] show ?thesis using True c by (simp add: length_hex_text)
  next
    case f: False
    then show ?thesis using False loop_plain [of c out p t] c unfolding insert_iff empty_iff by simp
  qed
qed

lemma loop_text: "string_loop out (p, jsonEscape s @ CHR 0x22 # t) = Inr (out @ s, (p + length (jsonEscape s) + 1, t))"
proof (induction s arbitrary: out p)
  case Nil
  then show ?case by (simp add: jsonEscape_def loop_end)
next
  case (Cons c s)
  have e: "jsonEscape (c # s) = escaped_char c @ jsonEscape s" by (simp add: jsonEscape_def)
  show ?case using Cons.IH [of "out @ [c]" "p + length (escaped_char c)"] by (simp add: e loop_char)
qed

lemma string_reads_back: "parseString (p, string_text s @ t) = Inr (s, (p + length (string_text s), t))"
  using loop_text [of "[]" "Suc p" s t] by (simp add: parseString_def string_text_def expect_char_def at_char_def advance_def and_then_def)

subsection \<open>Numbers\<close>

lemma show_nat_head: "0 < n \<Longrightarrow> hd (show_nat n) \<noteq> CHR ''0''"
proof (induction n rule: show_nat.induct)
  case (1 n)
  show ?case
  proof (cases "n < 10")
    case True
    then show ?thesis using "1.prems" digit_char_value [of n] by (auto simp: show_nat.simps)
  next
    case False
    then show ?thesis using 1 by (subst show_nat.simps) simp
  qed
qed

lemma skip_printed:
  assumes "list_all is_digit ds" "closed rest"
  shows "skip_digits (p, ds @ rest) = (p + length ds, rest)"
proof -
  have "rest = [] \<or> \<not> is_digit (hd rest)" using assms(2) by (auto simp: closed_def is_digit_def)
  then have "takeWhile is_digit (ds @ rest) = ds" using assms(1) by (induction ds) (cases rest, auto)
  then show ?thesis by (simp add: skip_digits_def advance_def)
qed

lemma integer_printed:
  assumes "closed rest"
  shows "integer_part (p, show_nat n @ rest) = Inr (p + length (show_nat n), rest)"
proof (cases "n = 0")
  case True
  moreover have "digit_char 0 = CHR ''0''" by code_simp
  ultimately show ?thesis using assms
    by (auto simp: integer_part_def show_nat.simps at_digit_def advance_def closed_def is_digit_def)
next
  case False
  have "is_digit (hd (show_nat n))" using show_nat_digits [of n] by (cases "show_nat n") auto
  then show ?thesis
    using False show_nat_head [of n] skip_printed [OF show_nat_digits assms, of p n]
    by (simp add: integer_part_def at_digit_def)
qed

lemma closed_stops:
  assumes "closed rest"
  shows "fraction_part (p, rest) = Inr (p, rest)" "exponent_part (p, rest) = Inr (p, rest)"
  using assms by (auto simp: closed_def fraction_part_def exponent_part_def at_char_def)

lemma lower_digit: "is_digit c \<Longrightarrow> to_lower c = c"
  by (auto simp: is_digit_def to_lower_def is_upper_def)

lemma number_value_digits: "number_value 10 dec_digit ds = digits_value ds"
  by (simp add: number_value_def digits_value_def dec_digit_def)

lemma digits_no_word:
  assumes "list_all is_digit ds"
  shows "\<not> starts_with_ci ''infinity'' ds" "\<not> starts_with_ci ''inf'' ds" "\<not> starts_with_ci ''nan'' ds" "\<not> starts_with_ci ''0x'' ds"
proof -
  have "map to_lower (take n ds) = take n ds" for n
    using assms by (intro map_idI) (auto simp: list_all_iff lower_digit dest: in_set_takeD)
  moreover have "is_digit c" if "c \<in> set (take n ds)" for n c using that assms by (auto simp: list_all_iff dest: in_set_takeD)
  moreover have "\<not> is_digit (CHR ''i'')" "\<not> is_digit (CHR ''n'')" "\<not> is_digit (CHR ''x'')" by (simp_all add: is_digit_def)
  ultimately show "\<not> starts_with_ci ''infinity'' ds" "\<not> starts_with_ci ''inf'' ds" "\<not> starts_with_ci ''nan'' ds" "\<not> starts_with_ci ''0x'' ds"
    unfolding starts_with_ci_def by (metis list.set_intros(1) list.set_intros(2))+
qed

lemma mantissa_digits:
  assumes "list_all is_digit ds" "ds \<noteq> []"
  shows "read_mantissa 10 is_digit dec_digit ds = Some (of_nat (digits_value ds), [])"
  using assms by (simp add: read_mantissa_def takeWhile_digits dropWhile_digits number_value_digits) (simp add: digits_value_def)

lemma strtod_digits:
  assumes "list_all is_digit ds" "ds \<noteq> []"
  shows "strtod ds = (signed64 False (of_nat (digits_value ds)), [], range_error (of_nat (digits_value ds)))"
    "strtod (CHR ''-'' # ds) = (signed64 True (of_nat (digits_value ds)), [], range_error (of_nat (digits_value ds)))"
proof -
  obtain c cs where ds: "ds = c # cs" using assms(2) by (cases ds) auto
  have c: "is_digit c" using assms(1) ds by simp
  have sp: "dropWhile is_space ds = ds" "dropWhile is_space (CHR ''-'' # ds) = CHR ''-'' # ds"
    using digit_not_space [OF c] by (simp_all add: ds is_space_def)
  have sg: "hd ds \<noteq> CHR ''-''" "hd ds \<noteq> CHR ''+''" using digit_not_sign [OF c] by (simp_all add: ds)
  show "strtod ds = (signed64 False (of_nat (digits_value ds)), [], range_error (of_nat (digits_value ds)))"
    unfolding strtod_def Let_def sp using sg assms digits_no_word [OF assms(1)]
    by (simp add: mantissa_digits read_exponent_def rat_power_def)
  show "strtod (CHR ''-'' # ds) = (signed64 True (of_nat (digits_value ds)), [], range_error (of_nat (digits_value ds)))"
    unfolding strtod_def Let_def sp using assms digits_no_word [OF assms(1)]
    by (simp add: mantissa_digits read_exponent_def rat_power_def)
qed

lemma round64_zero: "round64 0 = B_Zero False"
  by (simp add: round64_def)

lemma no_range_error: "\<bar>int n\<bar> < 2 ^ 53 \<Longrightarrow> \<not> range_error (of_nat n)"
proof (cases "n = 0")
  case False
  assume "\<bar>int n\<bar> < 2 ^ 53"
  from b_of_int_exact [OF this] False have "round64 (of_nat n) = B_Num (of_nat n)" by (simp add: b_of_int_def)
  then show ?thesis by (simp add: range_error_def)
qed (simp add: range_error_def round64_def)

lemma stod_printed:
  assumes "\<bar>i\<bar> < 2 ^ 53"
  shows "stod (show_int i) = Some (b_of_int i, length (show_int i))"
proof -
  let ?n = "nat \<bar>i\<bar>"
  have n: "list_all is_digit (show_nat ?n)" "show_nat ?n \<noteq> []" "digits_value (show_nat ?n) = ?n"
    by (simp_all add: show_nat_digits digits_value_show)
  have "\<forall>c \<in> set (show_int i). c \<noteq> CHR 0x00"
    using n(1) digit_not_sign by (auto simp: show_int_def list_all_iff)
  then have c: "c_str (show_int i) = show_int i" by (simp add: c_str_def takeWhile_eq_all_conv)
  have "\<not> range_error (of_nat ?n)" using no_range_error [of ?n] assms by simp
  moreover have "show_int i = (if i < 0 then CHR ''-'' # show_nat ?n else show_nat ?n)" by (simp add: show_int_def)
  moreover have "signed64 (i < 0) (of_nat ?n) = b_of_int i" by (auto simp: signed64_def b_of_int_def round64_zero)
  ultimately show ?thesis
    using strtod_digits [OF n(1,2)] n(3) unfolding stod_def c by (auto split: if_splits)
qed

lemma b_of_int_finite: "\<bar>i\<bar> < 2 ^ 53 \<Longrightarrow> b_finite (b_of_int i)"
  by (cases "i = 0") (simp add: b_of_int_def round64_zero, simp add: b_of_int_exact)

lemma number_reads_back:
  assumes "\<bar>i\<bar> < 2 ^ 53" "closed rest"
  shows "json_parseNumber (p, show_int i @ rest) = Inr (J_Number (b_of_int i), (p + length (show_int i), rest))"
proof -
  have d: "hd (show_nat n) \<noteq> CHR ''-''" for n using show_nat_digits [of n] digit_not_sign by (cases "show_nat n") auto
  have "integer_part (if at_char (CHR ''-'') (p, show_int i @ rest) then advance 1 (p, show_int i @ rest) else (p, show_int i @ rest)) =
      Inr (p + length (show_int i), rest)"
    using integer_printed [OF assms(2)] d by (auto simp: show_int_def at_char_def advance_def)
  then show ?thesis
    using closed_stops [OF assms(2)] stod_printed [OF assms(1)] b_of_int_finite [OF assms(1)]
    by (simp add: json_parseNumber_def and_then_def Let_def)
qed

subsection \<open>Values\<close>

lemma skip_none: "t = [] \<or> \<not> json_space (hd t) \<Longrightarrow> skipWhitespace (p, t) = (p, t)"
  by (cases t) (auto simp: skipWhitespace_def advance_def)

lemma closed_no_space: "closed rest \<Longrightarrow> skipWhitespace (p, rest) = (p, rest)"
  by (rule skip_none) (auto simp: closed_def json_space_def)

lemma show_int_head: "\<exists>c t. show_int i = c # t \<and> (c = CHR ''-'' \<or> is_digit c)"
proof -
  have "\<exists>c t. show_nat n = c # t \<and> is_digit c" for n using show_nat_digits [of n] by (cases "show_nat n") auto
  then show ?thesis by (auto simp: show_int_def) metis
qed

lemma json_text_head: "json_text j \<noteq> [] \<and> \<not> json_space (hd (json_text j)) \<and> hd (json_text j) \<noteq> CHR '']'' \<and> hd (json_text j) \<noteq> CHR ''}''"
proof (cases j)
  case (J_Number x)
  obtain c t where "show_int \<lfloor>b_val x\<rfloor> = c # t" "c = CHR ''-'' \<or> is_digit c" using show_int_head by blast
  then show ?thesis using J_Number by (auto simp: json_space_def is_digit_def)
qed (auto simp: string_text_def json_space_def)

lemma skip_text: "skipWhitespace (p, json_text j @ t) = (p, json_text j @ t)"
  using json_text_head [of j] by (intro skip_none) simp

definition reads_text :: "reader \<Rightarrow> Json \<Rightarrow> bool" where
  "reads_text value v = (\<forall>p rest. closed rest \<longrightarrow> value (p, json_text v @ rest) = Inr (v, (p + length (json_text v), rest)))"

lemma reads_textD: "reads_text value v \<Longrightarrow> closed rest \<Longrightarrow> value (p, json_text v @ rest) = Inr (v, (p + length (json_text v), rest))"
  unfolding reads_text_def by blast

lemma closed_Cons [simp]: "closed (c # t) = (c \<in> {CHR '','', CHR '']'', CHR ''}''})"
  by (simp add: closed_def)

lemma array_reads_back:
  "vs \<noteq> [] \<Longrightarrow> list_all (reads_text value) vs \<Longrightarrow>
    array_loop value ws (p, join_with (CHR '','') (map json_text vs) @ CHR '']'' # rest) =
      Inr (J_Array (ws @ vs), (p + length (join_with (CHR '','') (map json_text vs)) + 1, rest))"
proof (induction vs arbitrary: ws p rule: induct_list012)
  case (2 v)
  then have "value (p, json_text v @ CHR '']'' # rest) = Inr (v, (p + length (json_text v), CHR '']'' # rest))"
    by (intro reads_textD) simp_all
  then show ?case by (subst array_loop.simps) (simp add: closed_no_space at_char_def advance_def Let_def)
next
  case (3 v w vs)
  let ?t = "join_with (CHR '','') (map json_text (w # vs))"
  have "value (p, json_text v @ CHR '','' # ?t @ CHR '']'' # rest) =
      Inr (v, (p + length (json_text v), CHR '','' # ?t @ CHR '']'' # rest))"
    using 3 by (intro reads_textD) simp_all
  moreover have "skipWhitespace (q, ?t @ CHR '']'' # rest) = (q, ?t @ CHR '']'' # rest)" for q
    using skip_text [of q w] by (cases vs) simp_all
  ultimately show ?case
    using "3.IH"(2) [of "ws @ [v]" "p + length (json_text v) + 1"] "3.prems"
    by (subst array_loop.simps) (simp add: closed_no_space at_char_def expect_char_def advance_def Let_def)
qed simp

definition member_text :: "string \<times> Json \<Rightarrow> string" where
  "member_text m = string_text (fst m) @ '':'' @ json_text (snd m)"

lemma member_reads_back:
  assumes "reads_text value v" "closed rest"
  shows "parse_member value (p, member_text (k, v) @ rest) = Inr (k, v, (p + length (member_text (k, v)), rest))"
proof -
  let ?t = "json_text v @ rest"
  have s: "parseString (p, string_text k @ CHR '':'' # ?t) = Inr (k, (p + length (string_text k), CHR '':'' # ?t))"
    by (rule string_reads_back)
  have "skipWhitespace (q, CHR '':'' # ?t) = (q, CHR '':'' # ?t)" for q by (rule skip_none) (simp add: json_space_def)
  then show ?thesis
    using s reads_textD [OF assms, of "p + length (string_text k) + 1"]
    by (simp add: parse_member_def member_text_def and_then_def expect_char_def at_char_def advance_def) (simp add: string_text_def)
qed

lemma member_head: "skipWhitespace (q, member_text m @ t) = (q, member_text m @ t)"
  by (rule skip_none) (simp add: member_text_def string_text_def json_space_def)

lemma object_reads_back:
  "ms \<noteq> [] \<Longrightarrow> list_all (\<lambda>m. reads_text value (snd m)) ms \<Longrightarrow> distinct (map fst (ns @ ms)) \<Longrightarrow>
    object_loop value ns (p, join_with (CHR '','') (map member_text ms) @ CHR ''}'' # rest) =
      Inr (J_Object (ns @ ms), (p + length (join_with (CHR '','') (map member_text ms)) + 1, rest))"
proof (induction ms arbitrary: ns p rule: induct_list012)
  case (2 m)
  then have "parse_member value (p, member_text m @ CHR ''}'' # rest) = Inr (fst m, snd m, (p + length (member_text m), CHR ''}'' # rest))"
    using member_reads_back [of "value" "snd m" "CHR ''}'' # rest" p "fst m"] by simp
  then show ?case using "2.prems"(3) by (subst object_loop.simps) (simp add: closed_no_space at_char_def advance_def Let_def)
next
  case (3 m n ms)
  let ?t = "join_with (CHR '','') (map member_text (n # ms))"
  have "parse_member value (p, member_text m @ CHR '','' # ?t @ CHR ''}'' # rest) =
      Inr (fst m, snd m, (p + length (member_text m), CHR '','' # ?t @ CHR ''}'' # rest))"
    using member_reads_back [of "value" "snd m" "CHR '','' # ?t @ CHR ''}'' # rest" p "fst m"] 3 by simp
  moreover have "skipWhitespace (q, ?t @ CHR ''}'' # rest) = (q, ?t @ CHR ''}'' # rest)" for q
    using member_head [of q n] by (cases ms) simp_all
  ultimately show ?case
    using "3.IH"(2) [of "ns @ [m]" "p + length (member_text m) + 1"] "3.prems"
    by (subst object_loop.simps) (simp add: closed_no_space at_char_def expect_char_def advance_def Let_def)
qed simp

lemma value_at: "skipWhitespace c = c \<Longrightarrow> snd c \<noteq> [] \<Longrightarrow> parse_value (Suc d) c =
    (let x = hd (snd c) in
       if x = CHR ''{'' then parseObject (parse_value d) c
       else if x = CHR ''['' then parseArray (parse_value d) c
       else if x = CHR 0x22 then and_then (parseString c) (\<lambda>(s, c1). Inr (J_String s, c1))
       else if x = CHR ''t'' then parseLiteral ''true'' (J_Boolean True) c
       else if x = CHR ''f'' then parseLiteral ''false'' (J_Boolean False) c
       else if x = CHR ''n'' then parseLiteral ''null'' J_Null c
       else if x = CHR ''-'' \<or> is_digit x then json_parseNumber c
       else json_error c ''unexpected token'')"
  by (simp add: Let_def)

lemma value_reads_back: "json_ok d j \<Longrightarrow> json_plain j \<Longrightarrow> reads_text (parse_value d) j"
proof (induction d arbitrary: j)
  case (Suc d)
  have "parse_value (Suc d) (p, json_text j @ rest) = Inr (j, (p + length (json_text j), rest))" if rest: "closed rest" for p rest
  proof -
    have at: "skipWhitespace (p, json_text j @ rest) = (p, json_text j @ rest)" "snd (p, json_text j @ rest) \<noteq> []"
      using skip_text [of p j rest] json_text_head [of j] by simp_all
    show ?thesis
    proof (cases j)
      case (J_Number x)
      obtain c t where h: "show_int \<lfloor>b_val x\<rfloor> = c # t" "c = CHR ''-'' \<or> is_digit c" using show_int_head by blast
      have "c \<notin> {CHR ''{'', CHR ''['', CHR 0x22, CHR ''t'', CHR ''f'', CHR ''n''}" using h(2) by (auto simp: is_digit_def)
      then show ?thesis
        using Suc.prems(2) number_reads_back [OF _ rest, of "\<lfloor>b_val x\<rfloor>" p] h J_Number
        unfolding value_at [OF at] by (simp add: plain_number_def)
    next
      case (J_String s)
      then show ?thesis using string_reads_back [of p s rest] unfolding value_at [OF at]
        by (simp add: and_then_def string_text_def)
    next
      case (J_Array vs)
      have vs: "list_all (reads_text (parse_value d)) vs"
        using Suc.prems Suc.IH J_Array by (auto simp: list_all_iff)
      show ?thesis
      proof (cases "vs = []")
        case True
        then show ?thesis using J_Array unfolding value_at [OF at]
          by (simp add: parseArray_def expect_char_def at_char_def advance_def and_then_def skip_none json_space_def)
      next
        case False
        let ?t = "join_with (CHR '','') (map json_text vs) @ CHR '']'' # rest"
        obtain v vs' where v: "vs = v # vs'" using False by (cases vs) auto
        have t: "\<exists>t'. ?t = json_text v @ t'" using v by (cases vs') auto
        have sk: "skipWhitespace (q, ?t) = (q, ?t)" "\<not> at_char (CHR '']'') (q, ?t)" for q
          using t skip_text [of q v] json_text_head [of v] by (auto simp: at_char_def)
        show ?thesis
          using array_reads_back [OF False vs, of "[]" "Suc p" rest] sk [of "Suc p"] J_Array unfolding value_at [OF at]
          by (simp add: parseArray_def expect_char_def at_char_def advance_def and_then_def)
      qed
    next
      case (J_Object ms)
      have ms: "list_all (\<lambda>m. reads_text (parse_value d) (snd m)) ms" "distinct (map fst ([] @ ms))"
        using Suc.prems Suc.IH J_Object by (auto simp: list_all_iff)
      have printed: "json_text j = CHR ''{'' # join_with (CHR '','') (map member_text ms) @ ''}''"
        using J_Object by (simp add: member_text_def cong: map_cong)
      show ?thesis
      proof (cases "ms = []")
        case True
        then show ?thesis using J_Object unfolding value_at [OF at]
          by (simp add: parseObject_def expect_char_def at_char_def advance_def and_then_def skip_none json_space_def)
      next
        case False
        let ?t = "join_with (CHR '','') (map member_text ms) @ CHR ''}'' # rest"
        obtain m ms' where m: "ms = m # ms'" using False by (cases ms) auto
        have t: "\<exists>t'. ?t = member_text m @ t'" using m by (cases ms') auto
        have sk: "skipWhitespace (q, ?t) = (q, ?t)" "\<not> at_char (CHR ''}'') (q, ?t)" for q
          using t member_head [of q m] by (auto simp: at_char_def member_text_def string_text_def)
        show ?thesis
          using object_reads_back [OF False ms, of "Suc p" rest] sk [of "Suc p"] J_Object unfolding value_at [OF at] unfolding printed
          by (simp add: parseObject_def expect_char_def at_char_def advance_def and_then_def)
      qed
    next
      case (J_Boolean b)
      then show ?thesis unfolding value_at [OF at] by (simp add: parseLiteral_def advance_def)
    next
      case J_Null
      then show ?thesis unfolding value_at [OF at] by (simp add: parseLiteral_def advance_def)
    qed
  qed
  then show ?case unfolding reads_text_def by blast
qed simp

text \<open>
  C13: The reader is complete for printed values. Every value with at most 65 levels and distinct
  keys whose numbers are integers below \<open>2 ^ 53\<close> is read back from its text: strings of any bytes
  through the escapes of the writer, numbers exactly, arrays and objects in order.
\<close>

theorem parseJson_reads_back:
  assumes "json_ok 65 j" and "json_plain j"
  shows "parseJson (json_text j) = Inr j"
proof -
  have "parse_value 65 (0, json_text j @ []) = Inr (j, (0 + length (json_text j), []))"
    by (rule reads_textD [OF value_reads_back [OF assms]]) (simp add: closed_def)
  then show ?thesis
    using skip_text [of 0 j "[]"] by (simp add: parseJson_def kMaxJsonDepth_def and_then_def skip_none)
qed

theorem parseJson_reads_back_witness:
  "parseJson (json_text (J_Object [([CHR 0x22, CHR 0x01], J_Array [J_Number (b_of_int (- 7)), J_Null]), (''k'', J_String [CHR 0xC3])])) =
     Inr (J_Object [([CHR 0x22, CHR 0x01], J_Array [J_Number (b_of_int (- 7)), J_Null]), (''k'', J_String [CHR 0xC3])])"
proof (rule parseJson_reads_back)
  have "plain_number (b_of_int (- 7))" by (simp add: plain_number_def b_of_int_exact)
  then show "json_plain (J_Object [([CHR 0x22, CHR 0x01], J_Array [J_Number (b_of_int (- 7)), J_Null]), (''k'', J_String [CHR 0xC3])])"
    by simp
  show "json_ok 65 (J_Object [([CHR 0x22, CHR 0x01], J_Array [J_Number (b_of_int (- 7)), J_Null]), (''k'', J_String [CHR 0xC3])])"
    by (simp add: numeral_eq_Suc b_of_int_finite)
qed

end
