(* ===== verification/Scoring.thy ===== *)
theory Scoring
  imports Binary64 CText
begin

section \<open>Scores, levels and claims of a candidate assessment\<close>

text \<open>
  \<open>evidence/C3EcoAssessmentScoring.cpp\<close> with the records of \<open>evidence/C3EcoAssessment.h\<close>: the
  weighted score of the eleven domains, the level a candidate is recommended for, and which of the
  requested claims may be made. Scores are binary64 values and every operation rounds; \<open>gates.at(id)\<close>
  on a missing gate, which throws, is an error.
\<close>

subsection \<open>Records\<close>

record Metadata =
  productName :: string
  productVersion :: string
  softwareClass :: string
  functionalUnit :: string
  boundary :: string
  workload :: string
  measurementQuality :: int
  dataQuality :: int
  uncertaintyPercent :: binary64
  penaltyPoints :: binary64
  aiInScope :: bool
  aiRole :: string
  trainingBoundaryDeclared :: bool
  inferenceBoundaryDeclared :: bool
  tokenOrInferenceMetricDeclared :: bool
  aiExclusionsDeclared :: bool
  qualityEnergyFrontierOptions :: int
  clientDeviceImpact :: bool
  ecoRegressionControlDefined :: bool
  independentReview :: bool
  publicReport :: bool
  continuousTelemetry :: bool
  publicEvidence :: bool
  highSeverityClaimRisk :: bool
  highScaleSaas :: bool

record Gate =
  gt_id :: string
  inputPass :: bool
  effectivePass :: bool
  gt_evidence :: string

record Criterion =
  cr_id :: string
  cr_domain :: char
  rawScore :: int
  effectiveScore :: int
  cr_weight :: binary64
  evidenceStatus :: string
  cr_applicable :: bool
  approval :: string
  cr_evidence :: string

record MaterialityComponent =
  mc_component :: string
  sharePercent :: binary64
  disposition :: string
  mc_evidence :: string

record MaterialityResult =
  mr_components :: "MaterialityComponent list"
  declaredSharePercent :: binary64
  omittedSharePercent :: binary64
  individualMaterialOmission :: bool
  cumulativeOmissionExceeded :: bool

record Regression =
  rg_id :: string
  rg_kind :: string
  baseline :: binary64
  rg_current :: binary64
  lowerIsBetter :: bool
  explanation :: string
  correctiveAction :: string
  rg_evidence :: string
  deteriorationPercent :: binary64
  thresholdExceeded :: bool
  unresolved :: bool

record Claim =
  cl_id :: string
  cl_type :: string
  cl_text :: string
  scopeMatches :: bool
  functionalUnitEquivalent :: bool
  boundaryEquivalent :: bool
  qualityEquivalent :: bool
  methodEquivalent :: bool
  legalTechnicalEvidence :: bool
  cl_evidence :: string
  permitted_claim :: bool
  cl_reasons :: "string list"

record DomainScore =
  ds_domain :: char
  normativeWeight :: binary64
  adjustedWeight :: binary64
  ds_applicable :: bool
  ds_percent :: binary64
  ds_points :: binary64
  criterionCount :: nat

datatype Level = L_None | Candidate | Bronze | Silver | Gold | Platinum | Diamond

fun level_rank :: "Level \<Rightarrow> nat" where
  "level_rank L_None = 0"
| "level_rank Candidate = 1"
| "level_rank Bronze = 2"
| "level_rank Silver = 3"
| "level_rank Gold = 4"
| "level_rank Platinum = 5"
| "level_rank Diamond = 6"

text \<open>Levels are compared by their numbers, as the casts to \<open>int\<close> do.\<close>

instantiation Level :: linorder
begin

definition less_eq_Level :: "Level \<Rightarrow> Level \<Rightarrow> bool" where
  "less_eq_Level a b = (level_rank a \<le> level_rank b)"

definition less_Level :: "Level \<Rightarrow> Level \<Rightarrow> bool" where
  "less_Level a b = (level_rank a < level_rank b)"

instance
proof
  fix a b :: Level
  show "a \<le> b \<Longrightarrow> b \<le> a \<Longrightarrow> a = b"
    by (cases a; cases b) (simp_all add: less_eq_Level_def)
qed (auto simp: less_eq_Level_def less_Level_def)

end

record AssessmentDecision =
  totalScore :: binary64
  scoreCeiling :: Level
  recommendation :: Level
  eligible :: bool
  unresolvedEcoRegression :: bool
  ecoRegressionTriggered :: bool
  qualityRegression :: bool
  failedGates :: "string list"
  evidenceCaps :: "string list"
  decisionReasons :: "string list"

subsection \<open>Domain scores\<close>

definition kEpsilon :: binary64 where
  "kEpsilon = round64 (1 / 10 ^ 9)"

abbreviation b_zero :: binary64 where "b_zero \<equiv> B_Zero False"

definition normativeDomainWeights :: "(char \<times> binary64) list" where
  "normativeDomainWeights = map (map_prod id b_of_int)
     [(CHR ''A'', 12), (CHR ''B'', 12), (CHR ''C'', 12), (CHR ''D'', 12), (CHR ''E'', 8), (CHR ''F'', 10),
      (CHR ''G'', 10), (CHR ''H'', 6), (CHR ''I'', 6), (CHR ''J'', 4), (CHR ''K'', 8)]"

definition domain_criteria :: "char \<Rightarrow> Criterion list \<Rightarrow> Criterion list" where
  "domain_criteria domain cs = filter (\<lambda>c. cr_domain c = domain \<and> cr_applicable c) cs"

definition domain_score :: "Criterion list \<Rightarrow> char \<times> binary64 \<Rightarrow> DomainScore" where
  "domain_score criteria entry = (let cs = domain_criteria (fst entry) criteria;
       numerator = foldl (\<lambda>n c. b_add n (b_mul (b_of_int (effectiveScore c)) (cr_weight c))) b_zero cs;
       denominatorWeight = foldl (\<lambda>n c. b_add n (cr_weight c)) b_zero cs
     in \<lparr>ds_domain = fst entry, normativeWeight = snd entry, adjustedWeight = b_zero, ds_applicable = cs \<noteq> [],
         ds_percent = (if cs \<noteq> [] then b_div (b_mul (b_of_int 100) numerator) (b_mul (b_of_int 5) denominatorWeight)
                       else b_zero),
         ds_points = b_zero, criterionCount = length cs\<rparr>)"

definition reallocated :: "binary64 \<Rightarrow> DomainScore \<Rightarrow> DomainScore" where
  "reallocated applicableNormativeWeight d =
     (if ds_applicable d
      then let w = b_div (b_mul (normativeWeight d) (b_of_int 100)) applicableNormativeWeight
        in d\<lparr>adjustedWeight := w, ds_points := b_div (b_mul w (ds_percent d)) (b_of_int 100)\<rparr>
      else d)"

definition scoreDomains :: "Criterion list \<Rightarrow> DomainScore list fallible" where
  "scoreDomains criteria = (let domains = map (domain_score criteria) normativeDomainWeights;
       applicableNormativeWeight =
         foldl (\<lambda>w d. if ds_applicable d then b_add w (normativeWeight d) else w) b_zero domains
     in if \<not> b_lt b_zero applicableNormativeWeight then Inl ''at least one scoring domain must be applicable''
        else Inr (map (reallocated applicableNormativeWeight) domains))"

fun levelName :: "Level \<Rightarrow> string" where
  "levelName Candidate = ''candidate''"
| "levelName Bronze = ''bronze''"
| "levelName Silver = ''silver''"
| "levelName Gold = ''gold''"
| "levelName Platinum = ''platinum''"
| "levelName Diamond = ''diamond''"
| "levelName L_None = ''none''"

text \<open>The test \<open>value + kEpsilon >= bound\<close>.\<close>

definition at_least :: "binary64 \<Rightarrow> int \<Rightarrow> bool" where
  "at_least x bound = b_le (b_of_int bound) (b_add x kEpsilon)"

definition scoreBand :: "binary64 \<Rightarrow> Level" where
  "scoreBand score =
     (if at_least score 95 then Diamond
      else if at_least score 90 then Platinum
      else if at_least score 80 then Gold
      else if at_least score 65 then Silver
      else if at_least score 50 then Bronze
      else if at_least score 40 then Candidate
      else L_None)"

definition domainPercentOrZero :: "DomainScore list \<Rightarrow> char \<Rightarrow> binary64 fallible" where
  "domainPercentOrZero domains i = (case find (\<lambda>d. ds_domain d = i) domains of
       None \<Rightarrow> Inl (''scoring domain is unavailable: '' @ [i])
     | Some d \<Rightarrow> Inr (if ds_applicable d then ds_percent d else b_zero))"

definition allApplicableDomainsAtLeast :: "DomainScore list \<Rightarrow> int \<Rightarrow> bool" where
  "allApplicableDomainsAtLeast domains minimum =
     list_all (\<lambda>d. \<not> ds_applicable d \<or> at_least (ds_percent d) minimum) domains"

subsection \<open>The decision\<close>

type_synonym gates = "string \<rightharpoonup> Gate"

definition map_at :: string where "map_at = ''map::at''"

definition fail_gate :: "bool \<Rightarrow> string \<Rightarrow> gates \<Rightarrow> gates fallible" where
  "fail_gate c i gs = (if \<not> c then Inr gs else (case gs i of
       None \<Rightarrow> Inl map_at
     | Some g \<Rightarrow> Inr (gs(i \<mapsto> g\<lparr>effectivePass := False\<rparr>))))"

definition gate_ids :: "string list" where
  "gate_ids = map (\<lambda>n. ''G'' @ show_nat n) [1..<15]"

fun failed_gates :: "gates \<Rightarrow> string list \<Rightarrow> string list fallible" where
  "failed_gates gs [] = Inr []"
| "failed_gates gs (i # is) = (case gs i of
       None \<Rightarrow> Inl map_at
     | Some g \<Rightarrow> and_then (failed_gates gs is) (\<lambda>fs. Inr (if effectivePass g then fs else i # fs)))"

definition b_abs :: "binary64 \<Rightarrow> binary64" where
  "b_abs x = (if b_sign x then b_neg x else x)"

definition total_score :: "Metadata \<Rightarrow> DomainScore list \<Rightarrow> binary64" where
  "total_score m domains = (let t = foldl (\<lambda>t d. b_add t (ds_points d)) b_zero domains;
       t1 = (if b_lt (b_abs t) kEpsilon then b_zero else t);
       t2 = b_sub t1 (penaltyPoints m)
     in if b_lt b_zero t2 then t2 else b_zero)"

definition uncertainty_within :: "Metadata \<Rightarrow> int \<Rightarrow> bool" where
  "uncertainty_within m bound = b_le (uncertaintyPercent m) (b_add (b_of_int bound) kEpsilon)"

text \<open>What the level tests look at: eligibility, the total score and the scores of five domains.\<close>

record standing =
  sg_eligible :: bool
  sg_total :: binary64
  sg_floor :: bool
  sg_A :: binary64
  sg_B :: binary64
  sg_C :: binary64
  sg_D :: binary64
  sg_K :: binary64

definition is_bronze :: "Metadata \<Rightarrow> standing \<Rightarrow> bool" where
  "is_bronze m g = (sg_eligible g \<and> at_least (sg_total g) 50 \<and> sg_floor g \<and> at_least (sg_A g) 40 \<and> at_least (sg_B g) 35 \<and>
     at_least (sg_K g) 40 \<and> uncertainty_within m 30)"

definition is_silver :: "Metadata \<Rightarrow> standing \<Rightarrow> bool" where
  "is_silver m g = (is_bronze m g \<and> at_least (sg_total g) 65 \<and> at_least (sg_A g) 50 \<and> at_least (sg_B g) 50 \<and>
     at_least (sg_K g) 50 \<and> measurementQuality m \<ge> 2 \<and> dataQuality m \<ge> 2 \<and> ecoRegressionControlDefined m \<and>
     uncertainty_within m 20)"

definition is_gold :: "Metadata \<Rightarrow> standing \<Rightarrow> bool" where
  "is_gold m g = (is_silver m g \<and> at_least (sg_total g) 80 \<and> at_least (sg_A g) 65 \<and> at_least (sg_B g) 65 \<and>
     at_least (sg_K g) 65 \<and> at_least (sg_C g) 60 \<and> at_least (sg_D g) 60 \<and> measurementQuality m \<ge> 3 \<and>
     dataQuality m \<ge> 3 \<and> \<not> highSeverityClaimRisk m \<and> uncertainty_within m 12 \<and>
     (\<not> aiInScope m \<or> qualityEnergyFrontierOptions m \<ge> 2))"

definition is_platinum :: "Metadata \<Rightarrow> standing \<Rightarrow> bool" where
  "is_platinum m g = (is_gold m g \<and> at_least (sg_total g) 90 \<and> at_least (sg_A g) 80 \<and> at_least (sg_B g) 75 \<and>
     at_least (sg_K g) 80 \<and> independentReview m \<and> publicReport m \<and> continuousTelemetry m \<and> uncertainty_within m 8)"

definition is_diamond :: "Metadata \<Rightarrow> standing \<Rightarrow> bool" where
  "is_diamond m g = (is_platinum m g \<and> at_least (sg_total g) 95 \<and> at_least (sg_A g) 90 \<and> at_least (sg_B g) 85 \<and>
     at_least (sg_K g) 90 \<and> measurementQuality m \<ge> 4 \<and> dataQuality m \<ge> 4 \<and> continuousTelemetry m \<and>
     publicEvidence m \<and> uncertainty_within m 5)"

definition base_level :: "Metadata \<Rightarrow> standing \<Rightarrow> Level" where
  "base_level m g =
     (if is_diamond m g then Diamond
      else if is_platinum m g then Platinum
      else if is_gold m g then Gold
      else if is_silver m g then Silver
      else if is_bronze m g then Bronze
      else if sg_eligible g \<and> at_least (sg_total g) 40 then Candidate
      else L_None)"

definition regressed :: "string \<Rightarrow> (Regression \<Rightarrow> bool) \<Rightarrow> Regression list \<Rightarrow> bool" where
  "regressed kind test rs = list_ex (\<lambda>r. rg_kind r = kind \<and> test r) rs"

definition conclude :: "Metadata \<Rightarrow> Criterion list \<Rightarrow> Regression list \<Rightarrow> string list \<Rightarrow> standing \<Rightarrow> AssessmentDecision" where
  "conclude m criteria regressions failed g = (let
       caps = map cr_id (filter (\<lambda>c. cr_applicable c \<and> effectiveScore c \<noteq> rawScore c) criteria);
       held = regressed ''eco'' unresolved regressions;
       level = base_level m g;
       capped = held \<and> level > Bronze;
       final_level = (if capped then (if is_bronze m g then Bronze else Candidate) else level);
       ceiling_level = scoreBand (sg_total g);
       r1 = (if capped then [''unresolved_eco_regression_caps_recommendation_at_bronze''] else []);
       r2 = r1 @ (if \<not> sg_eligible g then [''mandatory_gate_failure_precedes_scoring''] else []);
       r3 = r2 @ (if final_level \<noteq> ceiling_level \<and> sg_eligible g \<and> r2 = []
                  then [''level_prerequisites_lower_than_score_band''] else []);
       r4 = r3 @ (if caps \<noteq> [] then [''insufficient_evidence_caps_criteria_at_one''] else []);
       r5 = (if r4 = [] then [''all_recommendation_prerequisites_met''] else r4)
     in \<lparr>totalScore = sg_total g, scoreCeiling = ceiling_level, recommendation = final_level, eligible = sg_eligible g,
         unresolvedEcoRegression = held, ecoRegressionTriggered = regressed ''eco'' thresholdExceeded regressions,
         qualityRegression = regressed ''quality'' thresholdExceeded regressions, failedGates = failed,
         evidenceCaps = caps, decisionReasons = r5\<rparr>)"

definition decide :: "Metadata \<Rightarrow> gates \<Rightarrow> Criterion list \<Rightarrow> DomainScore list \<Rightarrow> MaterialityResult \<Rightarrow> Regression list \<Rightarrow>
    (AssessmentDecision \<times> gates) fallible" where
  "decide m gs criteria domains materiality regressions =
     and_then (fail_gate (regressed ''quality'' thresholdExceeded regressions) ''G13'' gs) (\<lambda>gs1.
     and_then (fail_gate (individualMaterialOmission materiality \<or> cumulativeOmissionExceeded materiality) ''G14'' gs1) (\<lambda>gs2.
     and_then (failed_gates gs2 gate_ids) (\<lambda>failed.
     and_then (domainPercentOrZero domains (CHR ''A'')) (\<lambda>a.
     and_then (domainPercentOrZero domains (CHR ''B'')) (\<lambda>b.
     and_then (domainPercentOrZero domains (CHR ''C'')) (\<lambda>c.
     and_then (domainPercentOrZero domains (CHR ''D'')) (\<lambda>d.
     and_then (domainPercentOrZero domains (CHR ''K'')) (\<lambda>k.
       Inr (conclude m criteria regressions failed
         \<lparr>sg_eligible = failed = [], sg_total = total_score m domains,
          sg_floor = allApplicableDomainsAtLeast domains 30, sg_A = a, sg_B = b, sg_C = c, sg_D = d, sg_K = k\<rparr>, gs2)))))))))"

subsection \<open>Claims\<close>

definition lowerAscii :: "string \<Rightarrow> string" where
  "lowerAscii s = map to_lower s"

fun contains_text :: "string \<Rightarrow> string \<Rightarrow> bool" where
  "contains_text s needle = (take (length needle) s = needle \<or> (case s of [] \<Rightarrow> False | _ # t \<Rightarrow> contains_text t needle))"

definition containsAny :: "string \<Rightarrow> string list \<Rightarrow> bool" where
  "containsAny s needles = list_ex (contains_text s) needles"

definition starts_with :: "string \<Rightarrow> string \<Rightarrow> bool" where
  "starts_with prefix s = (take (length prefix) s = prefix)"

definition unsafeCandidateTerms :: "string list" where
  "unsafeCandidateTerms = [''official'', ''certified'', ''bronze'', ''silver'', ''gold'', ''platinum'', ''diamond'',
     ''less energy'', ''more efficient'', ''most efficient'', ''best'', ''zero carbon'', ''carbon neutral'',
     ''climate positive'', ''net positive'', ''offset'']"

definition unless :: "bool \<Rightarrow> string \<Rightarrow> string list" where
  "unless ok reason = (if ok then [] else [reason])"

definition comparison_reasons :: "Claim \<Rightarrow> string list" where
  "comparison_reasons c = (if cl_type c = ''comparative'' \<or> cl_type c = ''best''
     then ''comparative_qualification_deferred_pr95'' # unless (functionalUnitEquivalent c) ''functional_unit_not_equivalent'' @
       unless (boundaryEquivalent c) ''boundary_not_equivalent'' @ unless (qualityEquivalent c) ''quality_not_equivalent'' @
       unless (methodEquivalent c) ''method_not_equivalent'' else [])"

definition green_ai_reasons :: "Metadata \<Rightarrow> AssessmentDecision \<Rightarrow> Claim \<Rightarrow> string list" where
  "green_ai_reasons m d c = (if cl_type c = ''green_ai''
     then unless (recommendation d \<ge> Gold) ''green_ai_requires_gold_candidate_evidence'' @
       unless (aiInScope m) ''AI_not_in_scope'' @ unless (aiRole m \<noteq> ''not_applicable'') ''AI_role_not_declared'' @
       unless (trainingBoundaryDeclared m) ''training_boundary_not_declared'' @
       unless (inferenceBoundaryDeclared m) ''inference_boundary_not_declared'' @
       unless (tokenOrInferenceMetricDeclared m) ''token_or_inference_metric_not_declared'' @
       unless (aiExclusionsDeclared m) ''AI_exclusions_not_declared'' else [])"

definition restricted_reasons :: "Claim \<Rightarrow> string list" where
  "restricted_reasons c =
     (if cl_type c \<in> {''zero'', ''best'', ''climate_positive'', ''net_positive'', ''comparative''}
      then unless (legalTechnicalEvidence c) ''legal_and_technical_evidence_required'' else []) @
     (if cl_type c \<in> {''zero'', ''climate_positive'', ''net_positive''}
      then [''restricted_claim_requires_external_review''] else [])"

definition claim_reasons :: "Metadata \<Rightarrow> AssessmentDecision \<Rightarrow> Claim \<Rightarrow> string list" where
  "claim_reasons m d c =
     unless (scopeMatches c) ''claim_scope_does_not_match_assessment'' @
     unless (\<not> (highSeverityClaimRisk m \<and> cl_type c \<noteq> ''candidate_assessment'')) ''high_severity_claim_risk'' @
     (if cl_type c = ''certified'' \<or> cl_type c = ''level'' then [''external_certification_authority_required'']
      else if cl_type c = ''offsets_only'' then [''offsets_cannot_replace_base_footprint_reduction'']
      else if cl_type c = ''candidate_assessment''
      then unless (starts_with ''candidate '' (lowerAscii (cl_text c)) \<and> \<not> containsAny (lowerAscii (cl_text c)) unsafeCandidateTerms)
        ''candidate_claim_text_is_not_claim_safe''
      else unless (eligible d) ''mandatory_gates_not_satisfied'' @ comparison_reasons c @ green_ai_reasons m d c @
        restricted_reasons c)"

definition evaluateClaims :: "Claim list \<Rightarrow> Metadata \<Rightarrow> AssessmentDecision \<Rightarrow> Claim list" where
  "evaluateClaims claims m d =
     map (\<lambda>c. c\<lparr>permitted_claim := claim_reasons m d c = [], cl_reasons := claim_reasons m d c\<rparr>) claims"

end
