(* ===== verification/Tables.thy ===== *)
theory Tables
  imports Json Scoring "HOL-Library.List_Lexorder" "HOL-Library.Char_ord"
begin

section \<open>Files, dates and tables of a candidate directory\<close>

text \<open>
  The input helpers of \<open>evidence/CertificationAssessment.cpp\<close>: whole files, calendar dates, tolerant
  comparison of sums, and the tab-separated tables with their typed fields. The file system is the
  map \<open>files\<close> from a path to the bytes of the file, with no value for a path that cannot be opened;
  it does not change while the tool runs. Strings compare as bytes.
\<close>

type_synonym files = "string \<rightharpoonup> string"

text \<open>\<open>require\<close> throws its message when the condition fails; otherwise the code goes on.\<close>

definition require :: "bool \<Rightarrow> string \<Rightarrow> 'a fallible \<Rightarrow> 'a fallible" where
  "require condition message k = (if condition then k else Inl message)"

lemma require_iff [simp]: "require c m k = Inr v \<longleftrightarrow> c \<and> k = Inr v"
  by (simp add: require_def)

text \<open>A loop over a list whose body may throw.\<close>

fun each :: "('s \<Rightarrow> 'a \<Rightarrow> 's fallible) \<Rightarrow> 's \<Rightarrow> 'a list \<Rightarrow> 's fallible" where
  "each f s [] = Inr s"
| "each f s (x # xs) = and_then (f s x) (\<lambda>s1. each f s1 xs)"

lemma each_invariant:
  assumes "each f s xs = Inr t" and "P s" and "\<And>s x t. x \<in> set xs \<Longrightarrow> P s \<Longrightarrow> f s x = Inr t \<Longrightarrow> P t"
  shows "P t"
  using assms by (induction xs arbitrary: s) (auto simp: and_then_iff)

subsection \<open>Files\<close>

definition kMaxJsonBytes :: nat where "kMaxJsonBytes = 32 * 1024 * 1024"

definition readFile :: "files \<Rightarrow> string \<Rightarrow> string fallible" where
  "readFile files path = (case files path of
       None \<Rightarrow> Inl (''cannot open input: '' @ path)
     | Some contents \<Rightarrow>
         require (length contents \<le> kMaxJsonBytes) (''JSON input exceeds 32 MiB limit: '' @ path) (Inr contents))"

definition joinPath :: "string \<Rightarrow> string \<Rightarrow> string" where
  "joinPath directory name =
     (if directory = [] then name
      else if last directory = CHR ''/'' \<or> last directory = CHR 0x5C then directory @ name
      else directory @ ''/'' @ name)"

subsection \<open>Dates and sums\<close>

definition isLeapYear :: "int \<Rightarrow> bool" where
  "isLeapYear year = (year mod 400 = 0 \<or> year mod 4 = 0 \<and> year mod 100 \<noteq> 0)"

definition daysInMonth :: "int \<Rightarrow> int \<Rightarrow> int" where
  "daysInMonth year month =
     (if month < 1 \<or> month > 12 then 0
      else [0, 31, 28, 31, 30, 31, 30, 31, 31, 30, 31, 30, 31] ! nat month + (if month = 2 \<and> isLeapYear year then 1 else 0))"

text \<open>The three calls of \<open>std::stoi\<close> read digits only, as the loop before them checks.\<close>

definition validIsoDate :: "string \<Rightarrow> bool" where
  "validIsoDate value =
     (length value = 10 \<and> value ! 4 = CHR ''-'' \<and> value ! 7 = CHR ''-'' \<and>
      list_all (\<lambda>i. i = 4 \<or> i = 7 \<or> is_digit (value ! i)) [0..<10] \<and>
      (let year = int (digits_value (take 4 value)); month = int (digits_value (take 2 (drop 5 value)));
           day = int (digits_value (take 2 (drop 8 value)))
       in year \<ge> 2000 \<and> month \<ge> 1 \<and> month \<le> 12 \<and> day \<ge> 1 \<and> day \<le> daysInMonth year month))"

text \<open>\<open>std::max\<close> gives its first argument unless it is less than the second.\<close>

definition b_max :: "binary64 \<Rightarrow> binary64 \<Rightarrow> binary64" where
  "b_max x y = (if b_lt x y then y else x)"

definition reconciles :: "binary64 \<Rightarrow> binary64 \<Rightarrow> bool" where
  "reconciles left right = (b_finite left \<and> b_finite right \<and>
     (let scale = b_max (b_of_int 1) (b_max (b_abs left) (b_abs right))
      in b_le (b_abs (b_sub left right)) (b_mul scale kEpsilon)))"

subsection \<open>Tables\<close>

definition kMaxTsvLineBytes :: nat where "kMaxTsvLineBytes = 1024 * 1024"
definition kMaxTsvBytes :: nat where "kMaxTsvBytes = 32 * 1024 * 1024"
definition kMaxTsvRows :: nat where "kMaxTsvRows = 10000"

fun split_loop_tsv :: "string list \<Rightarrow> string \<Rightarrow> string \<Rightarrow> string list" where
  "split_loop_tsv cells field [] = cells @ [field]"
| "split_loop_tsv cells field (c # cs) =
     (if c = CHR 0x09 then split_loop_tsv (cells @ [field]) [] cs
      else if c \<noteq> CHR 0x0D then split_loop_tsv cells (field @ [c]) cs
      else split_loop_tsv cells field cs)"

definition splitTsv :: "string \<Rightarrow> string list" where
  "splitTsv line = split_loop_tsv [] [] line"

definition drop_return :: "string \<Rightarrow> string" where
  "drop_return line = (if line \<noteq> [] \<and> last line = CHR 0x0D then butlast line else line)"

definition tsv_row :: "string \<Rightarrow> nat \<Rightarrow> nat \<times> string list list \<Rightarrow> string \<Rightarrow> (nat \<times> string list list) fallible" where
  "tsv_row path columns state raw = (case state of (before, rows) \<Rightarrow> let lineNumber = before + 1 in
     require (length raw \<le> kMaxTsvLineBytes) (path @ '' line '' @ show_nat lineNumber @ '': exceeds 1 MiB limit'')
       (let line = drop_return raw; cells = splitTsv line in
        if line = [] then Inr (lineNumber, rows)
        else require (length cells = columns)
            (path @ '' line '' @ show_nat lineNumber @ '': expected '' @ show_nat columns @ '' columns'')
          (require (length rows < kMaxTsvRows) (path @ '': exceeds 10000 data-row limit'')
            (Inr (lineNumber, rows @ [cells])))))"

definition loadTsv :: "files \<Rightarrow> string \<Rightarrow> string list \<Rightarrow> string list list fallible" where
  "loadTsv files path expectedHeader = (case files path of
       None \<Rightarrow> Inl (''cannot open input: '' @ path)
     | Some contents \<Rightarrow>
         require (length contents \<le> kMaxTsvBytes) (''TSV input exceeds 32 MiB limit: '' @ path)
         (case getlines (CHR 0x0A) contents of
            [] \<Rightarrow> Inl (''TSV input is empty: '' @ path)
          | header # body \<Rightarrow>
              require (length header \<le> kMaxTsvLineBytes) (''TSV header exceeds 1 MiB limit: '' @ path)
              (require (splitTsv header = expectedHeader) (''invalid TSV header: '' @ path)
              (and_then (each (tsv_row path (length expectedHeader)) (1, []) body) (\<lambda>(_, rows). Inr rows)))))"

subsection \<open>Typed fields\<close>

definition blank :: "char \<Rightarrow> bool" where
  "blank c = (c = CHR '' '' \<or> c = CHR 0x09)"

definition parseNumber :: "string \<Rightarrow> string \<Rightarrow> binary64 fallible" where
  "parseNumber value field =
     (if value \<noteq> [] \<and> \<not> blank (hd value) \<and> \<not> blank (last value)
      then (case stod value of
          Some (v, used) \<Rightarrow> if used = length value \<and> b_finite v then Inr v
            else Inl (''invalid numeric '' @ field @ '': '' @ value)
        | None \<Rightarrow> Inl (''invalid numeric '' @ field @ '': '' @ value))
      else Inl (''invalid numeric '' @ field @ '': '' @ value))"

definition integral :: "binary64 \<Rightarrow> bool" where
  "integral x = (of_int \<lfloor>b_val x\<rfloor> = b_val x)"

definition parseInteger :: "string \<Rightarrow> string \<Rightarrow> int fallible" where
  "parseInteger value field = and_then (parseNumber value field) (\<lambda>x.
     require (integral x) (field @ '' must be an integer'')
     (require (b_le (b_of_int (- (2 ^ 31))) x \<and> b_le x (b_of_int (2 ^ 31 - 1)))
       (field @ '' is outside the supported integer range'')
     (Inr (b_trunc x))))"

definition parseBoolean :: "string \<Rightarrow> string \<Rightarrow> bool fallible" where
  "parseBoolean value field =
     (if value = ''true'' then Inr True
      else if value = ''false'' then Inr False
      else Inl (field @ '' must be true or false''))"

definition hasNonWhitespace :: "string \<Rightarrow> bool" where
  "hasNonWhitespace value = list_ex (\<lambda>c. \<not> is_space c) value"

definition hasEvidence :: "string \<Rightarrow> bool" where
  "hasEvidence value = (hasNonWhitespace value \<and> value \<noteq> ''-'' \<and> value \<noteq> ''none'')"

end
