(* ===== verification/Loaders.thy ===== *)
theory Loaders
  imports Tables "HOL-Library.Product_Lexorder"
begin

section \<open>The tables of a candidate assessment\<close>

text \<open>
  The loaders of \<open>evidence/CertificationAssessment.cpp\<close>: metadata, gates, criteria, materiality,
  regressions and claims, each from its tab-separated table into the records that are scored. A
  \<open>std::map\<close> filled by the loop is an association list with distinct keys in the order of the rows;
  a loop over a \<open>std::set\<close> of names runs over the sorted list of them. The rows a table gives have
  as many fields as its header.
\<close>

subsection \<open>Metadata\<close>

record MetadataValue =
  mv_value :: string
  mv_evidenceStatus :: string
  mv_evidence :: string

type_synonym metadata_values = "(string \<times> MetadataValue) list"

definition metadata_row :: "metadata_values \<Rightarrow> string list \<Rightarrow> metadata_values fallible" where
  "metadata_row result row =
     require (row ! 0 \<noteq> []) ''metadata key is required''
     (require (row ! 1 \<noteq> []) (''metadata value is required for '' @ row ! 0)
     (require (row ! 2 \<in> {''documented'', ''measured'', ''verified'', ''independent''})
       (''metadata evidence_status is invalid for '' @ row ! 0)
     (require (hasEvidence (row ! 3)) (''metadata evidence_ref is required for '' @ row ! 0)
     (require (row ! 0 \<notin> fst ` set result) (''duplicate metadata key: '' @ row ! 0)
     (Inr (result @ [(row ! 0, \<lparr>mv_value = row ! 1, mv_evidenceStatus = row ! 2, mv_evidence = row ! 3\<rparr>)]))))))"

definition loadMetadataValues :: "files \<Rightarrow> string \<Rightarrow> metadata_values fallible" where
  "loadMetadataValues files path =
     and_then (loadTsv files path [''key'', ''value'', ''evidence_status'', ''evidence_ref'']) (each metadata_row [])"

definition metadata_keys :: "string list" where
  "metadata_keys = [
     ''ai_exclusions_declared'', ''ai_in_scope'', ''ai_role'', ''boundary'', ''client_device_impact'',
     ''continuous_telemetry'', ''data_quality'', ''eco_regression_control_defined'', ''functional_unit'',
     ''high_scale_saas'', ''high_severity_claim_risk'', ''independent_review'', ''inference_boundary_declared'',
     ''measurement_quality'', ''penalty_points'', ''product_name'', ''product_version'', ''public_evidence'',
     ''public_report'', ''quality_energy_frontier_options'', ''software_class'',
     ''token_or_inference_metric_declared'', ''training_boundary_declared'', ''uncertainty_percent'', ''workload'']"

text \<open>\<open>values.at(key).value\<close> and its evidence status; every required key is present where they are used.\<close>

definition get_value :: "metadata_values \<Rightarrow> string \<Rightarrow> string" where
  "get_value values key = (case map_of values key of Some v \<Rightarrow> mv_value v | None \<Rightarrow> [])"

definition get_status :: "metadata_values \<Rightarrow> string \<Rightarrow> string" where
  "get_status values key = (case map_of values key of Some v \<Rightarrow> mv_evidenceStatus v | None \<Rightarrow> [])"

definition quality_grade :: "string \<Rightarrow> string \<Rightarrow> bool" where
  "quality_grade prefix value = (length value = 3 \<and> take 2 value = prefix \<and> value ! 2 \<in> {CHR ''1'', CHR ''2'', CHR ''3'', CHR ''4''})"

definition grade_number :: "string \<Rightarrow> int" where
  "grade_number value = of_char (value ! 2) - 48"

definition percent_value :: "metadata_values \<Rightarrow> string \<Rightarrow> binary64 fallible" where
  "percent_value values key = and_then (parseNumber (get_value values key) key) (\<lambda>x.
     require (b_le b_zero x \<and> b_le x (b_of_int 100)) (key @ '' must be in [0,100]'') (Inr x))"

definition flag_value :: "metadata_values \<Rightarrow> string \<Rightarrow> bool fallible" where
  "flag_value values key = parseBoolean (get_value values key) key"

definition class_message :: string where
  "class_message = ''software_class must use canonical form S1 through S12''"

definition check_software_class :: "string \<Rightarrow> unit fallible" where
  "check_software_class cls =
     require (length cls \<ge> 2 \<and> cls ! 0 = CHR ''S'') class_message
     (and_then (parseInteger (tl (takeWhile (\<lambda>c. c \<noteq> CHR ''_'') cls)) ''software_class'') (\<lambda>number.
      require (1 \<le> number \<and> number \<le> 12) class_message
      (require (cls = ''S'' @ show_int number \<or> starts_with (''S'' @ show_int number @ ''_'') cls) class_message
      (if CHR ''_'' \<in> set cls
       then require (cls \<in> {''S6_AI_GENAI'', ''S9_DEVELOPER_TOOLS_CI_CD'', ''S12_INFRASTRUCTURE_PLATFORM''})
         ''software_class alias is not supported by the typed profile'' (Inr ())
       else Inr ()))))"

definition check_ai_scope :: "Metadata \<Rightarrow> unit fallible" where
  "check_ai_scope m =
     (if aiInScope m
      then require (aiRole m \<in> {''model_provider'', ''application_deployer'', ''integrator'', ''auditor''})
          ''AI scope requires ai_role model_provider, application_deployer, integrator or auditor''
        (require (trainingBoundaryDeclared m)
          ''AI scope requires a training boundary declaration, including an explicit exclusion''
        (require (inferenceBoundaryDeclared m) ''AI scope requires an inference boundary declaration''
        (require (tokenOrInferenceMetricDeclared m) ''AI scope requires a token or inference metric declaration''
        (require (aiExclusionsDeclared m) ''AI scope requires AI exclusions to be declared'' (Inr ())))))
      else require (aiRole m = ''not_applicable'') ''non-AI scope requires ai_role=not_applicable'' (Inr ()))"

text \<open>The two quality grades, which are declared as \<open>MQn\<close> and \<open>DQn\<close>.\<close>

definition quality_values :: "metadata_values \<Rightarrow> (int \<times> int) fallible" where
  "quality_values values = (let mq = get_value values ''measurement_quality''; dq = get_value values ''data_quality'' in
     require (quality_grade ''MQ'' mq) ''measurement_quality must be MQ1, MQ2, MQ3 or MQ4''
     (require (quality_grade ''DQ'' dq) ''data_quality must be DQ1, DQ2, DQ3 or DQ4''
     (require (grade_number mq = 4 \<longrightarrow> get_status values ''measurement_quality'' = ''independent'')
       ''MQ4 requires independent evidence''
     (require (grade_number dq = 4 \<longrightarrow> get_status values ''data_quality'' = ''independent'')
       ''DQ4 requires independent evidence''
     (Inr (grade_number mq, grade_number dq))))))"

definition frontier_value :: "metadata_values \<Rightarrow> int fallible" where
  "frontier_value values =
     and_then (parseInteger (get_value values ''quality_energy_frontier_options'') ''quality_energy_frontier_options'') (\<lambda>n.
       require (0 \<le> n \<and> n \<le> 100) ''quality_energy_frontier_options must be in [0,100]'' (Inr n))"

definition metadata_of :: "metadata_values \<Rightarrow> Metadata fallible" where
  "metadata_of values = (let get = get_value values; flag = flag_value values in
     require (list_all (\<lambda>k. hasNonWhitespace (get k)) [''product_name'', ''product_version'', ''functional_unit'', ''boundary'', ''workload''])
       ''product, version, functional unit, boundary and workload must be non-blank''
     (and_then (quality_values values) (\<lambda>(mq, dq).
      and_then (percent_value values ''uncertainty_percent'') (\<lambda>uncertainty.
      and_then (percent_value values ''penalty_points'') (\<lambda>penalty.
      and_then (flag ''ai_in_scope'') (\<lambda>ai.
      and_then (flag ''training_boundary_declared'') (\<lambda>training.
      and_then (flag ''inference_boundary_declared'') (\<lambda>inference.
      and_then (flag ''token_or_inference_metric_declared'') (\<lambda>metric.
      and_then (flag ''ai_exclusions_declared'') (\<lambda>exclusions.
      and_then (frontier_value values) (\<lambda>frontier.
      and_then (flag ''client_device_impact'') (\<lambda>client.
      and_then (flag ''eco_regression_control_defined'') (\<lambda>control.
      and_then (flag ''independent_review'') (\<lambda>review.
      and_then (flag ''public_report'') (\<lambda>report.
      and_then (flag ''continuous_telemetry'') (\<lambda>telemetry.
      and_then (flag ''public_evidence'') (\<lambda>pub.
      and_then (flag ''high_severity_claim_risk'') (\<lambda>severe.
      and_then (flag ''high_scale_saas'') (\<lambda>saas.
      let m = \<lparr>productName = get ''product_name'', productVersion = get ''product_version'',
        softwareClass = get ''software_class'', functionalUnit = get ''functional_unit'', boundary = get ''boundary'',
        workload = get ''workload'', measurementQuality = mq, dataQuality = dq, uncertaintyPercent = uncertainty,
        penaltyPoints = penalty, aiInScope = ai, aiRole = get ''ai_role'', trainingBoundaryDeclared = training,
        inferenceBoundaryDeclared = inference, tokenOrInferenceMetricDeclared = metric, aiExclusionsDeclared = exclusions,
        qualityEnergyFrontierOptions = frontier, clientDeviceImpact = client, ecoRegressionControlDefined = control,
        independentReview = review, publicReport = report, continuousTelemetry = telemetry, publicEvidence = pub,
        highSeverityClaimRisk = severe, highScaleSaas = saas\<rparr>
      in and_then (check_software_class (softwareClass m)) (\<lambda>_. and_then (check_ai_scope m) (\<lambda>_. Inr m)))))))))))))))))))))"

definition loadMetadata :: "files \<Rightarrow> string \<Rightarrow> Metadata fallible" where
  "loadMetadata files path = and_then (loadMetadataValues files path) (\<lambda>values.
     require (length values = length metadata_keys) ''metadata must contain exactly the required keys''
     (case find (\<lambda>k. map_of values k = None) metadata_keys of
        Some key \<Rightarrow> Inl (''metadata missing required key: '' @ key)
      | None \<Rightarrow> metadata_of values))"

subsection \<open>Gates and criteria\<close>

definition gate_row :: "(string \<times> Gate) list \<Rightarrow> string list \<Rightarrow> (string \<times> Gate) list fallible" where
  "gate_row gs row =
     require (length (row ! 0) \<ge> 2 \<and> row ! 0 ! 0 = CHR ''G'') (''invalid mandatory gate id: '' @ row ! 0)
     (and_then (parseInteger (tl (row ! 0)) ''gate_id'') (\<lambda>number.
      require (1 \<le> number \<and> number \<le> 14) ''mandatory gate id must be G1 through G14''
      (require (row ! 0 = ''G'' @ show_int number) (''mandatory gate id must use canonical form: '' @ row ! 0)
      (require (row ! 1 = ''pass'' \<or> row ! 1 = ''fail'') (''gate status must be pass or fail for '' @ row ! 0)
      (require (hasEvidence (row ! 2)) (''gate evidence_ref is required for '' @ row ! 0)
      (require (row ! 0 \<notin> fst ` set gs) (''duplicate mandatory gate: '' @ row ! 0)
      (Inr (gs @ [(row ! 0, \<lparr>gt_id = row ! 0, inputPass = (row ! 1 = ''pass''), effectivePass = (row ! 1 = ''pass''),
         gt_evidence = row ! 2\<rparr>)]))))))))"

definition loadGates :: "files \<Rightarrow> string \<Rightarrow> gates fallible" where
  "loadGates files path = and_then (loadTsv files path [''gate_id'', ''status'', ''evidence_ref'']) (\<lambda>rows.
     and_then (each gate_row [] rows) (\<lambda>gs.
     require (length gs = 14) ''exactly G1 through G14 are required''
     (case find (\<lambda>i. map_of gs i = None) gate_ids of
        Some i \<Rightarrow> Inl (''missing mandatory gate '' @ i)
      | None \<Rightarrow> Inr (map_of gs))))"

definition normativeCriterionCounts :: "(char \<times> nat) list" where
  "normativeCriterionCounts = [(CHR ''A'', 8), (CHR ''B'', 8), (CHR ''C'', 8), (CHR ''D'', 8), (CHR ''E'', 6),
     (CHR ''F'', 7), (CHR ''G'', 10), (CHR ''H'', 5), (CHR ''I'', 5), (CHR ''J'', 4), (CHR ''K'', 7)]"

text \<open>The identifiers of the catalogue, in the order of the nested loop over the counts.\<close>

definition catalogue :: "string list" where
  "catalogue = concat (map (\<lambda>(d, n). map (\<lambda>k. d # show_nat k) [1..<Suc n]) normativeCriterionCounts)"

definition catalogued :: "char \<Rightarrow> int \<Rightarrow> bool" where
  "catalogued d number = (case map_of normativeCriterionCounts d of Some n \<Rightarrow> 1 \<le> number \<and> number \<le> int n | None \<Rightarrow> False)"

definition check_evidence :: "Criterion \<Rightarrow> Criterion fallible" where
  "check_evidence c =
     (if cr_applicable c
      then require (evidenceStatus c = ''sufficient'' \<or> evidenceStatus c = ''insufficient'')
          (''applicable criterion evidence_status must be sufficient or insufficient for '' @ cr_id c)
        (require (hasEvidence (cr_evidence c)) (''evidence_ref is required for '' @ cr_id c)
        (Inr (c\<lparr>effectiveScore := (if evidenceStatus c = ''insufficient'' then min (rawScore c) 1 else rawScore c)\<rparr>)))
      else require (evidenceStatus c = ''not_applicable'')
          (''non-applicable criterion must use evidence_status=not_applicable for '' @ cr_id c)
        (require (rawScore c = 0) (''non-applicable criterion raw_score must be 0 for '' @ cr_id c)
        (require (hasEvidence (approval c)) (''N/A criterion requires auditor_approval_ref for '' @ cr_id c)
        (require (hasEvidence (cr_evidence c)) (''N/A criterion requires evidence_ref for '' @ cr_id c)
        (Inr (c\<lparr>effectiveScore := 0\<rparr>))))))"

definition criterion_row :: "Criterion list \<Rightarrow> string list \<Rightarrow> Criterion list fallible" where
  "criterion_row cs row = (let i = row ! 0; d = row ! 1 ! 0 in
     require (i \<noteq> [] \<and> i \<notin> cr_id ` set cs) (''duplicate or empty criterion_id: '' @ i)
     (require (length (row ! 1) = 1 \<and> CHR ''A'' \<le> d \<and> d \<le> CHR ''K'') (''criterion domain must be A through K for '' @ i)
     (require (length i \<ge> 2 \<and> i ! 0 = d) (''criterion_id must begin with its domain for '' @ i)
     (and_then (parseInteger (tl i) ''criterion_id'') (\<lambda>number.
      require (i = d # show_int number) (''criterion_id must use canonical form: '' @ i)
      (require (catalogued d number) (''criterion_id is outside the normative C3-ECO catalog: '' @ i)
      (and_then (parseInteger (row ! 2) (''raw_score for '' @ i)) (\<lambda>raw.
       require (0 \<le> raw \<and> raw \<le> 5) (''raw_score must be in [0,5] for '' @ i)
       (and_then (parseNumber (row ! 3) (''criterion_weight for '' @ i)) (\<lambda>w.
        require (b_lt b_zero w \<and> b_le w (b_of_int 1000000)) (''criterion_weight must be in (0,1000000] for '' @ i)
        (and_then (parseBoolean (row ! 5) (''applicable for '' @ i)) (\<lambda>applies.
         and_then (check_evidence \<lparr>cr_id = i, cr_domain = d, rawScore = raw, effectiveScore = 0, cr_weight = w,
            evidenceStatus = row ! 4, cr_applicable = applies, approval = row ! 6, cr_evidence = row ! 7\<rparr>) (\<lambda>c.
         Inr (cs @ [c]))))))))))))))"

definition domainApplicable :: "Criterion list \<Rightarrow> char \<Rightarrow> bool" where
  "domainApplicable cs d = list_ex (\<lambda>c. cr_domain c = d \<and> cr_applicable c) cs"

definition mixed_domain :: "Criterion list \<Rightarrow> char \<Rightarrow> bool" where
  "mixed_domain cs d = (domainApplicable cs d \<and> list_ex (\<lambda>c. cr_domain c = d \<and> \<not> cr_applicable c) cs)"

definition loadCriteria :: "files \<Rightarrow> string \<Rightarrow> Metadata \<Rightarrow> Criterion list fallible" where
  "loadCriteria files path m =
     and_then (loadTsv files path [''criterion_id'', ''domain'', ''raw_score'', ''criterion_weight'', ''evidence_status'',
       ''applicable'', ''auditor_approval_ref'', ''evidence_ref'']) (\<lambda>rows.
     require (rows \<noteq> []) ''criteria.tsv must contain at least one criterion''
     (and_then (each criterion_row [] rows) (\<lambda>cs.
      case find (\<lambda>i. i \<notin> cr_id ` set cs) catalogue of
        Some i \<Rightarrow> Inl (''criteria.tsv missing normative criterion: '' @ i)
      | None \<Rightarrow>
         require (length cs = length catalogue) ''criteria.tsv must contain exactly the 76 normative C3-ECO criteria''
         (case find (mixed_domain cs) ''ABCDEFGHIJK'' of
            Some d \<Rightarrow> Inl (''criterion applicability must be all-or-nothing for domain '' @ [d])
          | None \<Rightarrow>
             require (domainApplicable cs (CHR ''A'') \<and> domainApplicable cs (CHR ''B'') \<and> domainApplicable cs (CHR ''K''))
               ''core domains A, B and K cannot be marked N/A''
             (require (aiInScope m \<longrightarrow> domainApplicable cs (CHR ''G'')) ''AI/ML domain G cannot be N/A when AI is in scope''
             (require (clientDeviceImpact m \<longrightarrow> domainApplicable cs (CHR ''H''))
               ''hardware longevity domain H cannot be N/A for material client-device impact''
             (Inr (sort_key (\<lambda>c. (cr_domain c, digits_value (tl (cr_id c)))) cs))))))))"

subsection \<open>Materiality\<close>

definition share_entry :: "MaterialityResult \<Rightarrow> string list \<Rightarrow> MaterialityResult fallible" where
  "share_entry r row = (let n = row ! 0 in
     require (n \<noteq> [] \<and> n \<notin> mc_component ` set (mr_components r)) (''duplicate or empty materiality component: '' @ n)
     (and_then (parseNumber (row ! 1) (''share_percent for '' @ n)) (\<lambda>share.
      require (b_le b_zero share \<and> b_le share (b_of_int 100)) (''materiality share_percent must be in [0,100] for '' @ n)
      (require (row ! 2 \<in> {''included'', ''conservative_estimate'', ''omitted''})
        (''materiality disposition must be included, conservative_estimate or omitted for '' @ n)
      (require (hasEvidence (row ! 3)) (''materiality evidence_ref is required for '' @ n)
      (let left_out = (row ! 2 = ''omitted'') in
       Inr (r\<lparr>mr_components := mr_components r @
           [\<lparr>mc_component = n, sharePercent = share, disposition = row ! 2, mc_evidence = row ! 3\<rparr>],
         declaredSharePercent := b_add (declaredSharePercent r) share,
         omittedSharePercent := (if left_out then b_add (omittedSharePercent r) share else omittedSharePercent r),
         individualMaterialOmission := (individualMaterialOmission r \<or> left_out \<and> at_least share 1)\<rparr>)))))))"

definition loadMateriality :: "files \<Rightarrow> string \<Rightarrow> MaterialityResult fallible" where
  "loadMateriality files path =
     and_then (loadTsv files path [''component'', ''share_percent'', ''disposition'', ''evidence_ref'']) (\<lambda>rows.
     require (rows \<noteq> []) ''materiality.tsv must contain at least one component''
     (and_then (each share_entry \<lparr>mr_components = [], declaredSharePercent = b_zero, omittedSharePercent = b_zero,
        individualMaterialOmission = False, cumulativeOmissionExceeded = False\<rparr> rows) (\<lambda>r.
      require (reconciles (declaredSharePercent r) (b_of_int 100))
        ''materiality component shares must account for exactly 100 percent''
      (Inr (r\<lparr>cumulativeOmissionExceeded := b_lt (b_add (b_of_int 5) kEpsilon) (omittedSharePercent r),
         mr_components := sort_key mc_component (mr_components r)\<rparr>)))))"

subsection \<open>Regressions\<close>

definition kEcoRegressionThresholdPercent :: binary64 where
  "kEcoRegressionThresholdPercent = b_of_int 10"

definition deterioration :: "binary64 \<Rightarrow> binary64 \<Rightarrow> bool \<Rightarrow> binary64" where
  "deterioration base now lower =
     b_mul (b_div (if lower then b_sub now base else b_sub base now) base) (b_of_int 100)"

definition judge_regression :: "Regression \<Rightarrow> Regression" where
  "judge_regression r =
     (if rg_kind r = ''eco''
      then let over = b_lt (b_add kEcoRegressionThresholdPercent kEpsilon) (deteriorationPercent r)
        in r\<lparr>thresholdExceeded := over,
             unresolved := (over \<and> (\<not> hasEvidence (explanation r) \<or> \<not> hasEvidence (correctiveAction r)))\<rparr>
      else let over = b_lt kEpsilon (deteriorationPercent r) in r\<lparr>thresholdExceeded := over, unresolved := over\<rparr>)"

definition regression_row :: "Regression list \<Rightarrow> string list \<Rightarrow> Regression list fallible" where
  "regression_row rs row = (let i = row ! 0 in
     require (i \<noteq> [] \<and> i \<notin> rg_id ` set rs) (''duplicate or empty regression metric_id: '' @ i)
     (require (row ! 1 = ''eco'' \<or> row ! 1 = ''quality'') (''regression kind must be eco or quality for '' @ i)
     (and_then (parseNumber (row ! 2) (''baseline_value for '' @ i)) (\<lambda>base.
      and_then (parseNumber (row ! 3) (''current_value for '' @ i)) (\<lambda>now.
      require (b_lt b_zero base \<and> b_le b_zero now)
        (''regression values require baseline > 0 and current >= 0 for '' @ i)
      (and_then (parseBoolean (row ! 4) (''lower_is_better for '' @ i)) (\<lambda>lower.
       require (hasEvidence (row ! 7)) (''regression evidence_ref is required for '' @ i)
       (let d = deterioration base now lower in
        require (b_finite d) (''regression deterioration is outside the supported numeric range for '' @ i)
        (Inr (rs @ [judge_regression \<lparr>rg_id = i, rg_kind = row ! 1, baseline = base, rg_current = now,
           lowerIsBetter = lower, explanation = row ! 5, correctiveAction = row ! 6, rg_evidence = row ! 7,
           deteriorationPercent = (if b_lt (b_abs d) kEpsilon then b_zero else d),
           thresholdExceeded = False, unresolved = False\<rparr>]))))))))))"

definition loadRegressions :: "files \<Rightarrow> string \<Rightarrow> Regression list fallible" where
  "loadRegressions files path =
     and_then (loadTsv files path [''metric_id'', ''kind'', ''baseline_value'', ''current_value'', ''lower_is_better'',
       ''explanation'', ''corrective_action_ref'', ''evidence_ref'']) (\<lambda>rows.
     and_then (each regression_row [] rows) (\<lambda>rs. Inr (sort_key rg_id rs)))"

subsection \<open>Claims\<close>

definition claim_types :: "string list" where
  "claim_types = [''candidate_assessment'', ''certified'', ''level'', ''comparative'', ''green_ai'', ''zero'', ''best'',
     ''climate_positive'', ''net_positive'', ''offsets_only'']"

definition claim_row :: "Claim list \<Rightarrow> string list \<Rightarrow> Claim list fallible" where
  "claim_row cs row = (let i = row ! 0 in
     require (i \<noteq> [] \<and> i \<notin> cl_id ` set cs) (''duplicate or empty claim_id: '' @ i)
     (require (row ! 1 \<in> set claim_types) (''unsupported claim_type for '' @ i @ '': '' @ row ! 1)
     (require (row ! 2 \<noteq> []) (''claim_text is required for '' @ i)
     (require (hasEvidence (row ! 9)) (''claim evidence_ref is required for '' @ i)
     (and_then (parseBoolean (row ! 3) (''scope_matches for '' @ i)) (\<lambda>scope.
      and_then (parseBoolean (row ! 4) (''functional_unit_equivalent for '' @ i)) (\<lambda>unit_same.
      and_then (parseBoolean (row ! 5) (''boundary_equivalent for '' @ i)) (\<lambda>boundary_same.
      and_then (parseBoolean (row ! 6) (''quality_equivalent for '' @ i)) (\<lambda>quality_same.
      and_then (parseBoolean (row ! 7) (''method_equivalent for '' @ i)) (\<lambda>method_same.
      and_then (parseBoolean (row ! 8) (''legal_technical_evidence for '' @ i)) (\<lambda>legal.
      Inr (cs @ [\<lparr>cl_id = i, cl_type = row ! 1, cl_text = row ! 2, scopeMatches = scope,
        functionalUnitEquivalent = unit_same, boundaryEquivalent = boundary_same, qualityEquivalent = quality_same,
        methodEquivalent = method_same, legalTechnicalEvidence = legal, cl_evidence = row ! 9,
        permitted_claim = False, cl_reasons = []\<rparr>]))))))))))))"

definition loadClaims :: "files \<Rightarrow> string \<Rightarrow> Claim list fallible" where
  "loadClaims files path =
     and_then (loadTsv files path [''claim_id'', ''claim_type'', ''claim_text'', ''scope_matches'',
       ''functional_unit_equivalent'', ''boundary_equivalent'', ''quality_equivalent'', ''method_equivalent'',
       ''legal_technical_evidence'', ''evidence_ref'']) (\<lambda>rows.
     require (rows \<noteq> []) ''claims.tsv must contain at least one claim request''
     (and_then (each claim_row [] rows) (\<lambda>cs. Inr (sort_key cl_id cs))))"

end
