(* ===== verification/Evidence.thy ===== *)
theory Evidence
  imports Tables "HOL-Library.Product_Lexorder"
begin

section \<open>The profile and the measurement workbook of a candidate\<close>

text \<open>
  \<open>validateProfile\<close> and \<open>validateMeasurement\<close> of \<open>evidence/CertificationAssessment.cpp\<close>: what the
  assessment accepts as \<open>profile.json\<close> and \<open>measurement.json\<close>, and what it takes from them. Every
  check is in the order of the source, so that the error of a refused file is the one it reports.
\<close>

definition expect_string :: "Json \<Rightarrow> string \<Rightarrow> string list \<Rightarrow> string \<Rightarrow> 'a fallible \<Rightarrow> 'a fallible" where
  "expect_string j key allowed message k = and_then (jsonString j key) (\<lambda>s. require (s \<in> set allowed) message k)"

definition expect_flag :: "Json \<Rightarrow> string \<Rightarrow> bool \<Rightarrow> string \<Rightarrow> 'a fallible \<Rightarrow> 'a fallible" where
  "expect_flag j key wanted message k = and_then (jsonBoolean j key) (\<lambda>b. require (b = wanted) message k)"

definition expect_text :: "Json \<Rightarrow> string \<Rightarrow> 'a fallible \<Rightarrow> 'a fallible" where
  "expect_text j key k = and_then (requireNonemptyJsonString j key) (\<lambda>_. k)"

subsection \<open>The profile\<close>

record ProfileEvidence =
  pe_productName :: string
  pe_productVersion :: string
  pe_softwareClass :: string
  pe_functionalUnit :: string
  pe_boundary :: string
  pe_workload :: string
  pe_aiInScope :: bool

type_synonym declaration_index = "((string \<times> string) \<times> Json) list"
type_synonym links = "(string \<times> string) list"

definition linkedDeclaration :: "declaration_index \<Rightarrow> string \<Rightarrow> string \<Rightarrow> Json fallible" where
  "linkedDeclaration index kind name = (case map_of index (kind, name) of
       None \<Rightarrow> Inl (''profile.json certification_profile link is unresolved: '' @ kind @ '' '' @ name)
     | Some j \<Rightarrow> Inr j)"

fun only_element :: "Json \<Rightarrow> Json option" where
  "only_element (J_Array [v]) = Some v"
| "only_element _ = None"

fun is_object :: "Json \<Rightarrow> bool" where
  "is_object (J_Object _) = True"
| "is_object _ = False"

definition typedDeclarationString :: "Json \<Rightarrow> string \<Rightarrow> string \<Rightarrow> string fallible" where
  "typedDeclarationString declaration name expectedType =
     and_then (jsonMember declaration ''typed_fields'') (\<lambda>typed.
     and_then (jsonMember typed name) (\<lambda>vs. case only_element vs of
         Some (J_Object ms) \<Rightarrow> expect_string (J_Object ms) ''type'' [expectedType]
           (''profile.json linked declaration has wrong typed value: '' @ name) (jsonString (J_Object ms) ''value'')
       | _ \<Rightarrow> Inl (''profile.json linked declaration must contain one typed value: '' @ name)))"

definition unsafe_flag :: "Json \<Rightarrow> unit \<Rightarrow> string \<Rightarrow> unit fallible" where
  "unsafe_flag profile u flag = and_then (findJsonMember profile flag) (\<lambda>v. case v of
       None \<Rightarrow> Inr ()
     | Some (J_Boolean b) \<Rightarrow> require (\<not> b) (''profile.json must not enable claim flag: '' @ flag) (Inr ())
     | Some _ \<Rightarrow> Inl (''profile.json optional claim flag must be boolean: '' @ flag))"

definition declared_grade :: "string \<Rightarrow> string \<Rightarrow> bool" where
  "declared_grade prefix value =
     (length value = 3 \<and> take 2 value = prefix \<and> value ! 2 \<in> {CHR ''1'', CHR ''2'', CHR ''3'', CHR ''4''})"

definition check_grades :: "Json \<Rightarrow> unit fallible" where
  "check_grades profile =
     and_then (jsonString profile ''measurement_quality'') (\<lambda>mq.
     and_then (jsonString profile ''data_quality'') (\<lambda>dq.
     and_then (jsonBoolean profile ''minimum_c3eco_evidence_present'') (\<lambda>present.
     and_then (if present then Inr False
               else and_then (jsonString profile ''measurement_status'') (\<lambda>s. Inr (s = ''declared_budget_only''))) (\<lambda>profileOnly.
     require (profileOnly \<and> mq = [] \<or> declared_grade ''MQ'' mq) ''profile.json measurement_quality must be MQ1 through MQ4''
     (require (profileOnly \<and> dq = [] \<or> declared_grade ''DQ'' dq) ''profile.json data_quality must be DQ1 through DQ4''
     (Inr ()))))))"

definition blocked_item :: "bool \<Rightarrow> Json \<Rightarrow> bool fallible" where
  "blocked_item found item = (case item of
       J_String s \<Rightarrow> require (s \<noteq> []) ''profile.json blocked certification items must be non-empty strings''
         (Inr (found \<or> s = ''external_certifier_not_signed''))
     | _ \<Rightarrow> Inl ''profile.json blocked certification items must be non-empty strings'')"

definition check_blocked :: "Json \<Rightarrow> unit fallible" where
  "check_blocked profile = and_then (jsonMember profile ''blocked_certification_items'') (\<lambda>items. case items of
       J_Array vs \<Rightarrow> and_then (each blocked_item False vs) (\<lambda>found.
         require found ''profile.json must preserve external_certifier_not_signed as a blocker'' (Inr ()))
     | _ \<Rightarrow> Inl ''profile.json blocked_certification_items must be an array'')"

definition check_profile :: "Json \<Rightarrow> unit fallible" where
  "check_profile p =
     expect_string p ''schema'' [''shorthand.c3eco.candidate_report.v1'']
       ''profile.json schema must be shorthand.c3eco.candidate_report.v1''
     (expect_string p ''report_status'' [''candidate_assessment_only''] ''profile.json must be a candidate assessment report''
     (expect_string p ''c3eco_language_contract'' [''shorthand.c3eco.language.v1'']
       ''profile.json must use shorthand.c3eco.language.v1''
     (expect_string p ''c3eco_profile_contract'' [''shorthand.c3eco.profile.v2''] ''profile.json must use shorthand.c3eco.profile.v2''
     (expect_string p ''c3eco_profile_status'' [''conformant''] ''profile.json must contain a conformant typed profile''
     (expect_flag p ''c3eco_profile_migration_required'' False ''profile.json cannot require profile migration''
     (expect_flag p ''official_certification_granted'' False ''profile.json must not claim official certification''
     (and_then (each (unsafe_flag p) () [''production_claim'', ''level_claim_permitted'', ''certified'']) (\<lambda>_.
      expect_text p ''source_file''
     (expect_text p ''compiler_version''
     (and_then (jsonBoolean p ''minimum_c3eco_evidence_present'') (\<lambda>_.
      and_then (jsonString p ''workload'') (\<lambda>_.
      and_then (jsonString p ''functional_unit'') (\<lambda>_.
      and_then (jsonString p ''success_criteria'') (\<lambda>_.
      and_then (check_grades p) (\<lambda>_.
      and_then (jsonNumber p ''carbon_factor_gco2e_per_kwh'') (\<lambda>factor.
      require (b_le b_zero factor) ''profile.json carbon factor cannot be negative''
     (expect_string p ''measurement_status'' [''declared_budget_only'', ''measured'', ''estimated'', ''unavailable'']
       ''profile.json measurement_status is invalid''
     (expect_text p ''runtime_backend''
     (expect_string p ''inference_status'' [''not_executed'', ''executed'', ''backend_unavailable'', ''fallback'']
       ''profile.json inference_status is invalid''
     (and_then (check_blocked p) (\<lambda>_.
      expect_text p ''claim_safe_text''
     (expect_text p ''disclaimer'' (Inr ())))))))))))))))))))))))"

definition profile_fields :: "string list" where
  "profile_fields = [''ai_lifecycle'', ''boundary'', ''certification'', ''functional_unit'', ''guardrails'', ''profile_version'',
     ''valid_from'', ''valid_until'', ''workload'']"

text \<open>One field of the profile, which has to say the same twice: as text and as a typed value.\<close>

definition profile_field :: "Json \<Rightarrow> Json \<Rightarrow> links \<Rightarrow> string \<Rightarrow> links fallible" where
  "profile_field legacy typed typedStrings key =
     and_then (jsonMember legacy key) (\<lambda>legacyValues.
     and_then (jsonMember typed key) (\<lambda>typedValues.
     (case only_element legacyValues of
        Some (J_String old) \<Rightarrow> require (old \<noteq> []) (''profile.json certification_profile field must contain one value: '' @ key)
          (case only_element typedValues of
             Some (J_Object ms) \<Rightarrow> (let tv = J_Object ms in
               and_then (requireExactKeys tv [''type'', ''value''] (''profile.json certification_profile typed value '' @ key)) (\<lambda>_.
               and_then (jsonString tv ''type'') (\<lambda>type.
               and_then (jsonMember tv ''value'') (\<lambda>val.
                 if key = ''profile_version''
                 then require (type = ''integer'' \<and> (case val of J_Number x \<Rightarrow> b_eq x (b_of_int 2) | _ \<Rightarrow> False) \<and> old = ''2'')
                   ''profile.json certification_profile profile_version must be typed integer 2'' (Inr typedStrings)
                 else require (type = (if key = ''valid_from'' \<or> key = ''valid_until'' then ''string'' else ''identifier'') \<and>
                     val = J_String old)
                   (''profile.json certification_profile typed value is invalid: '' @ key)
                   (Inr (typedStrings @ [(key, old)]))))))
           | _ \<Rightarrow> Inl (''profile.json certification_profile typed field must contain one value: '' @ key))
      | _ \<Rightarrow> Inl (''profile.json certification_profile field must contain one value: '' @ key))))"

text \<open>\<open>typedStrings.at(key)\<close>; every key it is asked for has been entered.\<close>

definition link_of :: "links \<Rightarrow> string \<Rightarrow> string" where
  "link_of ls key = (case map_of ls key of Some v \<Rightarrow> v | None \<Rightarrow> [])"

definition profile_links :: "Json \<Rightarrow> links fallible" where
  "profile_links declaration =
     and_then (jsonMember declaration ''fields'') (\<lambda>legacy.
     and_then (jsonMember declaration ''typed_fields'') (\<lambda>typed.
     and_then (requireExactKeys legacy profile_fields ''profile.json certification_profile fields'') (\<lambda>_.
     and_then (requireExactKeys typed profile_fields ''profile.json certification_profile typed_fields'') (\<lambda>_.
     and_then (each (profile_field legacy typed) [] profile_fields) (\<lambda>ls.
     require (validIsoDate (link_of ls ''valid_from'') \<and> validIsoDate (link_of ls ''valid_until'') \<and>
         link_of ls ''valid_from'' \<le> link_of ls ''valid_until'')
       ''profile.json certification_profile validity dates are invalid'' (Inr ls))))))"

record profile_state =
  ps_count :: nat
  ps_index :: declaration_index
  ps_links :: links

definition profile_declaration :: "profile_state \<Rightarrow> Json \<Rightarrow> profile_state fallible" where
  "profile_declaration st declaration =
     require (is_object declaration) ''profile.json declarations must be objects''
     (and_then (jsonString declaration ''kind'') (\<lambda>kind.
      expect_text declaration ''name''
     (and_then (jsonMember declaration ''fields'') (\<lambda>legacy.
      require (is_object legacy) ''profile.json declaration fields must be an object''
     (and_then (jsonMember declaration ''typed_fields'') (\<lambda>typed.
      require (is_object typed) ''profile.json declaration typed_fields must be an object''
     (and_then (jsonString declaration ''name'') (\<lambda>name.
      require ((kind, name) \<notin> fst ` set (ps_index st)) ''profile.json declaration kind/name pairs must be unique''
     (let st1 = st\<lparr>ps_index := ps_index st @ [((kind, name), declaration)]\<rparr> in
      if kind \<noteq> ''certification_profile'' then Inr st1
      else and_then (profile_links declaration) (\<lambda>ls.
        Inr (st1\<lparr>ps_links := ls, ps_count := ps_count st + 1\<rparr>)))))))))))"

definition check_denominator :: "Json \<Rightarrow> unit fallible" where
  "check_denominator declared_unit =
     and_then (jsonMember declared_unit ''typed_fields'') (\<lambda>typed.
     and_then (jsonMember typed ''denominator'') (\<lambda>ds. case only_element ds of
         None \<Rightarrow> Inl ''profile.json functional-unit denominator must contain one value''
       | Some d \<Rightarrow> expect_string d ''type'' [''integer'']
           ''profile.json functional-unit denominator must be a positive integer''
           (and_then (jsonNumber d ''value'') (\<lambda>x.
             require (b_lt b_zero x \<and> integral x)
               ''profile.json functional-unit denominator must be a positive integer'' (Inr ())))))"

definition link_exists :: "profile_state \<Rightarrow> unit \<Rightarrow> string \<Rightarrow> unit fallible" where
  "link_exists st u kind = and_then (linkedDeclaration (ps_index st) kind (link_of (ps_links st) kind)) (\<lambda>_. Inr ())"

definition profile_evidence :: "profile_state \<Rightarrow> ProfileEvidence fallible" where
  "profile_evidence st = (let link = link_of (ps_links st) in
     require (ps_count st = 1) ''profile.json must contain exactly one typed certification_profile declaration''
     (and_then (linkedDeclaration (ps_index st) ''certification'' (link ''certification'')) (\<lambda>certification.
      and_then (each (link_exists st) () [''functional_unit'', ''workload'', ''boundary'', ''ai_lifecycle'', ''guardrails'']) (\<lambda>_.
      and_then (linkedDeclaration (ps_index st) ''functional_unit'' (link ''functional_unit'')) (\<lambda>declared_unit.
      and_then (check_denominator declared_unit) (\<lambda>_.
      and_then (typedDeclarationString certification ''version'' ''string'') (\<lambda>version.
      and_then (typedDeclarationString certification ''software_class'' ''identifier'') (\<lambda>cls.
      Inr \<lparr>pe_productName = link ''certification'', pe_productVersion = version, pe_softwareClass = cls,
        pe_functionalUnit = link ''functional_unit'', pe_boundary = link ''boundary'', pe_workload = link ''workload'',
        pe_aiInScope = (cls = ''S6'' \<or> starts_with ''S6_'' cls)\<rparr>))))))))"

definition validateProfile :: "Json \<Rightarrow> ProfileEvidence fallible" where
  "validateProfile profile =
     and_then (check_profile profile) (\<lambda>_.
     and_then (jsonMember profile ''c3eco_declarations'') (\<lambda>declarations. case declarations of
         J_Array ds \<Rightarrow> and_then (each profile_declaration \<lparr>ps_count = 0, ps_index = [], ps_links = []\<rparr> ds) profile_evidence
       | _ \<Rightarrow> Inl ''profile.json c3eco_declarations must be an array''))"

subsection \<open>The measurement workbook\<close>

record MeasurementEvidence =
  me_measurementQuality :: int
  me_dataQuality :: int
  me_uncertaintyPercent :: binary64

definition workbookQualityRank :: "string \<Rightarrow> int fallible" where
  "workbookQualityRank value =
     (if value = ''high'' then Inr 3 else if value = ''medium'' then Inr 2 else if value = ''low'' then Inr 1
      else Inl ''measurement.json MQ/DQ must be high, medium or low'')"

definition workbook_keys :: "string list" where
  "workbook_keys = [
     ''allocation_policy'', ''base_footprint_not_reduced_by_offsets'', ''claim_safe_text'', ''measurement_status'',
     ''next_qualification'', ''official_certification_granted'', ''record_count'', ''records'', ''schema'', ''totals'']"

definition total_keys :: "string list" where
  "total_keys = [
     ''allocated_it_energy_j'', ''carbon_kgco2e'', ''cost_by_currency'', ''facility_energy_kwh'',
     ''uncertainty_carbon_kgco2e'', ''uncertainty_kwh'']"

definition record_keys :: "string list" where
  "record_keys = [
     ''allocated_it_energy_j'', ''allocation_fraction'', ''calibration_date'', ''calibration_id'',
     ''carbon_factor_gco2e_per_kwh'', ''carbon_kgco2e'', ''component'', ''cost'', ''data_quality'', ''evidence_ref'',
     ''facility_energy_kwh'', ''factor_date'', ''factor_source'', ''instrument_id'', ''measured_at'',
     ''measurement_quality'', ''pue'', ''raw_energy_j'', ''record_id'', ''source_kind'', ''tariff_currency'',
     ''tariff_per_kwh'', ''tariff_source'', ''uncertainty_carbon_kgco2e'', ''uncertainty_kwh'',
     ''uncertainty_percent'']"

text \<open>The sums of the workbook, as declared and as added up from the records.\<close>

record energy_sums =
  sm_itEnergy :: binary64
  sm_facilityEnergy :: binary64
  sm_carbon :: binary64
  sm_uncertainty :: binary64
  sm_carbonUncertainty :: binary64

definition workbook_head :: "Json \<Rightarrow> unit fallible" where
  "workbook_head j =
     and_then (requireExactKeys j workbook_keys ''measurement.json'') (\<lambda>_.
     expect_string j ''schema'' [''shorthand.c3eco.measurement_workbook.v1'']
       ''measurement.json must use shorthand.c3eco.measurement_workbook.v1''
     (expect_string j ''measurement_status'' [''measured_instrumented'']
       ''measurement.json must contain instrumented measured evidence''
     (expect_flag j ''official_certification_granted'' False ''measurement.json must not claim official certification''
     (expect_flag j ''base_footprint_not_reduced_by_offsets'' True
       ''measurement.json must keep offsets outside the base footprint''
     (expect_text j ''allocation_policy'' (expect_text j ''claim_safe_text'' (expect_text j ''next_qualification'' (Inr ()))))))))"

definition workbook_totals :: "Json \<Rightarrow> (energy_sums \<times> (string \<times> Json) list) fallible" where
  "workbook_totals totals =
     and_then (requireExactKeys totals total_keys ''measurement.json totals'') (\<lambda>_.
     and_then (jsonNumber totals ''allocated_it_energy_j'') (\<lambda>it.
     and_then (jsonNumber totals ''facility_energy_kwh'') (\<lambda>facility.
     and_then (jsonNumber totals ''carbon_kgco2e'') (\<lambda>carbon.
     and_then (jsonNumber totals ''uncertainty_kwh'') (\<lambda>uncertainty.
     and_then (jsonNumber totals ''uncertainty_carbon_kgco2e'') (\<lambda>carbonUncertainty.
     require (b_lt b_zero it) ''measurement.json allocated IT energy must be positive''
     (require (b_lt b_zero facility) ''measurement.json facility energy must be positive''
     (require (b_lt b_zero carbon) ''measurement.json carbon must be positive''
     (require (b_le b_zero uncertainty \<and> b_le b_zero carbonUncertainty)
       ''measurement.json uncertainty totals cannot be negative''
     (and_then (jsonMember totals ''cost_by_currency'') (\<lambda>costs. case costs of
         J_Object ms \<Rightarrow> Inr (\<lparr>sm_itEnergy = it, sm_facilityEnergy = facility, sm_carbon = carbon,
           sm_uncertainty = uncertainty, sm_carbonUncertainty = carbonUncertainty\<rparr>, ms)
       | _ \<Rightarrow> Inl ''measurement.json cost_by_currency must be an object'')))))))))))"

record provenance =
  pv_instrument :: string
  pv_measuredAt :: string
  pv_tariffCurrency :: string
  pv_evidence :: string

definition read_provenance :: "Json \<Rightarrow> provenance fallible" where
  "read_provenance j =
     and_then (jsonString j ''instrument_id'') (\<lambda>instrument.
     and_then (jsonString j ''calibration_id'') (\<lambda>calibration.
     and_then (jsonString j ''calibration_date'') (\<lambda>calibrationDate.
     and_then (jsonString j ''measured_at'') (\<lambda>measuredAt.
     and_then (jsonString j ''factor_source'') (\<lambda>factorSource.
     and_then (jsonString j ''factor_date'') (\<lambda>factorDate.
     and_then (jsonString j ''tariff_currency'') (\<lambda>tariffCurrency.
     and_then (jsonString j ''tariff_source'') (\<lambda>tariffSource.
     and_then (jsonString j ''evidence_ref'') (\<lambda>evidence.
     require (instrument \<noteq> [] \<and> calibration \<noteq> [] \<and> factorSource \<noteq> [] \<and> tariffSource \<noteq> [] \<and> hasEvidence evidence)
       ''measurement.json record provenance fields are required''
     (require (validIsoDate calibrationDate \<and> validIsoDate factorDate \<and> length measuredAt \<ge> 10 \<and>
         validIsoDate (take 10 measuredAt))
       ''measurement.json record dates are invalid''
     (require (calibrationDate \<le> take 10 measuredAt) ''measurement.json calibration cannot post-date measurement''
     (require (factorDate \<le> take 10 measuredAt) ''measurement.json carbon factor cannot post-date measurement''
     (Inr \<lparr>pv_instrument = instrument, pv_measuredAt = measuredAt, pv_tariffCurrency = tariffCurrency,
        pv_evidence = evidence\<rparr>)))))))))))))"

record amounts =
  am_rawEnergy :: binary64
  am_fraction :: binary64
  am_itEnergy :: binary64
  am_pue :: binary64
  am_facilityEnergy :: binary64
  am_carbonFactor :: binary64
  am_carbon :: binary64
  am_tariff :: binary64
  am_cost :: binary64
  am_uncertaintyPercent :: binary64
  am_uncertainty :: binary64
  am_carbonUncertainty :: binary64

definition read_amounts :: "Json \<Rightarrow> amounts fallible" where
  "read_amounts j =
     and_then (jsonNumber j ''raw_energy_j'') (\<lambda>rawEnergy.
     and_then (jsonNumber j ''allocation_fraction'') (\<lambda>fraction.
     and_then (jsonNumber j ''allocated_it_energy_j'') (\<lambda>itEnergy.
     and_then (jsonNumber j ''pue'') (\<lambda>pue.
     and_then (jsonNumber j ''facility_energy_kwh'') (\<lambda>facilityEnergy.
     and_then (jsonNumber j ''carbon_factor_gco2e_per_kwh'') (\<lambda>carbonFactor.
     and_then (jsonNumber j ''carbon_kgco2e'') (\<lambda>carbon.
     and_then (jsonNumber j ''tariff_per_kwh'') (\<lambda>tariff.
     and_then (jsonNumber j ''cost'') (\<lambda>cost.
     and_then (jsonNumber j ''uncertainty_percent'') (\<lambda>percent.
     and_then (jsonNumber j ''uncertainty_kwh'') (\<lambda>uncertainty.
     and_then (jsonNumber j ''uncertainty_carbon_kgco2e'') (\<lambda>carbonUncertainty.
     Inr \<lparr>am_rawEnergy = rawEnergy, am_fraction = fraction, am_itEnergy = itEnergy, am_pue = pue,
       am_facilityEnergy = facilityEnergy, am_carbonFactor = carbonFactor, am_carbon = carbon, am_tariff = tariff,
       am_cost = cost, am_uncertaintyPercent = percent, am_uncertainty = uncertainty,
       am_carbonUncertainty = carbonUncertainty\<rparr>))))))))))))"

definition in_range :: "int \<Rightarrow> binary64 \<Rightarrow> int \<Rightarrow> bool" where
  "in_range lo x hi = (b_le (b_of_int lo) x \<and> b_le x (b_of_int hi))"

definition positive :: "binary64 \<Rightarrow> bool" where
  "positive x = b_lt b_zero x"

definition check_ranges :: "amounts \<Rightarrow> string \<Rightarrow> unit fallible" where
  "check_ranges a currency =
     require (positive (am_rawEnergy a) \<and> positive (am_fraction a) \<and> b_le (am_fraction a) (b_of_int 1))
       ''measurement.json raw energy/allocation values are invalid''
     (require (positive (am_itEnergy a) \<and> positive (am_facilityEnergy a) \<and> positive (am_carbon a))
       ''measurement.json record accounting values must be positive''
     (require (in_range 1 (am_pue a) 3) ''measurement.json pue must be in [1,3]''
     (require (positive (am_carbonFactor a) \<and> b_le (am_carbonFactor a) (b_of_int 2500))
       ''measurement.json carbon factor is outside the bounded range''
     (require (in_range 0 (am_tariff a) 10000 \<and> length currency = 3 \<and> b_le b_zero (am_cost a))
       ''measurement.json tariff values are invalid''
     (require (list_all is_upper currency) ''measurement.json tariff currency must be three uppercase ASCII letters''
     (require (in_range 0 (am_uncertaintyPercent a) 100 \<and> b_le b_zero (am_uncertainty a) \<and> b_le b_zero (am_carbonUncertainty a))
       ''measurement.json uncertainty values are invalid'' (Inr ())))))))"

definition check_accounting :: "string \<Rightarrow> amounts \<Rightarrow> unit fallible" where
  "check_accounting i a =
     require (reconciles (am_itEnergy a) (b_mul (am_rawEnergy a) (am_fraction a)))
       (''measurement.json allocated IT energy does not reconcile within record '' @ i)
     (require (reconciles (am_facilityEnergy a) (b_div (b_mul (am_itEnergy a) (am_pue a)) (b_of_int 3600000)))
       (''measurement.json facility energy does not reconcile within record '' @ i)
     (require (reconciles (am_carbon a) (b_div (b_mul (am_facilityEnergy a) (am_carbonFactor a)) (b_of_int 1000)))
       (''measurement.json carbon does not reconcile within record '' @ i)
     (require (reconciles (am_cost a) (b_mul (am_facilityEnergy a) (am_tariff a)))
       (''measurement.json cost does not reconcile within record '' @ i)
     (require (reconciles (am_uncertainty a) (b_div (b_mul (am_facilityEnergy a) (am_uncertaintyPercent a)) (b_of_int 100)))
       (''measurement.json uncertainty does not reconcile within record '' @ i)
     (require (reconciles (am_carbonUncertainty a) (b_div (b_mul (am_carbon a) (am_uncertaintyPercent a)) (b_of_int 100)))
       (''measurement.json carbon uncertainty does not reconcile within record '' @ i) (Inr ()))))))"

text \<open>The totals that the loop keeps; \<open>m[key] += x\<close> starts a new entry at zero.\<close>

fun accumulate :: "'k \<Rightarrow> binary64 \<Rightarrow> ('k \<times> binary64) list \<Rightarrow> ('k \<times> binary64) list" where
  "accumulate k x [] = [(k, b_add b_zero x)]"
| "accumulate k x ((l, y) # es) = (if k = l then (l, b_add y x) # es else (l, y) # accumulate k x es)"

type_synonym allocation_key = "string \<times> string \<times> binary64 \<times> string"

record workbook_state =
  ws_ids :: "string list"
  ws_allocation :: "(allocation_key \<times> binary64) list"
  ws_costs :: "(string \<times> binary64) list"
  ws_sums :: energy_sums
  ws_result :: MeasurementEvidence

definition no_sums :: energy_sums where
  "no_sums = \<lparr>sm_itEnergy = b_zero, sm_facilityEnergy = b_zero, sm_carbon = b_zero, sm_uncertainty = b_zero,
     sm_carbonUncertainty = b_zero\<rparr>"

definition workbook_start :: workbook_state where
  "workbook_start = \<lparr>ws_ids = [], ws_allocation = [], ws_costs = [], ws_sums = no_sums,
     ws_result = \<lparr>me_measurementQuality = 4, me_dataQuality = 4, me_uncertaintyPercent = b_zero\<rparr>\<rparr>"

definition add_sums :: "energy_sums \<Rightarrow> amounts \<Rightarrow> energy_sums" where
  "add_sums s a = \<lparr>sm_itEnergy = b_add (sm_itEnergy s) (am_itEnergy a),
     sm_facilityEnergy = b_add (sm_facilityEnergy s) (am_facilityEnergy a),
     sm_carbon = b_add (sm_carbon s) (am_carbon a), sm_uncertainty = b_add (sm_uncertainty s) (am_uncertainty a),
     sm_carbonUncertainty = b_add (sm_carbonUncertainty s) (am_carbonUncertainty a)\<rparr>"

text \<open>The grades of a record, and the worst of all records so far.\<close>

definition record_grades :: "Json \<Rightarrow> MeasurementEvidence \<Rightarrow> binary64 \<Rightarrow> MeasurementEvidence fallible" where
  "record_grades j r percent = (let allowed = [''high'', ''medium'', ''low'']; message = ''measurement.json MQ/DQ must be high, medium or low'' in
     expect_string j ''measurement_quality'' allowed message
     (expect_string j ''data_quality'' allowed message
     (and_then (jsonString j ''measurement_quality'') (\<lambda>mq. and_then (workbookQualityRank mq) (\<lambda>mq_rank.
      and_then (jsonString j ''data_quality'') (\<lambda>dq. and_then (workbookQualityRank dq) (\<lambda>dq_rank.
      Inr \<lparr>me_measurementQuality = min (me_measurementQuality r) mq_rank, me_dataQuality = min (me_dataQuality r) dq_rank,
        me_uncertaintyPercent = b_max (me_uncertaintyPercent r) percent\<rparr>)))))))"

definition allocated :: "allocation_key \<Rightarrow> (allocation_key \<times> binary64) list \<Rightarrow> binary64" where
  "allocated k es = (case map_of es k of Some x \<Rightarrow> x | None \<Rightarrow> b_zero)"

definition workbook_record :: "workbook_state \<Rightarrow> Json \<Rightarrow> workbook_state fallible" where
  "workbook_record st j =
     and_then (requireExactKeys j record_keys ''measurement.json record'') (\<lambda>_.
     and_then (jsonString j ''record_id'') (\<lambda>i.
     require (i \<noteq> [] \<and> i \<notin> set (ws_ids st)) ''measurement.json record_id values must be non-empty and unique''
     (expect_text j ''component''
     (expect_string j ''source_kind'' [''physical_meter'', ''rapl'', ''accelerator_counter'', ''cloud_meter'']
       ''measurement.json records must use instrumented source kinds''
     (and_then (read_provenance j) (\<lambda>pv.
      and_then (read_amounts j) (\<lambda>a.
      and_then (check_ranges a (pv_tariffCurrency pv)) (\<lambda>_.
      and_then (record_grades j (ws_result st) (am_uncertaintyPercent a)) (\<lambda>result.
      and_then (check_accounting i a) (\<lambda>_.
      let k = (pv_instrument pv, pv_measuredAt pv, am_rawEnergy a, pv_evidence pv);
          allocation = accumulate k (am_fraction a) (ws_allocation st)
      in require (b_le (allocated k allocation) (b_add (b_of_int 1) kEpsilon))
           ''measurement.json double counting detected for shared instrument evidence''
         (Inr \<lparr>ws_ids = ws_ids st @ [i], ws_allocation = allocation,
            ws_costs = accumulate (pv_tariffCurrency pv) (am_cost a) (ws_costs st),
            ws_sums = add_sums (ws_sums st) a, ws_result = result\<rparr>)))))))))))"

definition check_totals :: "energy_sums \<Rightarrow> energy_sums \<Rightarrow> unit fallible" where
  "check_totals summed declared =
     require (reconciles (sm_itEnergy summed) (sm_itEnergy declared))
       ''measurement.json allocated IT energy does not reconcile with records''
     (require (reconciles (sm_facilityEnergy summed) (sm_facilityEnergy declared))
       ''measurement.json facility energy does not reconcile with records''
     (require (reconciles (sm_carbon summed) (sm_carbon declared)) ''measurement.json carbon does not reconcile with records''
     (require (reconciles (sm_uncertainty summed) (sm_uncertainty declared))
       ''measurement.json uncertainty does not reconcile with records''
     (require (reconciles (sm_carbonUncertainty summed) (sm_carbonUncertainty declared))
       ''measurement.json carbon uncertainty does not reconcile with records'' (Inr ())))))"

definition check_cost :: "(string \<times> Json) list \<Rightarrow> unit \<Rightarrow> string \<times> binary64 \<Rightarrow> unit fallible" where
  "check_cost declared u entry = (case map_of declared (fst entry) of
       Some (J_Number x) \<Rightarrow> require (b_le b_zero x \<and> reconciles x (snd entry))
         (''measurement.json cost does not reconcile for currency '' @ fst entry) (Inr ())
     | _ \<Rightarrow> Inl (''measurement.json cost does not reconcile for currency '' @ fst entry))"

definition validateMeasurement :: "Json \<Rightarrow> MeasurementEvidence fallible" where
  "validateMeasurement j =
     and_then (workbook_head j) (\<lambda>_.
     and_then (jsonNumber j ''record_count'') (\<lambda>recordCount.
     require (b_le (b_of_int 1) recordCount \<and> integral recordCount)
       ''measurement.json record_count must be a positive integer''
     (and_then (jsonMember j ''totals'') (\<lambda>totals.
      and_then (workbook_totals totals) (\<lambda>(declared, costs).
      and_then (jsonMember j ''records'') (\<lambda>records. case records of
          J_Array rs \<Rightarrow>
            require (b_eq recordCount (b_of_int (int (length rs)))) ''measurement.json record_count must equal records length''
            (and_then (each workbook_record workbook_start rs) (\<lambda>st.
             and_then (check_totals (ws_sums st) declared) (\<lambda>_.
             require (length costs = length (ws_costs st)) ''measurement.json cost currencies do not reconcile with records''
             (and_then (each (check_cost costs) () (sort_key fst (ws_costs st))) (\<lambda>_. Inr (ws_result st))))))
        | _ \<Rightarrow> Inl ''measurement.json records must be an array''))))))"

end
