(* ===== verification/Assessment.thy ===== *)
theory Assessment
  imports Loaders Evidence
begin

section \<open>The assessment of a candidate directory\<close>

text \<open>
  \<open>assessDirectory\<close> of \<open>evidence/CertificationAssessment.cpp\<close> up to its two writers: the tables and the
  two JSON files are read and checked against each other, the criteria are scored, the decision is
  taken, and it is taken again with gate \<open>G10\<close> failed when a requested claim is blocked. The value is
  what the writers are given.
\<close>

definition check_identity :: "Metadata \<Rightarrow> ProfileEvidence \<Rightarrow> bool" where
  "check_identity m p = (productName m = pe_productName p \<and> productVersion m = pe_productVersion p \<and>
     softwareClass m = pe_softwareClass p \<and> functionalUnit m = pe_functionalUnit p \<and> boundary m = pe_boundary p \<and>
     workload m = pe_workload p)"

definition load_json :: "files \<Rightarrow> string \<Rightarrow> Json fallible" where
  "load_json files path = and_then (readFile files path) parseJson"

definition validateEvidenceArtifacts :: "files \<Rightarrow> string \<Rightarrow> Metadata \<Rightarrow> Metadata fallible" where
  "validateEvidenceArtifacts files directory m =
     and_then (load_json files (joinPath directory ''profile.json'')) (\<lambda>profile.
     and_then (validateProfile profile) (\<lambda>p.
     and_then (load_json files (joinPath directory ''measurement.json'')) (\<lambda>measurement.
     and_then (validateMeasurement measurement) (\<lambda>w.
     require (check_identity m p) ''metadata identity and scope must match the linked typed profile''
     (require (pe_aiInScope p \<longrightarrow> aiInScope m) ''AI software class cannot disable AI scope in metadata''
     (and_then (loadMetadataValues files (joinPath directory ''metadata.tsv'')) (\<lambda>values.
      require (measurementQuality m > me_measurementQuality w \<longrightarrow>
          independentReview m \<and> get_status values ''measurement_quality'' = ''independent'')
        ''raising workbook MQ requires independent review evidence''
      (require (dataQuality m > me_dataQuality w \<longrightarrow>
          independentReview m \<and> get_status values ''data_quality'' = ''independent'')
        ''raising workbook DQ requires independent review evidence''
      (Inr (m\<lparr>uncertaintyPercent := b_max (uncertaintyPercent m) (me_uncertaintyPercent w)\<rparr>))))))))))"

record assessment =
  as_metadata :: Metadata
  as_gates :: gates
  as_criteria :: "Criterion list"
  as_domains :: "DomainScore list"
  as_materiality :: MaterialityResult
  as_regressions :: "Regression list"
  as_claims :: "Claim list"
  as_decision :: AssessmentDecision

text \<open>The decision with the claims judged by it, taken again when one of them is blocked.\<close>

definition settle_claims :: "Metadata \<Rightarrow> gates \<Rightarrow> Criterion list \<Rightarrow> DomainScore list \<Rightarrow> MaterialityResult \<Rightarrow> Regression list \<Rightarrow>
    Claim list \<Rightarrow> (AssessmentDecision \<times> gates \<times> Claim list) fallible" where
  "settle_claims m gs criteria domains materiality regressions claims =
     and_then (decide m gs criteria domains materiality regressions) (\<lambda>(d, gs1).
     let judged = evaluateClaims claims m d in
     if list_ex (\<lambda>c. \<not> permitted_claim c) judged
     then and_then (fail_gate True ''G10'' gs1) (\<lambda>gs2.
       and_then (decide m gs2 criteria domains materiality regressions) (\<lambda>(d2, gs3).
       Inr (d2, gs3, evaluateClaims judged m d2)))
     else Inr (d, gs1, judged))"

definition assessDirectory :: "files \<Rightarrow> string \<Rightarrow> assessment fallible" where
  "assessDirectory files directory =
     and_then (loadMetadata files (joinPath directory ''metadata.tsv'')) (\<lambda>declared.
     and_then (validateEvidenceArtifacts files directory declared) (\<lambda>m.
     and_then (loadGates files (joinPath directory ''gates.tsv'')) (\<lambda>gs.
     and_then (loadCriteria files (joinPath directory ''criteria.tsv'') m) (\<lambda>criteria.
     and_then (loadMateriality files (joinPath directory ''materiality.tsv'')) (\<lambda>materiality.
     and_then (loadRegressions files (joinPath directory ''regressions.tsv'')) (\<lambda>regressions.
     and_then (loadClaims files (joinPath directory ''claims.tsv'')) (\<lambda>claims.
     and_then (scoreDomains criteria) (\<lambda>domains.
     and_then (settle_claims m gs criteria domains materiality regressions claims) (\<lambda>(d, gs1, judged).
     Inr \<lparr>as_metadata = m, as_gates = gs1, as_criteria = criteria, as_domains = domains, as_materiality = materiality,
       as_regressions = regressions, as_claims = judged, as_decision = d\<rparr>)))))))))"

end
