(* ===== verification/AssessmentTheorems.thy ===== *)
theory AssessmentTheorems
  imports Assessment
begin

section \<open>What an assessment can recommend and permit\<close>

text \<open>
  The guarantees of the assessment tool: a recommendation is bounded by the score, by the mandatory
  gates and by unresolved regressions; the claims it can permit are exactly known; a candidate with a
  blocked claim is not eligible; and the criteria it scores are the catalogue, each capped by its
  evidence.
\<close>

subsection \<open>Levels\<close>

lemma diamond_chain: "is_diamond m g \<Longrightarrow> is_platinum m g \<and> at_least (sg_total g) 95"
  by (simp add: is_diamond_def)

lemma platinum_chain: "is_platinum m g \<Longrightarrow> is_gold m g \<and> at_least (sg_total g) 90"
  by (simp add: is_platinum_def)

lemma gold_chain: "is_gold m g \<Longrightarrow> is_silver m g \<and> at_least (sg_total g) 80"
  by (simp add: is_gold_def)

lemma silver_chain: "is_silver m g \<Longrightarrow> is_bronze m g \<and> at_least (sg_total g) 65"
  by (simp add: is_silver_def)

lemma bronze_chain: "is_bronze m g \<Longrightarrow> sg_eligible g \<and> at_least (sg_total g) 50"
  by (simp add: is_bronze_def)

lemmas level_chain = diamond_chain platinum_chain gold_chain silver_chain bronze_chain

lemma base_level_ceiling: "base_level m g \<le> scoreBand (sg_total g)"
  using level_chain [of m g] by (simp add: base_level_def scoreBand_def less_eq_Level_def)

lemma base_level_eligible: "base_level m g \<noteq> L_None \<Longrightarrow> sg_eligible g"
  using level_chain [of m g] by (simp add: base_level_def split: if_splits)

lemma base_level_bronze: "base_level m g > Bronze \<Longrightarrow> is_bronze m g"
  using level_chain [of m g] by (simp add: base_level_def less_Level_def split: if_splits)

lemma conclude_recommendation:
  "recommendation (conclude m cs rs failed g) =
     (if regressed ''eco'' unresolved rs \<and> base_level m g > Bronze then Bronze else base_level m g)"
  using base_level_bronze [of m g] by (simp add: conclude_def Let_def)

lemma conclude_selectors:
  "scoreCeiling (conclude m cs rs failed g) = scoreBand (sg_total g)" "eligible (conclude m cs rs failed g) = sg_eligible g"
  "unresolvedEcoRegression (conclude m cs rs failed g) = regressed ''eco'' unresolved rs"
  "failedGates (conclude m cs rs failed g) = failed" "totalScore (conclude m cs rs failed g) = sg_total g"
  by (simp_all add: conclude_def Let_def)

subsection \<open>Gates\<close>

definition gate_passes :: "gates \<Rightarrow> string \<Rightarrow> bool" where
  "gate_passes gs i = (case gs i of Some g \<Rightarrow> effectivePass g | None \<Rightarrow> False)"

lemma failed_gates_iff:
  "failed_gates gs is = Inr fs \<longleftrightarrow> list_all (\<lambda>i. gs i \<noteq> None) is \<and> fs = filter (\<lambda>i. \<not> gate_passes gs i) is"
  by (induction "is" arbitrary: fs) (auto simp: and_then_iff gate_passes_def split: option.splits)

lemma fail_gate_iff:
  "fail_gate c i gs = Inr gs' \<longleftrightarrow>
     (if c then (\<exists>g. gs i = Some g \<and> gs' = gs(i \<mapsto> g\<lparr>effectivePass := False\<rparr>)) else gs' = gs)"
  by (auto simp: fail_gate_def split: option.splits)

lemma fail_gate_passes:
  assumes "fail_gate c i gs = Inr gs'"
  shows "gate_passes gs' j \<longleftrightarrow> gate_passes gs j \<and> (c \<longrightarrow> j \<noteq> i)"
  using assms by (auto simp: fail_gate_iff gate_passes_def split: if_splits)

lemma decide_facts:
  assumes "decide m gs criteria domains materiality regressions = Inr (d, gs')"
  obtains g where "d = conclude m criteria regressions (failedGates d) g"
    and "failedGates d = filter (\<lambda>i. \<not> gate_passes gs' i) gate_ids" and "sg_eligible g = (failedGates d = [])"
    and "sg_total g = total_score m domains"
    and "\<forall>i. gate_passes gs' i \<longleftrightarrow> gate_passes gs i \<and> (regressed ''quality'' thresholdExceeded regressions \<longrightarrow> i \<noteq> ''G13'') \<and>
      (individualMaterialOmission materiality \<or> cumulativeOmissionExceeded materiality \<longrightarrow> i \<noteq> ''G14'')"
proof -
  obtain gs1 failed a b c e k where g1: "fail_gate (regressed ''quality'' thresholdExceeded regressions) ''G13'' gs = Inr gs1"
    and g2: "fail_gate (individualMaterialOmission materiality \<or> cumulativeOmissionExceeded materiality) ''G14'' gs1 = Inr gs'"
    and f: "failed_gates gs' gate_ids = Inr failed"
    and d: "conclude m criteria regressions failed
      \<lparr>sg_eligible = failed = [], sg_total = total_score m domains, sg_floor = allApplicableDomainsAtLeast domains 30,
       sg_A = a, sg_B = b, sg_C = c, sg_D = e, sg_K = k\<rparr> = d"
    using assms unfolding decide_def and_then_iff sum.inject prod.inject by blast
  have fd: "failedGates d = failed" unfolding d [symmetric] by (rule conclude_selectors)
  show thesis
  proof (rule that)
    show "d = conclude m criteria regressions (failedGates d)
      \<lparr>sg_eligible = failed = [], sg_total = total_score m domains, sg_floor = allApplicableDomainsAtLeast domains 30,
       sg_A = a, sg_B = b, sg_C = c, sg_D = e, sg_K = k\<rparr>" unfolding fd by (rule d [symmetric])
    show "failedGates d = filter (\<lambda>i. \<not> gate_passes gs' i) gate_ids" unfolding fd using f failed_gates_iff by blast
  qed (simp_all only: fd standing.select_convs fail_gate_passes [OF g2] fail_gate_passes [OF g1] conj_assoc HOL.simp_thms)
qed

lemma mandatory: "''G10'' \<in> set gate_ids" "''G13'' \<in> set gate_ids" "''G14'' \<in> set gate_ids"
  by code_simp+

lemma failed_gates_Nil: "filter (\<lambda>i. \<not> gate_passes gs i) gate_ids = [] \<longleftrightarrow> list_all (gate_passes gs) gate_ids"
  by (simp add: filter_empty_conv list_all_iff)

lemma base_level_gold: "base_level m g \<ge> Gold \<Longrightarrow> is_gold m g"
  using level_chain [of m g] by (simp add: base_level_def less_eq_Level_def split: if_splits)

lemma gold_evidence:
  "base_level m g \<ge> Gold \<Longrightarrow> measurementQuality m \<ge> 3 \<and> dataQuality m \<ge> 3 \<and> \<not> highSeverityClaimRisk m"
  using base_level_gold [of m g] unfolding is_gold_def by blast

text \<open>
  C9: A recommendation is bounded on every side. Whatever the scores, the recommended level is at
  most the band of the total score; any level at all needs all fourteen mandatory gates to pass;
  a quality regression or a material omission makes the candidate ineligible; an unresolved eco
  regression keeps it at Bronze; and Gold or more needs evidence of grade 3 and no severe claim risk.
\<close>

theorem decision_bounded:
  assumes "decide m gs criteria domains materiality regressions = Inr (d, gs')"
  shows "(eligible d \<longleftrightarrow> list_all (gate_passes gs') gate_ids) \<and>
    recommendation d \<le> scoreBand (totalScore d) \<and>
    (recommendation d \<noteq> L_None \<longrightarrow> eligible d) \<and>
    (regressed ''quality'' thresholdExceeded regressions \<or> individualMaterialOmission materiality \<or>
       cumulativeOmissionExceeded materiality \<longrightarrow> \<not> eligible d) \<and>
    (regressed ''eco'' unresolved regressions \<longrightarrow> recommendation d \<le> Bronze) \<and>
    (recommendation d \<ge> Gold \<longrightarrow> measurementQuality m \<ge> 3 \<and> dataQuality m \<ge> 3 \<and> \<not> highSeverityClaimRisk m)"
proof -
  obtain g where d: "d = conclude m criteria regressions (failedGates d) g"
    and f: "failedGates d = filter (\<lambda>i. \<not> gate_passes gs' i) gate_ids" and e: "sg_eligible g = (failedGates d = [])"
    and "sg_total g = total_score m domains"
    and p: "\<forall>i. gate_passes gs' i \<longleftrightarrow> gate_passes gs i \<and> (regressed ''quality'' thresholdExceeded regressions \<longrightarrow> i \<noteq> ''G13'') \<and>
      (individualMaterialOmission materiality \<or> cumulativeOmissionExceeded materiality \<longrightarrow> i \<noteq> ''G14'')"
    using assms by (rule decide_facts)
  have sel: "eligible d = sg_eligible g" "totalScore d = sg_total g"
    "recommendation d = (if regressed ''eco'' unresolved regressions \<and> base_level m g > Bronze then Bronze else base_level m g)"
    by (subst d, simp add: conclude_selectors conclude_recommendation)+
  have el: "eligible d \<longleftrightarrow> list_all (gate_passes gs') gate_ids" unfolding sel e f by (rule failed_gates_Nil)
  have q: "\<not> eligible d" if "regressed ''quality'' thresholdExceeded regressions"
    using that spec [OF p, of "''G13''"] mandatory(2) unfolding el list_all_iff by blast
  have o: "\<not> eligible d" if "individualMaterialOmission materiality \<or> cumulativeOmissionExceeded materiality"
    using that spec [OF p, of "''G14''"] mandatory(3) unfolding el list_all_iff by blast
  have le: "recommendation d \<le> base_level m g" by (simp add: sel(3) less_imp_le)
  have "recommendation d \<le> scoreBand (totalScore d)" unfolding sel(2) using le base_level_ceiling by (rule order_trans)
  moreover have "recommendation d \<noteq> L_None \<longrightarrow> eligible d"
    using base_level_eligible [of m g] unfolding sel(1) sel(3)
    by (cases "base_level m g = L_None") (simp_all add: less_Level_def)
  moreover have "regressed ''eco'' unresolved regressions \<longrightarrow> recommendation d \<le> Bronze" by (simp add: sel(3) not_less)
  moreover have "recommendation d \<ge> Gold \<longrightarrow> measurementQuality m \<ge> 3 \<and> dataQuality m \<ge> 3 \<and> \<not> highSeverityClaimRisk m"
    using le gold_evidence [of m g] order_trans by blast
  ultimately show ?thesis using el q o by blast
qed

subsection \<open>Claims\<close>

lemma unless_Nil [simp]: "unless ok r = [] \<longleftrightarrow> ok"
  by (simp add: unless_def)

text \<open>The claims that can be made at all: a safe candidate statement, or Green AI on Gold evidence.\<close>

definition permissible :: "Metadata \<Rightarrow> AssessmentDecision \<Rightarrow> Claim \<Rightarrow> bool" where
  "permissible m d c = (scopeMatches c \<and>
     (cl_type c = ''candidate_assessment'' \<and> starts_with ''candidate '' (lowerAscii (cl_text c)) \<and>
        \<not> containsAny (lowerAscii (cl_text c)) unsafeCandidateTerms \<or>
      cl_type c = ''green_ai'' \<and> \<not> highSeverityClaimRisk m \<and> eligible d \<and> recommendation d \<ge> Gold \<and> aiInScope m \<and>
        aiRole m \<noteq> ''not_applicable'' \<and> trainingBoundaryDeclared m \<and> inferenceBoundaryDeclared m \<and>
        tokenOrInferenceMetricDeclared m \<and> aiExclusionsDeclared m))"

lemma claim_reasons_Nil:
  assumes "cl_type c \<in> set claim_types"
  shows "claim_reasons m d c = [] \<longleftrightarrow> permissible m d c"
proof -
  note defs = claim_reasons_def permissible_def comparison_reasons_def green_ai_reasons_def restricted_reasons_def
  have "cl_type c = ''candidate_assessment'' \<or> cl_type c = ''green_ai'' \<or> cl_type c = ''certified'' \<or> cl_type c = ''level'' \<or>
      cl_type c = ''offsets_only'' \<or> cl_type c = ''comparative'' \<or> cl_type c = ''best'' \<or> cl_type c = ''zero'' \<or>
      cl_type c = ''climate_positive'' \<or> cl_type c = ''net_positive''"
    using assms by (simp add: claim_types_def) blast
  then show ?thesis by (elim disjE) (simp_all add: defs)
qed

text \<open>
  C20: Which claims the tool permits. For the ten claim types that the table may contain, a claim is
  permitted exactly if its scope matches and it is either a candidate statement whose text is free of
  every certification, level and comparison term, or a Green AI claim of an eligible candidate with a
  Gold recommendation and all AI declarations. No evidence makes a certified, level, comparative,
  best, zero, positive or offset claim permissible.
\<close>

theorem permitted_claims_exact:
  assumes "list_all (\<lambda>c. cl_type c \<in> set claim_types) claims"
  shows "map permitted_claim (evaluateClaims claims m d) = map (permissible m d) claims"
  using assms by (simp add: evaluateClaims_def list_all_iff claim_reasons_Nil)

lemma evaluateClaims_again: "evaluateClaims (evaluateClaims claims m d) m d2 = evaluateClaims claims m d2"
  by (simp add: evaluateClaims_def claim_reasons_def comparison_reasons_def green_ai_reasons_def restricted_reasons_def)

lemma decide_gate:
  assumes "decide m gs criteria domains materiality regressions = Inr (d, gs')" and "\<not> gate_passes gs i" and "i \<in> set gate_ids"
  shows "i \<in> set (failedGates d) \<and> \<not> gate_passes gs' i \<and> \<not> eligible d \<and> recommendation d = L_None"
proof -
  obtain g where d: "d = conclude m criteria regressions (failedGates d) g"
    and f: "failedGates d = filter (\<lambda>i. \<not> gate_passes gs' i) gate_ids" and e: "sg_eligible g = (failedGates d = [])"
    and "sg_total g = total_score m domains"
    and p: "\<forall>i. gate_passes gs' i \<longleftrightarrow> gate_passes gs i \<and> (regressed ''quality'' thresholdExceeded regressions \<longrightarrow> i \<noteq> ''G13'') \<and>
      (individualMaterialOmission materiality \<or> cumulativeOmissionExceeded materiality \<longrightarrow> i \<noteq> ''G14'')"
    using assms(1) by (rule decide_facts)
  have i: "\<not> gate_passes gs' i" using assms(2) p by blast
  then have mem: "i \<in> set (failedGates d)" unfolding f using assms(3) by simp
  then have "\<not> sg_eligible g" unfolding e by auto
  then have "base_level m g = L_None" using base_level_eligible by blast
  then have "eligible d = False \<and> recommendation d = L_None"
    using \<open>\<not> sg_eligible g\<close> by (subst (1 2) d) (simp add: conclude_selectors conclude_recommendation less_Level_def)
  then show ?thesis using mem i by blast
qed

text \<open>
  C21: A blocked claim costs the candidate its eligibility. The verdicts reported are those of the
  final decision; an eligible candidate has every requested claim permitted; and if any claim is
  blocked, gate \<open>G10\<close> is reported as failed and no level is recommended.
\<close>

theorem blocked_claim_ends_eligibility:
  assumes "settle_claims m gs criteria domains materiality regressions claims = Inr (d, gs', judged)"
  shows "judged = evaluateClaims claims m d \<and> (eligible d \<longrightarrow> list_all permitted_claim judged) \<and>
    (list_ex (\<lambda>c. \<not> permitted_claim c) judged \<longrightarrow>
       \<not> gate_passes gs' ''G10'' \<and> ''G10'' \<in> set (failedGates d) \<and> recommendation d = L_None)"
proof -
  obtain d1 gs1 where d1: "decide m gs criteria domains materiality regressions = Inr (d1, gs1)"
    using assms by (auto simp: settle_claims_def and_then_iff)
  show ?thesis
  proof (cases "list_ex (\<lambda>c. \<not> permitted_claim c) (evaluateClaims claims m d1)")
    case True
    obtain gs2 where g: "fail_gate True ''G10'' gs1 = Inr gs2"
      and d: "decide m gs2 criteria domains materiality regressions = Inr (d, gs')"
      and j: "judged = evaluateClaims claims m d"
      using assms True d1 by (auto simp: settle_claims_def and_then_iff evaluateClaims_again)
    have "\<not> gate_passes gs2 ''G10''" using fail_gate_passes [OF g] by blast
    from decide_gate [OF d this mandatory(1)] show ?thesis using j by blast
  next
    case False
    then have "d = d1" "judged = evaluateClaims claims m d1"
      using assms d1 by (auto simp: settle_claims_def and_then_def Let_def)
    then show ?thesis using False by (simp add: list_ex_iff list_all_iff)
  qed
qed

subsection \<open>A candidate with Gold evidence\<close>

definition demo_metadata :: Metadata where
  "demo_metadata = \<lparr>productName = ''tool'', productVersion = ''1'', softwareClass = ''S9'', functionalUnit = ''build'',
     boundary = ''ci'', workload = ''suite'', measurementQuality = 3, dataQuality = 3, uncertaintyPercent = b_of_int 10,
     penaltyPoints = b_of_int 2, aiInScope = False, aiRole = ''not_applicable'', trainingBoundaryDeclared = False,
     inferenceBoundaryDeclared = False, tokenOrInferenceMetricDeclared = False, aiExclusionsDeclared = False,
     qualityEnergyFrontierOptions = 0, clientDeviceImpact = False, ecoRegressionControlDefined = True,
     independentReview = False, publicReport = False, continuousTelemetry = False, publicEvidence = False,
     highSeverityClaimRisk = False, highScaleSaas = False\<rparr>"

definition demo_gates :: gates where
  "demo_gates = (\<lambda>i. Some \<lparr>gt_id = i, inputPass = True, effectivePass = True, gt_evidence = ''log''\<rparr>)"

definition demo_domains :: "DomainScore list" where
  "demo_domains = map (\<lambda>(i, w). \<lparr>ds_domain = i, normativeWeight = w, adjustedWeight = w, ds_applicable = True,
     ds_percent = b_of_int 100, ds_points = w, criterionCount = 1\<rparr>) normativeDomainWeights"

definition demo_materiality :: MaterialityResult where
  "demo_materiality = \<lparr>mr_components = [], declaredSharePercent = b_of_int 100, omittedSharePercent = b_zero,
     individualMaterialOmission = False, cumulativeOmissionExceeded = False\<rparr>"

definition demo_claim :: "string \<Rightarrow> Claim" where
  "demo_claim t = \<lparr>cl_id = t, cl_type = t, cl_text = ''Candidate for review'', scopeMatches = True,
     functionalUnitEquivalent = True, boundaryEquivalent = True, qualityEquivalent = True, methodEquivalent = True,
     legalTechnicalEvidence = True, cl_evidence = ''log'', permitted_claim = False, cl_reasons = []\<rparr>"

text \<open>Small integers are added without an error, and a bound that is met exactly is met.\<close>

lemma round64_above:
  assumes "representable f" and "0 < f" and "f \<le> q"
  shows "b_le (B_Num f) (round64 q)"
proof -
  have "f \<le> rounded q" using rounded_nearest_pos [of q f] assms by simp
  then show ?thesis using assms by (simp add: round64_alt)
qed

lemma rounded_twice: "0 < q \<Longrightarrow> rounded q \<le> 2 * q"
  using rounded_nearest_pos [of q 0] representable_zero by simp

lemma kEpsilon_cases: "kEpsilon = B_Zero False \<or> (\<exists>e. kEpsilon = B_Num e \<and> 0 < e \<and> e \<le> 1)"
proof -
  have "rounded (1 / 10 ^ 9) \<le> 2 / 10 ^ 9"
    using rounded_twice [of "1 / 10 ^ 9"] by simp
  moreover have "(1 :: rat) < two_pow 1024" by (simp add: two_pow_nat one_less_power)
  ultimately show ?thesis using rounded_nonneg [of "1 / 10 ^ 9"] by (simp add: kEpsilon_def round64_alt)
qed

lemma at_least_int:
  assumes "0 < k" and "k \<le> n" and "n < 2 ^ 53"
  shows "at_least (b_of_int n) k"
proof -
  have k: "b_of_int k = B_Num (of_int k)" "b_of_int n = B_Num (of_int n)" "representable (of_int k)"
    using assms by (simp_all add: b_of_int_exact representable_of_int)
  have "(of_int k :: rat) \<le> of_int n" using assms(2) by (simp only: of_int_le_iff)
  then have le: "of_int k \<le> of_int n + e" if "0 \<le> e" for e :: rat using that by simp
  show ?thesis using kEpsilon_cases
  proof (elim disjE exE conjE)
    fix e assume e: "kEpsilon = B_Num e" "0 < e"
    then show ?thesis using round64_above [OF k(3), of "of_int n + e"] le [of e] assms(1) unfolding at_least_def k e(1) by simp
  next
    assume e: "kEpsilon = B_Zero False"
    show ?thesis using le [of 0] unfolding at_least_def k e by simp
  qed
qed

lemma add_int: "0 < a \<Longrightarrow> 0 < b \<Longrightarrow> a + b < 2 ^ 53 \<Longrightarrow> b_add (b_of_int a) (b_of_int b) = b_of_int (a + b)"
  using round64_exact [OF representable_of_int [of "a + b"]] by (simp add: b_of_int_exact)

lemma add_zero: "0 < a \<Longrightarrow> a < 2 ^ 53 \<Longrightarrow> b_add b_zero (b_of_int a) = b_of_int a"
  by (simp add: b_of_int_exact)

lemma demo_total: "total_score demo_metadata demo_domains = b_of_int 98"
proof -
  have "foldl (\<lambda>t d. b_add t (ds_points d)) b_zero demo_domains = b_of_int 100"
    by (simp add: demo_domains_def normativeDomainWeights_def add_int add_zero)
  moreover have "\<not> b_lt (b_abs (b_of_int 100)) kEpsilon"
    using kEpsilon_cases
  proof (elim disjE exE conjE)
    fix e assume e: "kEpsilon = B_Num e" "e \<le> 1"
    show ?thesis unfolding e(1) using e(2) by (simp add: b_of_int_exact b_abs_def b_lt_def)
  next
    assume e: "kEpsilon = B_Zero False"
    show ?thesis unfolding e by (simp add: b_of_int_exact b_abs_def b_lt_def)
  qed
  moreover have "b_sub (b_of_int 100) (b_of_int 2) = b_of_int 98"
    using round64_exact [OF representable_of_int [of 98]] by (simp add: b_of_int_exact b_sub_def)
  moreover have "b_lt b_zero (b_of_int 98)" by (simp add: b_of_int_exact b_lt_def)
  ultimately show ?thesis by (simp add: total_score_def Let_def demo_metadata_def)
qed

lemma demo_percent: "i \<in> set ''ABCDEFGHIJK'' \<Longrightarrow> domainPercentOrZero demo_domains i = Inr (b_of_int 100)"
  by (auto simp: domainPercentOrZero_def demo_domains_def normativeDomainWeights_def)

lemma demo_failed: "failed_gates demo_gates gate_ids = Inr []"
  by (simp add: failed_gates_iff list_all_iff filter_empty_conv gate_passes_def demo_gates_def)

lemma demo_level:
  "base_level demo_metadata \<lparr>sg_eligible = True, sg_total = b_of_int 98, sg_floor = True, sg_A = b_of_int 100,
     sg_B = b_of_int 100, sg_C = b_of_int 100, sg_D = b_of_int 100, sg_K = b_of_int 100\<rparr> = Gold"
proof -
  have "uncertainty_within demo_metadata k" if "k \<in> {30, 20, 12}" for k
    using that at_least_int [of 10 k] by (auto simp: uncertainty_within_def demo_metadata_def at_least_def)
  then show ?thesis
    by (simp add: base_level_def is_diamond_def is_platinum_def is_gold_def is_silver_def is_bronze_def at_least_int)
      (simp add: demo_metadata_def)
qed

lemma demo_floor: "allApplicableDomainsAtLeast demo_domains 30"
  by (auto simp: allApplicableDomainsAtLeast_def demo_domains_def list_all_iff at_least_int)

lemma demo_decides:
  "\<exists>d. decide demo_metadata demo_gates [] demo_domains demo_materiality [] = Inr (d, demo_gates) \<and> recommendation d = Gold"
  by (simp add: decide_def regressed_def demo_materiality_def fail_gate_def demo_failed demo_percent demo_total
      conclude_recommendation demo_level demo_floor and_then_def)

lemma demo_decides_again:
  assumes "list_all (\<lambda>i. gs i \<noteq> None) gate_ids"
  shows "\<exists>d. decide demo_metadata gs [] demo_domains demo_materiality [] = Inr (d, gs)"
proof -
  have "failed_gates gs gate_ids = Inr (filter (\<lambda>i. \<not> gate_passes gs i) gate_ids)" using assms failed_gates_iff by blast
  then show ?thesis by (simp add: decide_def regressed_def demo_materiality_def fail_gate_def demo_percent and_then_def)
qed

lemma demo_settles:
  "\<exists>d gs' judged. settle_claims demo_metadata demo_gates [] demo_domains demo_materiality []
     [demo_claim ''candidate_assessment'', demo_claim ''certified''] = Inr (d, gs', judged)"
proof -
  obtain d where d: "decide demo_metadata demo_gates [] demo_domains demo_materiality [] = Inr (d, demo_gates)"
    using demo_decides by blast
  let ?cs = "[demo_claim ''candidate_assessment'', demo_claim ''certified'']"
  have blocked: "list_ex (\<lambda>c. \<not> permitted_claim c) (evaluateClaims ?cs demo_metadata d)"
    by (simp add: evaluateClaims_def claim_reasons_def demo_claim_def)
  obtain gs where gs: "fail_gate True ''G10'' demo_gates = Inr gs" "list_all (\<lambda>i. gs i \<noteq> None) gate_ids"
    by (simp add: fail_gate_def demo_gates_def list_all_iff)
  obtain d2 where "decide demo_metadata gs [] demo_domains demo_materiality [] = Inr (d2, gs)"
    using demo_decides_again [OF gs(2)] by blast
  then show ?thesis using d blocked gs(1) by (simp add: settle_claims_def and_then_def Let_def)
qed

theorem decision_bounded_witness:
  "\<exists>d. decide demo_metadata demo_gates [] demo_domains demo_materiality [] = Inr (d, demo_gates) \<and>
     recommendation d = Gold \<and> eligible d \<and> recommendation d \<le> scoreBand (totalScore d)"
proof -
  obtain d where d: "decide demo_metadata demo_gates [] demo_domains demo_materiality [] = Inr (d, demo_gates)"
    "recommendation d = Gold" using demo_decides by blast
  note facts = decision_bounded [OF d(1)]
  have "recommendation d \<noteq> L_None" by (simp add: d(2))
  then have "eligible d \<and> recommendation d \<le> scoreBand (totalScore d)" using facts by blast
  then show ?thesis using d by blast
qed

theorem permitted_claims_exact_witness:
  "\<forall>d. map permitted_claim (evaluateClaims [demo_claim ''candidate_assessment'', demo_claim ''certified''] demo_metadata d) =
     [True, False]"
proof
  fix d
  have "starts_with ''candidate '' (lowerAscii ''Candidate for review'')"
    "\<not> containsAny (lowerAscii ''Candidate for review'') unsafeCandidateTerms" by code_simp+
  then have "map (permissible demo_metadata d) [demo_claim ''candidate_assessment'', demo_claim ''certified''] = [True, False]"
    by (simp add: permissible_def demo_claim_def)
  moreover have "list_all (\<lambda>c. cl_type c \<in> set claim_types) [demo_claim ''candidate_assessment'', demo_claim ''certified'']"
    by (simp add: demo_claim_def claim_types_def)
  ultimately show "map permitted_claim (evaluateClaims [demo_claim ''candidate_assessment'', demo_claim ''certified''] demo_metadata d) =
     [True, False]" using permitted_claims_exact by metis
qed

theorem blocked_claim_ends_eligibility_witness:
  "\<exists>d gs' judged. settle_claims demo_metadata demo_gates [] demo_domains demo_materiality []
     [demo_claim ''candidate_assessment'', demo_claim ''certified''] = Inr (d, gs', judged) \<and>
     ''G10'' \<in> set (failedGates d) \<and> recommendation d = L_None"
proof -
  obtain d gs' judged where run: "settle_claims demo_metadata demo_gates [] demo_domains demo_materiality []
     [demo_claim ''candidate_assessment'', demo_claim ''certified''] = Inr (d, gs', judged)"
    using demo_settles by blast
  note facts = blocked_claim_ends_eligibility [OF run]
  have "list_ex (\<lambda>c. \<not> permitted_claim c) judged"
    using facts by (simp add: evaluateClaims_def claim_reasons_def demo_claim_def)
  then show ?thesis using run facts by blast
qed

end
