(* ===== verification/TablesTheorems.thy ===== *)
theory TablesTheorems
  imports Tables
begin

section \<open>Reading back a printed table\<close>

text \<open>
  The reader of tab-separated tables is complete: a table that keeps the limits, printed with one line
  per row, is read back row by row and field by field.
\<close>

abbreviation TAB :: char where "TAB \<equiv> CHR 0x09"
abbreviation NL :: char where "NL \<equiv> CHR 0x0A"

definition tsv_line :: "string list \<Rightarrow> string" where
  "tsv_line row = join_with TAB row"

definition tsv_text :: "string list list \<Rightarrow> string" where
  "tsv_text rows = concat (map (\<lambda>r. tsv_line r @ [NL]) rows)"

definition clean_cell :: "string \<Rightarrow> bool" where
  "clean_cell cell = (set cell \<inter> {TAB, NL, CHR 0x0D} = {})"

text \<open>A row of the table: its fields are free of separators, and its line is neither empty nor too long.\<close>

definition clean_row :: "nat \<Rightarrow> string list \<Rightarrow> bool" where
  "clean_row n row = (length row = n \<and> list_all clean_cell row \<and> tsv_line row \<noteq> [] \<and> length (tsv_line row) \<le> kMaxTsvLineBytes)"

lemma split_loop_tsv_split:
  "CHR 0x0D \<notin> set s \<Longrightarrow> split_loop_tsv cells cell s = cells @ (cell @ hd (split_on TAB s)) # tl (split_on TAB s)"
  by (induction s arbitrary: cells cell) (auto split: list.splits)

lemma splitTsv_split: "CHR 0x0D \<notin> set s \<Longrightarrow> splitTsv s = split_on TAB s"
  by (simp add: splitTsv_def split_loop_tsv_split)

lemma clean_line: "list_all clean_cell row \<Longrightarrow> set (tsv_line row) \<inter> {NL, CHR 0x0D} = {}"
  using set_join_with [of TAB row] by (auto simp: tsv_line_def clean_cell_def list_all_iff)

lemma splitTsv_line: "list_all clean_cell row \<Longrightarrow> row \<noteq> [] \<Longrightarrow> splitTsv (tsv_line row) = row"
  using clean_line [of row] split_on_join [of row TAB]
  by (auto simp: splitTsv_split tsv_line_def clean_cell_def list_all_iff)

lemma getlines_text: "list_all (\<lambda>l. d \<notin> set l) ls \<Longrightarrow> getlines d (concat (map (\<lambda>l. l @ [d]) ls)) = ls"
proof -
  assume "list_all (\<lambda>l. d \<notin> set l) ls"
  then have "split_on d (concat (map (\<lambda>l. l @ [d]) ls)) = ls @ [[]]"
    by (induction ls) (simp_all add: split_on_append)
  then show ?thesis by (simp add: getlines_def)
qed

lemma tsv_rows_read:
  "list_all (clean_row n) rows \<Longrightarrow> 0 < n \<Longrightarrow> length acc + length rows \<le> kMaxTsvRows \<Longrightarrow>
     each (tsv_row path n) (k, acc) (map tsv_line rows) = Inr (k + length rows, acc @ rows)"
proof (induction rows arbitrary: k acc)
  case (Cons row rows)
  then have row: "list_all clean_cell row" "row \<noteq> []" "length row = n" "tsv_line row \<noteq> []" "length (tsv_line row) \<le> kMaxTsvLineBytes"
    by (auto simp: clean_row_def)
  have "last (tsv_line row) \<noteq> CHR 0x0D" using clean_line [OF row(1)] last_in_set [OF row(4)] by auto
  then have "drop_return (tsv_line row) = tsv_line row" by (simp add: drop_return_def)
  then show ?case using Cons row
    by (simp add: tsv_row_def require_def Let_def splitTsv_line and_then_def)
qed simp

lemma loadTsv_loads:
  assumes "files path = Some (tsv_text (header # rows))" and "list_all (clean_row (length header)) (header # rows)"
    and "length rows \<le> kMaxTsvRows" and "length (tsv_text (header # rows)) \<le> kMaxTsvBytes"
  shows "loadTsv files path header = Inr rows"
proof -
  have h: "header \<noteq> []" "list_all clean_cell header" "length (tsv_line header) \<le> kMaxTsvLineBytes"
    using assms(2) by (auto simp: clean_row_def tsv_line_def)
  have lines: "tsv_text (header # rows) = concat (map (\<lambda>l. l @ [NL]) (map tsv_line (header # rows)))"
    by (simp add: tsv_text_def comp_def)
  have "list_all (\<lambda>l. NL \<notin> set l) (map tsv_line (header # rows))"
    using assms(2) clean_line by (fastforce simp: clean_row_def list_all_iff)
  then have "getlines NL (tsv_text (header # rows)) = tsv_line header # map tsv_line rows"
    unfolding lines by (subst getlines_text) simp_all
  then show ?thesis
    using assms h tsv_rows_read [of "length header" rows "[]" path 1]
    by (simp add: loadTsv_def require_def splitTsv_line and_then_def)
qed

text \<open>
  C31: A printed table is read back. For every header and every list of rows of its width whose
  fields contain no tab and no line end, within the limits on the file, the lines and the number of
  rows, loading the printed table gives exactly those rows.
\<close>

theorem loadTsv_reads_back:
  assumes "files path = Some (tsv_text (header # rows))" and "list_all (clean_row (length header)) (header # rows)"
    and "length rows \<le> kMaxTsvRows" and "length (tsv_text (header # rows)) \<le> kMaxTsvBytes"
  shows "loadTsv files path header = Inr rows"
  using assms by (rule loadTsv_loads)

theorem loadTsv_reads_back_witness:
  "loadTsv [''gates.tsv'' \<mapsto> tsv_text [[''gate_id'', ''status''], [''G1'', ''pass''], [''G2'', []]]] ''gates.tsv'' [''gate_id'', ''status''] =
     Inr [[''G1'', ''pass''], [''G2'', []]]"
  by (rule loadTsv_reads_back)
    (simp_all add: tsv_text_def clean_row_def tsv_line_def clean_cell_def kMaxTsvLineBytes_def kMaxTsvRows_def kMaxTsvBytes_def)

end
