(* ===== verification/CriteriaTheorems.thy ===== *)
theory CriteriaTheorems
  imports Loaders TablesTheorems JsonTheorems
begin

section \<open>The criteria that are scored\<close>

text \<open>
  Whatever the table \<open>criteria.tsv\<close> contains, loading it gives the whole catalogue in its order or an
  error, and no criterion scores more than its evidence allows.
\<close>

subsection \<open>Bounds of a criterion\<close>

definition sound_criterion :: "Criterion \<Rightarrow> bool" where
  "sound_criterion c = (cr_id c \<noteq> [] \<and> cr_domain c = hd (cr_id c) \<and> 0 \<le> effectiveScore c \<and> effectiveScore c \<le> rawScore c \<and>
     rawScore c \<le> 5 \<and> b_lt b_zero (cr_weight c) \<and> hasEvidence (cr_evidence c) \<and>
     (if cr_applicable c then (evidenceStatus c \<noteq> ''sufficient'' \<longrightarrow> effectiveScore c \<le> 1)
      else effectiveScore c = 0 \<and> hasEvidence (approval c)))"

lemma check_evidence_sound:
  assumes "check_evidence c = Inr c'" and "cr_id c \<noteq> []" and "cr_domain c = hd (cr_id c)" and "0 \<le> rawScore c"
    and "rawScore c \<le> 5" and "b_lt b_zero (cr_weight c)"
  shows "sound_criterion c' \<and> cr_id c' = cr_id c"
  using assms by (auto simp: check_evidence_def sound_criterion_def split: if_splits)

lemma criterion_row_sound:
  assumes "criterion_row cs row = Inr cs'"
  shows "\<exists>c. cs' = cs @ [c] \<and> sound_criterion c \<and> cr_id c \<notin> cr_id ` set cs"
proof -
  let ?i = "row ! 0" and ?d = "row ! 1 ! 0"
  obtain raw w applies c where "?i \<noteq> []" "?i \<notin> cr_id ` set cs" "?i ! 0 = ?d" "0 \<le> raw" "raw \<le> 5" "b_lt b_zero w"
    "check_evidence \<lparr>cr_id = ?i, cr_domain = ?d, rawScore = raw, effectiveScore = 0, cr_weight = w,
       evidenceStatus = row ! 4, cr_applicable = applies, approval = row ! 6, cr_evidence = row ! 7\<rparr> = Inr c" "cs' = cs @ [c]"
    using assms unfolding criterion_row_def Let_def require_iff and_then_iff sum.inject by blast
  then show ?thesis using check_evidence_sound by (fastforce simp: hd_conv_nth)
qed

lemma criteria_loaded:
  assumes "each criterion_row [] rows = Inr cs"
  shows "list_all sound_criterion cs \<and> distinct (map cr_id cs)"
  using assms
proof (rule each_invariant)
  fix cs row cs'
  assume "list_all sound_criterion cs \<and> distinct (map cr_id cs)" "criterion_row cs row = Inr cs'"
  then show "list_all sound_criterion cs' \<and> distinct (map cr_id cs')" using criterion_row_sound by fastforce
qed simp

subsection \<open>The order of the catalogue\<close>

definition catalogue_key :: "string \<Rightarrow> char \<times> nat" where
  "catalogue_key i = (hd i, digits_value (tl i))"

lemma catalogue_successive: "successively (\<lambda>i j. catalogue_key i < catalogue_key j) catalogue"
  by code_simp

lemma catalogue_sorted: "sorted (map catalogue_key catalogue)" "distinct (map catalogue_key catalogue)"
proof -
  have "sorted_wrt (\<lambda>i j. catalogue_key i < catalogue_key j) catalogue"
    using catalogue_successive by (subst (asm) successively_conv_sorted_wrt) (auto simp: transp_def)
  then have "sorted_wrt (<) (map catalogue_key catalogue)" by (simp add: sorted_wrt_map)
  then show "sorted (map catalogue_key catalogue)" "distinct (map catalogue_key catalogue)"
    by (simp_all only: strict_sorted_iff)
qed

lemma same_order:
  assumes "distinct ids" and "set ids = set catalogue" and "sorted (map catalogue_key ids)"
  shows "ids = catalogue"
proof -
  have inj: "inj_on catalogue_key (set catalogue)" using catalogue_sorted(2) by (simp add: distinct_map)
  then have "distinct (map catalogue_key ids)" using assms by (simp add: distinct_map)
  then have "map catalogue_key ids = map catalogue_key catalogue"
    using assms catalogue_sorted by (intro sorted_distinct_set_unique) simp_all
  then show ?thesis using inj assms(2) by (intro map_inj_on [of catalogue_key]) simp_all
qed

text \<open>
  C14: The criteria that are scored are the catalogue. A table that loads gives exactly the 76
  criteria of the standard, in order and without duplicates; every score lies between 0 and 5, counts
  at most 1 without sufficient evidence and 0 where the criterion does not apply; and the core
  domains, and the AI and device domains where they are in scope, are never excluded.
\<close>

theorem loaded_criteria_complete:
  assumes "loadCriteria files path m = Inr cs"
  shows "map cr_id cs = catalogue \<and> list_all sound_criterion cs \<and> domainApplicable cs (CHR ''A'') \<and>
    domainApplicable cs (CHR ''B'') \<and> domainApplicable cs (CHR ''K'') \<and>
    (aiInScope m \<longrightarrow> domainApplicable cs (CHR ''G'')) \<and> (clientDeviceImpact m \<longrightarrow> domainApplicable cs (CHR ''H''))"
proof -
  let ?k = "\<lambda>c. (cr_domain c, digits_value (tl (cr_id c)))"
  obtain rows cs0 where rows: "each criterion_row [] rows = Inr cs0" and cs: "cs = sort_key ?k cs0"
    and missing: "find (\<lambda>i. i \<notin> cr_id ` set cs0) catalogue = None" and size: "length cs0 = length catalogue"
    and core: "domainApplicable cs0 (CHR ''A'')" "domainApplicable cs0 (CHR ''B'')" "domainApplicable cs0 (CHR ''K'')"
      "aiInScope m \<longrightarrow> domainApplicable cs0 (CHR ''G'')" "clientDeviceImpact m \<longrightarrow> domainApplicable cs0 (CHR ''H'')"
    using assms unfolding loadCriteria_def require_iff and_then_iff
    by (auto simp del: require_iff simp: require_iff split: option.splits)
  have ok: "list_all sound_criterion cs0" "distinct (map cr_id cs0)" using criteria_loaded [OF rows] by blast+
  have sub: "set catalogue \<subseteq> set (map cr_id cs0)" using missing by (auto simp: find_None_iff)
  have "distinct catalogue" using catalogue_sorted(2) by (simp add: distinct_map)
  then have same: "set (map cr_id cs0) = set catalogue"
    using sub ok(2) size by (metis List.finite_set card_subset_eq distinct_card length_map)
  have "map ?k cs = map (catalogue_key \<circ> cr_id) cs"
    using ok(1) by (auto simp: cs catalogue_key_def sound_criterion_def list_all_iff)
  moreover have "sorted (map ?k cs)" unfolding cs by (rule sorted_sort_key)
  ultimately have "sorted (map catalogue_key (map cr_id cs))" by (simp only: map_map)
  moreover have "distinct (map cr_id cs)" "set (map cr_id cs) = set catalogue" using ok(2) same by (auto simp: cs distinct_map)
  ultimately have "map cr_id cs = catalogue" using same_order by blast
  moreover have "domainApplicable cs = domainApplicable cs0" by (simp add: fun_eq_iff domainApplicable_def list_ex_iff cs)
  ultimately show ?thesis using ok(1) core by (simp add: cs list_all_iff)
qed

subsection \<open>A table that loads\<close>

lemma parseNumber_printed:
  assumes "\<bar>i\<bar> < 2 ^ 53"
  shows "parseNumber (show_int i) field = Inr (b_of_int i)"
proof -
  have "list_all (\<lambda>c. \<not> blank c) (show_int i)"
    using show_nat_digits by (fastforce simp: show_int_def blank_def list_all_iff is_digit_def)
  moreover have "show_int i \<noteq> []" by (simp add: show_int_def)
  ultimately have "\<not> blank (hd (show_int i))" "\<not> blank (last (show_int i))" by (simp_all add: list_all_iff)
  then show ?thesis
    using stod_printed [OF assms] \<open>show_int i \<noteq> []\<close> b_of_int_finite [OF assms] by (simp add: parseNumber_def)
qed

lemma parseInteger_printed:
  assumes "0 < i" and "i < 2 ^ 31"
  shows "parseInteger (show_int i) field = Inr i"
proof -
  have i: "b_of_int i = B_Num (of_int i)" using assms by (simp add: b_of_int_exact)
  moreover have "b_le (b_of_int (- (2 ^ 31))) (b_of_int i)" "b_le (b_of_int i) (b_of_int (2 ^ 31 - 1))"
    using assms by (simp_all add: b_of_int_exact)
  ultimately show ?thesis
    using assms parseNumber_printed [of i field] by (simp add: parseInteger_def and_then_def require_def integral_def b_trunc_def)
qed

definition demo_row :: "string \<Rightarrow> string list" where
  "demo_row i = [i, [hd i], ''3'', ''1'', ''sufficient'', ''true'', ''-'', ''log'']"

definition demo_criterion :: "string \<Rightarrow> Criterion" where
  "demo_criterion i = \<lparr>cr_id = i, cr_domain = hd i, rawScore = 3, effectiveScore = 3, cr_weight = b_of_int 1,
     evidenceStatus = ''sufficient'', cr_applicable = True, approval = ''-'', cr_evidence = ''log''\<rparr>"

lemma demo_criterion_fields [simp]:
  "cr_id (demo_criterion i) = i" "cr_domain (demo_criterion i) = hd i" "cr_applicable (demo_criterion i)"
  by (simp_all add: demo_criterion_def)

lemma demo_row_loads:
  assumes "catalogued d (int k)" and "CHR ''A'' \<le> d \<and> d \<le> CHR ''K''" and "d # show_nat k \<notin> cr_id ` set cs"
  shows "criterion_row cs (demo_row (d # show_nat k)) = Inr (cs @ [demo_criterion (d # show_nat k)])"
proof -
  have k: "0 < k" "k < 11"
    using assms(1) by (auto simp: catalogued_def normativeCriterionCounts_def split: if_splits)
  have num: "show_nat k = show_int (int k)" by (simp add: show_int_def)
  have lits: "''3'' = show_int 3" "''1'' = show_int 1" by code_simp+
  have "parseInteger (show_nat k) f = Inr (int k)" "parseInteger ''3'' f = Inr 3" "parseNumber ''1'' f = Inr (b_of_int 1)" for f
    unfolding num lits using k by (simp_all add: parseInteger_printed parseNumber_printed)
  moreover have "b_lt b_zero (b_of_int 1)" "b_le (b_of_int 1) (b_of_int 1000000)" by (simp_all add: b_of_int_exact b_lt_def)
  moreover have "hasEvidence ''log''" by code_simp
  moreover have "length (show_nat k) \<ge> 1" by (cases "show_nat k") (use show_nat_not_Nil [of k] in auto)
  ultimately show ?thesis using assms num
    by (simp add: criterion_row_def demo_row_def demo_criterion_def check_evidence_def parseBoolean_def require_def and_then_def)
qed

text \<open>What is checked of each identifier of the catalogue, by evaluation.\<close>

definition well_named :: "string \<Rightarrow> bool" where
  "well_named i = (length i \<in> {2, 3} \<and> CHR ''A'' \<le> hd i \<and> hd i \<le> CHR ''K'' \<and> catalogued (hd i) (int (digits_value (tl i))) \<and>
     show_nat (digits_value (tl i)) = tl i \<and> list_all (\<lambda>c. c \<notin> {TAB, NL, CHR 0x0D}) i)"

lemma catalogue_named: "list_all well_named catalogue"
  by code_simp

lemma demo_rows_load:
  "list_all well_named ids \<Longrightarrow> distinct ids \<Longrightarrow> set ids \<inter> cr_id ` set cs = {} \<Longrightarrow>
     each criterion_row cs (map demo_row ids) = Inr (cs @ map demo_criterion ids)"
proof (induction ids arbitrary: cs)
  case (Cons i ids)
  obtain d t where i: "i = d # t" using Cons.prems(1) by (cases i) (auto simp: well_named_def)
  define k where "k = digits_value t"
  have t: "t = show_nat k" and c: "catalogued d (int k)" "CHR ''A'' \<le> d \<and> d \<le> CHR ''K''"
    using Cons.prems(1) by (simp_all add: well_named_def i k_def)
  have "criterion_row cs (demo_row i) = Inr (cs @ [demo_criterion i])"
    unfolding i t using c Cons.prems(3) by (intro demo_row_loads) (auto simp: i t)
  then show ?case using Cons by (simp add: and_then_def)
qed simp

definition criteria_header :: "string list" where
  "criteria_header = [''criterion_id'', ''domain'', ''raw_score'', ''criterion_weight'', ''evidence_status'',
     ''applicable'', ''auditor_approval_ref'', ''evidence_ref'']"

definition demo_files :: files where
  "demo_files = [''criteria.tsv'' \<mapsto> tsv_text (criteria_header # map demo_row catalogue)]"

lemma well_named_cells:
  assumes "well_named i"
  shows "length i \<le> 3" and "clean_cell i" and "clean_cell [hd i]"
proof -
  have i1: "length i \<in> {2, 3}" using assms unfolding well_named_def by (elim conjE)
  have i2: "list_all (\<lambda>c. c \<notin> {TAB, NL, CHR 0x0D}) i" using assms unfolding well_named_def by (elim conjE)
  show "length i \<le> 3" using i1 by auto
  show c: "clean_cell i" using i2 by (auto simp: clean_cell_def list_all_iff)
  have "i \<noteq> []" using i1 by auto
  then show "clean_cell [hd i]" using c by (cases i) (auto simp: clean_cell_def)
qed

lemma demo_row_cells: "clean_cell i \<Longrightarrow> clean_cell [hd i] \<Longrightarrow> list_all clean_cell (demo_row i)"
  by (simp add: demo_row_def) (simp add: clean_cell_def)

lemma demo_row_length: "length i \<le> 3 \<Longrightarrow> length (tsv_line (demo_row i)) \<le> 40" "tsv_line (demo_row i) \<noteq> []"
  "length (demo_row i) = 8"
  by (simp_all add: demo_row_def tsv_line_def)

lemma demo_row_clean:
  assumes "well_named i"
  shows "clean_row 8 (demo_row i)"
proof -
  have "length (tsv_line (demo_row i)) \<le> 40" using demo_row_length(1) well_named_cells(1) [OF assms] by blast
  also have "(40 :: nat) \<le> kMaxTsvLineBytes" by (simp add: kMaxTsvLineBytes_def)
  finally show ?thesis
    unfolding clean_row_def using demo_row_cells [OF well_named_cells(2,3) [OF assms]] demo_row_length by blast
qed

lemma tsv_text_length: "list_all (\<lambda>r. length (tsv_line r) \<le> n) rows \<Longrightarrow> length (tsv_text rows) \<le> (n + 1) * length rows"
  by (induction rows) (auto simp: tsv_text_def)

lemma catalogue_length: "length catalogue = 76"
  by code_simp

lemma demo_table: "loadTsv demo_files ''criteria.tsv'' criteria_header = Inr (map demo_row catalogue)"
proof (rule loadTsv_loads)
  have rows: "list_all (clean_row 8) (map demo_row catalogue)" "list_all (\<lambda>r. length (tsv_line r) \<le> 40) (map demo_row catalogue)"
    using catalogue_named demo_row_clean demo_row_length(1) well_named_cells(1) unfolding list_all_iff by auto
  have head: "clean_row 8 criteria_header" "length (tsv_line criteria_header) \<le> 110" "length criteria_header = 8"
    by (simp_all add: clean_row_def criteria_header_def tsv_line_def clean_cell_def kMaxTsvLineBytes_def)
  show "list_all (clean_row (length criteria_header)) (criteria_header # map demo_row catalogue)" using rows head by simp
  have "list_all (\<lambda>r. length (tsv_line r) \<le> 110) (criteria_header # map demo_row catalogue)"
    using rows(2) head(2) by (auto simp: list_all_iff)
  from tsv_text_length [OF this] show "length (tsv_text (criteria_header # map demo_row catalogue)) \<le> kMaxTsvBytes"
    by (simp add: catalogue_length kMaxTsvBytes_def)
qed (simp_all add: demo_files_def catalogue_length kMaxTsvRows_def)

lemma demo_criteria_load: "\<exists>cs. loadCriteria demo_files ''criteria.tsv'' m = Inr cs"
proof -
  let ?cs = "map demo_criterion catalogue"
  have each: "each criterion_row [] (map demo_row catalogue) = Inr ?cs"
    using demo_rows_load [OF catalogue_named, of "[]"] catalogue_sorted(2) by (simp add: distinct_map)
  have ids: "cr_id ` set ?cs = set catalogue" "\<forall>c \<in> set ?cs. cr_applicable c" by (simp_all add: image_image)
  have dom: "domainApplicable ?cs d" if "d # t \<in> set catalogue" for d t
    using that unfolding domainApplicable_def list_ex_iff set_map
    by (intro bexI [of _ "demo_criterion (d # t)"]) simp_all
  have core: "domainApplicable ?cs (CHR ''A'')" "domainApplicable ?cs (CHR ''B'')" "domainApplicable ?cs (CHR ''G'')"
    "domainApplicable ?cs (CHR ''H'')" "domainApplicable ?cs (CHR ''K'')"
    by (rule dom [of _ "''1''"], code_simp)+
  have "\<not> mixed_domain ?cs d" for d using ids(2) by (auto simp: mixed_domain_def list_ex_iff)
  then have "find (mixed_domain ?cs) ds = None" for ds by (simp add: find_None_iff)
  moreover have "find (\<lambda>i. i \<notin> cr_id ` set ?cs) catalogue = None" unfolding ids(1) by (simp add: find_None_iff)
  moreover have "map demo_row catalogue \<noteq> []" "length ?cs = length catalogue" using catalogue_length by auto
  ultimately have "loadCriteria demo_files ''criteria.tsv'' m = Inr (sort_key (\<lambda>c. (cr_domain c, digits_value (tl (cr_id c)))) ?cs)"
    unfolding loadCriteria_def demo_table [unfolded criteria_header_def] and_then_def sum.case require_def each option.case
    using core by (simp only: if_True option.case simp_thms)
  then show ?thesis by blast
qed

theorem loaded_criteria_complete_witness:
  "\<forall>m. \<exists>cs. loadCriteria demo_files ''criteria.tsv'' m = Inr cs \<and> map cr_id cs = catalogue \<and> domainApplicable cs (CHR ''A'')"
  using demo_criteria_load loaded_criteria_complete by blast

end
