(* ===== verification/Spec2Isabelle.thy ===== *)
theory Spec2Isabelle
  imports TypeSystem Ownership Sha256 ParserGuard AITypes InterpreterTheorems ProgramSafety ProfileTheorems ServingResults IRTheorems SourceTools JsonTheorems AssessmentTheorems CriteriaTheorems
begin

text \<open>
  A verification library for the ShortHand compiler and its tools. Paths are relative to
  \<open>src/Compiler_new_ws/Short_Hand/src\<close>, except those that begin with \<open>mlir/\<close>, which are under
  \<open>src\<close>.

  \<^bold>\<open>The program.\<close> A source is scanned and parsed under a resource guard into a syntax tree. The
  semantic analyzer accepts or refuses the tree; an accepted program is run by the interpreter, or
  translated into the semantic representation, verified and handed to code generators. Beside the
  compiler stand a descriptor library for production types with an ownership tracker, a SHA-256
  library, a concurrent serving runtime, a formatter and linter, and the C3-ECO assessment tool,
  which reads a candidate directory, scores it and decides which level and claims it may have.

  \<^bold>\<open>Foundations.\<close> \<open>Prelude\<close>: widths, the result type \<open>fallible\<close>, decimal printing, and the locales
  \<open>invariant_object\<close> and \<open>simulated_object\<close> for objects whose calls keep an invariant or simulate an
  abstract machine. \<open>CText\<close>, \<open>Decimal\<close>: \<open>strtoll\<close>, \<open>getline\<close>, \<open>strtod\<close>. \<open>Binary64\<close>: the type
  \<open>double\<close> with correct rounding over exact rationals, and that no representable number is nearer.

  \<^bold>\<open>Components.\<close>
  \<^item> \<open>TypeSystem\<close>, \<open>Ownership\<close> for \<open>type_system/ProductionTypeSystem.cpp\<close>: descriptors with their sizes
    and layouts at 64 bits, \<open>OwnershipTracker\<close> as a map. Sizes are given exactly when they fit; the
    tracker implements an abstract lending discipline.
  \<^item> \<open>Sha256\<close> for \<open>module/Sha256.cpp\<close>: the incremental context on 32-bit words, equal to the standard
    digest written as a reference function; files are read in pieces of 8192 bytes.
  \<^item> \<open>ParserGuard\<close> for \<open>parser/ParserLimits.h\<close>: a scan is accepted exactly within the limits.
  \<^item> \<open>AITypes\<close> for \<open>ai_runtime/AI_Types.cpp\<close>, \<open>Diagnostics\<close> for \<open>ast/SourceRange.cpp\<close> and
    \<open>visitors/Diagnostics.cpp\<close>.
  \<^item> \<open>AST\<close> for \<open>ast/AST.h\<close>; \<open>Interpreter\<close> for \<open>visitors/Interpreter.cpp\<close>, with the members of the class
    as the record \<open>interp\<close>. \<open>InterpreterRuns\<close> proves facts about all runs once, for the relations of
    the locale \<open>visitor_relation\<close>; \<open>InterpreterFuel\<close>, \<open>InterpreterFlow\<close> and \<open>InterpreterTheorems\<close> show
    independence of fuel, termination without loops and calls, confinement of control-flow signals,
    the layout of the store and exact integer arithmetic.
  \<^item> \<open>Analyzer\<close>, \<open>Profiles\<close> for \<open>visitors/SemanticAnalyzer.cpp\<close>. \<open>AnalyzerFlow\<close>, \<open>Soundness\<close>,
    \<open>TypeSafety\<close>, \<open>SafeRuns\<close> and \<open>ProgramSafety\<close>: what the analyzer accepts, the interpreter runs without
    a name, type, arity or control-flow error, provided that no local hides a global; a program shows
    that the proviso is needed. \<open>ProfileTheorems\<close>: dates, versions and links of certification profiles.
  \<^item> \<open>SemanticIR\<close>, \<open>IRTyping\<close>, \<open>IRVerifier\<close> for \<open>mlir/include/ShortHand/SemanticIR.h\<close> and
    \<open>mlir/lib/SemanticVerifier.cpp\<close>: the verifier accepts exactly the programs that are well typed by
    declarative rules. \<open>IRBuilder\<close> for \<open>semantic_ir/SemanticIRBuilder.cpp\<close>; \<open>IRMatch\<close>, \<open>IRPipeline\<close> and
    \<open>IRTheorems\<close>: when the representation of an accepted program passes the verifier.
  \<^item> \<open>Serving\<close> for \<open>serving/ServingRuntime.cpp\<close>: every critical section is one event, and runs are
    sequences of events of any number of clients and workers. \<open>ServingInvariant\<close>, \<open>ServingTheorems\<close> and
    \<open>ServingResults\<close>: the books balance, results are final, accepted requests finish, and two defects.
  \<^item> \<open>SourceTools\<close> for \<open>tooling/SourceTools.cpp\<close>: the linter is silent exactly on formatted sources, and
    formatting keeps the code.
  \<^item> \<open>Json\<close>, \<open>Tables\<close>, \<open>Loaders\<close>, \<open>Evidence\<close>, \<open>Assessment\<close> for \<open>evidence/CertificationAssessment.cpp\<close> and
    \<open>Scoring\<close> for \<open>evidence/C3EcoAssessmentScoring.cpp\<close>, in binary64 arithmetic. \<open>JsonTheorems\<close> and
    \<open>TablesTheorems\<close>: the two readers are total and read back what is printed. \<open>CriteriaTheorems\<close>:
    exactly the catalogue is scored. \<open>AssessmentTheorems\<close>: the bounds on a recommendation, exactly
    which claims can be permitted, and that a blocked claim ends eligibility.

  \<^bold>\<open>Parameters.\<close> Files are a map from paths to bytes; which files can be written, the clock readings,
  the outcomes of request handlers, and the contents that an erased element of a
  deque leaves behind are arguments or events. Files do not change during a run.

  \<^bold>\<open>Bounds and fuel.\<close> The visitors of the interpreter take fuel and return \<open>None\<close> without enough of
  it; a result does not depend on the fuel, and for statements without loops and calls an explicit
  amount suffices in every state. The value reader of \<open>Json\<close> counts down from 65, the depth at which
  the source refuses; its loops carry a test that the input gets shorter, which always holds: every
  error that \<open>parseJson\<close> gives names a byte position. All other recursions terminate on their data.

  \<^bold>\<open>Not modelled.\<close> The generated scanner and parser, and the grammar they are generated from. The LLVM
  and MLIR code generators, whose meaning is that of libraries outside the repository. The AI runtime,
  its backends, the C interfaces around them and the energy collectors, which call such libraries or
  the hardware. The module resolver, the auditor bundle, the language server, the operations adapters,
  the serving worker process and the command lines, which are traversals of the file system, sockets
  and message loops around the parts above. The printers of evidence files, and the two writers of the
  assessment, which decide nothing. The enterprise layer, a separate front end. Failure to create a
  thread, and exhaustion of memory. Messages written to standard output by the tools.
\<close>

end
